(* ===== verification/Prelude.thy ===== *)
theory Prelude
  imports Main "HOL-Library.Word" "HOL-Library.State_Monad"
begin

text \<open>
  Shared vocabulary of the development: bytes, Go's signed 64-bit arithmetic, error values,
  the programs of the model (state transformers that return an error or a value), the two
  calculi the component proofs use (weakest preconditions and frame relations), and the list
  facts several components need.
\<close>

named_theorems frame_rules \<open>introduction rules that push a frame relation through a program\<close>
named_theorems wp_rules \<open>equations that push a postcondition through a program\<close>

section \<open>Machine values\<close>

type_synonym byte = "8 word"
type_synonym bytes = "byte list"

text \<open>Go's \<open>int64\<close>: an \<open>int\<close> kept in range by the two's complement reduction.\<close>

definition wrap64 :: "int \<Rightarrow> int" where
  "wrap64 x = (x + 2 ^ 63) mod 2 ^ 64 - 2 ^ 63"

definition in_int64 :: "int \<Rightarrow> bool" where
  "in_int64 x \<longleftrightarrow> - (2 ^ 63) \<le> x \<and> x < 2 ^ 63"

lemma wrap64_id [simp]: "in_int64 x \<Longrightarrow> wrap64 x = x"
  by (simp add: wrap64_def in_int64_def)

lemma in_int64_wrap64 [simp]: "in_int64 (wrap64 x)"
proof -
  have "0 \<le> (x + 2 ^ 63) mod 2 ^ 64" and "(x + 2 ^ 63) mod 2 ^ 64 < (2::int) ^ 64"
    by simp_all
  then show ?thesis by (simp add: wrap64_def in_int64_def)
qed

lemma wrap64_cong: "wrap64 x mod 2 ^ 64 = x mod 2 ^ 64"
  by (simp add: wrap64_def mod_diff_left_eq)

lemma in_int64_nonneg: "0 \<le> x \<Longrightarrow> x < 2 ^ 63 \<Longrightarrow> in_int64 x"
  by (simp add: in_int64_def)

section \<open>Errors\<close>

text \<open>
  An error value keeps the format of the \<open>fmt.Errorf\<close> call that made it, its arguments
  rendered as strings, and the wrapped cause (\<open>%w\<close>). \<open>ErrNoRows\<close> is
  \<open>sql.ErrNoRows\<close>, \<open>ErrUnique\<close> and \<open>ErrForeignKey\<close> are SQLite constraint
  failures, \<open>ErrDriver\<close> is any other failure of a database call, \<open>ErrContext\<close> is
  \<open>ctx.Err()\<close>, \<open>ErrJoin\<close> is \<open>errors.Join\<close>.
  \<open>Panic\<close> is a Go panic, reported as the outcome of the call that raises it, and
  \<open>Diverges\<close> a call that does not return.
\<close>

datatype error =
    Errorf string "string list"
  | Wrapf string "string list" error
  | ErrNoRows
  | ErrUnique
  | ErrForeignKey
  | ErrDriver
  | ErrContext
  | ErrJoin error error
  | Panic string
  | Diverges

text \<open>\<open>msg\<close> marks a message literal; its congruence rule keeps the simplifier out of it.\<close>

definition msg :: "string \<Rightarrow> string" where
  "msg s = s"

lemma msg_weak_cong [cong]: "msg s = msg s"
  by (rule refl)

fun errors_Is :: "error \<Rightarrow> error \<Rightarrow> bool" where
  "errors_Is (Wrapf f args e) target \<longleftrightarrow> Wrapf f args e = target \<or> errors_Is e target"
| "errors_Is (ErrJoin d e) target \<longleftrightarrow>
     ErrJoin d e = target \<or> errors_Is d target \<or> errors_Is e target"
| "errors_Is e target \<longleftrightarrow> e = target"

section \<open>Programs\<close>

text \<open>
  A Go function that may fail is a program: it transforms a state and returns an error or a
  value. \<open>check m h k\<close> is the Go idiom \<open>x, err := m; if err != nil \{ h \}; k\<close>.
\<close>

type_synonym ('s, 'a) prog = "('s, error + 'a) state"

abbreviation ret :: "'a \<Rightarrow> ('s, 'a) state" where
  "ret \<equiv> State_Monad.return"

definition ok :: "'a \<Rightarrow> ('s, 'a) prog" where
  "ok x = ret (Inr x)"

definition throw :: "error \<Rightarrow> ('s, 'a) prog" where
  "throw e = ret (Inl e)"

definition check ::
  "('s, 'a) prog \<Rightarrow> (error \<Rightarrow> ('s, 'b) state) \<Rightarrow> ('a \<Rightarrow> ('s, 'b) state) \<Rightarrow> ('s, 'b) state" where
  "check m h k = State_Monad.bind m (\<lambda>r. case r of Inl e \<Rightarrow> h e | Inr x \<Rightarrow> k x)"

text \<open>\<open>wrapped m f\<close> is \<open>if err != nil \{ return fmt.Errorf(... %w, err) \}\<close> around a whole call.\<close>

definition wrapped :: "(error \<Rightarrow> error) \<Rightarrow> ('s, 'a) prog \<Rightarrow> ('s, 'a) prog" where
  "wrapped f m = check m (\<lambda>e. throw (f e)) ok"

text \<open>A loop over a list that stops at the first error.\<close>

fun for_each :: "('a \<Rightarrow> ('s, unit) prog) \<Rightarrow> 'a list \<Rightarrow> ('s, unit) prog" where
  "for_each body [] = ok ()"
| "for_each body (x # xs) = check (body x) throw (\<lambda>_. for_each body xs)"

lemma run_ok [simp]: "run_state (ok x) s = (Inr x, s)"
  by (simp add: ok_def)

lemma run_throw [simp]: "run_state (throw e) s = (Inl e, s)"
  by (simp add: throw_def)

lemma run_check:
  "run_state (check m h k) s =
     (case run_state m s of (Inl e, t) \<Rightarrow> run_state (h e) t | (Inr x, t) \<Rightarrow> run_state (k x) t)"
  by (simp add: check_def split: prod.splits sum.splits)

lemma run_check_Inr [simp]:
  "run_state m s = (Inr x, t) \<Longrightarrow> run_state (check m h k) s = run_state (k x) t"
  by (simp add: run_check)

lemma run_check_Inl [simp]:
  "run_state m s = (Inl e, t) \<Longrightarrow> run_state (check m h k) s = run_state (h e) t"
  by (simp add: run_check)

lemma run_check_throw_Inr:
  assumes "run_state (check m (\<lambda>e. throw (h e)) k) s = (Inr y, u)"
  obtains x t where "run_state m s = (Inr x, t)" and "run_state (k x) t = (Inr y, u)"
proof (cases "run_state m s")
  case (Pair r t)
  then show ?thesis using assms that by (cases r) (simp_all add: run_check)
qed

text \<open>Naming the final state of a run whose result was computed.\<close>

lemma run_fst: "fst (run_state m s) = r \<Longrightarrow> run_state m s = (r, snd (run_state m s))"
  by (metis prod.collapse)

lemma run_succeeds:
  assumes "case fst (run_state m s) of Inl e \<Rightarrow> False | Inr x \<Rightarrow> P x"
  shows "\<exists>x t. run_state m s = (Inr x, t) \<and> P x"
proof (cases "run_state m s")
  case (Pair r t)
  then show ?thesis using assms by (cases r) simp_all
qed

section \<open>Weakest preconditions\<close>

definition wp :: "('s, 'a) state \<Rightarrow> ('a \<Rightarrow> 's \<Rightarrow> bool) \<Rightarrow> 's \<Rightarrow> bool" where
  "wp m Q s \<longleftrightarrow> (case run_state m s of (r, t) \<Rightarrow> Q r t)"

lemma wp_ret [wp_rules]: "wp (ret x) Q s \<longleftrightarrow> Q x s"
  by (simp add: wp_def)

lemma wp_ok [wp_rules]: "wp (ok x) Q s \<longleftrightarrow> Q (Inr x) s"
  by (simp add: wp_def)

lemma wp_throw [wp_rules]: "wp (throw e) Q s \<longleftrightarrow> Q (Inl e) s"
  by (simp add: wp_def)

lemma wp_bind [wp_rules]: "wp (State_Monad.bind m f) Q s \<longleftrightarrow> wp m (\<lambda>x t. wp (f x) Q t) s"
  by (simp add: wp_def split: prod.splits)

lemma wp_check [wp_rules]:
  "wp (check m h k) Q s \<longleftrightarrow>
     wp m (\<lambda>r t. case r of Inl e \<Rightarrow> wp (h e) Q t | Inr x \<Rightarrow> wp (k x) Q t) s"
  by (simp add: wp_def run_check split: prod.splits sum.splits)

lemma wp_mono: "wp m Q s \<Longrightarrow> (\<And>r t. Q r t \<Longrightarrow> R r t) \<Longrightarrow> wp m R s"
  by (auto simp: wp_def split: prod.splits)

lemma wp_conj: "wp m Q s \<Longrightarrow> wp m R s \<Longrightarrow> wp m (\<lambda>r t. Q r t \<and> R r t) s"
  by (auto simp: wp_def split: prod.splits)

lemma wpD: "wp m Q s \<Longrightarrow> run_state m s = (r, t) \<Longrightarrow> Q r t"
  by (simp add: wp_def)

lemma wpI: "(\<And>r t. run_state m s = (r, t) \<Longrightarrow> Q r t) \<Longrightarrow> wp m Q s"
  by (simp add: wp_def split: prod.splits)

section \<open>Frame relations\<close>

text \<open>
  \<open>frame R m\<close>: whatever \<open>m\<close> returns, the state it leaves is related to the one it
  started from. For a preorder \<open>R\<close> this composes over programs, so that an invariant or
  a ``does not touch'' fact of a long handler follows from the same fact of the calls it makes.
\<close>

definition frame :: "('s \<Rightarrow> 's \<Rightarrow> bool) \<Rightarrow> ('s, 'a) state \<Rightarrow> bool" where
  "frame R m \<longleftrightarrow> (\<forall>s. R s (snd (run_state m s)))"

abbreviation keeps :: "('s \<Rightarrow> bool) \<Rightarrow> ('s, 'a) state \<Rightarrow> bool" where
  "keeps I m \<equiv> frame (\<lambda>s t. I s \<longrightarrow> I t) m"

locale frame_order =
  fixes R :: "'s \<Rightarrow> 's \<Rightarrow> bool"
  assumes R_refl: "R s s"
    and R_trans: "R s t \<Longrightarrow> R t u \<Longrightarrow> R s u"
begin

lemma frame_ret [frame_rules]: "frame R (ret x)"
  by (simp add: frame_def R_refl)

lemma frame_ok [frame_rules]: "frame R (ok x)"
  by (simp add: frame_def R_refl)

lemma frame_throw [frame_rules]: "frame R (throw e)"
  by (simp add: frame_def R_refl)

lemma frame_bind [frame_rules]:
  "frame R m \<Longrightarrow> (\<And>x. frame R (f x)) \<Longrightarrow> frame R (State_Monad.bind m f)"
  by (auto simp: frame_def intro: R_trans split: prod.splits)

lemma frame_check [frame_rules]:
  assumes "frame R m" and "\<And>e. frame R (h e)" and "\<And>x. frame R (k x)"
  shows "frame R (check m h k)"
  unfolding check_def
proof (rule frame_bind [OF assms(1)])
  show "frame R (case r of Inl e \<Rightarrow> h e | Inr x \<Rightarrow> k x)" for r
    using assms(2,3) by (cases r) simp_all
qed

lemma frame_wrapped [frame_rules]: "frame R m \<Longrightarrow> frame R (wrapped f m)"
  unfolding wrapped_def by (intro frame_check frame_throw frame_ok)

lemma frame_for_each [frame_rules]: "(\<And>x. frame R (body x)) \<Longrightarrow> frame R (for_each body xs)"
  by (induction xs) (auto intro: frame_ok frame_check frame_throw)

end

lemma frame_if [frame_rules]:
  "(b \<Longrightarrow> frame R m) \<Longrightarrow> (\<not> b \<Longrightarrow> frame R n) \<Longrightarrow> frame R (if b then m else n)"
  by simp

lemma frame_option [frame_rules]:
  "frame R m \<Longrightarrow> (\<And>x. frame R (f x)) \<Longrightarrow> frame R (case v of None \<Rightarrow> m | Some x \<Rightarrow> f x)"
  by (cases v) simp_all

lemma frame_sum [frame_rules]:
  "(\<And>x. frame R (f x)) \<Longrightarrow> (\<And>y. frame R (g y)) \<Longrightarrow> frame R (case v of Inl x \<Rightarrow> f x | Inr y \<Rightarrow> g y)"
  by (cases v) simp_all

lemma frame_list [frame_rules]:
  "frame R m \<Longrightarrow> (\<And>x xs. frame R (f x xs)) \<Longrightarrow> frame R (case v of [] \<Rightarrow> m | x # xs \<Rightarrow> f x xs)"
  by (cases v) simp_all

lemma frame_prod [frame_rules]:
  "(\<And>x y. frame R (f x y)) \<Longrightarrow> frame R (case v of (x, y) \<Rightarrow> f x y)"
  by (cases v) simp

lemma frame_Let [frame_rules]: "(\<And>x. frame R (f x)) \<Longrightarrow> frame R (Let v f)"
  by (simp add: Let_def)

lemma frameD: "frame R m \<Longrightarrow> run_state m s = (r, t) \<Longrightarrow> R s t"
  unfolding frame_def by (metis snd_conv)

lemma frameI: "(\<And>s r t. run_state m s = (r, t) \<Longrightarrow> R s t) \<Longrightarrow> frame R m"
  unfolding frame_def by (metis prod.collapse)

lemma frame_wp: "frame R m \<Longrightarrow> wp m (\<lambda>_ t. R s t) s"
  by (auto simp: wp_def dest: frameD split: prod.splits)

interpretation keeping: frame_order "\<lambda>s t. I s \<longrightarrow> I t" for I :: "'s \<Rightarrow> bool"
  by unfold_locales auto

interpretation untouched: frame_order "\<lambda>s t. f t = f s" for f :: "'s \<Rightarrow> 'x"
  by unfold_locales auto

section \<open>Lists\<close>

lemma map_update_id:
  "(\<And>x. p x \<Longrightarrow> f (g x) = f x) \<Longrightarrow> map f (map (\<lambda>x. if p x then g x else x) xs) = map f xs"
  by (induction xs) auto

lemma distinct_map_filter: "distinct (map f xs) \<Longrightarrow> distinct (map f (filter p xs))"
  by (induction xs) auto

lemma find_Some_iff_mem:
  "distinct (map f xs) \<Longrightarrow> x \<in> set xs \<Longrightarrow> find (\<lambda>y. f y = f x) xs = Some x"
  by (induction xs) (auto simp: rev_image_eqI)

lemma filter_unique_key:
  "distinct (map f xs) \<Longrightarrow> x \<in> set xs \<Longrightarrow> filter (\<lambda>y. f y = f x) xs = [x]"
proof (induction xs)
  case (Cons y ys)
  then show ?case by (cases "y = x") (auto simp: filter_empty_conv rev_image_eqI)
qed simp

lemma find_SomeD: "find p xs = Some x \<Longrightarrow> x \<in> set xs \<and> p x"
  by (induction xs) (auto split: if_splits)

lemma find_NoneD: "find p xs = None \<Longrightarrow> x \<in> set xs \<Longrightarrow> \<not> p x"
  by (induction xs) (auto split: if_splits)

lemma set_update_where:
  "set (map (\<lambda>x. if p x then g x else x) xs) =
     g ` {x \<in> set xs. p x} \<union> {x \<in> set xs. \<not> p x}"
  by (induction xs) auto

lemma take_drop_eqI: "take n xs = take n ys \<Longrightarrow> drop n xs = drop n ys \<Longrightarrow> xs = ys"
  by (metis append_take_drop_id)

end
