(* ===== verification/Go_Strings.thy ===== *)
theory Go_Strings
  imports Prelude "HOL-Library.Sublist"
begin

text \<open>
  The parts of Go's standard library the repository calls on strings: \<open>strings\<close>,
  \<open>strconv\<close>, \<open>fmt\<close> verbs, \<open>path\<close>, \<open>net/url.PathEscape\<close> and
  \<open>encoding/hex\<close>. A Go string is a sequence of bytes, here a \<open>char list\<close>. White space
  is the ASCII white space of \<open>unicode.IsSpace\<close>; bytes above 127 are never white space.
\<close>

section \<open>Package strings\<close>

definition is_space :: "char \<Rightarrow> bool" where
  "is_space c \<longleftrightarrow> of_char c \<in> {9, 10, 11, 12, 13, 32 :: nat}"

definition TrimSpace :: "string \<Rightarrow> string" where
  "TrimSpace s = rev (dropWhile is_space (rev (dropWhile is_space s)))"

definition TrimChar :: "char \<Rightarrow> string \<Rightarrow> string" where
  "TrimChar c s = rev (dropWhile (\<lambda>x. x = c) (rev (dropWhile (\<lambda>x. x = c) s)))"

definition HasPrefix :: "string \<Rightarrow> string \<Rightarrow> bool" where
  "HasPrefix s p \<longleftrightarrow> take (length p) s = p"

definition HasSuffix :: "string \<Rightarrow> string \<Rightarrow> bool" where
  "HasSuffix s p \<longleftrightarrow> HasPrefix (rev s) (rev p)"

definition TrimPrefix :: "string \<Rightarrow> string \<Rightarrow> string" where
  "TrimPrefix s p = (if HasPrefix s p then drop (length p) s else s)"

definition TrimSuffix :: "string \<Rightarrow> string \<Rightarrow> string" where
  "TrimSuffix s p = (if HasSuffix s p then take (length s - length p) s else s)"

text \<open>\<open>strings.Split\<close> with a one-character separator.\<close>

fun split_on :: "char \<Rightarrow> string \<Rightarrow> string list" where
  "split_on c [] = [[]]"
| "split_on c (x # xs) =
     (if x = c then [] # split_on c xs
      else (case split_on c xs of [] \<Rightarrow> [[x]] | p # ps \<Rightarrow> (x # p) # ps))"

text \<open>\<open>strings.Join\<close> with a one-character separator.\<close>

fun join_with :: "char \<Rightarrow> string list \<Rightarrow> string" where
  "join_with c [] = []"
| "join_with c [p] = p"
| "join_with c (p # ps) = p @ c # join_with c ps"

text \<open>\<open>strings.Fields\<close>: maximal runs of non-space characters.\<close>

fun Fields_acc :: "string \<Rightarrow> string \<Rightarrow> string list" where
  "Fields_acc acc [] = (if acc = [] then [] else [acc])"
| "Fields_acc acc (x # xs) =
     (if is_space x then (if acc = [] then Fields_acc [] xs else acc # Fields_acc [] xs)
      else Fields_acc (acc @ [x]) xs)"

definition Fields :: "string \<Rightarrow> string list" where
  "Fields s = Fields_acc [] s"

text \<open>\<open>strings.Index\<close> and \<open>strings.LastIndex\<close> of one character, -1 when absent.\<close>

fun IndexChar :: "char \<Rightarrow> string \<Rightarrow> int" where
  "IndexChar c [] = -1"
| "IndexChar c (x # xs) =
     (if x = c then 0 else let i = IndexChar c xs in if i < 0 then -1 else i + 1)"

definition LastIndexChar :: "char \<Rightarrow> string \<Rightarrow> int" where
  "LastIndexChar c s =
     (let i = IndexChar c (rev s) in if i < 0 then -1 else int (length s) - 1 - i)"

definition to_lower_char :: "char \<Rightarrow> char" where
  "to_lower_char c =
     (let n = of_char c :: nat in if 65 \<le> n \<and> n \<le> 90 then char_of (n + 32) else c)"

definition ToLower :: "string \<Rightarrow> string" where
  "ToLower s = map to_lower_char s"

definition ReplaceChar :: "char \<Rightarrow> string \<Rightarrow> string \<Rightarrow> string" where
  "ReplaceChar c r s = concat (map (\<lambda>x. if x = c then r else [x]) s)"

lemma split_on_not_Nil [simp]: "split_on c s \<noteq> []"
  by (induction s) (auto split: list.splits)

lemma split_on_no_sep: "c \<notin> set s \<Longrightarrow> split_on c s = [s]"
  by (induction s) auto

lemma split_on_append_sep: "c \<notin> set p \<Longrightarrow> split_on c (p @ c # s) = p # split_on c s"
  by (induction p) auto

lemma split_join: "ps \<noteq> [] \<Longrightarrow> (\<forall>p \<in> set ps. c \<notin> set p) \<Longrightarrow> split_on c (join_with c ps) = ps"
  by (induction c ps rule: join_with.induct) (auto simp: split_on_no_sep split_on_append_sep)

lemma join_split: "join_with c (split_on c s) = s"
proof (induction s)
  case Nil
  then show ?case by simp
next
  case (Cons x xs)
  obtain p ps where ps: "split_on c xs = p # ps" by (cases "split_on c xs") auto
  with Cons show ?case by (cases ps) auto
qed

lemma split_on_parts_no_sep: "p \<in> set (split_on c s) \<Longrightarrow> c \<notin> set p"
  by (induction s arbitrary: p) (auto split: list.splits if_splits)

lemma join_with_Cons: "ps \<noteq> [] \<Longrightarrow> join_with c (p # ps) = p @ c # join_with c ps"
  by (cases ps) auto

lemma join_with_append:
  "ps \<noteq> [] \<Longrightarrow> qs \<noteq> [] \<Longrightarrow> join_with c (ps @ qs) = join_with c ps @ c # join_with c qs"
proof (induction ps)
  case (Cons p ps)
  then show ?case by (cases "ps = []") (simp_all add: join_with_Cons)
qed simp

lemma split_on_append:
  "split_on c (s @ c # t) = split_on c s @ split_on c t"
  by (induction s) (auto split: list.splits)

lemma IndexChar_range: "IndexChar c s = -1 \<or> 0 \<le> IndexChar c s \<and> IndexChar c s < int (length s)"
  by (induction s) (auto simp: Let_def)

lemma IndexChar_neg: "IndexChar c s < 0 \<longleftrightarrow> c \<notin> set s"
  by (induction s) (auto simp: Let_def)

lemma IndexChar_append_sep:
  "c \<notin> set p \<Longrightarrow> IndexChar c (p @ c # s) = int (length p)"
  by (induction p) (auto simp: Let_def)

lemma IndexChar_split:
  assumes "0 \<le> IndexChar c s"
  shows "s = take (nat (IndexChar c s)) s @ c # drop (nat (IndexChar c s) + 1) s \<and>
         c \<notin> set (take (nat (IndexChar c s)) s)"
  using assms
proof (induction s)
  case (Cons x xs)
  then show ?case by (auto simp: Let_def nat_add_distrib split: if_splits)
qed simp

lemma LastIndexChar_append_sep:
  "c \<notin> set s \<Longrightarrow> LastIndexChar c (p @ c # s) = int (length p)"
  using IndexChar_append_sep [of c "rev s" "rev p"] by (simp add: LastIndexChar_def Let_def)

lemma LastIndexChar_split:
  assumes "0 \<le> LastIndexChar c s"
  shows "s = take (nat (LastIndexChar c s)) s @ c # drop (nat (LastIndexChar c s) + 1) s \<and>
         c \<notin> set (drop (nat (LastIndexChar c s) + 1) s)"
proof -
  let ?i = "IndexChar c (rev s)"
  have pos: "0 \<le> ?i" using assms by (auto simp: LastIndexChar_def Let_def split: if_splits)
  define p where "p = take (nat ?i) (rev s)"
  define q where "q = drop (nat ?i + 1) (rev s)"
  have "rev s = p @ c # q" and "c \<notin> set p"
    using IndexChar_split [OF pos] by (simp_all add: p_def q_def)
  then have s: "s = rev q @ c # rev p" by (metis append.assoc append_Cons append_Nil rev_append rev_rev_ident rev.simps(2))
  with \<open>c \<notin> set p\<close> have "LastIndexChar c s = int (length (rev q))"
    using LastIndexChar_append_sep [of c "rev p" "rev q"] by simp
  with s \<open>c \<notin> set p\<close> show ?thesis by simp
qed

section \<open>Numbers\<close>

definition digit_char :: "nat \<Rightarrow> char" where
  "digit_char d = char_of (if d < 10 then 48 + d else 87 + d)"

text \<open>The value of a digit, 36 for a character that is no digit.\<close>

definition digit_val :: "char \<Rightarrow> nat" where
  "digit_val c =
     (let n = of_char c :: nat in
      if 48 \<le> n \<and> n \<le> 57 then n - 48
      else if 97 \<le> n \<and> n \<le> 122 then n - 87
      else if 65 \<le> n \<and> n \<le> 90 then n - 55
      else 36)"

text \<open>Rendering in base \<open>b\<close> (2 to 36), without sign or leading zeros.\<close>

fun show_base :: "nat \<Rightarrow> nat \<Rightarrow> string" where
  "show_base b n =
     (if b < 2 \<or> n < b then [digit_char n]
      else show_base b (n div b) @ [digit_char (n mod b)])"

declare show_base.simps [simp del]

definition show_nat :: "nat \<Rightarrow> string" where
  "show_nat n = show_base 10 n"

definition show_int :: "int \<Rightarrow> string" where
  "show_int x = (if x < 0 then CHR ''-'' # show_nat (nat (- x)) else show_nat (nat x))"

text \<open>
  \<open>strconv.Quote\<close> (and \<open>%q\<close>): control characters are escaped; text beyond ASCII is taken to be printable
  and copied.
\<close>

definition quote_char :: "char \<Rightarrow> string" where
  "quote_char c =
     (let n = of_char c :: nat; esc = (\<lambda>d. [CHR 0x5C, d]) in
      if c = CHR 0x22 \<or> c = CHR 0x5C then esc c
      else if n = 7 then esc (CHR ''a'') else if n = 8 then esc (CHR ''b'') else if n = 9 then esc (CHR ''t'')
      else if n = 10 then esc (CHR ''n'') else if n = 11 then esc (CHR ''v'') else if n = 12 then esc (CHR ''f'')
      else if n = 13 then esc (CHR ''r'')
      else if n < 32 \<or> n = 127 then esc (CHR ''x'') @ [digit_char (n div 16), digit_char (n mod 16)]
      else [c])"

definition Quote :: "string \<Rightarrow> string" where
  "Quote s = [CHR 0x22] @ concat (map quote_char s) @ [CHR 0x22]"

fun parse_digits :: "nat \<Rightarrow> nat \<Rightarrow> string \<Rightarrow> nat option" where
  "parse_digits b acc [] = Some acc"
| "parse_digits b acc (c # cs) =
     (if digit_val c < b then parse_digits b (acc * b + digit_val c) cs else None)"

definition parse_base :: "nat \<Rightarrow> string \<Rightarrow> nat option" where
  "parse_base b s = (if s = [] then None else parse_digits b 0 s)"

text \<open>\<open>strconv.ParseUint(s, 16, 64)\<close> and \<open>strconv.ParseInt(s, 10, 64)\<close>.\<close>

definition ParseUint16 :: "string \<Rightarrow> nat option" where
  "ParseUint16 s =
     (case parse_base 16 s of None \<Rightarrow> None | Some n \<Rightarrow> if n < 2 ^ 64 then Some n else None)"

definition ParseInt10 :: "string \<Rightarrow> int option" where
  "ParseInt10 s =
     (let neg = HasPrefix s ''-''; body = (if neg \<or> HasPrefix s ''+'' then tl s else s)
      in case parse_base 10 body of
           None \<Rightarrow> None
         | Some n \<Rightarrow>
             (let v = (if neg then - int n else int n) in if in_int64 v then Some v else None))"

text \<open>\<open>%012d\<close>: width 12, padded with zeros after the sign.\<close>

definition pad0 :: "nat \<Rightarrow> string \<Rightarrow> string" where
  "pad0 w s = replicate (w - length s) (CHR ''0'') @ s"

definition fmt_d012 :: "int \<Rightarrow> string" where
  "fmt_d012 x =
     (if x < 0 then CHR ''-'' # pad0 11 (show_nat (nat (- x))) else pad0 12 (show_nat (nat x)))"

definition hex_byte :: "byte \<Rightarrow> string" where
  "hex_byte b = [digit_char (unat b div 16), digit_char (unat b mod 16)]"

definition hex_EncodeToString :: "bytes \<Rightarrow> string" where
  "hex_EncodeToString bs = concat (map hex_byte bs)"

lemma of_char_digit_char [simp]:
  "d < 36 \<Longrightarrow> of_char (digit_char d) = (if d < 10 then 48 + d else 87 + d :: nat)"
  by (auto simp: digit_char_def)

lemma digit_val_digit_char [simp]: "d < 36 \<Longrightarrow> digit_val (digit_char d) = d"
  by (auto simp: digit_val_def Let_def)

lemma parse_digits_append:
  "parse_digits b acc (s @ t) =
     (case parse_digits b acc s of None \<Rightarrow> None | Some n \<Rightarrow> parse_digits b n t)"
  by (induction s arbitrary: acc) auto

lemma show_base_not_Nil [simp]: "show_base b n \<noteq> []"
  by (subst show_base.simps) auto

lemma parse_digits_show_base:
  "2 \<le> b \<Longrightarrow> b \<le> 36 \<Longrightarrow> parse_digits b 0 (show_base b n) = Some n"
proof (induction b n rule: show_base.induct)
  case (1 b n)
  show ?case
  proof (cases "n < b")
    case True
    with "1.prems" show ?thesis by (simp add: show_base.simps [of b n])
  next
    case False
    with "1.prems" have IH: "parse_digits b 0 (show_base b (n div b)) = Some (n div b)"
      by (intro "1.IH") auto
    have "n mod b < b" using "1.prems" by simp
    moreover from this "1.prems" have "digit_val (digit_char (n mod b)) = n mod b"
      by (intro digit_val_digit_char) linarith
    ultimately show ?thesis using False IH "1.prems"
      by (simp add: show_base.simps [of b n] parse_digits_append)
  qed
qed

lemma parse_base_show_base [simp]:
  "2 \<le> b \<Longrightarrow> b \<le> 36 \<Longrightarrow> parse_base b (show_base b n) = Some n"
  by (simp add: parse_base_def parse_digits_show_base)

lemma show_base_digits:
  "2 \<le> b \<Longrightarrow> b \<le> 36 \<Longrightarrow> c \<in> set (show_base b n) \<Longrightarrow> \<exists>d < b. c = digit_char d"
proof (induction b n rule: show_base.induct)
  case (1 b n)
  have last: "\<exists>d < b. digit_char (n mod b) = digit_char d"
    using "1.prems" by (intro exI [of _ "n mod b"]) simp
  show ?case
  proof (cases "n < b")
    case True
    with "1.prems" show ?thesis by (auto simp: show_base.simps [of b n])
  next
    case False
    with 1 last show ?thesis by (auto simp: show_base.simps [of b n] simp del: ex_simps)
  qed
qed

lemma notin_show_nat: "\<not> digit_val c < 10 \<Longrightarrow> c \<notin> set (show_nat n)"
  unfolding show_nat_def using show_base_digits [of 10 c n] by auto

lemma parse_base_show_nat [simp]: "parse_base 10 (show_nat n) = Some n"
  unfolding show_nat_def by (rule parse_base_show_base) simp_all

lemma show_nat_inj [simp]: "show_nat m = show_nat n \<longleftrightarrow> m = n"
proof
  assume "show_nat m = show_nat n"
  then have "parse_base 10 (show_nat m) = parse_base 10 (show_nat n)" by (rule arg_cong)
  then show "m = n" by simp
qed simp

lemma digit_val_0 [simp]: "digit_val (CHR ''0'') = 0"
  by (simp add: digit_val_def)

lemma parse_digits_zeros: "2 \<le> b \<Longrightarrow> parse_digits b 0 (replicate k (CHR ''0'') @ s) = parse_digits b 0 s"
  by (induction k) auto

lemma parse_base_pad0 [simp]: "parse_base 10 (pad0 w (show_nat n)) = Some n"
proof -
  have "parse_digits 10 0 (show_base 10 n) = Some n" by (rule parse_digits_show_base) simp_all
  then show ?thesis
    by (simp add: parse_base_def pad0_def show_nat_def parse_digits_zeros del: replicate.simps)
qed

lemma fmt_d012_inj: "0 \<le> i \<Longrightarrow> 0 \<le> j \<Longrightarrow> fmt_d012 i = fmt_d012 j \<Longrightarrow> i = j"
proof -
  assume "0 \<le> i" and "0 \<le> j" and "fmt_d012 i = fmt_d012 j"
  then have "pad0 12 (show_nat (nat i)) = pad0 12 (show_nat (nat j))" by (simp add: fmt_d012_def)
  then have "parse_base 10 (pad0 12 (show_nat (nat i))) = parse_base 10 (pad0 12 (show_nat (nat j)))"
    by (rule arg_cong)
  then show "i = j" using \<open>0 \<le> i\<close> \<open>0 \<le> j\<close> by simp
qed

lemma set_pad0: "set (pad0 w s) \<subseteq> insert (CHR ''0'') (set s)"
  by (auto simp: pad0_def)

section \<open>Package path\<close>

text \<open>
  \<open>path.Clean\<close> on the components of a path, left to right, with the components kept so
  far as a stack (last first). A rooted path drops \<open>..\<close> at the root; a relative one keeps
  it.
\<close>

fun clean_step :: "bool \<Rightarrow> string \<Rightarrow> string list \<Rightarrow> string list" where
  "clean_step rooted p stack =
     (if p = [] \<or> p = ''.'' then stack
      else if p = ''..'' then
        (case stack of
           [] \<Rightarrow> if rooted then [] else [p]
         | t # rest \<Rightarrow> if t = ''..'' then p # stack else rest)
      else p # stack)"

definition clean_parts :: "bool \<Rightarrow> string list \<Rightarrow> string list \<Rightarrow> string list" where
  "clean_parts rooted stack ps = fold (clean_step rooted) ps stack"

definition path_Clean :: "string \<Rightarrow> string" where
  "path_Clean s =
     (let rooted = HasPrefix s ''/'';
          out = join_with (CHR ''/'') (rev (clean_parts rooted [] (split_on (CHR ''/'') s)))
      in if rooted then CHR ''/'' # out else if out = [] then ''.'' else out)"

definition path_Join :: "string list \<Rightarrow> string" where
  "path_Join elems =
     (let es = filter (\<lambda>e. e \<noteq> []) elems
      in if es = [] then [] else path_Clean (join_with (CHR ''/'') es))"

text \<open>\<open>path.Base\<close>.\<close>

definition path_Base :: "string \<Rightarrow> string" where
  "path_Base s =
     (if s = [] then ''.''
      else let t = rev (dropWhile (\<lambda>c. c = CHR ''/'') (rev s)) in
        if t = [] then ''/'' else last (split_on (CHR ''/'') t))"

text \<open>A component that \<open>path.Clean\<close> keeps as it is.\<close>

definition plain_part :: "string \<Rightarrow> bool" where
  "plain_part p \<longleftrightarrow> p \<noteq> [] \<and> p \<noteq> ''.'' \<and> p \<noteq> ''..'' \<and> CHR ''/'' \<notin> set p"

lemma clean_step_plain: "plain_part p \<Longrightarrow> clean_step rooted p stack = p # stack"
  by (simp add: plain_part_def)

lemma clean_parts_plain:
  "(\<forall>p \<in> set ps. plain_part p) \<Longrightarrow> clean_parts rooted stack ps = rev ps @ stack"
  unfolding clean_parts_def
  by (induction ps arbitrary: stack) (auto simp: clean_step_plain simp del: clean_step.simps)

lemma clean_parts_append:
  "clean_parts rooted stack (ps @ qs) = clean_parts rooted (clean_parts rooted stack ps) qs"
  by (simp add: clean_parts_def)

lemma path_Base_join:
  assumes "plain_part p"
  shows "path_Base (s @ CHR ''/'' # p) = p"
proof -
  have p: "p \<noteq> []" "CHR ''/'' \<notin> set p" using assms by (auto simp: plain_part_def)
  then obtain q c where q: "p = q @ [c]" and "c \<noteq> CHR ''/''"
    by (cases p rule: rev_cases) auto
  then have "dropWhile (\<lambda>c. c = CHR ''/'') (rev (s @ CHR ''/'' # p)) = rev (s @ CHR ''/'' # p)"
    by simp
  moreover have "split_on (CHR ''/'') (s @ CHR ''/'' # p) = split_on (CHR ''/'') s @ [p]"
    by (simp only: split_on_append split_on_no_sep [OF p(2)])
  ultimately show ?thesis by (simp add: path_Base_def Let_def)
qed

section \<open>net/url.PathEscape\<close>

definition is_alnum :: "char \<Rightarrow> bool" where
  "is_alnum c \<longleftrightarrow> (let n = of_char c :: nat in
     48 \<le> n \<and> n \<le> 57 \<or> 65 \<le> n \<and> n \<le> 90 \<or> 97 \<le> n \<and> n \<le> 122)"

text \<open>\<open>shouldEscape(c, encodePathSegment)\<close>, negated.\<close>

definition path_segment_safe :: "char \<Rightarrow> bool" where
  "path_segment_safe c \<longleftrightarrow> is_alnum c \<or> c \<in> set ''-_.~$&+:=@''"

definition upper_hex :: "nat \<Rightarrow> char" where
  "upper_hex d = ''0123456789ABCDEF'' ! d"

definition percent_byte :: "char \<Rightarrow> string" where
  "percent_byte c = [CHR ''%'', upper_hex (of_char c div 16), upper_hex (of_char c mod 16)]"

definition PathEscape :: "string \<Rightarrow> string" where
  "PathEscape s = concat (map (\<lambda>c. if path_segment_safe c then [c] else percent_byte c) s)"

end
