(* ===== verification/Go_Float.thy ===== *)
theory Go_Float
  imports Go_Strings "HOL-Library.Log_Nat"
begin

text \<open>
  Go's \<open>float64\<close> as the repository uses it: IEEE 754 binary64 with rounding to nearest, ties to even.
  A finite number is its exact rational value and every operation is the exact one followed by
  \<open>round64\<close>. The two zeros are one value, since nothing here divides by zero or prints a zero's sign.
  \<open>strconv.ParseFloat\<close> follows the scanner of the standard library: special values, decimal and
  hexadecimal mantissas, exponents and underscores.
\<close>

section \<open>Numbers\<close>

datatype float64 = NaN | Inf bool | Fin rat

definition pow2 :: "int \<Rightarrow> rat" where
  "pow2 e = (if 0 \<le> e then 2 ^ nat e else 1 / 2 ^ nat (- e))"

text \<open>The binary exponent of a positive number.\<close>

definition ilog2 :: "rat \<Rightarrow> int" where
  "ilog2 x =
     (case quotient_of x of (p, q) \<Rightarrow>
      let k = bitlen p - bitlen q in if pow2 k \<le> x then k else k - 1)"

definition round_half_even :: "rat \<Rightarrow> int" where
  "round_half_even x =
     (let n = floor x; d = x - of_int n in
      if d < 1 / 2 then n else if d > 1 / 2 then n + 1 else if even n then n else n + 1)"

text \<open>The unit in the last place: 53 significant bits, but never below the least subnormal number.\<close>

definition ulp_exp :: "rat \<Rightarrow> int" where
  "ulp_exp x = max (- 1074) (ilog2 x - 52)"

definition round_pos :: "rat \<Rightarrow> rat" where
  "round_pos x = (if x = 0 then 0 else of_int (round_half_even (x / pow2 (ulp_exp x))) * pow2 (ulp_exp x))"

definition round_rat :: "rat \<Rightarrow> rat" where
  "round_rat x = (if x < 0 then - round_pos (- x) else round_pos x)"

definition float_limit :: rat where
  "float_limit = 2 ^ 1024"

definition round64 :: "rat \<Rightarrow> float64" where
  "round64 x = (let r = round_rat x in if \<bar>r\<bar> < float_limit then Fin r else Inf (x < 0))"

section \<open>Operations\<close>

fun f_add :: "float64 \<Rightarrow> float64 \<Rightarrow> float64" where
  "f_add (Fin a) (Fin b) = round64 (a + b)"
| "f_add (Inf s) (Fin b) = Inf s"
| "f_add (Fin a) (Inf s) = Inf s"
| "f_add (Inf s) (Inf t) = (if s = t then Inf s else NaN)"
| "f_add _ _ = NaN"

fun f_neg :: "float64 \<Rightarrow> float64" where
  "f_neg (Fin a) = Fin (- a)"
| "f_neg (Inf s) = Inf (\<not> s)"
| "f_neg NaN = NaN"

definition f_sub :: "float64 \<Rightarrow> float64 \<Rightarrow> float64" where
  "f_sub a b = f_add a (f_neg b)"

fun f_mul :: "float64 \<Rightarrow> float64 \<Rightarrow> float64" where
  "f_mul (Fin a) (Fin b) = round64 (a * b)"
| "f_mul (Inf s) (Fin b) = (if b = 0 then NaN else Inf (s \<noteq> (b < 0)))"
| "f_mul (Fin a) (Inf s) = (if a = 0 then NaN else Inf (s \<noteq> (a < 0)))"
| "f_mul (Inf s) (Inf t) = Inf (s \<noteq> t)"
| "f_mul _ _ = NaN"

text \<open>A quotient with a divisor that is not zero.\<close>

fun f_div :: "float64 \<Rightarrow> float64 \<Rightarrow> float64" where
  "f_div (Fin a) (Fin b) = round64 (a / b)"
| "f_div (Inf s) (Fin b) = Inf (s \<noteq> (b < 0))"
| "f_div (Fin a) (Inf s) = Fin 0"
| "f_div _ _ = NaN"

fun f_less :: "float64 \<Rightarrow> float64 \<Rightarrow> bool" where
  "f_less (Fin a) (Fin b) \<longleftrightarrow> a < b"
| "f_less (Inf s) (Fin b) \<longleftrightarrow> s"
| "f_less (Fin a) (Inf s) \<longleftrightarrow> \<not> s"
| "f_less (Inf s) (Inf t) \<longleftrightarrow> s \<and> \<not> t"
| "f_less _ _ \<longleftrightarrow> False"

definition f_le :: "float64 \<Rightarrow> float64 \<Rightarrow> bool" where
  "f_le a b \<longleftrightarrow> f_less a b \<or> a = b \<and> a \<noteq> NaN"

definition f_of_int :: "int \<Rightarrow> float64" where
  "f_of_int n = round64 (of_int n)"

text \<open>\<open>math.Min\<close>, and \<open>math.Round\<close>, which rounds halves away from zero.\<close>

definition math_Min :: "float64 \<Rightarrow> float64 \<Rightarrow> float64" where
  "math_Min a b =
     (if a = Inf True \<or> b = Inf True then Inf True
      else if a = NaN \<or> b = NaN then NaN
      else if f_less a b then a else b)"

definition round_away :: "rat \<Rightarrow> int" where
  "round_away x = (if x < 0 then - floor (- x + 1 / 2) else floor (x + 1 / 2))"

fun math_Round :: "float64 \<Rightarrow> float64" where
  "math_Round (Fin a) = Fin (of_int (round_away a))"
| "math_Round f = f"

text \<open>
  The conversion to \<open>int64\<close> drops the fraction. What it gives for a number that does not fit is left
  to the platform by the language: \<open>unrep\<close>.
\<close>

definition rat_trunc :: "rat \<Rightarrow> int" where
  "rat_trunc x = (if x < 0 then - floor (- x) else floor x)"

fun float_to_int64 :: "(float64 \<Rightarrow> int) \<Rightarrow> float64 \<Rightarrow> int" where
  "float_to_int64 unrep (Fin a) = (if in_int64 (rat_trunc a) then rat_trunc a else unrep (Fin a))"
| "float_to_int64 unrep f = unrep f"

section \<open>ParseFloat\<close>

text \<open>\<open>special\<close>: infinities and NaN in any case.\<close>

definition parse_special :: "string \<Rightarrow> float64 option" where
  "parse_special s =
     (let l = ToLower s in
      if l = ''nan'' then Some NaN
      else if l \<in> {''inf'', ''+inf'', ''infinity'', ''+infinity''} then Some (Inf False)
      else if l \<in> {''-inf'', ''-infinity''} then Some (Inf True)
      else None)"

text \<open>
  The mantissa: \<open>acc\<close> is the number of all digits so far, \<open>behind\<close> how many of them stand behind the
  point and \<open>seen\<close> whether there was any.
\<close>

fun scan_mantissa :: "nat \<Rightarrow> bool \<Rightarrow> int \<Rightarrow> nat \<Rightarrow> bool \<Rightarrow> string \<Rightarrow> (int \<times> nat \<times> bool \<times> string)" where
  "scan_mantissa base dot acc behind seen [] = (acc, behind, seen, [])"
| "scan_mantissa base dot acc behind seen (c # cs) =
     (if c = CHR ''_'' then scan_mantissa base dot acc behind seen cs
      else if c = CHR ''.'' then
        if dot then (acc, behind, seen, c # cs) else scan_mantissa base True acc behind seen cs
      else if digit_val c < base
      then scan_mantissa base dot (acc * int base + int (digit_val c)) (if dot then Suc behind else behind) True cs
      else (acc, behind, seen, c # cs))"

text \<open>The digits of the exponent, which is no longer counted up from 10000 on.\<close>

fun scan_exponent :: "nat \<Rightarrow> string \<Rightarrow> nat \<times> string" where
  "scan_exponent e [] = (e, [])"
| "scan_exponent e (c # cs) =
     (if c = CHR ''_'' then scan_exponent e cs
      else if digit_val c < 10 then scan_exponent (if e < 10000 then e * 10 + digit_val c else e) cs
      else (e, c # cs))"

text \<open>\<open>underscoreOK\<close>: an underscore stands between digits; a base prefix counts as a digit.\<close>

fun underscores_between :: "bool \<Rightarrow> char \<Rightarrow> string \<Rightarrow> bool" where
  "underscores_between hex saw [] \<longleftrightarrow> saw \<noteq> CHR ''_''"
| "underscores_between hex saw (c # cs) \<longleftrightarrow>
     (if digit_val c < (if hex then 16 else 10) then underscores_between hex CHR ''0'' cs
      else if c = CHR ''_'' then saw = CHR ''0'' \<and> underscores_between hex CHR ''_'' cs
      else saw \<noteq> CHR ''_'' \<and> underscores_between hex CHR ''!'' cs)"

definition underscoreOK :: "string \<Rightarrow> bool" where
  "underscoreOK s =
     (let b = (if HasPrefix s ''+'' \<or> HasPrefix s ''-'' then tl s else s); l = ToLower (take 2 b) in
      if l \<in> {''0b'', ''0o'', ''0x''} then underscores_between (l = ''0x'') CHR ''0'' (drop 2 b)
      else underscores_between False CHR ''^'' b)"

text \<open>The exponent part: its value and what follows it; \<open>None\<close> when it is malformed.\<close>

definition parse_exponent :: "string \<Rightarrow> (int \<times> string) option" where
  "parse_exponent s =
     (let neg = HasPrefix s ''-''; body = (if neg \<or> HasPrefix s ''+'' then tl s else s) in
      if body = [] \<or> \<not> digit_val (hd body) < 10 then None
      else case scan_exponent 0 body of (e, rest) \<Rightarrow> Some ((if neg then - int e else int e), rest))"

definition parse_number :: "string \<Rightarrow> rat option" where
  "parse_number s =
     (let neg = HasPrefix s ''-'';
          body = (if neg \<or> HasPrefix s ''+'' then tl s else s);
          hex = 2 < length body \<and> ToLower (take 2 body) = ''0x'';
          base = (if hex then 16 else 10) in
      case scan_mantissa base False 0 0 False (if hex then drop 2 body else body) of
        (mant, behind, seen, rest) \<Rightarrow>
          if \<not> seen then None
          else
            (let m = (if neg then - 1 else 1) * of_int mant / of_nat base ^ behind in
             case rest of
               [] \<Rightarrow> if hex \<or> \<not> underscoreOK s \<and> CHR ''_'' \<in> set s then None else Some m
             | c # cs \<Rightarrow>
                 if to_lower_char c \<noteq> (if hex then CHR ''p'' else CHR ''e'') then None
                 else (case parse_exponent cs of
                   None \<Rightarrow> None
                 | Some (e, rest') \<Rightarrow>
                     if rest' \<noteq> [] \<or> \<not> underscoreOK s \<and> CHR ''_'' \<in> set s then None
                     else Some (if hex then m * pow2 e else if 0 \<le> e then m * 10 ^ nat e else m / 10 ^ nat (- e)))))"

text \<open>\<open>None\<close> for a syntax error and for a number out of range, both of which are errors.\<close>

definition ParseFloat :: "string \<Rightarrow> float64 option" where
  "ParseFloat s =
     (case parse_special s of
        Some f \<Rightarrow> Some f
      | None \<Rightarrow> (case parse_number s of
          None \<Rightarrow> None
        | Some x \<Rightarrow> (case round64 x of Fin r \<Rightarrow> Some (Fin r) | _ \<Rightarrow> None)))"

subsection \<open>Printing\<close>

text \<open>\<open>%.0f\<close> and \<open>%.1f\<close>: the exact value rounded to the places, ties to even.\<close>

definition fmt_f0 :: "rat \<Rightarrow> string" where
  "fmt_f0 x = show_int (round_half_even x)"

definition fmt_f1 :: "rat \<Rightarrow> string" where
  "fmt_f1 x = (let t = round_half_even (x * 10) in show_int (t div 10) @ ''.'' @ show_int (t mod 10))"

definition float_text :: "(rat \<Rightarrow> string) \<Rightarrow> float64 \<Rightarrow> string" where
  "float_text f x = (case x of Fin r \<Rightarrow> f r | NaN \<Rightarrow> ''NaN'' | Inf s \<Rightarrow> if s then ''-Inf'' else ''+Inf'')"

text \<open>Dividing by 1000 while there is a greater unit: the number and how often it was divided.\<close>

fun scale_units :: "nat \<Rightarrow> float64 \<Rightarrow> nat \<Rightarrow> float64 \<times> nat" where
  "scale_units 0 val unit = (val, unit)"
| "scale_units (Suc n) val unit =
     (if f_le (Fin 1000) val then scale_units n (f_div val (Fin 1000)) (Suc unit) else (val, unit))"

section \<open>Rounding\<close>

lemma pow2_powi: "pow2 e = 2 powi e"
  by (simp add: pow2_def power_int_def field_simps power_one_over)

lemma pow2_pos [simp]: "0 < pow2 e" "pow2 e \<noteq> 0" "0 \<le> pow2 e"
  by (simp_all add: pow2_def)

lemma pow2_add: "pow2 (a + b) = pow2 a * pow2 b"
  by (simp add: pow2_powi power_int_add)

lemma pow2_nat: "pow2 (int n) = 2 ^ n"
  by (simp add: pow2_def)

lemma pow2_split: "u \<le> e \<Longrightarrow> pow2 e = 2 ^ nat (e - u) * pow2 u"
  using pow2_add [of "e - u" u] by (simp add: pow2_def [of "e - u"])

lemma pow2_mono: "a \<le> b \<Longrightarrow> pow2 a \<le> pow2 b"
  by (simp add: pow2_powi power_int_increasing)

lemma pow2_less_cancel: "pow2 a < pow2 b \<Longrightarrow> a < b"
  using pow2_mono [of b a] by linarith

lemma ilog2_bounds:
  assumes "0 < x"
  shows "pow2 (ilog2 x) \<le> x" and "x < pow2 (ilog2 x + 1)"
proof -
  obtain p q where pq: "quotient_of x = (p, q)" by (rule prod.exhaust)
  have q: "0 < q" and x: "x = of_int p / of_int q"
    using quotient_of_denom_pos [OF pq] quotient_of_div [OF pq] by simp_all
  have p: "0 < p" using assms q by (simp add: x zero_less_divide_iff)
  define a b where "a = bitlen p" and "b = bitlen q"
  have ab: "0 < a" "0 < b" using p q bitlen_bounds [OF p] bitlen_bounds [OF q] bitlen_nonneg [of p] bitlen_nonneg [of q]
    by (auto simp: a_def b_def less_le)
  have int_pow: "(of_int (2 ^ nat n) :: rat) = pow2 n" if "0 \<le> n" for n using that by (simp add: pow2_def)
  have "pow2 (a - 1) \<le> of_int p" "of_int p < pow2 a" "pow2 (b - 1) \<le> of_int q" "of_int q < pow2 b"
    using bitlen_bounds [OF p] bitlen_bounds [OF q] ab
      int_pow [of "a - 1"] int_pow [of a] int_pow [of "b - 1"] int_pow [of b]
    unfolding a_def [symmetric] b_def [symmetric] by (metis of_int_le_iff of_int_less_iff less_imp_le zle_diff1_eq)+
  moreover have "pow2 (a - b + 1) = pow2 a / pow2 (b - 1)" "pow2 (a - b - 1) = pow2 (a - 1) / pow2 b"
    by (simp_all add: pow2_powi power_int_diff power_int_add field_simps)
  ultimately have "x < pow2 (a - b + 1)" and "pow2 (a - b - 1) \<le> x"
    using frac_less [of "of_int p" "pow2 a" "pow2 (b - 1)" "of_int q"] frac_le [of "of_int p" "pow2 (a - 1)" "of_int q" "pow2 b"] p q
    by (simp_all add: x)
  moreover have "ilog2 x = (if pow2 (a - b) \<le> x then a - b else a - b - 1)"
    by (simp add: ilog2_def pq Let_def a_def b_def)
  ultimately show "pow2 (ilog2 x) \<le> x" "x < pow2 (ilog2 x + 1)" by (auto split: if_splits)
qed

lemma ilog2_unique: "0 < x \<Longrightarrow> pow2 k \<le> x \<Longrightarrow> x < pow2 (k + 1) \<Longrightarrow> ilog2 x = k"
  using ilog2_bounds [of x] pow2_less_cancel [of "ilog2 x" "k + 1"] pow2_less_cancel [of k "ilog2 x + 1"] by linarith

lemma ilog2_mono: "0 < x \<Longrightarrow> x \<le> y \<Longrightarrow> ilog2 x \<le> ilog2 y"
  using ilog2_bounds [of x] ilog2_bounds [of y] pow2_less_cancel [of "ilog2 x" "ilog2 y + 1"] by linarith

lemma round_half_even_cases:
  obtains "round_half_even x = floor x" "x - of_int (floor x) \<le> 1 / 2"
  | "round_half_even x = floor x + 1" "1 / 2 \<le> x - of_int (floor x)"
proof -
  define n where "n = floor x"
  have "round_half_even x = n \<and> x - of_int n \<le> 1 / 2 \<or> round_half_even x = n + 1 \<and> 1 / 2 \<le> x - of_int n"
    by (simp add: round_half_even_def Let_def n_def [symmetric])
  then show thesis using that unfolding n_def by blast
qed

lemma round_half_even_int [simp]: "round_half_even (of_int n) = n"
  by (simp add: round_half_even_def)

lemma round_half_even_near: "\<bar>x - of_int n\<bar> < 1 / 2 \<Longrightarrow> round_half_even x = n"
  by (cases rule: round_half_even_cases [of x]) linarith+

lemma round_half_even_mono: "x \<le> y \<Longrightarrow> round_half_even x \<le> round_half_even y"
proof (cases "floor x = floor y")
  case True
  then show "x \<le> y \<Longrightarrow> ?thesis" by (auto simp: round_half_even_def Let_def)
next
  case False
  then show "x \<le> y \<Longrightarrow> ?thesis"
    using floor_mono [of x y] by (cases rule: round_half_even_cases [of x]; cases rule: round_half_even_cases [of y]) auto
qed

lemma round_pos_near:
  assumes "0 < x" and "pow2 k \<le> x" and "x < pow2 (k + 1)" and "e = max (- 1074) (k - 52)"
    and "\<bar>x / pow2 e - of_int n\<bar> < 1 / 2"
  shows "round_pos x = of_int n * pow2 e"
  using assms(1,4) ilog2_unique [OF assms(1-3)] round_half_even_near [OF assms(5)]
  by (simp add: round_pos_def ulp_exp_def)

lemma round_pos_representable:
  assumes "0 \<le> n" and "n \<le> 2 ^ 53" and "- 1074 \<le> e"
  shows "round_pos (of_int n * pow2 e) = of_int n * pow2 e"
proof (cases "n = 0 \<or> n = 2 ^ 53")
  case True
  have "ilog2 (pow2 (e + 53)) = e + 53" by (rule ilog2_unique) (simp_all add: pow2_powi power_int_add)
  moreover have "of_int (2 ^ 53) * pow2 e = pow2 (e + 53)" "pow2 (e + 53) / pow2 (e + 1) = of_int (2 ^ 52)"
    using pow2_add [of e 53] pow2_add [of e 1] pow2_nat [of 53] pow2_nat [of 1] by simp_all
  moreover have "pow2 (e + 1) * of_int (2 ^ 52) = pow2 (e + 53)"
    using pow2_add [of "e + 1" 52] pow2_nat [of 52] by (simp add: add.commute)
  moreover have "max (- 1074) (e + 53 - 52) = e + 1" using assms(3) by simp
  ultimately have "round_pos (of_int (2 ^ 53) * pow2 e) = of_int (2 ^ 53) * pow2 e"
    using round_half_even_int [of "2 ^ 52"] by (simp add: round_pos_def ulp_exp_def mult.commute)
  then show ?thesis using True by (auto simp: round_pos_def [of 0])
next
  case False
  let ?x = "of_int n * pow2 e" and ?u = "ulp_exp (of_int n * pow2 e)"
  have x: "0 < ?x" using False assms(1) by simp
  have "of_int n < (2 ^ 53 :: rat)" using False assms(2) by (simp add: of_int_less_iff [of n "2 ^ 53", where 'a = rat, symmetric])
  then have "?x < pow2 (e + 53)" using pow2_nat [of 53] by (simp add: pow2_add)
  then have "ilog2 ?x < e + 53" using ilog2_bounds(1) [OF x] pow2_less_cancel by (meson le_less_trans)
  then have u: "?u \<le> e" using assms(3) by (simp add: ulp_exp_def)
  have d: "?x / pow2 ?u = of_int (n * 2 ^ nat (e - ?u))"
    by (subst pow2_split [OF u]) simp
  have "round_pos ?x = of_int (n * 2 ^ nat (e - ?u)) * pow2 ?u"
    using x d round_half_even_int [of "n * 2 ^ nat (e - ?u)"] by (simp add: round_pos_def)
  then show ?thesis using d by (metis nonzero_eq_divide_eq pow2_pos(2))
qed

lemma round_pos_scale:
  assumes "0 < x"
  shows "round_pos x \<le> pow2 (ulp_exp x + 53)" and "- 1074 < ulp_exp x \<Longrightarrow> pow2 (ulp_exp x + 52) \<le> round_pos x"
proof -
  let ?u = "ulp_exp x"
  have s: "pow2 (?u + 53) = of_int (2 ^ 53) * pow2 ?u" "pow2 (?u + 52) = of_int (2 ^ 52) * pow2 ?u"
    using pow2_add [of ?u 53] pow2_add [of ?u 52] pow2_nat [of 53] pow2_nat [of 52] by simp_all
  have "x \<le> pow2 (?u + 53)"
  proof -
    have "ilog2 x + 1 \<le> ?u + 53" by (simp add: ulp_exp_def)
    from ilog2_bounds(2) [OF assms] pow2_mono [OF this] show ?thesis by linarith
  qed
  then have "x / pow2 ?u \<le> of_int (2 ^ 53)" unfolding s by (simp add: divide_le_eq)
  then have "round_half_even (x / pow2 ?u) \<le> 2 ^ 53"
    using round_half_even_mono round_half_even_int by metis
  then have "of_int (round_half_even (x / pow2 ?u)) \<le> (of_int (2 ^ 53) :: rat)" by (simp only: of_int_le_iff)
  then show "round_pos x \<le> pow2 (?u + 53)" unfolding s using assms by (simp add: round_pos_def)
  assume "- 1074 < ?u"
  then have "?u = ilog2 x - 52" by (simp add: ulp_exp_def max_def split: if_splits)
  then have "pow2 (?u + 52) \<le> x" using ilog2_bounds(1) [OF assms] by simp
  then have "of_int (2 ^ 52) \<le> x / pow2 ?u" unfolding s by (simp add: le_divide_eq)
  then have "2 ^ 52 \<le> round_half_even (x / pow2 ?u)"
    using round_half_even_mono round_half_even_int by metis
  then have "(of_int (2 ^ 52) :: rat) \<le> of_int (round_half_even (x / pow2 ?u))" by (simp only: of_int_le_iff)
  then show "pow2 (?u + 52) \<le> round_pos x" unfolding s using assms by (simp add: round_pos_def)
qed

lemma round_pos_mono:
  assumes "0 \<le> x" and "x \<le> y"
  shows "round_pos x \<le> round_pos y"
proof (cases "x = 0")
  case True
  have "0 \<le> round_half_even (y / pow2 (ulp_exp y))"
    using round_half_even_mono [of 0 "y / pow2 (ulp_exp y)"] round_half_even_int [of 0] assms by simp
  then show ?thesis using True by (simp add: round_pos_def)
next
  case False
  then have x: "0 < x" and y: "0 < y" using assms by simp_all
  show ?thesis
  proof (cases "ulp_exp x = ulp_exp y")
    case True
    have "round_half_even (x / pow2 (ulp_exp y)) \<le> round_half_even (y / pow2 (ulp_exp y))"
      by (rule round_half_even_mono) (simp add: divide_right_mono assms(2))
    then show ?thesis using x y True by (simp add: round_pos_def)
  next
    case False
    then have "ulp_exp x < ulp_exp y" "- 1074 < ulp_exp y"
      using ilog2_mono [OF x assms(2)] by (simp_all add: ulp_exp_def max_def split: if_splits)
    then have "pow2 (ulp_exp x + 53) \<le> pow2 (ulp_exp y + 52)" by (intro pow2_mono) simp
    with round_pos_scale(1) [OF x] round_pos_scale(2) [OF y \<open>- 1074 < ulp_exp y\<close>] show ?thesis by linarith
  qed
qed

lemma round_rat_mono: "x \<le> y \<Longrightarrow> round_rat x \<le> round_rat y"
  using round_pos_mono [of x y] round_pos_mono [of "- y" "- x"] round_pos_mono [of 0 y] round_pos_mono [of 0 "- x"]
  by (auto simp: round_rat_def round_pos_def [of 0])

lemma round_rat_int [simp]: "\<bar>n\<bar> \<le> 2 ^ 53 \<Longrightarrow> round_rat (of_int n) = of_int n"
  using round_pos_representable [of n 0] round_pos_representable [of "- n" 0] by (auto simp: round_rat_def pow2_def)

lemma below_limit [simp]: "\<bar>r\<bar> \<le> 2 ^ 100 \<Longrightarrow> \<bar>r\<bar> < float_limit"
proof -
  have "(2 :: rat) ^ 100 < 2 ^ 1024" by (rule power_strict_increasing) simp_all
  then show "\<bar>r\<bar> \<le> 2 ^ 100 \<Longrightarrow> ?thesis" unfolding float_limit_def using le_less_trans by blast
qed

lemma round64_finite: "round64 x = Fin r \<Longrightarrow> r = round_rat x"
  by (simp add: round64_def Let_def split: if_splits)

lemma round64_small: "round_rat x = r \<Longrightarrow> \<bar>r\<bar> \<le> 2 ^ 100 \<Longrightarrow> round64 x = Fin r"
  using below_limit [of r] by (simp add: round64_def)

lemma round64_nonneg:
  assumes "0 \<le> x"
  obtains r where "round64 x = Fin r" "0 \<le> r" | "round64 x = Inf False"
  using assms round_rat_mono [of 0 x] round_rat_int [of 0] that unfolding round64_def Let_def
  by (cases "\<bar>round_rat x\<bar> < float_limit") auto

end
