(* ===== verification/Catalog_Schema.thy ===== *)
theory Catalog_Schema
  imports Prelude
begin

text \<open>
  The SQLite catalog: one record per table row (\<open>src/internal/catalog/db/models.go\<close>, tables of
  \<open>src/migrations/000001_initial.sql\<close>), the catalog as the record of its tables, and the
  constraints of the schema as the invariant \<open>catalog_ok\<close>: primary keys, UNIQUE columns,
  foreign keys, and parents that were inserted before their children.

  A table is the list of its rows in insertion order. Columns with a CHECK on an enumeration
  are datatypes. A time column holds milliseconds: the text format of the columns is
  fixed-width, so that SQL's text comparison is the comparison of the numbers.
\<close>

section \<open>Rows\<close>

record Source =
  src_ID :: string
  src_Name :: string
  src_Description :: string
  src_CreatedAt :: int
  src_LastSeenAt :: "int option"

record Pool =
  pl_ID :: string
  pl_SourceID :: string
  pl_Name :: string
  pl_CreatedAt :: int
  pl_LastSeenAt :: "int option"

record Dataset =
  ds_ID :: string
  ds_SourceID :: string
  ds_PoolID :: string
  ds_Path :: string
  ds_DisplayName :: string
  ds_CreatedAt :: int
  ds_LastSeenAt :: "int option"

datatype snapshot_status =
  SnapPending | SnapUploading | SnapCommitted | SnapFailed | SnapAborted | SnapDeleting

fun show_snapshot_status :: "snapshot_status \<Rightarrow> string" where
  "show_snapshot_status SnapPending = ''pending''"
| "show_snapshot_status SnapUploading = ''uploading''"
| "show_snapshot_status SnapCommitted = ''committed''"
| "show_snapshot_status SnapFailed = ''failed''"
| "show_snapshot_status SnapAborted = ''aborted''"
| "show_snapshot_status SnapDeleting = ''deleting''"

datatype validation_status = ValPending | ValRunning | ValSucceeded | ValFailed

record Snapshot =
  sn_ID :: string
  sn_DatasetID :: string
  sn_Name :: string
  sn_ParentSnapshotID :: "string option"
  sn_ManifestObjectKey :: "string option"
  sn_Status :: snapshot_status
  sn_StreamValidationStatus :: validation_status
  sn_ChainValidationStatus :: validation_status
  sn_LogicalBytes :: "int option"
  sn_StoredBytes :: int
  sn_StreamSha256 :: "string option"
  sn_StreamFromGuid :: string
  sn_StreamToGuid :: string
  sn_ChunkCount :: int
  sn_CreatedAt :: int
  sn_UploadStartedAt :: "int option"
  sn_UploadCompletedAt :: "int option"
  sn_FailureReason :: "string option"

datatype upload_status =
  UpPending | UpUploading | UpWritingChunk | UpCommittingManifest | UpCommittingCatalog |
  UpComplete | UpFailed | UpAborted

record UploadSession =
  up_ID :: string
  up_DatasetID :: string
  up_SnapshotID :: "string option"
  up_TargetSnapshotName :: string
  up_BaseSnapshotID :: "string option"
  up_Status :: upload_status
  up_ChunkSizeBytes :: int
  up_CurrentChunkIndex :: int
  up_ChunksCompleted :: int
  up_BytesReceived :: int
  up_StreamSha256 :: "string option"
  up_ManifestObjectKey :: "string option"
  up_StartedAt :: int
  up_LastHeartbeatAt :: int
  up_CompletedAt :: "int option"
  up_FailureReason :: "string option"

datatype chunk_status = ChunkWriting | ChunkUploaded | ChunkVerified | ChunkFailed

record SnapshotChunk =
  ck_ID :: string
  ck_SnapshotID :: string
  ck_UploadSessionID :: string
  ck_ChunkIndex :: int
  ck_ObjectKey :: string
  ck_SizeBytes :: int
  ck_ZfsOffsetStart :: int
  ck_ZfsOffsetEnd :: int
  ck_Sha256 :: string
  ck_Status :: chunk_status
  ck_CreatedAt :: int
  ck_CompletedAt :: "int option"

datatype operation_type = OpUpload | OpValidation | OpReconciliation | OpCleanup | OpCatalogBackup

datatype operation_status = OpQueued | OpRunning | OpSucceeded | OpFailed

record Operation =
  op_ID :: string
  op_Type :: operation_type
  op_Status :: operation_status
  op_SourceID :: "string option"
  op_PoolID :: "string option"
  op_DatasetID :: "string option"
  op_SnapshotID :: "string option"
  op_UploadSessionID :: "string option"
  op_ValidationJobID :: "string option"
  op_StartedAt :: int
  op_UpdatedAt :: int
  op_CompletedAt :: "int option"
  op_Summary :: "string option"
  op_FailureReason :: "string option"

datatype validation_type = StreamCheck | RestoreCheck

datatype job_status = JobRunning | JobSucceeded | JobFailed

record ValidationJob =
  vj_ID :: string
  vj_SnapshotID :: "string option"
  vj_Type :: validation_type
  vj_Executor :: string
  vj_Status :: job_status
  vj_LogsObjectKey :: "string option"
  vj_StartedAt :: "int option"
  vj_CompletedAt :: "int option"
  vj_ResultSummary :: "string option"

datatype backup_status = BackupRunning | BackupSucceeded | BackupFailed

record CatalogBackup =
  cb_ID :: string
  cb_OperationID :: "string option"
  cb_ObjectKey :: string
  cb_MetadataObjectKey :: "string option"
  cb_SizeBytes :: int
  cb_ChecksumSha256 :: string
  cb_StartedAt :: int
  cb_CompletedAt :: "int option"
  cb_Status :: backup_status
  cb_FailureReason :: "string option"

record SshKey =
  sk_ID :: string
  sk_Name :: string
  sk_PublicKey :: string
  sk_FingerprintSha256 :: string
  sk_CreatedAt :: int
  sk_LastUsedAt :: "int option"

record ApiToken =
  at_ID :: string
  at_Name :: string
  at_TokenHash :: string
  at_TokenPrefix :: string
  at_CreatedAt :: int
  at_LastUsedAt :: "int option"
  at_RevokedAt :: "int option"

record AppSetting =
  as_Key :: string
  as_Value :: string
  as_UpdatedAt :: int

record AdminCredential =
  ac_PasswordHash :: "string option"
  ac_CreatedAt :: int

record catalog =
  admin_credentials :: "AdminCredential option"
  app_settings :: "AppSetting list"
  ssh_keys :: "SshKey list"
  sources :: "Source list"
  pools :: "Pool list"
  datasets :: "Dataset list"
  snapshots :: "Snapshot list"
  upload_sessions :: "UploadSession list"
  snapshot_chunks :: "SnapshotChunk list"
  operations :: "Operation list"
  validation_jobs :: "ValidationJob list"
  catalog_backups :: "CatalogBackup list"
  api_tokens :: "ApiToken list"

definition empty_catalog :: catalog where
  "empty_catalog =
     \<lparr>admin_credentials = None, app_settings = [], ssh_keys = [], sources = [], pools = [],
      datasets = [], snapshots = [], upload_sessions = [], snapshot_chunks = [], operations = [],
      validation_jobs = [], catalog_backups = [], api_tokens = []\<rparr>"

section \<open>Deleting rows\<close>

text \<open>\<open>ON DELETE SET NULL\<close>: a reference to a deleted row becomes NULL.\<close>

definition nulled :: "(string \<Rightarrow> bool) \<Rightarrow> string option \<Rightarrow> string option" where
  "nulled dead r = (case r of None \<Rightarrow> None | Some i \<Rightarrow> if dead i then None else Some i)"

text \<open>Delete the upload sessions that satisfy \<open>P\<close>, their chunks, and the operations' references to them.\<close>

definition delete_sessions :: "(UploadSession \<Rightarrow> bool) \<Rightarrow> catalog \<Rightarrow> catalog" where
  "delete_sessions P c =
     (let dead = (\<lambda>i. \<exists>u \<in> set (upload_sessions c). P u \<and> up_ID u = i) in
      c\<lparr>upload_sessions := filter (\<lambda>u. \<not> P u) (upload_sessions c),
        snapshot_chunks := filter (\<lambda>k. \<not> dead (ck_UploadSessionID k)) (snapshot_chunks c),
        operations := map (\<lambda>p. p\<lparr>op_UploadSessionID := nulled dead (op_UploadSessionID p)\<rparr>)
                        (operations c)\<rparr>)"

text \<open>
  Delete the snapshots that satisfy \<open>P\<close>: chunks and validation jobs go with them, upload
  sessions and operations lose their reference. \<open>parent_snapshot_id\<close> and
  \<open>base_snapshot_id\<close> have no action: a row that would be left dangling fails the statement.
\<close>

definition delete_snapshots :: "(Snapshot \<Rightarrow> bool) \<Rightarrow> catalog \<Rightarrow> error + catalog" where
  "delete_snapshots P c =
     (let dead = (\<lambda>i. \<exists>s \<in> set (snapshots c). P s \<and> sn_ID s = i);
          kept = filter (\<lambda>s. \<not> P s) (snapshots c) in
      if (\<exists>s \<in> set kept. case sn_ParentSnapshotID s of None \<Rightarrow> False | Some i \<Rightarrow> dead i) \<or>
         (\<exists>u \<in> set (upload_sessions c). case up_BaseSnapshotID u of None \<Rightarrow> False | Some i \<Rightarrow> dead i)
      then Inl ErrForeignKey
      else Inr (c\<lparr>snapshots := kept,
        snapshot_chunks := filter (\<lambda>k. \<not> dead (ck_SnapshotID k)) (snapshot_chunks c),
        upload_sessions := map (\<lambda>u. u\<lparr>up_SnapshotID := nulled dead (up_SnapshotID u)\<rparr>)
                             (upload_sessions c),
        operations := map (\<lambda>p. p\<lparr>op_SnapshotID := nulled dead (op_SnapshotID p)\<rparr>) (operations c),
        validation_jobs := filter (\<lambda>v. case vj_SnapshotID v of None \<Rightarrow> True | Some i \<Rightarrow> \<not> dead i)
                             (validation_jobs c)\<rparr>))"

section \<open>The invariant\<close>

text \<open>Reading the rows in insertion order, every parent has been seen before its child.\<close>

fun parents_seen :: "string set \<Rightarrow> (string \<times> string option) list \<Rightarrow> bool" where
  "parents_seen seen [] \<longleftrightarrow> True"
| "parents_seen seen ((i, p) # rows) \<longleftrightarrow>
     (case p of None \<Rightarrow> True | Some q \<Rightarrow> q \<in> seen) \<and> parents_seen (insert i seen) rows"

definition lineage_of :: "Snapshot \<Rightarrow> string \<times> string option" where
  "lineage_of s = (sn_ID s, sn_ParentSnapshotID s)"

text \<open>A nullable reference column refers to existing keys.\<close>

definition refs :: "('r \<Rightarrow> string option) \<Rightarrow> 'r list \<Rightarrow> string set \<Rightarrow> bool" where
  "refs col rows keys \<longleftrightarrow> (\<forall>r \<in> set rows. \<forall>i. col r = Some i \<longrightarrow> i \<in> keys)"

definition unique_ok :: "catalog \<Rightarrow> bool" where
  "unique_ok c \<longleftrightarrow>
     distinct (map as_Key (app_settings c)) \<and>
     distinct (map sk_ID (ssh_keys c)) \<and> distinct (map sk_FingerprintSha256 (ssh_keys c)) \<and>
     distinct (map src_ID (sources c)) \<and> distinct (map src_Name (sources c)) \<and>
     distinct (map pl_ID (pools c)) \<and> distinct (map (\<lambda>p. (pl_SourceID p, pl_Name p)) (pools c)) \<and>
     distinct (map ds_ID (datasets c)) \<and>
     distinct (map (\<lambda>d. (ds_SourceID d, ds_PoolID d, ds_Path d)) (datasets c)) \<and>
     distinct (map sn_ID (snapshots c)) \<and>
     distinct (map (\<lambda>s. (sn_DatasetID s, sn_Name s)) (snapshots c)) \<and>
     distinct (map up_ID (upload_sessions c)) \<and>
     distinct (map ck_ID (snapshot_chunks c)) \<and>
     distinct (map (\<lambda>k. (ck_SnapshotID k, ck_ChunkIndex k)) (snapshot_chunks c)) \<and>
     distinct (map ck_ObjectKey (snapshot_chunks c)) \<and>
     distinct (map op_ID (operations c)) \<and>
     distinct (map vj_ID (validation_jobs c)) \<and>
     distinct (map cb_ID (catalog_backups c)) \<and>
     distinct (map at_ID (api_tokens c)) \<and> distinct (map at_TokenHash (api_tokens c))"

definition references_ok :: "catalog \<Rightarrow> bool" where
  "references_ok c \<longleftrightarrow>
     pl_SourceID ` set (pools c) \<subseteq> src_ID ` set (sources c) \<and>
     ds_SourceID ` set (datasets c) \<subseteq> src_ID ` set (sources c) \<and>
     ds_PoolID ` set (datasets c) \<subseteq> pl_ID ` set (pools c) \<and>
     sn_DatasetID ` set (snapshots c) \<subseteq> ds_ID ` set (datasets c) \<and>
     up_DatasetID ` set (upload_sessions c) \<subseteq> ds_ID ` set (datasets c) \<and>
     refs up_SnapshotID (upload_sessions c) (sn_ID ` set (snapshots c)) \<and>
     refs up_BaseSnapshotID (upload_sessions c) (sn_ID ` set (snapshots c)) \<and>
     ck_SnapshotID ` set (snapshot_chunks c) \<subseteq> sn_ID ` set (snapshots c) \<and>
     ck_UploadSessionID ` set (snapshot_chunks c) \<subseteq> up_ID ` set (upload_sessions c) \<and>
     refs op_SourceID (operations c) (src_ID ` set (sources c)) \<and>
     refs op_PoolID (operations c) (pl_ID ` set (pools c)) \<and>
     refs op_DatasetID (operations c) (ds_ID ` set (datasets c)) \<and>
     refs op_SnapshotID (operations c) (sn_ID ` set (snapshots c)) \<and>
     refs op_UploadSessionID (operations c) (up_ID ` set (upload_sessions c)) \<and>
     refs vj_SnapshotID (validation_jobs c) (sn_ID ` set (snapshots c)) \<and>
     refs cb_OperationID (catalog_backups c) (op_ID ` set (operations c))"

definition catalog_ok :: "catalog \<Rightarrow> bool" where
  "catalog_ok c \<longleftrightarrow>
     unique_ok c \<and> references_ok c \<and> parents_seen {} (map lineage_of (snapshots c))"

lemma catalog_ok_empty: "catalog_ok empty_catalog"
  by (simp add: catalog_ok_def unique_ok_def references_ok_def refs_def empty_catalog_def)

subsection \<open>Updates that keep the key columns\<close>

text \<open>
  Each table has its key columns; a statement that keeps them all keeps the invariant. An
  UPDATE replaces the rows that satisfy a predicate.
\<close>

definition update_where :: "('r \<Rightarrow> bool) \<Rightarrow> ('r \<Rightarrow> 'r) \<Rightarrow> 'r list \<Rightarrow> 'r list" where
  "update_where p f rows = map (\<lambda>r. if p r then f r else r) rows"

lemma map_update_where: "(\<And>r. col (f r) = col r) \<Longrightarrow> map col (update_where p f rows) = map col rows"
  by (simp add: update_where_def)

lemma image_update_where:
  "(\<And>r. col (f r) = col r) \<Longrightarrow> col ` set (update_where p f rows) = col ` set rows"
  using map_update_where [of col f p rows] by (metis set_map)

lemma refs_image: "refs col rows keys \<longleftrightarrow> (\<forall>x \<in> col ` set rows. \<forall>i. x = Some i \<longrightarrow> i \<in> keys)"
  by (simp add: refs_def)

lemma refs_update_where:
  "(\<And>r. col (f r) = col r) \<Longrightarrow> refs col (update_where p f rows) keys \<longleftrightarrow> refs col rows keys"
  using image_update_where [of col f p rows] unfolding refs_image by simp

lemmas update_where_simps = map_update_where image_update_where refs_update_where

lemma catalog_ok_update_snapshots:
  assumes "\<And>s. sn_ID (f s) = sn_ID s" "\<And>s. sn_DatasetID (f s) = sn_DatasetID s"
    "\<And>s. sn_Name (f s) = sn_Name s" "\<And>s. sn_ParentSnapshotID (f s) = sn_ParentSnapshotID s"
  shows "catalog_ok (c\<lparr>snapshots := update_where p f (snapshots c)\<rparr>) = catalog_ok c"
  by (simp add: catalog_ok_def unique_ok_def references_ok_def update_where_simps lineage_of_def assms)

lemma catalog_ok_update_sessions:
  assumes "\<And>u. up_ID (f u) = up_ID u" "\<And>u. up_DatasetID (f u) = up_DatasetID u"
    "\<And>u. up_SnapshotID (f u) = up_SnapshotID u" "\<And>u. up_BaseSnapshotID (f u) = up_BaseSnapshotID u"
  shows "catalog_ok (c\<lparr>upload_sessions := update_where p f (upload_sessions c)\<rparr>) = catalog_ok c"
  by (simp add: catalog_ok_def unique_ok_def references_ok_def update_where_simps assms)

lemma catalog_ok_update_operations:
  assumes "\<And>u. op_ID (f u) = op_ID u" "\<And>u. op_SourceID (f u) = op_SourceID u"
    "\<And>u. op_PoolID (f u) = op_PoolID u" "\<And>u. op_DatasetID (f u) = op_DatasetID u"
    "\<And>u. op_SnapshotID (f u) = op_SnapshotID u" "\<And>u. op_UploadSessionID (f u) = op_UploadSessionID u"
  shows "catalog_ok (c\<lparr>operations := update_where p f (operations c)\<rparr>) = catalog_ok c"
  by (simp add: catalog_ok_def unique_ok_def references_ok_def update_where_simps assms)

subsection \<open>Insertions and deletions\<close>

lemma parents_seen_append:
  "parents_seen seen (rows @ [(i, p)]) \<longleftrightarrow>
     parents_seen seen rows \<and> (\<forall>q. p = Some q \<longrightarrow> q \<in> seen \<union> fst ` set rows)"
  by (induction rows arbitrary: seen) (auto split: option.splits)

lemma parents_seen_mono: "parents_seen seen rows \<Longrightarrow> seen \<subseteq> seen' \<Longrightarrow> parents_seen seen' rows"
proof (induction rows arbitrary: seen seen')
  case (Cons r rows)
  obtain i p where "r = (i, p)" by (cases r)
  then show ?case using Cons.prems Cons.IH [of "insert i seen" "insert i seen'"]
    by (auto split: option.splits)
qed simp

text \<open>Rows that nobody refers to can go.\<close>

lemma parents_seen_filter:
  assumes "parents_seen seen rows" and "\<forall>r \<in> set rows. keep r \<longrightarrow> (\<forall>q. snd r = Some q \<longrightarrow> q \<notin> dead)"
    and "\<forall>r \<in> set rows. \<not> keep r \<longrightarrow> fst r \<in> dead"
  shows "parents_seen (seen - dead) (filter keep rows)"
  using assms
proof (induction rows arbitrary: seen)
  case (Cons r rows)
  obtain i p where r: "r = (i, p)" by (cases r)
  have rest: "parents_seen (insert i seen - dead) (filter keep rows)"
    using Cons.IH [of "insert i seen"] Cons.prems by (simp add: r)
  show ?case
  proof (cases "keep r")
    case True
    then have "\<forall>q. p = Some q \<longrightarrow> q \<in> seen - dead"
      using Cons.prems(1,2) by (auto simp: r split: option.splits)
    moreover have "parents_seen (insert i (seen - dead)) (filter keep rows)"
      using rest by (rule parents_seen_mono) auto
    ultimately show ?thesis using True by (auto simp: r split: option.splits)
  next
    case False
    then have "i \<in> dead" using Cons.prems(3) by (simp add: r)
    then show ?thesis using rest False by (simp add: r insert_Diff_if)
  qed
qed simp

lemma refs_append: "refs col (rows @ [r]) keys \<longleftrightarrow> refs col rows keys \<and> (\<forall>i. col r = Some i \<longrightarrow> i \<in> keys)"
  by (auto simp: refs_def)

lemma refs_mono: "refs col rows keys \<Longrightarrow> keys \<subseteq> keys' \<Longrightarrow> refs col rows keys'"
  by (auto simp: refs_def)

lemma refs_insert: "refs col rows keys \<Longrightarrow> refs col rows (insert i keys)"
  by (auto simp: refs_def)

lemma refs_nulled:
  "refs (\<lambda>r. nulled dead (col r)) rows keys \<longleftrightarrow>
     (\<forall>r \<in> set rows. \<forall>i. col r = Some i \<longrightarrow> \<not> dead i \<longrightarrow> i \<in> keys)"
  by (auto simp: refs_def nulled_def split: option.splits if_splits)

text \<open>After a deletion: the rows kept by CASCADE and the references kept by SET NULL are live.\<close>

lemma image_live:
  assumes "col ` set rows \<subseteq> key ` set keyrows"
  shows "col ` set (filter (\<lambda>r. \<forall>k \<in> set keyrows. P k \<longrightarrow> key k \<noteq> col r) rows) \<subseteq>
    key ` set (filter (\<lambda>k. \<not> P k) keyrows)"
proof
  fix x
  assume "x \<in> col ` set (filter (\<lambda>r. \<forall>k \<in> set keyrows. P k \<longrightarrow> key k \<noteq> col r) rows)"
  then obtain r where r: "r \<in> set rows" "x = col r" "\<not> (\<exists>k \<in> set keyrows. P k \<and> key k = x)" by auto
  then obtain k where "k \<in> set keyrows" "key k = x" using assms by force
  then show "x \<in> key ` set (filter (\<lambda>k. \<not> P k) keyrows)" using r(3) by force
qed

lemma refs_live:
  assumes "refs col rows (key ` set keyrows)"
    and "\<And>r. col (f r) = nulled (\<lambda>i. \<exists>k \<in> set keyrows. P k \<and> key k = i) (col r)"
  shows "refs col (map f rows) (key ` set (filter (\<lambda>k. \<not> P k) keyrows))"
  unfolding refs_def
proof (intro ballI allI impI)
  fix r' i
  assume "r' \<in> set (map f rows)" and i: "col r' = Some i"
  then obtain r where r: "r \<in> set rows" "r' = f r" by auto
  then have "col r = Some i" and "\<not> (\<exists>k \<in> set keyrows. P k \<and> key k = i)"
    using i assms(2) [of r] by (auto simp: nulled_def split: option.splits if_splits)
  moreover obtain k where "k \<in> set keyrows" "key k = i"
    using assms(1) r(1) \<open>col r = Some i\<close> by (auto simp: refs_def)
  ultimately show "i \<in> key ` set (filter (\<lambda>k. \<not> P k) keyrows)" by force
qed

lemma delete_sessions_ok:
  assumes ok: "catalog_ok c"
  shows "catalog_ok (delete_sessions P c)"
proof -
  let ?c = "delete_sessions P c"
  note u = ok [unfolded catalog_ok_def unique_ok_def references_ok_def]
  have same: "sources ?c = sources c" "pools ?c = pools c" "datasets ?c = datasets c"
    "snapshots ?c = snapshots c" "validation_jobs ?c = validation_jobs c"
    "catalog_backups ?c = catalog_backups c" "ssh_keys ?c = ssh_keys c"
    "app_settings ?c = app_settings c" "api_tokens ?c = api_tokens c"
    by (simp_all add: delete_sessions_def Let_def)
  have ops: "map op_ID (operations ?c) = map op_ID (operations c)"
    "op_ID ` set (operations ?c) = op_ID ` set (operations c)"
    "refs op_SourceID (operations ?c) X = refs op_SourceID (operations c) X"
    "refs op_PoolID (operations ?c) X = refs op_PoolID (operations c) X"
    "refs op_DatasetID (operations ?c) X = refs op_DatasetID (operations c) X"
    "refs op_SnapshotID (operations ?c) X = refs op_SnapshotID (operations c) X" for X
    by (simp_all add: delete_sessions_def Let_def refs_def image_image)
  have sess: "distinct (map up_ID (upload_sessions ?c))"
    "up_DatasetID ` set (upload_sessions ?c) \<subseteq> ds_ID ` set (datasets c)"
    "refs up_SnapshotID (upload_sessions ?c) (sn_ID ` set (snapshots c))"
    "refs up_BaseSnapshotID (upload_sessions ?c) (sn_ID ` set (snapshots c))"
    using u by (auto simp: delete_sessions_def Let_def refs_def distinct_map_filter)
  have chunks: "distinct (map ck_ID (snapshot_chunks ?c))"
    "distinct (map (\<lambda>k. (ck_SnapshotID k, ck_ChunkIndex k)) (snapshot_chunks ?c))"
    "distinct (map ck_ObjectKey (snapshot_chunks ?c))"
    "ck_SnapshotID ` set (snapshot_chunks ?c) \<subseteq> sn_ID ` set (snapshots c)"
    using u by (auto simp: delete_sessions_def Let_def distinct_map_filter)
  have "ck_UploadSessionID ` set (snapshot_chunks c) \<subseteq> up_ID ` set (upload_sessions c)"
    and "refs op_UploadSessionID (operations c) (up_ID ` set (upload_sessions c))" using u by blast+
  then have live: "ck_UploadSessionID ` set (snapshot_chunks ?c) \<subseteq> up_ID ` set (upload_sessions ?c)"
    "refs op_UploadSessionID (operations ?c) (up_ID ` set (upload_sessions ?c))"
    by (simp_all add: delete_sessions_def Let_def image_live refs_live del: set_filter set_map)
  show ?thesis
    unfolding catalog_ok_def unique_ok_def references_ok_def same ops
    using u sess chunks live by simp
qed

lemma lineage_filter:
  assumes ids: "distinct (map sn_ID rows)" and seen: "parents_seen {} (map lineage_of rows)"
    and parents: "\<forall>s \<in> set rows. \<not> P s \<longrightarrow> (\<forall>i. sn_ParentSnapshotID s = Some i \<longrightarrow> \<not> (\<exists>t \<in> set rows. P t \<and> sn_ID t = i))"
  shows "parents_seen {} (map lineage_of (filter (\<lambda>s. \<not> P s) rows))"
proof -
  let ?dead = "{i. \<exists>s \<in> set rows. P s \<and> sn_ID s = i}"
  let ?keep = "\<lambda>r. fst r \<notin> ?dead"
  have "P s \<longleftrightarrow> sn_ID s \<in> ?dead" if "s \<in> set rows" for s
    using that ids by (auto simp: distinct_map inj_on_def)
  then have "map lineage_of (filter (\<lambda>s. \<not> P s) rows) = filter ?keep (map lineage_of rows)"
    unfolding filter_map o_def by (intro arg_cong [where f = "map lineage_of"] filter_cong) (auto simp: lineage_of_def)
  moreover have "parents_seen ({} - ?dead) (filter ?keep (map lineage_of rows))"
  proof (rule parents_seen_filter [OF seen])
    show "\<forall>r \<in> set (map lineage_of rows). ?keep r \<longrightarrow> (\<forall>q. snd r = Some q \<longrightarrow> q \<notin> ?dead)"
    proof (intro ballI impI allI)
      fix r q
      assume "r \<in> set (map lineage_of rows)" and keep: "?keep r" and q: "snd r = Some q"
      then obtain s where s: "s \<in> set rows" "r = lineage_of s" by auto
      then have "\<not> P s" using keep by (auto simp: lineage_of_def)
      then show "q \<notin> ?dead" using parents s q by (simp add: lineage_of_def)
    qed
  qed blast
  ultimately show ?thesis by simp
qed

lemma delete_snapshots_ok:
  assumes ok: "catalog_ok c" and del: "delete_snapshots P c = Inr c'"
  shows "catalog_ok c'"
proof -
  note u = ok [unfolded catalog_ok_def unique_ok_def references_ok_def]
  have c': "snapshots c' = filter (\<lambda>s. \<not> P s) (snapshots c)"
    "snapshot_chunks c' = filter (\<lambda>k. \<forall>s \<in> set (snapshots c). P s \<longrightarrow> sn_ID s \<noteq> ck_SnapshotID k)
      (snapshot_chunks c)"
    "upload_sessions c' = map (\<lambda>u. u\<lparr>up_SnapshotID :=
      nulled (\<lambda>i. \<exists>s \<in> set (snapshots c). P s \<and> sn_ID s = i) (up_SnapshotID u)\<rparr>) (upload_sessions c)"
    "operations c' = map (\<lambda>p. p\<lparr>op_SnapshotID :=
      nulled (\<lambda>i. \<exists>s \<in> set (snapshots c). P s \<and> sn_ID s = i) (op_SnapshotID p)\<rparr>) (operations c)"
    "validation_jobs c' = filter (\<lambda>v. case vj_SnapshotID v of None \<Rightarrow> True | Some i \<Rightarrow>
      \<not> (\<exists>s \<in> set (snapshots c). P s \<and> sn_ID s = i)) (validation_jobs c)"
    and same: "sources c' = sources c" "pools c' = pools c" "datasets c' = datasets c"
    "catalog_backups c' = catalog_backups c" "ssh_keys c' = ssh_keys c"
    "app_settings c' = app_settings c" "api_tokens c' = api_tokens c"
    and parents: "\<forall>s \<in> set (snapshots c). \<not> P s \<longrightarrow> (\<forall>i. sn_ParentSnapshotID s = Some i \<longrightarrow>
      \<not> (\<exists>t \<in> set (snapshots c). P t \<and> sn_ID t = i))"
    and bases: "\<forall>u \<in> set (upload_sessions c). \<forall>i. up_BaseSnapshotID u = Some i \<longrightarrow>
      \<not> (\<exists>t \<in> set (snapshots c). P t \<and> sn_ID t = i)"
    using del by (auto simp: delete_snapshots_def Let_def split: if_splits option.splits)
  have snaps: "distinct (map sn_ID (snapshots c'))"
    "distinct (map (\<lambda>s. (sn_DatasetID s, sn_Name s)) (snapshots c'))"
    "sn_DatasetID ` set (snapshots c') \<subseteq> ds_ID ` set (datasets c)"
    using u by (auto simp: c' distinct_map_filter)
  have lineage: "parents_seen {} (map lineage_of (snapshots c'))"
    unfolding c' using u parents by (intro lineage_filter) auto
  have sess: "map up_ID (upload_sessions c') = map up_ID (upload_sessions c)"
    "up_ID ` set (upload_sessions c') = up_ID ` set (upload_sessions c)"
    "up_DatasetID ` set (upload_sessions c') = up_DatasetID ` set (upload_sessions c)"
    by (simp_all add: c' image_image)
  have "refs up_SnapshotID (upload_sessions c) (sn_ID ` set (snapshots c))"
    and base: "refs up_BaseSnapshotID (upload_sessions c) (sn_ID ` set (snapshots c))"
    and "refs op_SnapshotID (operations c) (sn_ID ` set (snapshots c))"
    and "ck_SnapshotID ` set (snapshot_chunks c) \<subseteq> sn_ID ` set (snapshots c)"
    and jobs: "refs vj_SnapshotID (validation_jobs c) (sn_ID ` set (snapshots c))" using u by blast+
  then have live: "refs up_SnapshotID (upload_sessions c') (sn_ID ` set (snapshots c'))"
    "refs op_SnapshotID (operations c') (sn_ID ` set (snapshots c'))"
    "ck_SnapshotID ` set (snapshot_chunks c') \<subseteq> sn_ID ` set (snapshots c')"
    by (simp_all add: c' image_live refs_live del: set_filter set_map)
  have based: "refs up_BaseSnapshotID (upload_sessions c') (sn_ID ` set (snapshots c'))"
    using base bases unfolding refs_def c' by fastforce
  have vjobs: "refs vj_SnapshotID (validation_jobs c') (sn_ID ` set (snapshots c'))"
    using jobs unfolding refs_def c' by (fastforce split: option.splits)
  have ops: "map op_ID (operations c') = map op_ID (operations c)"
    "op_ID ` set (operations c') = op_ID ` set (operations c)"
    "refs op_SourceID (operations c') X = refs op_SourceID (operations c) X"
    "refs op_PoolID (operations c') X = refs op_PoolID (operations c) X"
    "refs op_DatasetID (operations c') X = refs op_DatasetID (operations c) X"
    "refs op_UploadSessionID (operations c') X = refs op_UploadSessionID (operations c) X" for X
    by (simp_all add: c' refs_def image_image)
  have chunks: "distinct (map ck_ID (snapshot_chunks c'))"
    "distinct (map (\<lambda>k. (ck_SnapshotID k, ck_ChunkIndex k)) (snapshot_chunks c'))"
    "distinct (map ck_ObjectKey (snapshot_chunks c'))"
    "ck_UploadSessionID ` set (snapshot_chunks c') \<subseteq> up_ID ` set (upload_sessions c)"
    "distinct (map vj_ID (validation_jobs c'))"
    using u by (auto simp: c' distinct_map_filter)
  show ?thesis
    unfolding catalog_ok_def unique_ok_def references_ok_def
    using u snaps lineage live based vjobs chunks by (simp add: same ops sess)
qed

end
