(* ===== verification/Catalog_Queries.thy ===== *)
theory Catalog_Queries
  imports Catalog_Schema
begin

text \<open>
  The statements of \<open>src/internal/catalog/db/catalog.sql.go\<close> that change the catalog. A
  statement takes its parameters, the time \<open>strftime('now')\<close> evaluates to and the catalog,
  and gives the new catalog or the constraint that failed, in which case SQLite undoes the
  statement. Every statement keeps \<open>catalog_ok\<close>.
\<close>

named_theorems statement_rules \<open>statements keep the catalog invariant\<close>

type_synonym statement = "int \<Rightarrow> catalog \<Rightarrow> error + catalog"
type_synonym 'a query = "int \<Rightarrow> catalog \<Rightarrow> error + 'a"

section \<open>Credentials, settings, keys and tokens\<close>

definition q_EnsureAdminCredentials :: "string option \<Rightarrow> statement" where
  "q_EnsureAdminCredentials passwordHash now c =
     (case admin_credentials c of
        Some _ \<Rightarrow> Inr c
      | None \<Rightarrow> Inr (c\<lparr>admin_credentials := Some \<lparr>ac_PasswordHash = passwordHash, ac_CreatedAt = now\<rparr>\<rparr>))"

definition q_UpdateAdminPasswordHash :: "string option \<Rightarrow> statement" where
  "q_UpdateAdminPasswordHash passwordHash now c =
     (case admin_credentials c of
        Some a \<Rightarrow> Inr (c\<lparr>admin_credentials := Some (a\<lparr>ac_PasswordHash := passwordHash\<rparr>)\<rparr>)
      | None \<Rightarrow> Inr (c\<lparr>admin_credentials := Some \<lparr>ac_PasswordHash = passwordHash, ac_CreatedAt = now\<rparr>\<rparr>))"

definition q_UpsertAppSetting :: "string \<Rightarrow> string \<Rightarrow> statement" where
  "q_UpsertAppSetting key val now c =
     (if key \<noteq> ''upload_throughput_limit_mbit'' \<and> key \<noteq> ''max_incremental_chain_depth''
      then Inl (Errorf (msg ''CHECK constraint failed: app_settings'') [])
      else if key \<in> as_Key ` set (app_settings c)
      then Inr (c\<lparr>app_settings := update_where (\<lambda>a. as_Key a = key)
                    (\<lambda>a. a\<lparr>as_Value := val, as_UpdatedAt := now\<rparr>) (app_settings c)\<rparr>)
      else Inr (c\<lparr>app_settings := app_settings c @
                    [\<lparr>as_Key = key, as_Value = val, as_UpdatedAt = now\<rparr>]\<rparr>))"

definition q_DeleteAppSetting :: "string \<Rightarrow> statement" where
  "q_DeleteAppSetting key now c =
     Inr (c\<lparr>app_settings := filter (\<lambda>a. as_Key a \<noteq> key) (app_settings c)\<rparr>)"

definition q_CreateSSHKey :: "string \<Rightarrow> string \<Rightarrow> string \<Rightarrow> string \<Rightarrow> statement" where
  "q_CreateSSHKey rid name publicKey fingerprint now c =
     (if rid \<in> sk_ID ` set (ssh_keys c) \<or> fingerprint \<in> sk_FingerprintSha256 ` set (ssh_keys c)
      then Inl ErrUnique
      else Inr (c\<lparr>ssh_keys := ssh_keys c @
        [\<lparr>sk_ID = rid, sk_Name = name, sk_PublicKey = publicKey, sk_FingerprintSha256 = fingerprint,
          sk_CreatedAt = now, sk_LastUsedAt = None\<rparr>]\<rparr>))"

definition q_TouchSSHKey :: "string \<Rightarrow> statement" where
  "q_TouchSSHKey rid now c =
     Inr (c\<lparr>ssh_keys := update_where (\<lambda>k. sk_ID k = rid) (\<lambda>k. k\<lparr>sk_LastUsedAt := Some now\<rparr>) (ssh_keys c)\<rparr>)"

definition q_DeleteSSHKey :: "string \<Rightarrow> statement" where
  "q_DeleteSSHKey rid now c = Inr (c\<lparr>ssh_keys := filter (\<lambda>k. sk_ID k \<noteq> rid) (ssh_keys c)\<rparr>)"

definition q_CreateAPIToken :: "string \<Rightarrow> string \<Rightarrow> string \<Rightarrow> string \<Rightarrow> statement" where
  "q_CreateAPIToken rid name tokenHash tokenPrefix now c =
     (if rid \<in> at_ID ` set (api_tokens c) \<or> tokenHash \<in> at_TokenHash ` set (api_tokens c)
      then Inl ErrUnique
      else Inr (c\<lparr>api_tokens := api_tokens c @
        [\<lparr>at_ID = rid, at_Name = name, at_TokenHash = tokenHash, at_TokenPrefix = tokenPrefix,
          at_CreatedAt = now, at_LastUsedAt = None, at_RevokedAt = None\<rparr>]\<rparr>))"

definition q_TouchAPIToken :: "string \<Rightarrow> statement" where
  "q_TouchAPIToken rid now c =
     Inr (c\<lparr>api_tokens := update_where (\<lambda>t. at_ID t = rid) (\<lambda>t. t\<lparr>at_LastUsedAt := Some now\<rparr>) (api_tokens c)\<rparr>)"

definition q_RevokeAPIToken :: "string \<Rightarrow> statement" where
  "q_RevokeAPIToken rid now c =
     Inr (c\<lparr>api_tokens := update_where (\<lambda>t. at_ID t = rid) (\<lambda>t. t\<lparr>at_RevokedAt := Some now\<rparr>) (api_tokens c)\<rparr>)"

section \<open>Sources, pools and datasets\<close>

definition q_CreateSource :: "string \<Rightarrow> string \<Rightarrow> string \<Rightarrow> statement" where
  "q_CreateSource rid name description now c =
     (if rid \<in> src_ID ` set (sources c) \<or> name \<in> src_Name ` set (sources c) then Inl ErrUnique
      else Inr (c\<lparr>sources := sources c @
        [\<lparr>src_ID = rid, src_Name = name, src_Description = description, src_CreatedAt = now,
          src_LastSeenAt = Some now\<rparr>]\<rparr>))"

definition q_TouchSource :: "string \<Rightarrow> statement" where
  "q_TouchSource rid now c =
     Inr (c\<lparr>sources := update_where (\<lambda>s. src_ID s = rid) (\<lambda>s. s\<lparr>src_LastSeenAt := Some now\<rparr>) (sources c)\<rparr>)"

definition q_CreatePool :: "string \<Rightarrow> string \<Rightarrow> string \<Rightarrow> statement" where
  "q_CreatePool rid sourceID name now c =
     (if rid \<in> pl_ID ` set (pools c) \<or>
         (sourceID, name) \<in> (\<lambda>p. (pl_SourceID p, pl_Name p)) ` set (pools c) then Inl ErrUnique
      else if sourceID \<notin> src_ID ` set (sources c) then Inl ErrForeignKey
      else Inr (c\<lparr>pools := pools c @
        [\<lparr>pl_ID = rid, pl_SourceID = sourceID, pl_Name = name, pl_CreatedAt = now,
          pl_LastSeenAt = Some now\<rparr>]\<rparr>))"

definition q_TouchPool :: "string \<Rightarrow> statement" where
  "q_TouchPool rid now c =
     Inr (c\<lparr>pools := update_where (\<lambda>p. pl_ID p = rid) (\<lambda>p. p\<lparr>pl_LastSeenAt := Some now\<rparr>) (pools c)\<rparr>)"

definition q_CreateDataset :: "string \<Rightarrow> string \<Rightarrow> string \<Rightarrow> string \<Rightarrow> string \<Rightarrow> statement" where
  "q_CreateDataset rid sourceID poolID path displayName now c =
     (if rid \<in> ds_ID ` set (datasets c) \<or>
         (sourceID, poolID, path) \<in> (\<lambda>d. (ds_SourceID d, ds_PoolID d, ds_Path d)) ` set (datasets c)
      then Inl ErrUnique
      else if sourceID \<notin> src_ID ` set (sources c) \<or> poolID \<notin> pl_ID ` set (pools c)
      then Inl ErrForeignKey
      else Inr (c\<lparr>datasets := datasets c @
        [\<lparr>ds_ID = rid, ds_SourceID = sourceID, ds_PoolID = poolID, ds_Path = path,
          ds_DisplayName = displayName, ds_CreatedAt = now, ds_LastSeenAt = Some now\<rparr>]\<rparr>))"

definition q_TouchDataset :: "string \<Rightarrow> statement" where
  "q_TouchDataset rid now c =
     Inr (c\<lparr>datasets := update_where (\<lambda>d. ds_ID d = rid) (\<lambda>d. d\<lparr>ds_LastSeenAt := Some now\<rparr>) (datasets c)\<rparr>)"

section \<open>Snapshots\<close>

text \<open>A nullable foreign key is satisfied by NULL.\<close>

definition null_or_in :: "string option \<Rightarrow> string set \<Rightarrow> bool" where
  "null_or_in r keys \<longleftrightarrow> (case r of None \<Rightarrow> True | Some i \<Rightarrow> i \<in> keys)"

definition q_CreatePendingSnapshot :: "string \<Rightarrow> string \<Rightarrow> string \<Rightarrow> string option \<Rightarrow> statement" where
  "q_CreatePendingSnapshot rid datasetID name parentSnapshotID now c =
     (if rid \<in> sn_ID ` set (snapshots c) \<or>
         (datasetID, name) \<in> (\<lambda>s. (sn_DatasetID s, sn_Name s)) ` set (snapshots c) then Inl ErrUnique
      else if datasetID \<notin> ds_ID ` set (datasets c) \<or>
              \<not> null_or_in parentSnapshotID (sn_ID ` set (snapshots c)) then Inl ErrForeignKey
      else Inr (c\<lparr>snapshots := snapshots c @
        [\<lparr>sn_ID = rid, sn_DatasetID = datasetID, sn_Name = name, sn_ParentSnapshotID = parentSnapshotID,
          sn_ManifestObjectKey = None, sn_Status = SnapUploading,
          sn_StreamValidationStatus = ValPending, sn_ChainValidationStatus = ValPending,
          sn_LogicalBytes = None, sn_StoredBytes = 0, sn_StreamSha256 = None, sn_StreamFromGuid = [],
          sn_StreamToGuid = [], sn_ChunkCount = 0, sn_CreatedAt = now, sn_UploadStartedAt = Some now,
          sn_UploadCompletedAt = None, sn_FailureReason = None\<rparr>]\<rparr>))"

definition update_snapshots :: "(Snapshot \<Rightarrow> bool) \<Rightarrow> (Snapshot \<Rightarrow> Snapshot) \<Rightarrow> catalog \<Rightarrow> error + catalog" where
  "update_snapshots p f c = Inr (c\<lparr>snapshots := update_where p f (snapshots c)\<rparr>)"

definition q_CommitSnapshot ::
  "string option \<Rightarrow> int option \<Rightarrow> int \<Rightarrow> string option \<Rightarrow> string \<Rightarrow> string \<Rightarrow> int \<Rightarrow> string \<Rightarrow> statement" where
  "q_CommitSnapshot manifestKey logicalBytes storedBytes streamSha256 fromGuid toGuid chunkCount rid now =
     update_snapshots (\<lambda>s. sn_ID s = rid)
       (\<lambda>s. s\<lparr>sn_Status := SnapCommitted, sn_ManifestObjectKey := manifestKey,
              sn_LogicalBytes := logicalBytes, sn_StoredBytes := storedBytes,
              sn_StreamSha256 := streamSha256, sn_StreamFromGuid := fromGuid,
              sn_StreamToGuid := toGuid, sn_ChunkCount := chunkCount,
              sn_UploadCompletedAt := Some now\<rparr>)"

definition q_FailSnapshot :: "string option \<Rightarrow> string \<Rightarrow> statement" where
  "q_FailSnapshot failureReason rid now =
     update_snapshots (\<lambda>s. sn_ID s = rid)
       (\<lambda>s. s\<lparr>sn_Status := SnapFailed, sn_FailureReason := failureReason\<rparr>)"

definition for_deletion :: "Snapshot \<Rightarrow> Snapshot" where
  "for_deletion s =
     s\<lparr>sn_Status := SnapDeleting, sn_StreamValidationStatus := ValFailed,
       sn_ChainValidationStatus := ValFailed,
       sn_FailureReason := Some (msg ''deletion in progress'')\<rparr>"

definition q_InvalidateSnapshotForDeletion :: "string \<Rightarrow> statement" where
  "q_InvalidateSnapshotForDeletion rid now = update_snapshots (\<lambda>s. sn_ID s = rid) for_deletion"

definition q_InvalidateDatasetSnapshotsForDeletion :: "string \<Rightarrow> statement" where
  "q_InvalidateDatasetSnapshotsForDeletion datasetID now =
     update_snapshots (\<lambda>s. sn_DatasetID s = datasetID) for_deletion"

definition q_UpdateSnapshotStreamValidationStatus :: "validation_status \<Rightarrow> string \<Rightarrow> statement" where
  "q_UpdateSnapshotStreamValidationStatus status rid now =
     update_snapshots (\<lambda>s. sn_ID s = rid) (\<lambda>s. s\<lparr>sn_StreamValidationStatus := status\<rparr>)"

definition q_UpdateSnapshotChainValidationStatus :: "validation_status \<Rightarrow> string \<Rightarrow> statement" where
  "q_UpdateSnapshotChainValidationStatus status rid now =
     update_snapshots (\<lambda>s. sn_ID s = rid) (\<lambda>s. s\<lparr>sn_ChainValidationStatus := status\<rparr>)"

definition q_DeleteSnapshot :: "string \<Rightarrow> statement" where
  "q_DeleteSnapshot rid now = delete_snapshots (\<lambda>s. sn_ID s = rid)"

text \<open>
  Deleting a dataset cascades to its upload sessions and its snapshots, and clears the
  operations' references to it.
\<close>

definition q_DeleteDataset :: "string \<Rightarrow> statement" where
  "q_DeleteDataset rid now c =
     (case delete_snapshots (\<lambda>s. sn_DatasetID s = rid)
             (delete_sessions (\<lambda>u. up_DatasetID u = rid) c) of
        Inl e \<Rightarrow> Inl e
      | Inr c' \<Rightarrow>
          Inr (c'\<lparr>datasets := filter (\<lambda>d. ds_ID d \<noteq> rid) (datasets c'),
                  operations := map (\<lambda>p. p\<lparr>op_DatasetID := nulled (\<lambda>i. i = rid) (op_DatasetID p)\<rparr>)
                                  (operations c')\<rparr>))"

section \<open>Upload sessions and chunks\<close>

definition q_CreateUploadSession ::
  "string \<Rightarrow> string \<Rightarrow> string option \<Rightarrow> string \<Rightarrow> string option \<Rightarrow> int \<Rightarrow> statement" where
  "q_CreateUploadSession rid datasetID snapshotID targetSnapshotName baseSnapshotID chunkSizeBytes now c =
     (if rid \<in> up_ID ` set (upload_sessions c) then Inl ErrUnique
      else if datasetID \<notin> ds_ID ` set (datasets c) \<or>
              \<not> null_or_in snapshotID (sn_ID ` set (snapshots c)) \<or>
              \<not> null_or_in baseSnapshotID (sn_ID ` set (snapshots c)) then Inl ErrForeignKey
      else Inr (c\<lparr>upload_sessions := upload_sessions c @
        [\<lparr>up_ID = rid, up_DatasetID = datasetID, up_SnapshotID = snapshotID,
          up_TargetSnapshotName = targetSnapshotName, up_BaseSnapshotID = baseSnapshotID,
          up_Status = UpUploading, up_ChunkSizeBytes = chunkSizeBytes, up_CurrentChunkIndex = 0,
          up_ChunksCompleted = 0, up_BytesReceived = 0, up_StreamSha256 = None,
          up_ManifestObjectKey = None, up_StartedAt = now, up_LastHeartbeatAt = now,
          up_CompletedAt = None, up_FailureReason = None\<rparr>]\<rparr>))"

definition update_sessions ::
  "string \<Rightarrow> (UploadSession \<Rightarrow> UploadSession) \<Rightarrow> catalog \<Rightarrow> error + catalog" where
  "update_sessions rid f c =
     Inr (c\<lparr>upload_sessions := update_where (\<lambda>u. up_ID u = rid) f (upload_sessions c)\<rparr>)"

definition q_UpdateUploadProgress :: "upload_status \<Rightarrow> int \<Rightarrow> int \<Rightarrow> int \<Rightarrow> string \<Rightarrow> statement" where
  "q_UpdateUploadProgress status currentChunkIndex chunksCompleted bytesReceived rid now =
     update_sessions rid
       (\<lambda>u. u\<lparr>up_Status := status, up_CurrentChunkIndex := currentChunkIndex,
              up_ChunksCompleted := chunksCompleted, up_BytesReceived := bytesReceived,
              up_LastHeartbeatAt := now\<rparr>)"

definition q_UpdateUploadStatus :: "upload_status \<Rightarrow> string \<Rightarrow> statement" where
  "q_UpdateUploadStatus status rid now =
     update_sessions rid (\<lambda>u. u\<lparr>up_Status := status, up_LastHeartbeatAt := now\<rparr>)"

definition q_SetUploadManifestObjectKey :: "string option \<Rightarrow> string \<Rightarrow> statement" where
  "q_SetUploadManifestObjectKey manifestKey rid now =
     update_sessions rid
       (\<lambda>u. u\<lparr>up_Status := UpCommittingCatalog, up_ManifestObjectKey := manifestKey,
              up_LastHeartbeatAt := now\<rparr>)"

definition q_CompleteUploadSession ::
  "int \<Rightarrow> int \<Rightarrow> string option \<Rightarrow> string option \<Rightarrow> string \<Rightarrow> statement" where
  "q_CompleteUploadSession bytesReceived chunksCompleted streamSha256 manifestKey rid now =
     update_sessions rid
       (\<lambda>u. u\<lparr>up_Status := UpComplete, up_BytesReceived := bytesReceived,
              up_ChunksCompleted := chunksCompleted, up_StreamSha256 := streamSha256,
              up_ManifestObjectKey := manifestKey, up_CompletedAt := Some now\<rparr>)"

definition q_FailUploadSession :: "string option \<Rightarrow> string \<Rightarrow> statement" where
  "q_FailUploadSession failureReason rid now =
     update_sessions rid
       (\<lambda>u. u\<lparr>up_Status := UpFailed, up_FailureReason := failureReason, up_CompletedAt := Some now\<rparr>)"

definition q_DeleteUploadSession :: "string \<Rightarrow> statement" where
  "q_DeleteUploadSession rid now c = Inr (delete_sessions (\<lambda>u. up_ID u = rid) c)"

definition q_DeleteUploadSessionsBySnapshot :: "string option \<Rightarrow> statement" where
  "q_DeleteUploadSessionsBySnapshot snapshotID now c =
     Inr (case snapshotID of
            None \<Rightarrow> c
          | Some i \<Rightarrow> delete_sessions (\<lambda>u. up_SnapshotID u = Some i) c)"

definition q_CreateSnapshotChunk ::
  "string \<Rightarrow> string \<Rightarrow> string \<Rightarrow> int \<Rightarrow> string \<Rightarrow> int \<Rightarrow> int \<Rightarrow> int \<Rightarrow> string \<Rightarrow> statement" where
  "q_CreateSnapshotChunk rid snapshotID uploadSessionID chunkIndex objectKey sizeBytes
       offsetStart offsetEnd sha256 now c =
     (if rid \<in> ck_ID ` set (snapshot_chunks c) \<or>
         (snapshotID, chunkIndex) \<in> (\<lambda>k. (ck_SnapshotID k, ck_ChunkIndex k)) ` set (snapshot_chunks c) \<or>
         objectKey \<in> ck_ObjectKey ` set (snapshot_chunks c) then Inl ErrUnique
      else if snapshotID \<notin> sn_ID ` set (snapshots c) \<or>
              uploadSessionID \<notin> up_ID ` set (upload_sessions c) then Inl ErrForeignKey
      else Inr (c\<lparr>snapshot_chunks := snapshot_chunks c @
        [\<lparr>ck_ID = rid, ck_SnapshotID = snapshotID, ck_UploadSessionID = uploadSessionID,
          ck_ChunkIndex = chunkIndex, ck_ObjectKey = objectKey, ck_SizeBytes = sizeBytes,
          ck_ZfsOffsetStart = offsetStart, ck_ZfsOffsetEnd = offsetEnd, ck_Sha256 = sha256,
          ck_Status = ChunkVerified, ck_CreatedAt = now, ck_CompletedAt = Some now\<rparr>]\<rparr>))"

section \<open>Operations, validation jobs and backups\<close>

definition q_CreateOperation ::
  "string \<Rightarrow> operation_type \<Rightarrow> operation_status \<Rightarrow> string option \<Rightarrow> string option \<Rightarrow> string option \<Rightarrow>
   string option \<Rightarrow> string option \<Rightarrow> string option \<Rightarrow> statement" where
  "q_CreateOperation rid typ status sourceID poolID datasetID snapshotID uploadSessionID summary now c =
     (if rid \<in> op_ID ` set (operations c) then Inl ErrUnique
      else if \<not> null_or_in sourceID (src_ID ` set (sources c)) \<or>
              \<not> null_or_in poolID (pl_ID ` set (pools c)) \<or>
              \<not> null_or_in datasetID (ds_ID ` set (datasets c)) \<or>
              \<not> null_or_in snapshotID (sn_ID ` set (snapshots c)) \<or>
              \<not> null_or_in uploadSessionID (up_ID ` set (upload_sessions c)) then Inl ErrForeignKey
      else Inr (c\<lparr>operations := operations c @
        [\<lparr>op_ID = rid, op_Type = typ, op_Status = status, op_SourceID = sourceID, op_PoolID = poolID,
          op_DatasetID = datasetID, op_SnapshotID = snapshotID, op_UploadSessionID = uploadSessionID,
          op_ValidationJobID = None, op_StartedAt = now, op_UpdatedAt = now, op_CompletedAt = None,
          op_Summary = summary, op_FailureReason = None\<rparr>]\<rparr>))"

definition q_CreateValidationOperation ::
  "string \<Rightarrow> string option \<Rightarrow> string option \<Rightarrow> string option \<Rightarrow> statement" where
  "q_CreateValidationOperation rid snapshotID validationJobID summary now c =
     (if rid \<in> op_ID ` set (operations c) then Inl ErrUnique
      else if \<not> null_or_in snapshotID (sn_ID ` set (snapshots c)) then Inl ErrForeignKey
      else Inr (c\<lparr>operations := operations c @
        [\<lparr>op_ID = rid, op_Type = OpValidation, op_Status = OpRunning, op_SourceID = None,
          op_PoolID = None, op_DatasetID = None, op_SnapshotID = snapshotID,
          op_UploadSessionID = None, op_ValidationJobID = validationJobID, op_StartedAt = now,
          op_UpdatedAt = now, op_CompletedAt = None, op_Summary = summary,
          op_FailureReason = None\<rparr>]\<rparr>))"

definition update_operations ::
  "(Operation \<Rightarrow> bool) \<Rightarrow> (Operation \<Rightarrow> Operation) \<Rightarrow> catalog \<Rightarrow> error + catalog" where
  "update_operations p f c = Inr (c\<lparr>operations := update_where p f (operations c)\<rparr>)"

definition q_UpdateOperationStatus ::
  "operation_status \<Rightarrow> string option \<Rightarrow> string option \<Rightarrow> string \<Rightarrow> statement" where
  "q_UpdateOperationStatus status summary failureReason rid now =
     update_operations (\<lambda>p. op_ID p = rid)
       (\<lambda>p. p\<lparr>op_Status := status, op_Summary := summary, op_FailureReason := failureReason,
              op_UpdatedAt := now, op_CompletedAt := Some now\<rparr>)"

definition q_MarkOperationRunning :: "string option \<Rightarrow> string \<Rightarrow> statement" where
  "q_MarkOperationRunning summary rid now =
     update_operations (\<lambda>p. op_ID p = rid)
       (\<lambda>p. p\<lparr>op_Status := OpRunning, op_Summary := summary, op_FailureReason := None,
              op_UpdatedAt := now, op_CompletedAt := None\<rparr>)"

definition q_FailOperationByUploadSession ::
  "string option \<Rightarrow> string option \<Rightarrow> string option \<Rightarrow> statement" where
  "q_FailOperationByUploadSession summary failureReason uploadSessionID now =
     update_operations
       (\<lambda>p. uploadSessionID \<noteq> None \<and> op_UploadSessionID p = uploadSessionID \<and>
            (op_Status p = OpQueued \<or> op_Status p = OpRunning))
       (\<lambda>p. p\<lparr>op_Status := OpFailed, op_Summary := summary, op_FailureReason := failureReason,
              op_UpdatedAt := now, op_CompletedAt := Some now\<rparr>)"

text \<open>The executors the schema's CHECK allows; any other makes the insert fail.\<close>

definition executors :: "string list" where
  "executors = [''local'', ''docker'', ''railway_sandbox'', ''external_vm'']"

definition q_CreateValidationJob ::
  "string \<Rightarrow> string option \<Rightarrow> validation_type \<Rightarrow> string \<Rightarrow> string option \<Rightarrow> statement" where
  "q_CreateValidationJob rid snapshotID typ executor resultSummary now c =
     (if executor \<notin> set executors then Inl (Errorf (msg ''CHECK constraint failed: validation_jobs'') [])
      else if rid \<in> vj_ID ` set (validation_jobs c) then Inl ErrUnique
      else if \<not> null_or_in snapshotID (sn_ID ` set (snapshots c)) then Inl ErrForeignKey
      else Inr (c\<lparr>validation_jobs := validation_jobs c @
        [\<lparr>vj_ID = rid, vj_SnapshotID = snapshotID, vj_Type = typ, vj_Executor = executor,
          vj_Status = JobRunning, vj_LogsObjectKey = None, vj_StartedAt = Some now,
          vj_CompletedAt = None, vj_ResultSummary = resultSummary\<rparr>]\<rparr>))"

definition finish_job :: "job_status \<Rightarrow> string option \<Rightarrow> string \<Rightarrow> statement" where
  "finish_job status resultSummary rid now c =
     Inr (c\<lparr>validation_jobs := update_where (\<lambda>v. vj_ID v = rid)
       (\<lambda>v. v\<lparr>vj_Status := status, vj_CompletedAt := Some now, vj_ResultSummary := resultSummary\<rparr>)
       (validation_jobs c)\<rparr>)"

definition q_CompleteValidationJob :: "string option \<Rightarrow> string \<Rightarrow> statement" where
  "q_CompleteValidationJob = finish_job JobSucceeded"

definition q_FailValidationJob :: "string option \<Rightarrow> string \<Rightarrow> statement" where
  "q_FailValidationJob = finish_job JobFailed"

definition q_CreateCatalogBackup ::
  "string \<Rightarrow> string option \<Rightarrow> string \<Rightarrow> string option \<Rightarrow> int \<Rightarrow> string \<Rightarrow> int \<Rightarrow> int option \<Rightarrow>
   backup_status \<Rightarrow> string option \<Rightarrow> statement" where
  "q_CreateCatalogBackup rid operationID objectKey metadataObjectKey sizeBytes checksum startedAt
       completedAt status failureReason now c =
     (if rid \<in> cb_ID ` set (catalog_backups c) then Inl ErrUnique
      else if \<not> null_or_in operationID (op_ID ` set (operations c)) then Inl ErrForeignKey
      else Inr (c\<lparr>catalog_backups := catalog_backups c @
        [\<lparr>cb_ID = rid, cb_OperationID = operationID, cb_ObjectKey = objectKey,
          cb_MetadataObjectKey = metadataObjectKey, cb_SizeBytes = sizeBytes,
          cb_ChecksumSha256 = checksum, cb_StartedAt = startedAt, cb_CompletedAt = completedAt,
          cb_Status = status, cb_FailureReason = failureReason\<rparr>]\<rparr>))"

definition q_DeleteCatalogBackup :: "string \<Rightarrow> statement" where
  "q_DeleteCatalogBackup rid now c =
     Inr (c\<lparr>catalog_backups := filter (\<lambda>b. cb_ID b \<noteq> rid) (catalog_backups c)\<rparr>)"

section \<open>The statements keep the invariant\<close>

definition stmt_ok :: "statement \<Rightarrow> bool" where
  "stmt_ok f \<longleftrightarrow> (\<forall>now c c'. catalog_ok c \<longrightarrow> f now c = Inr c' \<longrightarrow> catalog_ok c')"

lemmas invariant_defs = catalog_ok_def unique_ok_def references_ok_def

lemma update_snapshots_ok:
  assumes "\<And>now s. sn_ID (f now s) = sn_ID s" "\<And>now s. sn_DatasetID (f now s) = sn_DatasetID s"
    "\<And>now s. sn_Name (f now s) = sn_Name s"
    "\<And>now s. sn_ParentSnapshotID (f now s) = sn_ParentSnapshotID s"
  shows "stmt_ok (\<lambda>now. update_snapshots (p now) (f now))"
  using assms by (auto simp: stmt_ok_def update_snapshots_def catalog_ok_update_snapshots)

lemma update_sessions_ok:
  assumes "\<And>now u. up_ID (f now u) = up_ID u" "\<And>now u. up_DatasetID (f now u) = up_DatasetID u"
    "\<And>now u. up_SnapshotID (f now u) = up_SnapshotID u"
    "\<And>now u. up_BaseSnapshotID (f now u) = up_BaseSnapshotID u"
  shows "stmt_ok (\<lambda>now. update_sessions rid (f now))"
  using assms by (auto simp: stmt_ok_def update_sessions_def catalog_ok_update_sessions)

lemma update_operations_ok:
  assumes "\<And>now u. op_ID (f now u) = op_ID u" "\<And>now u. op_SourceID (f now u) = op_SourceID u"
    "\<And>now u. op_PoolID (f now u) = op_PoolID u" "\<And>now u. op_DatasetID (f now u) = op_DatasetID u"
    "\<And>now u. op_SnapshotID (f now u) = op_SnapshotID u"
    "\<And>now u. op_UploadSessionID (f now u) = op_UploadSessionID u"
  shows "stmt_ok (\<lambda>now. update_operations (p now) (f now))"
  using assms by (auto simp: stmt_ok_def update_operations_def catalog_ok_update_operations)

lemma null_or_in_Some: "null_or_in r keys \<longleftrightarrow> (\<forall>i. r = Some i \<longrightarrow> i \<in> keys)"
  by (cases r) (simp_all add: null_or_in_def)

lemma q_CommitSnapshot_ok [statement_rules]: "stmt_ok (q_CommitSnapshot x1 x2 x3 x4 x5 x6 x7 x8)"
  unfolding q_CommitSnapshot_def [abs_def] by (rule update_snapshots_ok) (simp_all add: for_deletion_def)

lemma q_FailSnapshot_ok [statement_rules]: "stmt_ok (q_FailSnapshot x1 x2)"
  unfolding q_FailSnapshot_def [abs_def] by (rule update_snapshots_ok) (simp_all add: for_deletion_def)

lemma q_InvalidateSnapshotForDeletion_ok [statement_rules]: "stmt_ok (q_InvalidateSnapshotForDeletion x1)"
  unfolding q_InvalidateSnapshotForDeletion_def [abs_def] by (rule update_snapshots_ok) (simp_all add: for_deletion_def)

lemma q_InvalidateDatasetSnapshotsForDeletion_ok [statement_rules]: "stmt_ok (q_InvalidateDatasetSnapshotsForDeletion x1)"
  unfolding q_InvalidateDatasetSnapshotsForDeletion_def [abs_def] by (rule update_snapshots_ok) (simp_all add: for_deletion_def)

lemma q_UpdateSnapshotStreamValidationStatus_ok [statement_rules]: "stmt_ok (q_UpdateSnapshotStreamValidationStatus x1 x2)"
  unfolding q_UpdateSnapshotStreamValidationStatus_def [abs_def] by (rule update_snapshots_ok) (simp_all add: for_deletion_def)

lemma q_UpdateSnapshotChainValidationStatus_ok [statement_rules]: "stmt_ok (q_UpdateSnapshotChainValidationStatus x1 x2)"
  unfolding q_UpdateSnapshotChainValidationStatus_def [abs_def] by (rule update_snapshots_ok) (simp_all add: for_deletion_def)

lemma q_UpdateUploadProgress_ok [statement_rules]: "stmt_ok (q_UpdateUploadProgress x1 x2 x3 x4 x5)"
  unfolding q_UpdateUploadProgress_def [abs_def] by (rule update_sessions_ok) simp_all

lemma q_UpdateUploadStatus_ok [statement_rules]: "stmt_ok (q_UpdateUploadStatus x1 x2)"
  unfolding q_UpdateUploadStatus_def [abs_def] by (rule update_sessions_ok) simp_all

lemma q_SetUploadManifestObjectKey_ok [statement_rules]: "stmt_ok (q_SetUploadManifestObjectKey x1 x2)"
  unfolding q_SetUploadManifestObjectKey_def [abs_def] by (rule update_sessions_ok) simp_all

lemma q_CompleteUploadSession_ok [statement_rules]: "stmt_ok (q_CompleteUploadSession x1 x2 x3 x4 x5)"
  unfolding q_CompleteUploadSession_def [abs_def] by (rule update_sessions_ok) simp_all

lemma q_FailUploadSession_ok [statement_rules]: "stmt_ok (q_FailUploadSession x1 x2)"
  unfolding q_FailUploadSession_def [abs_def] by (rule update_sessions_ok) simp_all

lemma q_UpdateOperationStatus_ok [statement_rules]: "stmt_ok (q_UpdateOperationStatus x1 x2 x3 x4)"
  unfolding q_UpdateOperationStatus_def [abs_def] by (rule update_operations_ok) simp_all

lemma q_MarkOperationRunning_ok [statement_rules]: "stmt_ok (q_MarkOperationRunning x1 x2)"
  unfolding q_MarkOperationRunning_def [abs_def] by (rule update_operations_ok) simp_all

lemma q_FailOperationByUploadSession_ok [statement_rules]: "stmt_ok (q_FailOperationByUploadSession x1 x2 x3)"
  unfolding q_FailOperationByUploadSession_def [abs_def] by (rule update_operations_ok) simp_all

lemma q_CreateSSHKey_ok [statement_rules]: "stmt_ok (q_CreateSSHKey x1 x2 x3 x4)"
  by (simp add: stmt_ok_def q_CreateSSHKey_def invariant_defs refs_insert refs_append null_or_in_Some
      parents_seen_append lineage_of_def image_image subset_insertI2)

lemma q_CreateAPIToken_ok [statement_rules]: "stmt_ok (q_CreateAPIToken x1 x2 x3 x4)"
  by (simp add: stmt_ok_def q_CreateAPIToken_def invariant_defs refs_insert refs_append null_or_in_Some
      parents_seen_append lineage_of_def image_image subset_insertI2)

lemma q_CreateSource_ok [statement_rules]: "stmt_ok (q_CreateSource x1 x2 x3)"
  by (simp add: stmt_ok_def q_CreateSource_def invariant_defs refs_insert refs_append null_or_in_Some
      parents_seen_append lineage_of_def image_image subset_insertI2)

lemma q_CreatePool_ok [statement_rules]: "stmt_ok (q_CreatePool x1 x2 x3)"
  by (simp add: stmt_ok_def q_CreatePool_def invariant_defs refs_insert refs_append null_or_in_Some
      parents_seen_append lineage_of_def image_image subset_insertI2)

lemma q_CreateDataset_ok [statement_rules]: "stmt_ok (q_CreateDataset x1 x2 x3 x4 x5)"
  by (simp add: stmt_ok_def q_CreateDataset_def invariant_defs refs_insert refs_append null_or_in_Some
      parents_seen_append lineage_of_def image_image subset_insertI2)

lemma q_CreatePendingSnapshot_ok [statement_rules]: "stmt_ok (q_CreatePendingSnapshot x1 x2 x3 x4)"
  by (simp add: stmt_ok_def q_CreatePendingSnapshot_def invariant_defs refs_insert refs_append null_or_in_Some
      parents_seen_append lineage_of_def image_image subset_insertI2)

lemma q_CreateUploadSession_ok [statement_rules]: "stmt_ok (q_CreateUploadSession x1 x2 x3 x4 x5 x6)"
  by (simp add: stmt_ok_def q_CreateUploadSession_def invariant_defs refs_insert refs_append null_or_in_Some
      parents_seen_append lineage_of_def image_image subset_insertI2)

lemma q_CreateSnapshotChunk_ok [statement_rules]: "stmt_ok (q_CreateSnapshotChunk x1 x2 x3 x4 x5 x6 x7 x8 x9)"
  by (simp add: stmt_ok_def q_CreateSnapshotChunk_def invariant_defs refs_insert refs_append null_or_in_Some
      parents_seen_append lineage_of_def image_image subset_insertI2)

lemma q_CreateOperation_ok [statement_rules]: "stmt_ok (q_CreateOperation x1 x2 x3 x4 x5 x6 x7 x8 x9)"
  by (simp add: stmt_ok_def q_CreateOperation_def invariant_defs refs_insert refs_append null_or_in_Some
      parents_seen_append lineage_of_def image_image subset_insertI2)

lemma q_CreateValidationOperation_ok [statement_rules]: "stmt_ok (q_CreateValidationOperation x1 x2 x3 x4)"
  by (simp add: stmt_ok_def q_CreateValidationOperation_def invariant_defs refs_insert refs_append null_or_in_Some
      parents_seen_append lineage_of_def image_image subset_insertI2)

lemma q_CreateValidationJob_ok [statement_rules]: "stmt_ok (q_CreateValidationJob x1 x2 x3 x4 x5)"
  by (simp add: stmt_ok_def q_CreateValidationJob_def invariant_defs refs_insert refs_append null_or_in_Some
      parents_seen_append lineage_of_def image_image subset_insertI2)

lemma q_CreateCatalogBackup_ok [statement_rules]: "stmt_ok (q_CreateCatalogBackup x1 x2 x3 x4 x5 x6 x7 x8 x9 x10)"
  by (simp add: stmt_ok_def q_CreateCatalogBackup_def invariant_defs refs_insert refs_append null_or_in_Some
      parents_seen_append lineage_of_def image_image subset_insertI2)

lemma q_TouchSSHKey_ok [statement_rules]: "stmt_ok (q_TouchSSHKey x1)"
  by (auto simp: stmt_ok_def q_TouchSSHKey_def invariant_defs update_where_simps)

lemma q_TouchAPIToken_ok [statement_rules]: "stmt_ok (q_TouchAPIToken x1)"
  by (auto simp: stmt_ok_def q_TouchAPIToken_def invariant_defs update_where_simps)

lemma q_RevokeAPIToken_ok [statement_rules]: "stmt_ok (q_RevokeAPIToken x1)"
  by (auto simp: stmt_ok_def q_RevokeAPIToken_def invariant_defs update_where_simps)

lemma q_TouchSource_ok [statement_rules]: "stmt_ok (q_TouchSource x1)"
  by (auto simp: stmt_ok_def q_TouchSource_def invariant_defs update_where_simps)

lemma q_TouchPool_ok [statement_rules]: "stmt_ok (q_TouchPool x1)"
  by (auto simp: stmt_ok_def q_TouchPool_def invariant_defs update_where_simps)

lemma q_TouchDataset_ok [statement_rules]: "stmt_ok (q_TouchDataset x1)"
  by (auto simp: stmt_ok_def q_TouchDataset_def invariant_defs update_where_simps)

lemma finish_job_ok [statement_rules]: "stmt_ok (finish_job x1 x2 x3)"
  by (auto simp: stmt_ok_def finish_job_def invariant_defs update_where_simps)

lemma q_CompleteValidationJob_ok [statement_rules]: "stmt_ok (q_CompleteValidationJob x1 x2)"
  unfolding q_CompleteValidationJob_def by (rule finish_job_ok)

lemma q_FailValidationJob_ok [statement_rules]: "stmt_ok (q_FailValidationJob x1 x2)"
  unfolding q_FailValidationJob_def by (rule finish_job_ok)

lemma q_DeleteSSHKey_ok [statement_rules]: "stmt_ok (q_DeleteSSHKey x1)"
  by (simp add: stmt_ok_def q_DeleteSSHKey_def invariant_defs distinct_map_filter)

lemma q_DeleteAppSetting_ok [statement_rules]: "stmt_ok (q_DeleteAppSetting x1)"
  by (simp add: stmt_ok_def q_DeleteAppSetting_def invariant_defs distinct_map_filter)

lemma q_DeleteCatalogBackup_ok [statement_rules]: "stmt_ok (q_DeleteCatalogBackup x1)"
  by (simp add: stmt_ok_def q_DeleteCatalogBackup_def invariant_defs distinct_map_filter) (auto simp: refs_def)

lemma q_UpsertAppSetting_ok [statement_rules]: "stmt_ok (q_UpsertAppSetting x1 x2)"
  by (simp add: stmt_ok_def q_UpsertAppSetting_def invariant_defs update_where_simps)

lemma q_EnsureAdminCredentials_ok [statement_rules]: "stmt_ok (q_EnsureAdminCredentials x1)"
  by (simp add: stmt_ok_def q_EnsureAdminCredentials_def invariant_defs split: option.splits)

lemma q_UpdateAdminPasswordHash_ok [statement_rules]: "stmt_ok (q_UpdateAdminPasswordHash x1)"
  by (simp add: stmt_ok_def q_UpdateAdminPasswordHash_def invariant_defs split: option.splits)

lemma q_DeleteSnapshot_ok [statement_rules]: "stmt_ok (q_DeleteSnapshot x1)"
  by (auto simp: stmt_ok_def q_DeleteSnapshot_def dest: delete_snapshots_ok)

lemma q_DeleteUploadSession_ok [statement_rules]: "stmt_ok (q_DeleteUploadSession x1)"
  by (auto simp: stmt_ok_def q_DeleteUploadSession_def delete_sessions_ok)

lemma q_DeleteUploadSessionsBySnapshot_ok [statement_rules]: "stmt_ok (q_DeleteUploadSessionsBySnapshot x1)"
  by (auto simp: stmt_ok_def q_DeleteUploadSessionsBySnapshot_def delete_sessions_ok split: option.splits)

text \<open>The dataset delete: its snapshots and sessions are gone, so nothing refers to it any more.\<close>

lemma delete_snapshots_fields:
  assumes "delete_snapshots P c = Inr c'"
  shows "sources c' = sources c" "pools c' = pools c" "datasets c' = datasets c"
    "snapshots c' = filter (\<lambda>s. \<not> P s) (snapshots c)"
    "map up_DatasetID (upload_sessions c') = map up_DatasetID (upload_sessions c)"
  using assms by (auto simp: delete_snapshots_def Let_def split: if_splits)

lemma delete_sessions_fields:
  "datasets (delete_sessions P c) = datasets c"
  "snapshots (delete_sessions P c) = snapshots c"
  "upload_sessions (delete_sessions P c) = filter (\<lambda>u. \<not> P u) (upload_sessions c)"
  by (simp_all add: delete_sessions_def Let_def)

lemma remove_dataset_ok:
  assumes ok: "catalog_ok c"
    and "\<forall>s \<in> set (snapshots c). sn_DatasetID s \<noteq> rid"
    and "\<forall>u \<in> set (upload_sessions c). up_DatasetID u \<noteq> rid"
  shows "catalog_ok (c\<lparr>datasets := filter (\<lambda>d. ds_ID d \<noteq> rid) (datasets c),
    operations := map (\<lambda>p. p\<lparr>op_DatasetID := nulled (\<lambda>i. i = rid) (op_DatasetID p)\<rparr>) (operations c)\<rparr>)"
proof -
  let ?live = "ds_ID ` set (filter (\<lambda>d. ds_ID d \<noteq> rid) (datasets c))"
  let ?ops = "map (\<lambda>p. p\<lparr>op_DatasetID := nulled (\<lambda>i. i = rid) (op_DatasetID p)\<rparr>) (operations c)"
  have live: "?live = ds_ID ` set (datasets c) - {rid}" by auto
  note u = ok [unfolded invariant_defs]
  have "sn_DatasetID ` set (snapshots c) \<subseteq> ds_ID ` set (datasets c)"
    and "up_DatasetID ` set (upload_sessions c) \<subseteq> ds_ID ` set (datasets c)" using u by simp_all
  then have "sn_DatasetID ` set (snapshots c) \<subseteq> ?live" "up_DatasetID ` set (upload_sessions c) \<subseteq> ?live"
    unfolding live using assms(2,3) by auto
  moreover have "refs op_DatasetID (operations c) (ds_ID ` set (datasets c))" using u by blast
  then have "refs op_DatasetID ?ops ?live"
    unfolding live by (auto simp: refs_def nulled_def split: option.splits if_splits)
  moreover have "refs op_SourceID ?ops X = refs op_SourceID (operations c) X"
    "refs op_PoolID ?ops X = refs op_PoolID (operations c) X"
    "refs op_SnapshotID ?ops X = refs op_SnapshotID (operations c) X"
    "refs op_UploadSessionID ?ops X = refs op_UploadSessionID (operations c) X"
    "map op_ID ?ops = map op_ID (operations c)" "op_ID ` set ?ops = op_ID ` set (operations c)" for X
    by (simp_all add: refs_def image_image)
  moreover have "distinct (map ds_ID (filter (\<lambda>d. ds_ID d \<noteq> rid) (datasets c)))"
    "distinct (map (\<lambda>d. (ds_SourceID d, ds_PoolID d, ds_Path d)) (filter (\<lambda>d. ds_ID d \<noteq> rid) (datasets c)))"
    "ds_SourceID ` set (filter (\<lambda>d. ds_ID d \<noteq> rid) (datasets c)) \<subseteq> src_ID ` set (sources c)"
    "ds_PoolID ` set (filter (\<lambda>d. ds_ID d \<noteq> rid) (datasets c)) \<subseteq> pl_ID ` set (pools c)"
    using u by (auto simp: distinct_map_filter)
  ultimately show ?thesis using u unfolding invariant_defs by (simp del: set_filter set_map map_map)
qed

lemma q_DeleteDataset_ok [statement_rules]: "stmt_ok (q_DeleteDataset rid)"
  unfolding stmt_ok_def
proof (intro allI impI)
  fix now c c'
  assume ok: "catalog_ok c" and del: "q_DeleteDataset rid now c = Inr c'"
  let ?c1 = "delete_sessions (\<lambda>u. up_DatasetID u = rid) c"
  obtain c2 where c2: "delete_snapshots (\<lambda>s. sn_DatasetID s = rid) ?c1 = Inr c2"
    and c': "c' = c2\<lparr>datasets := filter (\<lambda>d. ds_ID d \<noteq> rid) (datasets c2),
      operations := map (\<lambda>p. p\<lparr>op_DatasetID := nulled (\<lambda>i. i = rid) (op_DatasetID p)\<rparr>) (operations c2)\<rparr>"
    using del by (auto simp: q_DeleteDataset_def split: sum.splits)
  have "catalog_ok c2" using delete_sessions_ok [OF ok] c2 by (rule delete_snapshots_ok)
  moreover have "\<forall>s \<in> set (snapshots c2). sn_DatasetID s \<noteq> rid"
    using delete_snapshots_fields(4) [OF c2] by simp
  moreover have "set (map up_DatasetID (upload_sessions c2)) =
      set (map up_DatasetID (filter (\<lambda>u. up_DatasetID u \<noteq> rid) (upload_sessions c)))"
    using delete_snapshots_fields(5) [OF c2] by (simp only: delete_sessions_fields)
  then have "\<forall>u \<in> set (upload_sessions c2). up_DatasetID u \<noteq> rid" by force
  ultimately show "catalog_ok c'" unfolding c' by (rule remove_dataset_ok)
qed

end
