(* ===== verification/Catalog_Reads.thy ===== *)
theory Catalog_Reads
  imports Catalog_Queries
begin

text \<open>
  The queries of \<open>src/internal/catalog/db/catalog.sql.go\<close> that read the catalog. A \<open>:one\<close>
  query gives \<open>sql.ErrNoRows\<close> when nothing matches; \<open>ORDER BY\<close> is a stable sort of the
  rows in insertion order; a join takes the row a foreign key names.

  The two recursive queries walk the parent links. SQLite does not bound them, so the model
  walks with fuel and gives \<open>Diverges\<close> when it is used up: on a catalog that satisfies the
  invariant the fuel, one more than the number of rows, is always enough.
\<close>

section \<open>Lookups\<close>

definition one_row :: "'r option \<Rightarrow> error + 'r" where
  "one_row r = (case r of None \<Rightarrow> Inl ErrNoRows | Some x \<Rightarrow> Inr x)"

definition sort_desc :: "('r \<Rightarrow> int) \<Rightarrow> 'r list \<Rightarrow> 'r list" where
  "sort_desc key rows = sort_key (\<lambda>r. - key r) rows"

definition q_GetAdminCredentials :: "AdminCredential query" where
  "q_GetAdminCredentials now c = one_row (admin_credentials c)"

definition q_GetSSHKeyByFingerprint :: "string \<Rightarrow> SshKey query" where
  "q_GetSSHKeyByFingerprint fingerprint now c =
     one_row (find (\<lambda>k. sk_FingerprintSha256 k = fingerprint) (ssh_keys c))"

definition q_ListSSHKeys :: "SshKey list query" where
  "q_ListSSHKeys now c = Inr (sort_desc sk_CreatedAt (ssh_keys c))"

text \<open>\<open>ORDER BY key\<close>, on the two keys the CHECK of the column allows.\<close>

definition q_ListAppSettings :: "AppSetting list query" where
  "q_ListAppSettings now c =
     Inr (sort_key (\<lambda>a. if as_Key a = ''max_incremental_chain_depth'' then 0 else 1 :: nat) (app_settings c))"

text \<open>The token columns that are read: all but the hash.\<close>

record ApiTokenRow =
  atr_ID :: string
  atr_Name :: string
  atr_TokenPrefix :: string
  atr_CreatedAt :: int
  atr_LastUsedAt :: "int option"
  atr_RevokedAt :: "int option"

definition token_row :: "ApiToken \<Rightarrow> ApiTokenRow" where
  "token_row t =
     \<lparr>atr_ID = at_ID t, atr_Name = at_Name t, atr_TokenPrefix = at_TokenPrefix t,
      atr_CreatedAt = at_CreatedAt t, atr_LastUsedAt = at_LastUsedAt t, atr_RevokedAt = at_RevokedAt t\<rparr>"

definition q_ListAPITokens :: "ApiTokenRow list query" where
  "q_ListAPITokens now c = Inr (map token_row (sort_desc at_CreatedAt (api_tokens c)))"

definition q_GetActiveAPITokenByHash :: "string \<Rightarrow> ApiTokenRow query" where
  "q_GetActiveAPITokenByHash tokenHash now c =
     one_row (map_option token_row
       (find (\<lambda>t. at_TokenHash t = tokenHash \<and> at_RevokedAt t = None) (api_tokens c)))"

definition q_GetSourceByName :: "string \<Rightarrow> Source query" where
  "q_GetSourceByName name now c = one_row (find (\<lambda>s. src_Name s = name) (sources c))"

definition q_GetPoolByName :: "string \<Rightarrow> string \<Rightarrow> Pool query" where
  "q_GetPoolByName sourceID name now c =
     one_row (find (\<lambda>p. pl_SourceID p = sourceID \<and> pl_Name p = name) (pools c))"

definition q_GetDatasetByPath :: "string \<Rightarrow> string \<Rightarrow> string \<Rightarrow> Dataset query" where
  "q_GetDatasetByPath sourceID poolID path now c =
     one_row (find (\<lambda>d. ds_SourceID d = sourceID \<and> ds_PoolID d = poolID \<and> ds_Path d = path) (datasets c))"

definition q_GetSnapshotByName :: "string \<Rightarrow> string \<Rightarrow> Snapshot query" where
  "q_GetSnapshotByName datasetID name now c =
     one_row (find (\<lambda>s. sn_DatasetID s = datasetID \<and> sn_Name s = name) (snapshots c))"

section \<open>Joins\<close>

text \<open>\<open>JOIN datasets d ... JOIN sources src ... JOIN pools p\<close>: the dataset row with its names.\<close>

record dataset_names =
  dn_dataset :: Dataset
  dn_source :: string
  dn_pool :: string

definition join_dataset :: "catalog \<Rightarrow> string \<Rightarrow> dataset_names option" where
  "join_dataset c datasetID =
     (case find (\<lambda>d. ds_ID d = datasetID) (datasets c) of
        None \<Rightarrow> None
      | Some d \<Rightarrow>
          (case (find (\<lambda>s. src_ID s = ds_SourceID d) (sources c),
                 find (\<lambda>p. pl_ID p = ds_PoolID d) (pools c)) of
             (Some s, Some p) \<Rightarrow> Some \<lparr>dn_dataset = d, dn_source = src_Name s, dn_pool = pl_Name p\<rparr>
           | _ \<Rightarrow> None))"

definition in_dataset :: "catalog \<Rightarrow> string \<Rightarrow> string \<Rightarrow> string \<Rightarrow> Snapshot \<Rightarrow> bool" where
  "in_dataset c source pool path s =
     (case join_dataset c (sn_DatasetID s) of
        None \<Rightarrow> False
      | Some j \<Rightarrow> dn_source j = source \<and> dn_pool j = pool \<and> ds_Path (dn_dataset j) = path)"

record GetCommittedSnapshotByToGUIDRow =
  gcs_ID :: string
  gcs_Name :: string
  gcs_Status :: snapshot_status
  gcs_StreamToGuid :: string

definition q_GetCommittedSnapshotByToGUID ::
  "string \<Rightarrow> string \<Rightarrow> string \<Rightarrow> string \<Rightarrow> GetCommittedSnapshotByToGUIDRow query" where
  "q_GetCommittedSnapshotByToGUID source pool path guid now c =
     one_row (map_option
       (\<lambda>s. \<lparr>gcs_ID = sn_ID s, gcs_Name = sn_Name s, gcs_Status = sn_Status s,
             gcs_StreamToGuid = sn_StreamToGuid s\<rparr>)
       (find (\<lambda>s. in_dataset c source pool path s \<and> sn_StreamToGuid s = guid \<and>
                  sn_Status s = SnapCommitted) (snapshots c)))"

record GetDatasetDetailRow =
  gdd_DatasetID :: string
  gdd_SourceName :: string
  gdd_PoolName :: string
  gdd_DatasetPath :: string
  gdd_CreatedAt :: int
  gdd_LastSeenAt :: "int option"

definition q_GetDatasetDetail :: "string \<Rightarrow> GetDatasetDetailRow query" where
  "q_GetDatasetDetail rid now c =
     one_row (map_option
       (\<lambda>j. \<lparr>gdd_DatasetID = ds_ID (dn_dataset j), gdd_SourceName = dn_source j,
             gdd_PoolName = dn_pool j, gdd_DatasetPath = ds_Path (dn_dataset j),
             gdd_CreatedAt = ds_CreatedAt (dn_dataset j),
             gdd_LastSeenAt = ds_LastSeenAt (dn_dataset j)\<rparr>)
       (join_dataset c rid))"

record GetSnapshotDetailRow =
  gsd_Snapshot :: Snapshot
  gsd_DatasetID :: string
  gsd_DatasetPath :: string
  gsd_SourceName :: string
  gsd_PoolName :: string

definition q_GetSnapshotDetail :: "string \<Rightarrow> GetSnapshotDetailRow query" where
  "q_GetSnapshotDetail rid now c =
     one_row (case find (\<lambda>s. sn_ID s = rid) (snapshots c) of
        None \<Rightarrow> None
      | Some s \<Rightarrow>
          map_option
            (\<lambda>j. \<lparr>gsd_Snapshot = s, gsd_DatasetID = ds_ID (dn_dataset j),
                  gsd_DatasetPath = ds_Path (dn_dataset j), gsd_SourceName = dn_source j,
                  gsd_PoolName = dn_pool j\<rparr>)
            (join_dataset c (sn_DatasetID s)))"

record ListCommittedSnapshotsForIdentityRow =
  lcs_ID :: string
  lcs_Name :: string
  lcs_ParentSnapshotName :: "string option"
  lcs_ManifestObjectKey :: "string option"
  lcs_Status :: snapshot_status
  lcs_StreamValidationStatus :: validation_status
  lcs_ChainValidationStatus :: validation_status
  lcs_StreamSha256 :: "string option"
  lcs_StreamFromGuid :: string
  lcs_StreamToGuid :: string
  lcs_ChunkCount :: int
  lcs_UploadCompletedAt :: "int option"

definition q_ListCommittedSnapshotsForIdentity ::
  "string \<Rightarrow> string \<Rightarrow> string \<Rightarrow> ListCommittedSnapshotsForIdentityRow list query" where
  "q_ListCommittedSnapshotsForIdentity source pool path now c =
     Inr (map
       (\<lambda>s. \<lparr>lcs_ID = sn_ID s, lcs_Name = sn_Name s,
             lcs_ParentSnapshotName =
               (case sn_ParentSnapshotID s of
                  None \<Rightarrow> None
                | Some i \<Rightarrow> map_option sn_Name (find (\<lambda>t. sn_ID t = i) (snapshots c))),
             lcs_ManifestObjectKey = sn_ManifestObjectKey s, lcs_Status = sn_Status s,
             lcs_StreamValidationStatus = sn_StreamValidationStatus s,
             lcs_ChainValidationStatus = sn_ChainValidationStatus s,
             lcs_StreamSha256 = sn_StreamSha256 s, lcs_StreamFromGuid = sn_StreamFromGuid s,
             lcs_StreamToGuid = sn_StreamToGuid s, lcs_ChunkCount = sn_ChunkCount s,
             lcs_UploadCompletedAt = sn_UploadCompletedAt s\<rparr>)
       (sort_key sn_CreatedAt
         (filter (\<lambda>s. in_dataset c source pool path s \<and> sn_Status s = SnapCommitted \<and>
                      sn_ManifestObjectKey s \<noteq> None) (snapshots c))))"

section \<open>Object keys, chunks and sessions\<close>

definition manifest_keys :: "Snapshot list \<Rightarrow> string list" where
  "manifest_keys rows =
     concat (map (\<lambda>s. case sn_ManifestObjectKey s of None \<Rightarrow> [] | Some k \<Rightarrow> if k = [] then [] else [k]) rows)"

text \<open>\<open>UNION\<close> removes duplicates.\<close>

definition q_ListSnapshotObjectKeys :: "string \<Rightarrow> string list query" where
  "q_ListSnapshotObjectKeys snapshotID now c =
     Inr (remdups (map ck_ObjectKey (filter (\<lambda>k. ck_SnapshotID k = snapshotID) (snapshot_chunks c)) @
       manifest_keys (filter (\<lambda>s. sn_ID s = snapshotID) (snapshots c))))"

definition q_ListDatasetObjectKeys :: "string \<Rightarrow> string list query" where
  "q_ListDatasetObjectKeys datasetID now c =
     Inr (remdups (map ck_ObjectKey
         (filter (\<lambda>k. \<exists>s \<in> set (snapshots c). sn_ID s = ck_SnapshotID k \<and> sn_DatasetID s = datasetID)
           (snapshot_chunks c)) @
       manifest_keys (filter (\<lambda>s. sn_DatasetID s = datasetID) (snapshots c))))"

definition q_ListSnapshotChunks :: "string \<Rightarrow> SnapshotChunk list query" where
  "q_ListSnapshotChunks snapshotID now c =
     Inr (sort_key ck_ChunkIndex (filter (\<lambda>k. ck_SnapshotID k = snapshotID) (snapshot_chunks c)))"

definition q_ListUploadSessionChunks :: "string \<Rightarrow> SnapshotChunk list query" where
  "q_ListUploadSessionChunks uploadID now c =
     Inr (sort_key ck_ChunkIndex (filter (\<lambda>k. ck_UploadSessionID k = uploadID) (snapshot_chunks c)))"

text \<open>\<open>LIMIT n\<close>; a negative limit is no limit.\<close>

definition limit_rows :: "int \<Rightarrow> 'r list \<Rightarrow> 'r list" where
  "limit_rows n rows = (if n < 0 then rows else take (nat n) rows)"

definition active_status :: "upload_status \<Rightarrow> bool" where
  "active_status st \<longleftrightarrow>
     st \<in> {UpPending, UpUploading, UpWritingChunk, UpCommittingManifest, UpCommittingCatalog}"

definition q_ListStaleUploadSessions :: "int \<Rightarrow> int \<Rightarrow> UploadSession list query" where
  "q_ListStaleUploadSessions cutoff lim now c =
     Inr (limit_rows lim (sort_key up_LastHeartbeatAt
       (filter (\<lambda>u. active_status (up_Status u) \<and> up_LastHeartbeatAt u < cutoff) (upload_sessions c))))"

text \<open>\<open>coalesce(completed_at, last_heartbeat_at, started_at)\<close>; the second column is never NULL.\<close>

definition ended_at :: "UploadSession \<Rightarrow> int" where
  "ended_at u = (case up_CompletedAt u of Some t \<Rightarrow> t | None \<Rightarrow> up_LastHeartbeatAt u)"

definition q_ListAbandonedUploadSessions :: "int \<Rightarrow> int \<Rightarrow> UploadSession list query" where
  "q_ListAbandonedUploadSessions cutoff lim now c =
     Inr (limit_rows lim (sort_key ended_at
       (filter (\<lambda>u. up_Status u \<in> {UpFailed, UpAborted} \<and> ended_at u < cutoff) (upload_sessions c))))"

section \<open>Operations, validation and backups\<close>

record ListPendingCleanupOperationsRow =
  lpc_ID :: string
  lpc_DatasetID :: "string option"
  lpc_SnapshotID :: "string option"

definition q_ListPendingCleanupOperations :: "int \<Rightarrow> ListPendingCleanupOperationsRow list query" where
  "q_ListPendingCleanupOperations lim now c =
     Inr (map (\<lambda>p. \<lparr>lpc_ID = op_ID p, lpc_DatasetID = op_DatasetID p, lpc_SnapshotID = op_SnapshotID p\<rparr>)
       (limit_rows lim (sort_key op_StartedAt
         (filter (\<lambda>p. op_Type p = OpCleanup \<and> op_Status p \<in> {OpQueued, OpRunning}) (operations c)))))"

definition day_ms :: int where
  "day_ms = 24 * 60 * 60 * 1000"

definition recently_validated :: "int \<Rightarrow> catalog \<Rightarrow> Snapshot \<Rightarrow> bool" where
  "recently_validated now c s \<longleftrightarrow>
     (\<exists>v \<in> set (validation_jobs c). vj_SnapshotID v = Some (sn_ID s) \<and> vj_Type v = RestoreCheck \<and>
        vj_Status v = JobSucceeded \<and>
        (case vj_CompletedAt v of None \<Rightarrow> False | Some t \<Rightarrow> now - day_ms \<le> t))"

definition q_ListSnapshotsDueForValidation :: "int \<Rightarrow> string list query" where
  "q_ListSnapshotsDueForValidation lim now c =
     Inr (map sn_ID (limit_rows lim (sort_key
       (\<lambda>s. case sn_UploadCompletedAt s of Some t \<Rightarrow> t | None \<Rightarrow> sn_CreatedAt s)
       (filter (\<lambda>s. sn_Status s = SnapCommitted \<and>
            (sn_ChainValidationStatus s \<noteq> ValSucceeded \<or> \<not> recently_validated now c s))
         (snapshots c)))))"

definition q_GetLatestCatalogBackup :: "CatalogBackup query" where
  "q_GetLatestCatalogBackup now c =
     (case sort_desc cb_StartedAt (catalog_backups c) of [] \<Rightarrow> Inl ErrNoRows | b # _ \<Rightarrow> Inr b)"

definition q_ListCatalogBackupsOlderThan :: "int \<Rightarrow> int \<Rightarrow> CatalogBackup list query" where
  "q_ListCatalogBackupsOlderThan cutoff lim now c =
     Inr (limit_rows lim (sort_key cb_StartedAt
       (filter (\<lambda>b. cb_StartedAt b < cutoff) (catalog_backups c))))"

section \<open>Counts\<close>

definition count_where :: "('r \<Rightarrow> bool) \<Rightarrow> 'r list \<Rightarrow> int" where
  "count_where p rows = int (length (filter p rows))"

definition q_CountCommittedSnapshots :: "int query" where
  "q_CountCommittedSnapshots now c = Inr (count_where (\<lambda>s. sn_Status s = SnapCommitted) (snapshots c))"

definition q_CountSources :: "int query" where
  "q_CountSources now c = Inr (count_where (\<lambda>_. True) (sources c))"

definition q_CountDatasets :: "int query" where
  "q_CountDatasets now c = Inr (count_where (\<lambda>_. True) (datasets c))"

definition q_CountFailedUploads :: "int query" where
  "q_CountFailedUploads now c = Inr (count_where (\<lambda>u. up_Status u = UpFailed) (upload_sessions c))"

definition q_CountFailedValidations :: "int query" where
  "q_CountFailedValidations now c =
     Inr (count_where (\<lambda>s. sn_Status s = SnapCommitted \<and> sn_ChainValidationStatus s = ValFailed) (snapshots c))"

text \<open>SQLite's \<open>sum\<close> of an integer column fails on overflow.\<close>

definition q_SumStoredBytes :: "int query" where
  "q_SumStoredBytes now c =
     (let tot = sum_list (map sn_StoredBytes (filter (\<lambda>s. sn_Status s = SnapCommitted) (snapshots c)))
      in if in_int64 tot then Inr tot else Inl (Errorf (msg ''integer overflow'') []))"

section \<open>Chains\<close>

record ListSnapshotRestoreChainRow =
  rc_ID :: string
  rc_Name :: string
  rc_ParentSnapshotID :: "string option"
  rc_ManifestObjectKey :: "string option"
  rc_Status :: snapshot_status

definition chain_row :: "Snapshot \<Rightarrow> ListSnapshotRestoreChainRow" where
  "chain_row s =
     \<lparr>rc_ID = sn_ID s, rc_Name = sn_Name s, rc_ParentSnapshotID = sn_ParentSnapshotID s,
      rc_ManifestObjectKey = sn_ManifestObjectKey s, rc_Status = sn_Status s\<rparr>"

fun chain_walk :: "nat \<Rightarrow> Snapshot list \<Rightarrow> string option \<Rightarrow> Snapshot list option" where
  "chain_walk n rows None = Some []"
| "chain_walk 0 rows (Some i) = None"
| "chain_walk (Suc n) rows (Some i) =
     (case find (\<lambda>s. sn_ID s = i) rows of
        None \<Rightarrow> Some []
      | Some s \<Rightarrow> map_option (Cons s) (chain_walk n rows (sn_ParentSnapshotID s)))"

definition q_ListSnapshotRestoreChain :: "string \<Rightarrow> ListSnapshotRestoreChainRow list query" where
  "q_ListSnapshotRestoreChain rid now c =
     (case chain_walk (length (snapshots c) + 1) (snapshots c) (Some rid) of
        None \<Rightarrow> Inl Diverges
      | Some chain \<Rightarrow> Inr (map chain_row (rev chain)))"

definition committed_children :: "Snapshot list \<Rightarrow> string \<Rightarrow> Snapshot list" where
  "committed_children rows i =
     filter (\<lambda>s. sn_ParentSnapshotID s = Some i \<and> sn_Status s = SnapCommitted) rows"

record SnapshotRefRow =
  sr_ID :: string
  sr_Name :: string

definition q_ListCommittedChildSnapshots :: "string option \<Rightarrow> SnapshotRefRow list query" where
  "q_ListCommittedChildSnapshots parent now c =
     Inr (map (\<lambda>s. \<lparr>sr_ID = sn_ID s, sr_Name = sn_Name s\<rparr>)
       (sort_key sn_CreatedAt
         (case parent of None \<Rightarrow> [] | Some i \<Rightarrow> committed_children (snapshots c) i)))"

fun descendants :: "nat \<Rightarrow> Snapshot list \<Rightarrow> string \<Rightarrow> Snapshot list option" where
  "descendants 0 rows i = None"
| "descendants (Suc n) rows i =
     (let kids = committed_children rows i in
      map_option (\<lambda>ls. kids @ concat ls) (those (map (\<lambda>k. descendants n rows (sn_ID k)) kids)))"

definition q_CountCommittedDescendants :: "string option \<Rightarrow> int query" where
  "q_CountCommittedDescendants parent now c =
     (case parent of
        None \<Rightarrow> Inr 0
      | Some i \<Rightarrow>
          (case descendants (length (snapshots c) + 1) (snapshots c) i of
             None \<Rightarrow> Inl Diverges
           | Some ds \<Rightarrow> Inr (int (length ds))))"

section \<open>The chains are finite\<close>

lemma parents_seen_nth:
  "parents_seen seen rows \<Longrightarrow> j < length rows \<Longrightarrow> snd (rows ! j) = Some q \<Longrightarrow>
     q \<in> seen \<or> (\<exists>i < j. fst (rows ! i) = q)"
proof (induction rows arbitrary: seen j)
  case (Cons r rows)
  obtain i p where r: "r = (i, p)" by (cases r)
  show ?case
  proof (cases j)
    case 0
    then show ?thesis using Cons.prems by (simp add: r)
  next
    case (Suc k)
    then have "q \<in> insert i seen \<or> (\<exists>l < k. fst (rows ! l) = q)"
      using Cons.IH [of "insert i seen" k] Cons.prems by (simp add: r)
    moreover have "l < k \<Longrightarrow> fst (rows ! l) = q \<Longrightarrow> \<exists>l < j. fst ((r # rows) ! l) = q" for l
      using Suc by (intro exI [of _ "Suc l"]) simp
    moreover have "q = i \<Longrightarrow> \<exists>l < j. fst ((r # rows) ! l) = q"
      using Suc by (intro exI [of _ 0]) (simp add: r)
    ultimately show ?thesis by blast
  qed
qed simp

lemma parent_before:
  assumes "catalog_ok c" and "j < length (snapshots c)"
    and "sn_ParentSnapshotID (snapshots c ! j) = Some q"
  shows "\<exists>i < j. sn_ID (snapshots c ! i) = q"
proof -
  have "parents_seen {} (map lineage_of (snapshots c))" using assms(1) by (simp add: catalog_ok_def)
  from parents_seen_nth [OF this, of j q] show ?thesis
    using assms(2,3) by (auto simp: lineage_of_def)
qed

lemma find_snapshot:
  assumes "catalog_ok c" and "s \<in> set (snapshots c)"
  shows "find (\<lambda>t. sn_ID t = sn_ID s) (snapshots c) = Some s"
  using assms by (intro find_Some_iff_mem) (simp_all add: catalog_ok_def unique_ok_def)

text \<open>A chain, child first: each row is followed by its parent, the last row has none.\<close>

fun linked :: "Snapshot list \<Rightarrow> bool" where
  "linked [] \<longleftrightarrow> True"
| "linked [s] \<longleftrightarrow> sn_ParentSnapshotID s = None"
| "linked (s # t # r) \<longleftrightarrow> sn_ParentSnapshotID s = Some (sn_ID t) \<and> linked (t # r)"

lemma chain_walk_linked:
  assumes ok: "catalog_ok c"
  shows "j < length (snapshots c) \<Longrightarrow> j < n \<Longrightarrow>
    \<exists>ch. chain_walk n (snapshots c) (Some (sn_ID (snapshots c ! j))) = Some (snapshots c ! j # ch) \<and>
      linked (snapshots c ! j # ch) \<and> set ch \<subseteq> {snapshots c ! i | i. i < j} \<and> distinct ch"
proof (induction j arbitrary: n rule: less_induct)
  case (less j)
  let ?rows = "snapshots c"
  let ?s = "?rows ! j"
  obtain m where n: "n = Suc m" using less.prems by (cases n) simp_all
  have find: "find (\<lambda>t. sn_ID t = sn_ID ?s) ?rows = Some ?s"
    using find_snapshot [OF ok] less.prems(1) by simp
  show ?case
  proof (cases "sn_ParentSnapshotID ?s")
    case None
    then show ?thesis using find by (simp add: n)
  next
    case (Some q)
    then obtain i where i: "i < j" "sn_ID (?rows ! i) = q"
      using parent_before [OF ok less.prems(1)] by blast
    then obtain ch where ch: "chain_walk m ?rows (Some q) = Some (?rows ! i # ch)"
        "linked (?rows ! i # ch)" "set ch \<subseteq> {?rows ! k | k. k < i}" "distinct ch"
      using less.IH [OF i(1), of m] less.prems n by auto
    have d: "distinct ?rows"
      using ok by (auto simp: catalog_ok_def unique_ok_def distinct_map)
    have "?rows ! i \<notin> set ch"
      using ch(3) d i(1) less.prems(1) by (auto simp: nth_eq_iff_index_eq)
    moreover have "set (?rows ! i # ch) \<subseteq> {?rows ! k | k. k < j}"
      using ch(3) i(1) less_trans by fastforce
    ultimately show ?thesis
      using find Some i ch by (intro exI [of _ "?rows ! i # ch"]) (simp add: n)
  qed
qed

lemma linked_nth:
  "linked ch \<Longrightarrow> Suc k < length ch \<Longrightarrow> sn_ParentSnapshotID (ch ! k) = Some (sn_ID (ch ! Suc k))"
proof (induction ch arbitrary: k rule: linked.induct)
  case (3 s t r)
  then show ?case by (cases k) simp_all
qed simp_all

lemma linked_last: "linked ch \<Longrightarrow> ch \<noteq> [] \<Longrightarrow> sn_ParentSnapshotID (last ch) = None"
  by (induction ch rule: linked.induct) simp_all

lemma restore_chain:
  assumes ok: "catalog_ok c" and s: "s \<in> set (snapshots c)"
  obtains ch where "q_ListSnapshotRestoreChain (sn_ID s) now c = Inr (map chain_row (rev (s # ch)))"
    and "linked (s # ch)" and "set ch \<subseteq> set (snapshots c)" and "distinct (s # ch)"
proof -
  obtain j where j: "j < length (snapshots c)" "s = snapshots c ! j"
    using s by (auto simp: in_set_conv_nth)
  from chain_walk_linked [OF ok j(1), of "length (snapshots c) + 1"] j(1)
  obtain ch where ch: "chain_walk (length (snapshots c) + 1) (snapshots c) (Some (sn_ID s)) = Some (s # ch)"
      "linked (s # ch)" "set ch \<subseteq> {snapshots c ! i | i. i < j}" "distinct ch"
    by (auto simp: j(2))
  have d: "distinct (snapshots c)"
    using ok by (auto simp: catalog_ok_def unique_ok_def distinct_map)
  have "s \<notin> set ch" using ch(3) d j by (auto simp: nth_eq_iff_index_eq)
  moreover have "set ch \<subseteq> set (snapshots c)" using ch(3) j(1) by fastforce
  ultimately show thesis using that [of ch] ch by (simp add: q_ListSnapshotRestoreChain_def)
qed

subsection \<open>Descendants\<close>

inductive committed_descendant :: "Snapshot list \<Rightarrow> string \<Rightarrow> Snapshot \<Rightarrow> bool" for rows where
  child: "s \<in> set rows \<Longrightarrow> sn_ParentSnapshotID s = Some i \<Longrightarrow> sn_Status s = SnapCommitted \<Longrightarrow>
    committed_descendant rows i s"
| below: "committed_descendant rows (sn_ID t) s \<Longrightarrow> t \<in> set rows \<Longrightarrow> sn_ParentSnapshotID t = Some i \<Longrightarrow>
    sn_Status t = SnapCommitted \<Longrightarrow> committed_descendant rows i s"

lemma set_committed_children:
  "set (committed_children rows i) =
     {s \<in> set rows. sn_ParentSnapshotID s = Some i \<and> sn_Status s = SnapCommitted}"
  by (auto simp: committed_children_def)

lemma those_map_Some: "(\<And>x. x \<in> set xs \<Longrightarrow> \<exists>y. f x = Some y) \<Longrightarrow> \<exists>ys. those (map f xs) = Some ys"
  by (induction xs) fastforce+

lemma those_map_set: "those (map f xs) = Some ys \<Longrightarrow> set ys = {y. \<exists>x \<in> set xs. f x = Some y}"
  by (induction xs arbitrary: ys) (auto split: option.splits)

lemma those_map_defined: "those (map f xs) = Some ys \<Longrightarrow> x \<in> set xs \<Longrightarrow> \<exists>y. f x = Some y"
  by (induction xs arbitrary: ys) (auto split: option.splits)

lemma descendants_total:
  assumes ok: "catalog_ok c"
  shows "j < length (snapshots c) \<Longrightarrow> length (snapshots c) \<le> n + j \<Longrightarrow>
    \<exists>ds. descendants n (snapshots c) (sn_ID (snapshots c ! j)) = Some ds"
proof (induction n arbitrary: j)
  case (Suc n)
  let ?rows = "snapshots c"
  have "\<exists>y. descendants n ?rows (sn_ID k) = Some y"
    if kid: "k \<in> set (committed_children ?rows (sn_ID (?rows ! j)))" for k
  proof -
    obtain i where i: "i < length ?rows" "k = ?rows ! i" "sn_ParentSnapshotID k = Some (sn_ID (?rows ! j))"
      using kid unfolding set_committed_children mem_Collect_eq in_set_conv_nth by blast
    then obtain l where l: "l < i" "sn_ID (?rows ! l) = sn_ID (?rows ! j)"
      using parent_before [OF ok] by metis
    have "distinct (map sn_ID ?rows)" using ok by (simp add: catalog_ok_def unique_ok_def)
    then have "l = j"
      using nth_eq_iff_index_eq [of "map sn_ID ?rows" l j] l i(1) Suc.prems(1) by simp
    then show ?thesis using Suc.IH [of i] Suc.prems l i by simp
  qed
  then obtain ls where "those (map (\<lambda>k. descendants n ?rows (sn_ID k))
      (committed_children ?rows (sn_ID (?rows ! j)))) = Some ls"
    using those_map_Some by metis
  then show ?case by (simp add: Let_def)
qed simp

lemma descendants_set:
  "descendants n rows i = Some ds \<Longrightarrow> set ds = {s. committed_descendant rows i s}"
proof (induction n arbitrary: i ds)
  case (Suc n)
  let ?kids = "committed_children rows i"
  obtain ls where ls: "those (map (\<lambda>k. descendants n rows (sn_ID k)) ?kids) = Some ls"
    and ds: "ds = ?kids @ concat ls" using Suc.prems by (auto simp: Let_def)
  have set_ls: "set ls = {y. \<exists>k \<in> set ?kids. descendants n rows (sn_ID k) = Some y}"
    using those_map_set [OF ls] .
  have tot: "\<exists>y. descendants n rows (sn_ID k) = Some y" if "k \<in> set ?kids" for k
    using those_map_defined [OF ls that] .
  have "set (concat ls) = {s. \<exists>k \<in> set ?kids. committed_descendant rows (sn_ID k) s}"
    using Suc.IH set_ls tot by fastforce
  then show ?case
    unfolding ds by (auto simp: set_committed_children intro: committed_descendant.intros
        elim: committed_descendant.cases)
qed simp

lemma count_descendants:
  assumes ok: "catalog_ok c" and s: "s \<in> set (snapshots c)"
  obtains ds where "q_CountCommittedDescendants (Some (sn_ID s)) now c = Inr (int (length ds))"
    and "set ds = {t. committed_descendant (snapshots c) (sn_ID s) t}"
proof -
  obtain j where "j < length (snapshots c)" "s = snapshots c ! j"
    using s by (auto simp: in_set_conv_nth)
  then obtain ds where ds: "descendants (length (snapshots c) + 1) (snapshots c) (sn_ID s) = Some ds"
    using descendants_total [OF ok, of j "length (snapshots c) + 1"] by auto
  show thesis
    using that [of ds] ds descendants_set [OF ds] by (simp add: q_CountCommittedDescendants_def)
qed

lemma no_descendants:
  assumes "q_CountCommittedDescendants (Some i) now c = Inr n" and "n \<le> 0"
  shows "\<not> committed_descendant (snapshots c) i s"
proof -
  obtain ds where "descendants (length (snapshots c) + 1) (snapshots c) i = Some ds" "n = int (length ds)"
    using assms(1) by (auto simp: q_CountCommittedDescendants_def split: option.splits)
  then show ?thesis using descendants_set assms(2) by fastforce
qed

section \<open>Properties\<close>

lemma restore_chain_rows:
  assumes "catalog_ok c" and "s \<in> set (snapshots c)"
  shows "\<exists>chain. q_ListSnapshotRestoreChain (sn_ID s) now c = Inr chain \<and> chain \<noteq> [] \<and>
    last chain = chain_row s \<and> rc_ParentSnapshotID (hd chain) = None \<and>
    (\<forall>k. Suc k < length chain \<longrightarrow> rc_ParentSnapshotID (chain ! Suc k) = Some (rc_ID (chain ! k))) \<and>
    set chain \<subseteq> chain_row ` set (snapshots c) \<and> distinct (map rc_ID chain)"
proof -
  obtain ch where q: "q_ListSnapshotRestoreChain (sn_ID s) now c = Inr (map chain_row (rev (s # ch)))"
    and l: "linked (s # ch)" and sub: "set ch \<subseteq> set (snapshots c)" and d: "distinct (s # ch)"
    using assms by (rule restore_chain)
  let ?chain = "map chain_row (rev (s # ch))"
  have "rc_ParentSnapshotID (?chain ! Suc k) = Some (rc_ID (?chain ! k))" if k: "Suc k < length ?chain" for k
  proof -
    let ?i = "length (s # ch) - Suc (Suc k)"
    have "Suc ?i < length (s # ch)" and "length (s # ch) - Suc k = Suc ?i" using k by auto
    then show ?thesis
      using linked_nth [OF l, of ?i] k by (simp del: rev.simps add: rev_nth chain_row_def)
  qed
  moreover have "rc_ParentSnapshotID (hd ?chain) = None"
    using linked_last [OF l] by (simp del: rev.simps add: hd_map hd_rev chain_row_def)
  moreover have "distinct (map rc_ID ?chain)"
  proof -
    have "inj_on sn_ID (set (snapshots c))"
      using assms(1) by (simp add: catalog_ok_def unique_ok_def distinct_map)
    then have "inj_on sn_ID (set (s # ch))" by (rule inj_on_subset) (use sub assms(2) in auto)
    then have "distinct (map sn_ID (s # ch))" using d by (simp add: distinct_map)
    moreover have "map rc_ID ?chain = rev (map sn_ID (s # ch))"
      by (simp add: rev_map chain_row_def o_def)
    ultimately show ?thesis by simp
  qed
  moreover have "last ?chain = chain_row s" by simp
  moreover have "set ?chain \<subseteq> chain_row ` set (snapshots c)" using sub assms(2) by auto
  moreover have "?chain \<noteq> []" by simp
  ultimately show ?thesis using q by blast
qed

text \<open>
  On a catalog that satisfies its schema, the recursive restore-chain query terminates for
  every snapshot, and its rows are exactly the snapshot's lineage, root first: the first row
  has no parent, every other row's parent is the row before it, the last row is the snapshot
  asked for, and no row occurs twice.
\<close>

theorem restore_chain_lineage:
  assumes "catalog_ok c" and "s \<in> set (snapshots c)"
  shows "\<exists>chain. q_ListSnapshotRestoreChain (sn_ID s) now c = Inr chain \<and> chain \<noteq> [] \<and>
    last chain = chain_row s \<and> rc_ParentSnapshotID (hd chain) = None \<and>
    (\<forall>k. Suc k < length chain \<longrightarrow> rc_ParentSnapshotID (chain ! Suc k) = Some (rc_ID (chain ! k))) \<and>
    set chain \<subseteq> chain_row ` set (snapshots c) \<and> distinct (map rc_ID chain)"
  by (rule restore_chain_rows [OF assms])

text \<open>A small catalog: a full snapshot, an increment on it, and a failed increment.\<close>

definition sample_snapshot :: "string \<Rightarrow> string \<Rightarrow> string option \<Rightarrow> snapshot_status \<Rightarrow> Snapshot" where
  "sample_snapshot i name parent status =
     \<lparr>sn_ID = i, sn_DatasetID = ''d'', sn_Name = name, sn_ParentSnapshotID = parent,
      sn_ManifestObjectKey = Some (''m'' @ name), sn_Status = status,
      sn_StreamValidationStatus = ValPending, sn_ChainValidationStatus = ValPending,
      sn_LogicalBytes = None, sn_StoredBytes = 0, sn_StreamSha256 = None, sn_StreamFromGuid = [],
      sn_StreamToGuid = [], sn_ChunkCount = 0, sn_CreatedAt = 0, sn_UploadStartedAt = None,
      sn_UploadCompletedAt = None, sn_FailureReason = None\<rparr>"

definition sample_catalog :: catalog where
  "sample_catalog = empty_catalog
     \<lparr>sources := [\<lparr>src_ID = ''s'', src_Name = ''host'', src_Description = [], src_CreatedAt = 0,
                   src_LastSeenAt = None\<rparr>],
      pools := [\<lparr>pl_ID = ''p'', pl_SourceID = ''s'', pl_Name = ''tank'', pl_CreatedAt = 0,
                 pl_LastSeenAt = None\<rparr>],
      datasets := [\<lparr>ds_ID = ''d'', ds_SourceID = ''s'', ds_PoolID = ''p'', ds_Path = ''home'',
                    ds_DisplayName = ''home'', ds_CreatedAt = 0, ds_LastSeenAt = None\<rparr>],
      snapshots := [sample_snapshot ''a'' ''s1'' None SnapCommitted,
                    sample_snapshot ''b'' ''s2'' (Some ''a'') SnapCommitted,
                    sample_snapshot ''c'' ''s3'' (Some ''b'') SnapFailed]\<rparr>"

lemma sample_catalog_ok: "catalog_ok sample_catalog"
  by (simp add: invariant_defs refs_def sample_catalog_def empty_catalog_def sample_snapshot_def
      lineage_of_def)

theorem restore_chain_lineage_witness:
  "\<exists>chain. q_ListSnapshotRestoreChain ''b'' 0 sample_catalog = Inr chain \<and> chain \<noteq> [] \<and>
    last chain = chain_row (sample_snapshot ''b'' ''s2'' (Some ''a'') SnapCommitted) \<and>
    rc_ParentSnapshotID (hd chain) = None \<and>
    (\<forall>k. Suc k < length chain \<longrightarrow> rc_ParentSnapshotID (chain ! Suc k) = Some (rc_ID (chain ! k))) \<and>
    set chain \<subseteq> chain_row ` set (snapshots sample_catalog) \<and> distinct (map rc_ID chain)"
proof -
  let ?s = "sample_snapshot ''b'' ''s2'' (Some ''a'') SnapCommitted"
  have "?s \<in> set (snapshots sample_catalog)" by (simp add: sample_catalog_def)
  from restore_chain_lineage [OF sample_catalog_ok this, of 0] show ?thesis
    by (simp add: sample_snapshot_def)
qed



end
