(* ===== verification/Object_Store.thy ===== *)
theory Object_Store
  imports Go_Strings
begin

text \<open>
  The object store interface and its plain implementations
  (\<open>src/internal/storage/store.go\<close>, \<open>memory.go\<close>, \<open>fault.go\<close>, \<open>s3.go\<close>).
  A store is a record of operations over its own state, as a Go interface value is a table of
  methods over a receiver. The locale \<open>object_store\<close> is the contract the clients (ingest,
  restore, validation, cleanup, deletion, backup) rely on.

  SHA-256 is a parameter \<open>sha\<close> of the operations that use it: every fact holds for any
  function from bytes to digests. The S3 client of the AWS SDK is a parameter too.
\<close>

section \<open>The interface\<close>

record ObjectInfo =
  oi_Key :: string
  oi_Size :: int
  oi_SHA256 :: string
  oi_ETag :: string

text \<open>
  An \<open>io.ReadCloser\<close>: the bytes it delivers, the error that ends it (none at end of file)
  and the error its \<open>Close\<close> returns.
\<close>

record ReadCloser =
  rc_data :: bytes
  rc_err :: "error option"
  rc_close :: "error option"

record 's Store =
  PutBytes :: "string \<Rightarrow> bytes \<Rightarrow> 's \<Rightarrow> (error + ObjectInfo) \<times> 's"
  GetBytes :: "string \<Rightarrow> 's \<Rightarrow> (error + bytes) \<times> 's"
  GetReader :: "string \<Rightarrow> 's \<Rightarrow> (error + ReadCloser) \<times> 's"
  Head :: "string \<Rightarrow> 's \<Rightarrow> (error + ObjectInfo) \<times> 's"
  Delete :: "string \<Rightarrow> 's \<Rightarrow> (error + unit) \<times> 's"

text \<open>\<open>io.NopCloser(bytes.NewReader(data))\<close>.\<close>

definition NopCloser :: "bytes \<Rightarrow> ReadCloser" where
  "NopCloser data = \<lparr>rc_data = data, rc_err = None, rc_close = None\<rparr>"

definition sha_hex :: "(bytes \<Rightarrow> bytes) \<Rightarrow> bytes \<Rightarrow> string" where
  "sha_hex sha data = hex_EncodeToString (sha data)"

text \<open>
  The contract. \<open>view\<close> is the abstract content of the store. A successful call returns or
  installs exactly the named object; a failed \<open>PutBytes\<close> or \<open>Delete\<close> says nothing about
  its own key (an S3 put whose \<open>HeadObject\<close> fails has already stored the object) and leaves
  every other key alone.
\<close>

locale object_store =
  fixes S :: "'s Store"
    and sha :: "bytes \<Rightarrow> bytes"
    and view :: "'s \<Rightarrow> string \<Rightarrow> bytes option"
    and inv :: "'s \<Rightarrow> bool"
  assumes put_ok: "inv s \<Longrightarrow> PutBytes S k d s = (Inr info, t) \<Longrightarrow>
      inv t \<and> view t = (view s)(k \<mapsto> d) \<and> oi_Size info = int (length d) \<and>
      oi_SHA256 info = sha_hex sha d"
    and put_err: "inv s \<Longrightarrow> PutBytes S k d s = (Inl e, t) \<Longrightarrow>
      inv t \<and> (\<forall>j. j \<noteq> k \<longrightarrow> view t j = view s j)"
    and get_ok: "inv s \<Longrightarrow> GetBytes S k s = (Inr d, t) \<Longrightarrow> inv t \<and> view t = view s \<and> view s k = Some d"
    and get_err: "inv s \<Longrightarrow> GetBytes S k s = (Inl e, t) \<Longrightarrow> inv t \<and> view t = view s"
    and reader_ok: "inv s \<Longrightarrow> GetReader S k s = (Inr r, t) \<Longrightarrow>
      inv t \<and> view t = view s \<and> (rc_err r = None \<longrightarrow> view s k = Some (rc_data r))"
    and reader_err: "inv s \<Longrightarrow> GetReader S k s = (Inl e, t) \<Longrightarrow> inv t \<and> view t = view s"
    and head_any: "inv s \<Longrightarrow> Head S k s = (hr, t) \<Longrightarrow> inv t \<and> view t = view s"
    and head_ok: "inv s \<Longrightarrow> Head S k s = (Inr info, t) \<Longrightarrow>
      \<exists>d. view s k = Some d \<and> oi_Size info = int (length d)"
    and delete_ok: "inv s \<Longrightarrow> Delete S k s = (Inr u, t) \<Longrightarrow> inv t \<and> view t = (view s)(k := None)"
    and delete_err: "inv s \<Longrightarrow> Delete S k s = (Inl e, t) \<Longrightarrow>
      inv t \<and> (\<forall>j. j \<noteq> k \<longrightarrow> view t j = view s j)"
begin

lemma put_inv: "inv s \<Longrightarrow> PutBytes S k d s = (r, t) \<Longrightarrow> inv t"
  by (cases r) (auto dest: put_ok put_err)

lemma put_other: "inv s \<Longrightarrow> PutBytes S k d s = (r, t) \<Longrightarrow> j \<noteq> k \<Longrightarrow> view t j = view s j"
  by (cases r) (auto dest: put_ok put_err)

lemma get_view: "inv s \<Longrightarrow> GetBytes S k s = (r, t) \<Longrightarrow> inv t \<and> view t = view s"
  by (cases r) (auto dest: get_ok get_err)

lemma reader_view: "inv s \<Longrightarrow> GetReader S k s = (r, t) \<Longrightarrow> inv t \<and> view t = view s"
  by (cases r) (auto dest: reader_ok reader_err)

lemma delete_inv: "inv s \<Longrightarrow> Delete S k s = (r, t) \<Longrightarrow> inv t"
  by (cases r) (auto dest: delete_ok delete_err)

lemma delete_other: "inv s \<Longrightarrow> Delete S k s = (r, t) \<Longrightarrow> j \<noteq> k \<Longrightarrow> view t j = view s j"
  by (cases r) (auto dest: delete_ok delete_err)

end

text \<open>A store whose calls succeed whenever they can.\<close>

locale reliable_store = object_store S sha view inv
  for S :: "'s Store" and sha :: "bytes \<Rightarrow> bytes" and view :: "'s \<Rightarrow> string \<Rightarrow> bytes option"
    and inv :: "'s \<Rightarrow> bool" +
  assumes put_works: "inv s \<Longrightarrow> \<exists>info t. PutBytes S k d s = (Inr info, t)"
    and get_works: "inv s \<Longrightarrow> view s k = Some d \<Longrightarrow> \<exists>t. GetBytes S k s = (Inr d, t)"
    and reader_works: "inv s \<Longrightarrow> view s k = Some d \<Longrightarrow> \<exists>t. GetReader S k s = (Inr (NopCloser d), t)"
    and head_works: "inv s \<Longrightarrow> view s k = Some d \<Longrightarrow>
      \<exists>info t. Head S k s = (Inr info, t) \<and> oi_Size info = int (length d) \<and>
        oi_SHA256 info \<in> {'''', sha_hex sha d}"
    and delete_works: "inv s \<Longrightarrow> \<exists>t. Delete S k s = (Inr (), t)"

section \<open>MemoryStore\<close>

type_synonym memory = "string \<Rightarrow> bytes option"

definition not_found :: "string \<Rightarrow> error" where
  "not_found key = Errorf (msg ''object %s not found'') [key]"

definition MemoryStore_PutBytes ::
  "(bytes \<Rightarrow> bytes) \<Rightarrow> string \<Rightarrow> bytes \<Rightarrow> memory \<Rightarrow> (error + ObjectInfo) \<times> memory" where
  "MemoryStore_PutBytes sha key data objects =
     (Inr \<lparr>oi_Key = key, oi_Size = int (length data), oi_SHA256 = sha_hex sha data, oi_ETag = []\<rparr>,
      objects(key \<mapsto> data))"

definition MemoryStore_GetBytes :: "string \<Rightarrow> memory \<Rightarrow> (error + bytes) \<times> memory" where
  "MemoryStore_GetBytes key objects =
     (case objects key of None \<Rightarrow> (Inl (not_found key), objects) | Some data \<Rightarrow> (Inr data, objects))"

definition MemoryStore_GetReader :: "string \<Rightarrow> memory \<Rightarrow> (error + ReadCloser) \<times> memory" where
  "MemoryStore_GetReader key objects =
     (case MemoryStore_GetBytes key objects of
        (Inl e, objects') \<Rightarrow> (Inl e, objects')
      | (Inr data, objects') \<Rightarrow> (Inr (NopCloser data), objects'))"

definition MemoryStore_Head ::
  "(bytes \<Rightarrow> bytes) \<Rightarrow> string \<Rightarrow> memory \<Rightarrow> (error + ObjectInfo) \<times> memory" where
  "MemoryStore_Head sha key objects =
     (case objects key of
        None \<Rightarrow> (Inl (not_found key), objects)
      | Some data \<Rightarrow>
          (Inr \<lparr>oi_Key = key, oi_Size = int (length data), oi_SHA256 = sha_hex sha data, oi_ETag = []\<rparr>,
           objects))"

definition MemoryStore_Delete :: "string \<Rightarrow> memory \<Rightarrow> (error + unit) \<times> memory" where
  "MemoryStore_Delete key objects = (Inr (), objects(key := None))"

definition MemoryStore :: "(bytes \<Rightarrow> bytes) \<Rightarrow> memory Store" where
  "MemoryStore sha =
     \<lparr>PutBytes = MemoryStore_PutBytes sha, GetBytes = MemoryStore_GetBytes,
      GetReader = MemoryStore_GetReader, Head = MemoryStore_Head sha, Delete = MemoryStore_Delete\<rparr>"

definition NewMemoryStore :: memory where
  "NewMemoryStore = Map.empty"

lemmas MemoryStore_defs = MemoryStore_def MemoryStore_PutBytes_def MemoryStore_GetBytes_def
  MemoryStore_GetReader_def MemoryStore_Head_def MemoryStore_Delete_def NopCloser_def

interpretation memory: reliable_store "MemoryStore sha" sha "\<lambda>m. m" "\<lambda>_. True"
  for sha :: "bytes \<Rightarrow> bytes"
  by unfold_locales (auto simp: MemoryStore_defs split: option.splits)

section \<open>FaultStore\<close>

text \<open>
  A wrapper that fails one chosen call of each kind. The failing call does not reach the base
  store. A \<open>nil\<close> base panics in Go; here the base is always present.
\<close>

record 's FaultStore =
  fs_base :: 's
  PutError :: "error option"
  PutAt :: int
  GetError :: "error option"
  GetAt :: int
  HeadError :: "error option"
  HeadAt :: int
  DeleteError :: "error option"
  DeleteAt :: int
  putCalls :: int
  getCalls :: int
  headCalls :: int
  deleteCalls :: int

definition NewFaultStore :: "'s \<Rightarrow> 's FaultStore" where
  "NewFaultStore base =
     \<lparr>fs_base = base, PutError = None, PutAt = 0, GetError = None, GetAt = 0, HeadError = None,
      HeadAt = 0, DeleteError = None, DeleteAt = 0, putCalls = 0, getCalls = 0, headCalls = 0,
      deleteCalls = 0\<rparr>"

text \<open>\<open>nextError\<close>, given the counter after its increment.\<close>

definition nextError :: "int \<Rightarrow> int \<Rightarrow> error option \<Rightarrow> string \<Rightarrow> error option" where
  "nextError counter failAt configured op_name =
     (if failAt \<le> 0 \<or> counter \<noteq> failAt then None
      else case configured of
        Some e \<Rightarrow> Some e
      | None \<Rightarrow> Some (Errorf (msg ''injected %s failure'') [op_name]))"

definition on_base :: "('s \<Rightarrow> 'r \<times> 's) \<Rightarrow> 's FaultStore \<Rightarrow> 'r \<times> 's FaultStore" where
  "on_base f fs = (case f (fs_base fs) of (r, b) \<Rightarrow> (r, fs\<lparr>fs_base := b\<rparr>))"

definition FaultStore_PutBytes ::
  "'s Store \<Rightarrow> string \<Rightarrow> bytes \<Rightarrow> 's FaultStore \<Rightarrow> (error + ObjectInfo) \<times> 's FaultStore" where
  "FaultStore_PutBytes B key data fs =
     (let n = putCalls fs + 1; fs' = fs\<lparr>putCalls := n\<rparr> in
      case nextError n (PutAt fs) (PutError fs) ''put'' of
        Some e \<Rightarrow> (Inl e, fs')
      | None \<Rightarrow> on_base (PutBytes B key data) fs')"

definition FaultStore_GetBytes ::
  "'s Store \<Rightarrow> string \<Rightarrow> 's FaultStore \<Rightarrow> (error + bytes) \<times> 's FaultStore" where
  "FaultStore_GetBytes B key fs =
     (let n = getCalls fs + 1; fs' = fs\<lparr>getCalls := n\<rparr> in
      case nextError n (GetAt fs) (GetError fs) ''get'' of
        Some e \<Rightarrow> (Inl e, fs')
      | None \<Rightarrow> on_base (GetBytes B key) fs')"

definition FaultStore_GetReader ::
  "'s Store \<Rightarrow> string \<Rightarrow> 's FaultStore \<Rightarrow> (error + ReadCloser) \<times> 's FaultStore" where
  "FaultStore_GetReader B key fs =
     (let n = getCalls fs + 1; fs' = fs\<lparr>getCalls := n\<rparr> in
      case nextError n (GetAt fs) (GetError fs) ''get'' of
        Some e \<Rightarrow> (Inl e, fs')
      | None \<Rightarrow> on_base (GetReader B key) fs')"

definition FaultStore_Head ::
  "'s Store \<Rightarrow> string \<Rightarrow> 's FaultStore \<Rightarrow> (error + ObjectInfo) \<times> 's FaultStore" where
  "FaultStore_Head B key fs =
     (let n = headCalls fs + 1; fs' = fs\<lparr>headCalls := n\<rparr> in
      case nextError n (HeadAt fs) (HeadError fs) ''head'' of
        Some e \<Rightarrow> (Inl e, fs')
      | None \<Rightarrow> on_base (Head B key) fs')"

definition FaultStore_Delete ::
  "'s Store \<Rightarrow> string \<Rightarrow> 's FaultStore \<Rightarrow> (error + unit) \<times> 's FaultStore" where
  "FaultStore_Delete B key fs =
     (let n = deleteCalls fs + 1; fs' = fs\<lparr>deleteCalls := n\<rparr> in
      case nextError n (DeleteAt fs) (DeleteError fs) ''delete'' of
        Some e \<Rightarrow> (Inl e, fs')
      | None \<Rightarrow> on_base (Delete B key) fs')"

definition FaultStore :: "'s Store \<Rightarrow> 's FaultStore Store" where
  "FaultStore B =
     \<lparr>PutBytes = FaultStore_PutBytes B, GetBytes = FaultStore_GetBytes B,
      GetReader = FaultStore_GetReader B, Head = FaultStore_Head B, Delete = FaultStore_Delete B\<rparr>"

lemmas FaultStore_defs = FaultStore_def FaultStore_PutBytes_def FaultStore_GetBytes_def
  FaultStore_GetReader_def FaultStore_Head_def FaultStore_Delete_def on_base_def Let_def

text \<open>Injected faults keep the contract, so every property of a client also covers its error paths.\<close>

context object_store
begin

lemma faulty: "object_store (FaultStore S) sha (\<lambda>fs. view (fs_base fs)) (\<lambda>fs. inv (fs_base fs))"
proof unfold_locales
  fix fs :: "'s FaultStore" and k d info t
  assume "inv (fs_base fs)" and "PutBytes (FaultStore S) k d fs = (Inr info, t)"
  then show "inv (fs_base t) \<and> view (fs_base t) = (view (fs_base fs))(k \<mapsto> d) \<and>
      oi_Size info = int (length d) \<and> oi_SHA256 info = sha_hex sha d"
    by (auto simp: FaultStore_defs split: option.splits prod.splits dest: put_ok)
next
  fix fs :: "'s FaultStore" and k d e t
  assume "inv (fs_base fs)" and "PutBytes (FaultStore S) k d fs = (Inl e, t)"
  then show "inv (fs_base t) \<and> (\<forall>j. j \<noteq> k \<longrightarrow> view (fs_base t) j = view (fs_base fs) j)"
    by (auto simp: FaultStore_defs split: option.splits prod.splits dest: put_err)
next
  fix fs :: "'s FaultStore" and k d t
  assume "inv (fs_base fs)" and "GetBytes (FaultStore S) k fs = (Inr d, t)"
  then show "inv (fs_base t) \<and> view (fs_base t) = view (fs_base fs) \<and> view (fs_base fs) k = Some d"
    by (auto simp: FaultStore_defs split: option.splits prod.splits dest: get_ok)
next
  fix fs :: "'s FaultStore" and k e t
  assume "inv (fs_base fs)" and "GetBytes (FaultStore S) k fs = (Inl e, t)"
  then show "inv (fs_base t) \<and> view (fs_base t) = view (fs_base fs)"
    by (auto simp: FaultStore_defs split: option.splits prod.splits dest: get_err)
next
  fix fs :: "'s FaultStore" and k r t
  assume "inv (fs_base fs)" and "GetReader (FaultStore S) k fs = (Inr r, t)"
  then show "inv (fs_base t) \<and> view (fs_base t) = view (fs_base fs) \<and>
      (rc_err r = None \<longrightarrow> view (fs_base fs) k = Some (rc_data r))"
    by (auto simp: FaultStore_defs split: option.splits prod.splits dest: reader_ok)
next
  fix fs :: "'s FaultStore" and k e t
  assume "inv (fs_base fs)" and "GetReader (FaultStore S) k fs = (Inl e, t)"
  then show "inv (fs_base t) \<and> view (fs_base t) = view (fs_base fs)"
    by (auto simp: FaultStore_defs split: option.splits prod.splits dest: reader_err)
next
  fix fs :: "'s FaultStore" and k r t
  assume "inv (fs_base fs)" and "Head (FaultStore S) k fs = (r, t)"
  then show "inv (fs_base t) \<and> view (fs_base t) = view (fs_base fs)"
    by (auto simp: FaultStore_defs split: option.splits prod.splits dest: head_any)
next
  fix fs :: "'s FaultStore" and k info t
  assume "inv (fs_base fs)" and "Head (FaultStore S) k fs = (Inr info, t)"
  then show "\<exists>d. view (fs_base fs) k = Some d \<and> oi_Size info = int (length d)"
    by (auto simp: FaultStore_defs split: option.splits prod.splits dest: head_ok)
next
  fix fs :: "'s FaultStore" and k u t
  assume "inv (fs_base fs)" and "Delete (FaultStore S) k fs = (Inr u, t)"
  then show "inv (fs_base t) \<and> view (fs_base t) = (view (fs_base fs))(k := None)"
    by (auto simp: FaultStore_defs split: option.splits prod.splits dest: delete_ok)
next
  fix fs :: "'s FaultStore" and k e t
  assume "inv (fs_base fs)" and "Delete (FaultStore S) k fs = (Inl e, t)"
  then show "inv (fs_base t) \<and> (\<forall>j. j \<noteq> k \<longrightarrow> view (fs_base t) j = view (fs_base fs) j)"
    by (auto simp: FaultStore_defs split: option.splits prod.splits dest: delete_err)
qed

end

interpretation faulty_memory: object_store "FaultStore (MemoryStore sha)" sha fs_base "\<lambda>_. True"
  for sha :: "bytes \<Rightarrow> bytes"
  using memory.faulty by simp

section \<open>S3Store\<close>

text \<open>
  The S3 client is a parameter: a record of the four calls the store makes, each of them
  given the bucket. \<open>s3_laws\<close> collects what the store relies on (S3 is strongly
  consistent: a call that succeeded is seen by the next one).
\<close>

record HeadObjectOutput =
  ContentLength :: "int option"
  ETag :: "string option"
  Metadata :: "(string \<rightharpoonup> string) option"

record 'c s3_client =
  PutObject :: "string \<Rightarrow> string \<Rightarrow> bytes \<Rightarrow> (string \<rightharpoonup> string) \<Rightarrow> 'c \<Rightarrow> (error + unit) \<times> 'c"
  HeadObject :: "string \<Rightarrow> string \<Rightarrow> 'c \<Rightarrow> (error + HeadObjectOutput) \<times> 'c"
  GetObject :: "string \<Rightarrow> string \<Rightarrow> 'c \<Rightarrow> (error + ReadCloser) \<times> 'c"
  DeleteObject :: "string \<Rightarrow> string \<Rightarrow> 'c \<Rightarrow> (error + unit) \<times> 'c"

definition S3Store_Head ::
  "'c s3_client \<Rightarrow> string \<Rightarrow> string \<Rightarrow> 'c \<Rightarrow> (error + ObjectInfo) \<times> 'c" where
  "S3Store_Head client bucket key s =
     (case HeadObject client bucket key s of
        (Inl e, t) \<Rightarrow> (Inl (Wrapf (msg ''head object %s: %w'') [key] e), t)
      | (Inr out, t) \<Rightarrow>
          (Inr \<lparr>oi_Key = key,
                oi_Size = (case ContentLength out of Some n \<Rightarrow> n | None \<Rightarrow> 0),
                oi_SHA256 = (case Metadata out of
                   Some m \<Rightarrow> (case m ''sha256'' of Some h \<Rightarrow> h | None \<Rightarrow> []) | None \<Rightarrow> []),
                oi_ETag = (case ETag out of Some tag \<Rightarrow> tag | None \<Rightarrow> [])\<rparr>, t))"

definition S3Store_PutBytes ::
  "(bytes \<Rightarrow> bytes) \<Rightarrow> 'c s3_client \<Rightarrow> string \<Rightarrow> string \<Rightarrow> bytes \<Rightarrow> 'c \<Rightarrow>
   (error + ObjectInfo) \<times> 'c" where
  "S3Store_PutBytes sha client bucket key data s =
     (let shaHex = sha_hex sha data in
      case PutObject client bucket key data [''sha256'' \<mapsto> shaHex] s of
        (Inl e, t) \<Rightarrow> (Inl (Wrapf (msg ''put object %s: %w'') [key] e), t)
      | (Inr _, t) \<Rightarrow>
          (case S3Store_Head client bucket key t of
             (Inl e, u) \<Rightarrow> (Inl e, u)
           | (Inr info, u) \<Rightarrow>
               if oi_Size info \<noteq> int (length data)
               then (Inl (Errorf (msg ''object %s size mismatch: got %d want %d'')
                       [key, show_int (oi_Size info), show_nat (length data)]), u)
               else if oi_SHA256 info \<noteq> [] \<and> oi_SHA256 info \<noteq> shaHex
               then (Inl (Errorf (msg ''object %s sha256 metadata mismatch: got %s want %s'')
                       [key, oi_SHA256 info, shaHex]), u)
               else (Inr (info\<lparr>oi_SHA256 := shaHex\<rparr>), u)))"

definition S3Store_GetReader ::
  "'c s3_client \<Rightarrow> string \<Rightarrow> string \<Rightarrow> 'c \<Rightarrow> (error + ReadCloser) \<times> 'c" where
  "S3Store_GetReader client bucket key s =
     (case GetObject client bucket key s of
        (Inl e, t) \<Rightarrow> (Inl (Wrapf (msg ''get object %s: %w'') [key] e), t)
      | (Inr body, t) \<Rightarrow> (Inr body, t))"

definition S3Store_GetBytes ::
  "'c s3_client \<Rightarrow> string \<Rightarrow> string \<Rightarrow> 'c \<Rightarrow> (error + bytes) \<times> 'c" where
  "S3Store_GetBytes client bucket key s =
     (case S3Store_GetReader client bucket key s of
        (Inl e, t) \<Rightarrow> (Inl e, t)
      | (Inr body, t) \<Rightarrow>
          (case rc_err body of
             Some e \<Rightarrow> (Inl (Wrapf (msg ''read object %s: %w'') [key] e), t)
           | None \<Rightarrow> (Inr (rc_data body), t)))"

definition S3Store_Delete ::
  "'c s3_client \<Rightarrow> string \<Rightarrow> string \<Rightarrow> 'c \<Rightarrow> (error + unit) \<times> 'c" where
  "S3Store_Delete client bucket key s =
     (case DeleteObject client bucket key s of
        (Inl e, t) \<Rightarrow> (Inl (Wrapf (msg ''delete object %s: %w'') [key] e), t)
      | (Inr _, t) \<Rightarrow> (Inr (), t))"

definition S3Store :: "(bytes \<Rightarrow> bytes) \<Rightarrow> 'c s3_client \<Rightarrow> string \<Rightarrow> 'c Store" where
  "S3Store sha client bucket =
     \<lparr>PutBytes = S3Store_PutBytes sha client bucket, GetBytes = S3Store_GetBytes client bucket,
      GetReader = S3Store_GetReader client bucket, Head = S3Store_Head client bucket,
      Delete = S3Store_Delete client bucket\<rparr>"

lemmas S3Store_defs = S3Store_def S3Store_PutBytes_def S3Store_GetBytes_def
  S3Store_GetReader_def S3Store_Head_def S3Store_Delete_def Let_def

definition s3_laws :: "'c s3_client \<Rightarrow> string \<Rightarrow> ('c \<Rightarrow> string \<Rightarrow> bytes option) \<Rightarrow> bool" where
  "s3_laws client bucket content \<longleftrightarrow>
     (\<forall>k d m s u t. PutObject client bucket k d m s = (Inr u, t) \<longrightarrow> content t = (content s)(k \<mapsto> d)) \<and>
     (\<forall>k d m s e t. PutObject client bucket k d m s = (Inl e, t) \<longrightarrow>
        (\<forall>j. j \<noteq> k \<longrightarrow> content t j = content s j)) \<and>
     (\<forall>k s r t. HeadObject client bucket k s = (r, t) \<longrightarrow> content t = content s) \<and>
     (\<forall>k s out t. HeadObject client bucket k s = (Inr out, t) \<longrightarrow>
        (\<exists>d. content s k = Some d \<and> ContentLength out = Some (int (length d)))) \<and>
     (\<forall>k s r t. GetObject client bucket k s = (r, t) \<longrightarrow> content t = content s) \<and>
     (\<forall>k s body t. GetObject client bucket k s = (Inr body, t) \<longrightarrow> rc_err body = None \<longrightarrow>
        content s k = Some (rc_data body)) \<and>
     (\<forall>k s u t. DeleteObject client bucket k s = (Inr u, t) \<longrightarrow> content t = (content s)(k := None)) \<and>
     (\<forall>k s e t. DeleteObject client bucket k s = (Inl e, t) \<longrightarrow>
        (\<forall>j. j \<noteq> k \<longrightarrow> content t j = content s j))"

lemma s3_lawsD:
  assumes "s3_laws client bucket content"
  shows "PutObject client bucket k d m s = (Inr u, t) \<Longrightarrow> content t = (content s)(k \<mapsto> d)"
    and "PutObject client bucket k d m s = (Inl e, t) \<Longrightarrow> j \<noteq> k \<Longrightarrow> content t j = content s j"
    and "HeadObject client bucket k s = (hr, t) \<Longrightarrow> content t = content s"
    and "HeadObject client bucket k s = (Inr out, t) \<Longrightarrow>
           \<exists>d. content s k = Some d \<and> ContentLength out = Some (int (length d))"
    and "GetObject client bucket k s = (gr, t) \<Longrightarrow> content t = content s"
    and "GetObject client bucket k s = (Inr body, t) \<Longrightarrow> rc_err body = None \<Longrightarrow>
           content s k = Some (rc_data body)"
    and "DeleteObject client bucket k s = (Inr v, t) \<Longrightarrow> content t = (content s)(k := None)"
    and "DeleteObject client bucket k s = (Inl f, t) \<Longrightarrow> j \<noteq> k \<Longrightarrow> content t j = content s j"
  using assms unfolding s3_laws_def by simp_all

text \<open>
  C40. On an S3 service that keeps its documented consistency, \<open>S3Store\<close> meets the store
  contract: a put that returns without error has stored exactly those bytes under exactly that
  key and reports their size and SHA-256, a get or a head returns what is stored, no call
  disturbs another key.
\<close>

theorem S3Store_contract:
  assumes laws: "s3_laws client bucket content"
  shows "object_store (S3Store sha client bucket) sha content (\<lambda>_. True)"
proof unfold_locales
  fix s k d info t
  assume "PutBytes (S3Store sha client bucket) k d s = (Inr info, t)"
  then show "True \<and> content t = (content s)(k \<mapsto> d) \<and> oi_Size info = int (length d) \<and>
      oi_SHA256 info = sha_hex sha d"
    by (auto simp: S3Store_defs s3_lawsD(1) [OF laws] s3_lawsD(3) [OF laws]
        split: prod.splits sum.splits if_splits)
next
  fix s k d e t
  assume "PutBytes (S3Store sha client bucket) k d s = (Inl e, t)"
  then show "True \<and> (\<forall>j. j \<noteq> k \<longrightarrow> content t j = content s j)"
    by (auto simp: S3Store_defs s3_lawsD(1) [OF laws] s3_lawsD(3) [OF laws]
        split: prod.splits sum.splits if_splits dest: s3_lawsD(2) [OF laws])
next
  fix s k d t
  assume "GetBytes (S3Store sha client bucket) k s = (Inr d, t)"
  then show "True \<and> content t = content s \<and> content s k = Some d"
    by (auto simp: S3Store_defs split: prod.splits sum.splits option.splits
        dest: s3_lawsD(5,6) [OF laws])
next
  fix s k info t
  assume "Head (S3Store sha client bucket) k s = (Inr info, t)"
  then show "\<exists>d. content s k = Some d \<and> oi_Size info = int (length d)"
    by (auto simp: S3Store_defs split: prod.splits sum.splits option.splits
        dest: s3_lawsD(4) [OF laws])
qed (auto simp: S3Store_defs split: prod.splits sum.splits option.splits
    dest: s3_lawsD(3,5,6,7,8) [OF laws])

text \<open>An S3 service held in memory, one map per bucket, objects with their metadata.\<close>

type_synonym s3_memory = "string \<Rightarrow> string \<Rightarrow> (bytes \<times> (string \<rightharpoonup> string)) option"

definition memory_s3 :: "s3_memory s3_client" where
  "memory_s3 =
     \<lparr>PutObject = (\<lambda>b k d m s. (Inr (), s(b := (s b)(k \<mapsto> (d, m))))),
      HeadObject = (\<lambda>b k s. case s b k of
         None \<Rightarrow> (Inl (Errorf (msg ''NotFound'') []), s)
       | Some (d, m) \<Rightarrow>
           (Inr \<lparr>ContentLength = Some (int (length d)), ETag = None, Metadata = Some m\<rparr>, s)),
      GetObject = (\<lambda>b k s. case s b k of
         None \<Rightarrow> (Inl (Errorf (msg ''NoSuchKey'') []), s)
       | Some (d, m) \<Rightarrow> (Inr (NopCloser d), s)),
      DeleteObject = (\<lambda>b k s. (Inr (), s(b := (s b)(k := None))))\<rparr>"

lemma memory_s3_laws: "s3_laws memory_s3 bucket (\<lambda>s k. map_option fst (s bucket k))"
  by (auto simp: s3_laws_def memory_s3_def NopCloser_def split: option.splits)

theorem S3Store_contract_witness:
  "object_store (S3Store (\<lambda>d. d) memory_s3 ''backups'') (\<lambda>d. d)
     (\<lambda>s k. map_option fst (s ''backups'' k)) (\<lambda>_. True)"
  by (rule S3Store_contract) (rule memory_s3_laws)

end
