(* ===== verification/World.thy ===== *)
theory World
  imports Catalog_Reads Object_Store
begin

text \<open>
  The state the handlers run on: the catalog, the object store, and what the environment
  decides. A database call may fail for reasons outside the program (a closed connection, a
  cancelled context, a busy database): \<open>wDbFault\<close> says which calls do, by the number of the
  call. The clock, \<open>ctx.Err()\<close> and \<open>crypto/rand\<close> are sequences indexed the same way.
  Theorems quantify over all of them.
\<close>

section \<open>State\<close>

record 's world =
  wCat :: catalog
  wObj :: 's
  wTick :: nat
  wDbFault :: "nat \<Rightarrow> bool"
  wCtxErr :: "nat \<Rightarrow> bool"
  wNow :: "nat \<Rightarrow> int"
  wRand :: "nat \<Rightarrow> bytes"

definition tick :: "'s world \<Rightarrow> 's world" where
  "tick w = w\<lparr>wTick := wTick w + 1\<rparr>"

lemma tick_simps [simp]:
  "wCat (tick w) = wCat w" "wObj (tick w) = wObj w" "wDbFault (tick w) = wDbFault w"
  "wCtxErr (tick w) = wCtxErr w" "wNow (tick w) = wNow w" "wRand (tick w) = wRand w"
  "wTick (tick w) = Suc (wTick w)"
  by (simp_all add: tick_def)

text \<open>The clock counts nanoseconds; the time columns of the catalog hold milliseconds.\<close>

definition db_now :: "'s world \<Rightarrow> int" where
  "db_now w = wNow w (wTick w) div 1000000"

section \<open>Database calls\<close>

definition db_exec :: "statement \<Rightarrow> ('s world, unit) prog" where
  "db_exec f = State (\<lambda>w.
     if wDbFault w (wTick w) then (Inl ErrDriver, tick w)
     else case f (db_now w) (wCat w) of
       Inl e \<Rightarrow> (Inl e, tick w)
     | Inr c \<Rightarrow> (Inr (), (tick w)\<lparr>wCat := c\<rparr>))"

definition db_query :: "'a query \<Rightarrow> ('s world, 'a) prog" where
  "db_query q = State (\<lambda>w.
     if wDbFault w (wTick w) then (Inl ErrDriver, tick w)
     else (q (db_now w) (wCat w), tick w))"

text \<open>
  \<open>BeginTx\<close> and \<open>Commit\<close> are calls of their own. An error of the body rolls back; so does a
  commit that fails (the driver issues the rollback).
\<close>

definition tx_call :: "('s world, unit) prog" where
  "tx_call = State (\<lambda>w. (if wDbFault w (wTick w) then Inl ErrDriver else Inr (), tick w))"

definition rollback_to :: "catalog \<Rightarrow> ('s world, unit) state" where
  "rollback_to c = State (\<lambda>w. ((), w\<lparr>wCat := c\<rparr>))"

definition the_catalog :: "('s world, catalog) state" where
  "the_catalog = State (\<lambda>w. (wCat w, w))"

definition withTx :: "('s world, 'a) prog \<Rightarrow> ('s world, 'a) prog" where
  "withTx fn =
     check tx_call throw (\<lambda>_.
       State_Monad.bind the_catalog (\<lambda>saved.
         check fn
           (\<lambda>e. State_Monad.bind (rollback_to saved) (\<lambda>_. throw e))
           (\<lambda>x. check tx_call
              (\<lambda>e. State_Monad.bind (rollback_to saved) (\<lambda>_. throw e))
              (\<lambda>_. ok x))))"

section \<open>The environment\<close>

text \<open>\<open>NewID\<close>: sixteen random bytes in hex behind the prefix.\<close>

definition NewID :: "string \<Rightarrow> ('s world, string) state" where
  "NewID pre = State (\<lambda>w. (pre @ ''_'' @ hex_EncodeToString (wRand w (wTick w)), tick w))"

definition ctx_Err :: "('s world, bool) state" where
  "ctx_Err = State (\<lambda>w. (wCtxErr w (wTick w), tick w))"

definition time_Now :: "('s world, int) state" where
  "time_Now = State (\<lambda>w. (wNow w (wTick w), tick w))"

text \<open>Sleeping for \<open>d\<close> nanoseconds: every later reading of the clock is at least \<open>d\<close> later.\<close>

definition time_Sleep :: "int \<Rightarrow> ('s world, unit) state" where
  "time_Sleep d = State (\<lambda>w. ((), (tick w)\<lparr>wNow := (\<lambda>n. wNow w n + d)\<rparr>))"

section \<open>Store calls\<close>

definition store_call :: "('s \<Rightarrow> (error + 'a) \<times> 's) \<Rightarrow> ('s world, 'a) prog" where
  "store_call f = State (\<lambda>w. case f (wObj w) of (r, s) \<Rightarrow> (r, w\<lparr>wObj := s\<rparr>))"

section \<open>Error texts\<close>

text \<open>
  \<open>fmt.Sprintf\<close> on the verbs the error formats use; \<open>%w\<close> prints the wrapped error \<open>cause\<close>.
\<close>

fun fmt_apply :: "string \<Rightarrow> string list \<Rightarrow> string \<Rightarrow> string" where
  "fmt_apply [] args cause = []"
| "fmt_apply [c] args cause = [c]"
| "fmt_apply (c # v # fs) args cause =
     (if c = CHR ''%'' \<and> v = CHR ''w'' then cause @ fmt_apply fs args cause
      else if c = CHR ''%''
      then case args of
             [] \<Rightarrow> fmt_apply fs [] cause
           | a # rest \<Rightarrow> (if v = CHR ''q'' then Quote a else a) @ fmt_apply fs rest cause
      else c # fmt_apply (v # fs) args cause)"

definition Sprintf :: "string \<Rightarrow> string list \<Rightarrow> string" where
  "Sprintf f args = fmt_apply f args []"

fun error_text :: "error \<Rightarrow> string" where
  "error_text (Errorf f args) = fmt_apply f args []"
| "error_text (Wrapf f args e) = fmt_apply f args (error_text e)"
| "error_text ErrNoRows = ''sql: no rows in result set''"
| "error_text ErrUnique = ''UNIQUE constraint failed''"
| "error_text ErrForeignKey = ''FOREIGN KEY constraint failed''"
| "error_text ErrDriver = ''driver error''"
| "error_text ErrContext = ''context canceled''"
| "error_text (ErrJoin d e) = error_text d @ [CHR 0x0A] @ error_text e"
| "error_text (Panic m) = m"
| "error_text Diverges = []"

section \<open>Running\<close>

text \<open>The outcome of a database call, by whether the environment lets it through.\<close>

lemma run_db_exec_Inr:
  assumes "run_state (db_exec f) w = (Inr u, w')"
  shows "\<exists>c. f (db_now w) (wCat w) = Inr c \<and> w' = (tick w)\<lparr>wCat := c\<rparr>"
  using assms by (auto simp: db_exec_def split: if_splits sum.splits)

lemma run_db_exec_Inl:
  "run_state (db_exec f) w = (Inl e, w') \<Longrightarrow> wCat w' = wCat w \<and> wObj w' = wObj w"
  by (auto simp: db_exec_def split: if_splits sum.splits)

lemma run_db_query_Inr:
  "run_state (db_query q) w = (Inr x, w') \<Longrightarrow> q (db_now w) (wCat w) = Inr x \<and> w' = tick w"
  by (auto simp: db_query_def split: if_splits)

lemma run_db_query_state: "run_state (db_query q) w = (r, w') \<Longrightarrow> w' = tick w"
  by (auto simp: db_query_def split: if_splits)

text \<open>The weakest preconditions of the primitive calls.\<close>

lemma wp_db_exec [wp_rules]:
  "wp (db_exec f) Q w \<longleftrightarrow>
     (if wDbFault w (wTick w) then Q (Inl ErrDriver) (tick w)
      else case f (db_now w) (wCat w) of
        Inl e \<Rightarrow> Q (Inl e) (tick w) | Inr c \<Rightarrow> Q (Inr ()) ((tick w)\<lparr>wCat := c\<rparr>))"
  by (simp add: wp_def db_exec_def split: sum.splits)

lemma wp_db_query [wp_rules]:
  "wp (db_query q) Q w \<longleftrightarrow>
     (if wDbFault w (wTick w) then Q (Inl ErrDriver) (tick w)
      else Q (q (db_now w) (wCat w)) (tick w))"
  by (simp add: wp_def db_query_def)

lemma wp_store_call [wp_rules]:
  "wp (store_call f) Q w \<longleftrightarrow> (case f (wObj w) of (r, s) \<Rightarrow> Q r (w\<lparr>wObj := s\<rparr>))"
  by (simp add: wp_def store_call_def split: prod.splits)

lemma wp_NewID [wp_rules]:
  "wp (NewID p) Q w \<longleftrightarrow> Q (p @ ''_'' @ hex_EncodeToString (wRand w (wTick w))) (tick w)"
  by (simp add: wp_def NewID_def)

lemma wp_ctx_Err [wp_rules]: "wp ctx_Err Q w \<longleftrightarrow> Q (wCtxErr w (wTick w)) (tick w)"
  by (simp add: wp_def ctx_Err_def)

lemma wp_time_Now [wp_rules]: "wp time_Now Q w \<longleftrightarrow> Q (wNow w (wTick w)) (tick w)"
  by (simp add: wp_def time_Now_def)

lemma wp_time_Sleep [wp_rules]:
  "wp (time_Sleep d) Q w \<longleftrightarrow> Q () ((tick w)\<lparr>wNow := (\<lambda>n. wNow w n + d)\<rparr>)"
  by (simp add: wp_def time_Sleep_def)

section \<open>Frames\<close>

text \<open>The catalog invariant, as a property of the world.\<close>

abbreviation cat_ok :: "'s world \<Rightarrow> bool" where
  "cat_ok w \<equiv> catalog_ok (wCat w)"

lemma keeps_db_exec [frame_rules]: "stmt_ok f \<Longrightarrow> keeps cat_ok (db_exec f)"
  by (auto simp: frame_def db_exec_def stmt_ok_def split: sum.splits)

lemma keeps_db_query [frame_rules]: "keeps cat_ok (db_query q)"
  by (simp add: frame_def db_query_def)

lemma keeps_tx_call [frame_rules]: "keeps cat_ok tx_call"
  by (simp add: frame_def tx_call_def)

lemma keeps_NewID [frame_rules]: "keeps cat_ok (NewID p)"
  by (simp add: frame_def NewID_def)

lemma keeps_ctx_Err [frame_rules]: "keeps cat_ok ctx_Err"
  by (simp add: frame_def ctx_Err_def)

lemma keeps_time_Now [frame_rules]: "keeps cat_ok time_Now"
  by (simp add: frame_def time_Now_def)

lemma keeps_time_Sleep [frame_rules]: "keeps cat_ok (time_Sleep d)"
  by (simp add: frame_def time_Sleep_def)

lemma keeps_store_call [frame_rules]: "keeps cat_ok (store_call f)"
  by (simp add: frame_def store_call_def split: prod.splits)

lemma run_withTx_cases:
  assumes "run_state (withTx fn) w = (r, w')"
  obtains (not_begun) "r = Inl ErrDriver" "w' = tick w"
  | (rolled_back) e w1 where "run_state fn (tick w) = (Inl e, w1)" "r = Inl e" "w' = w1\<lparr>wCat := wCat w\<rparr>"
  | (not_committed) x w1 where "run_state fn (tick w) = (Inr x, w1)" "r = Inl ErrDriver"
      "w' = (tick w1)\<lparr>wCat := wCat w\<rparr>"
  | (committed) x w1 where "run_state fn (tick w) = (Inr x, w1)" "r = Inr x" "w' = tick w1"
proof (cases "wDbFault w (wTick w)")
  case True
  then show ?thesis using assms not_begun by (auto simp: withTx_def run_check tx_call_def)
next
  case False
  obtain r1 w1 where fn: "run_state fn (tick w) = (r1, w1)" by fastforce
  show ?thesis
  proof (cases r1)
    case (Inl e)
    then show ?thesis using assms False fn rolled_back
      by (auto simp: withTx_def run_check tx_call_def the_catalog_def rollback_to_def)
  next
    case (Inr x)
    then show ?thesis using assms False fn not_committed committed
      by (auto simp: withTx_def run_check tx_call_def the_catalog_def rollback_to_def split: if_splits)
  qed
qed

lemma keeps_withTx [frame_rules]:
  assumes "keeps cat_ok fn"
  shows "keeps cat_ok (withTx fn)"
  unfolding frame_def
proof (intro allI impI)
  fix w :: "'a world"
  assume ok: "cat_ok w"
  obtain r w' where run: "run_state (withTx fn) w = (r, w')" by fastforce
  from run have "cat_ok w'"
  proof (cases rule: run_withTx_cases)
    case (committed x w1)
    then show ?thesis using frameD [OF assms committed(1)] ok by simp
  qed (use ok in simp_all)
  then show "cat_ok (snd (run_state (withTx fn) w))" using run by simp
qed

text \<open>Only store calls touch the store.\<close>

lemma obj_db_exec [frame_rules]: "frame (\<lambda>w w'. wObj w' = wObj w) (db_exec f)"
  by (simp add: frame_def db_exec_def split: sum.splits)

lemma obj_db_query [frame_rules]: "frame (\<lambda>w w'. wObj w' = wObj w) (db_query q)"
  by (simp add: frame_def db_query_def)

lemma obj_NewID [frame_rules]: "frame (\<lambda>w w'. wObj w' = wObj w) (NewID p)"
  by (simp add: frame_def NewID_def)

lemma obj_ctx_Err [frame_rules]: "frame (\<lambda>w w'. wObj w' = wObj w) ctx_Err"
  by (simp add: frame_def ctx_Err_def)

lemma obj_time_Now [frame_rules]: "frame (\<lambda>w w'. wObj w' = wObj w) time_Now"
  by (simp add: frame_def time_Now_def)

lemma obj_time_Sleep [frame_rules]: "frame (\<lambda>w w'. wObj w' = wObj w) (time_Sleep d)"
  by (simp add: frame_def time_Sleep_def)

lemma obj_withTx [frame_rules]:
  assumes "frame (\<lambda>w w'. wObj w' = wObj w) fn"
  shows "frame (\<lambda>w w'. wObj w' = wObj w) (withTx fn)"
  unfolding frame_def
proof
  fix w :: "'a world"
  obtain r w' where run: "run_state (withTx fn) w = (r, w')" by fastforce
  from run have "wObj w' = wObj w"
    by (cases rule: run_withTx_cases) (auto dest: frameD [OF assms])
  then show "wObj (snd (run_state (withTx fn) w)) = wObj w" using run by simp
qed

text \<open>Only database writes touch the catalog.\<close>

lemma cat_db_query [frame_rules]: "frame (\<lambda>w w'. wCat w' = wCat w) (db_query q)"
  by (simp add: frame_def db_query_def)

lemma cat_NewID [frame_rules]: "frame (\<lambda>w w'. wCat w' = wCat w) (NewID p)"
  by (simp add: frame_def NewID_def)

lemma cat_ctx_Err [frame_rules]: "frame (\<lambda>w w'. wCat w' = wCat w) ctx_Err"
  by (simp add: frame_def ctx_Err_def)

lemma cat_time_Now [frame_rules]: "frame (\<lambda>w w'. wCat w' = wCat w) time_Now"
  by (simp add: frame_def time_Now_def)

lemma cat_time_Sleep [frame_rules]: "frame (\<lambda>w w'. wCat w' = wCat w) (time_Sleep d)"
  by (simp add: frame_def time_Sleep_def)

lemma cat_store_call [frame_rules]: "frame (\<lambda>w w'. wCat w' = wCat w) (store_call f)"
  by (simp add: frame_def store_call_def split: prod.splits)

end
