(* ===== verification/Go_Time.thy ===== *)
theory Go_Time
  imports Go_Strings
begin

text \<open>
  Instants as nanoseconds since 1970-01-01 UTC, their calendar date, and the layouts the program
  prints them in (\<open>FormatTime\<close> of \<open>src/internal/catalog/repository.go\<close> and the layouts of the catalog
  backups and the web pages). The catalog stores its times as \<open>FormatTime\<close> texts and compares the
  texts; the theorem at the end says that this compares the milliseconds, which is what the columns
  of the model hold.
\<close>

section \<open>The calendar\<close>

text \<open>Days before a year of the Gregorian calendar, counted from year 0.\<close>

definition multiples_below :: "int \<Rightarrow> int \<Rightarrow> int" where
  "multiples_below n y = (y + (n - 1)) div n"

definition days_before_year :: "int \<Rightarrow> int" where
  "days_before_year y = 365 * y + multiples_below 4 y - multiples_below 100 y + multiples_below 400 y"

definition is_leap :: "int \<Rightarrow> bool" where
  "is_leap y \<longleftrightarrow> 4 dvd y \<and> (\<not> 100 dvd y \<or> 400 dvd y)"

definition year_of :: "int \<Rightarrow> int" where
  "year_of z =
     (let y = 400 * z div 146097 in
      if days_before_year (y + 1) \<le> z then y + 1
      else if z < days_before_year y then y - 1 else y)"

definition month_starts :: "bool \<Rightarrow> int list" where
  "month_starts leap =
     (if leap then [0, 31, 60, 91, 121, 152, 182, 213, 244, 274, 305, 335]
      else [0, 31, 59, 90, 120, 151, 181, 212, 243, 273, 304, 334])"

definition month_of :: "bool \<Rightarrow> int \<Rightarrow> nat" where
  "month_of leap doy = length (filter (\<lambda>s. s \<le> doy) (month_starts leap))"

definition day_of :: "bool \<Rightarrow> int \<Rightarrow> int" where
  "day_of leap doy = doy - month_starts leap ! (month_of leap doy - 1) + 1"

text \<open>The day number of the epoch.\<close>

definition epoch_days :: int where
  "epoch_days = 719528"

definition days_of :: "int \<Rightarrow> int" where
  "days_of t = t div 1000000000 div 86400 + epoch_days"

definition Year :: "int \<Rightarrow> int" where
  "Year t = year_of (days_of t)"

definition Month :: "int \<Rightarrow> int" where
  "Month t = int (month_of (is_leap (Year t)) (days_of t - days_before_year (Year t)))"

definition Day :: "int \<Rightarrow> int" where
  "Day t = day_of (is_leap (Year t)) (days_of t - days_before_year (Year t))"

definition Clock :: "int \<Rightarrow> int \<times> int \<times> int" where
  "Clock t = (let s = t div 1000000000 mod 86400 in (s div 3600, s mod 3600 div 60, s mod 60))"

definition Millisecond :: "int \<Rightarrow> int" where
  "Millisecond t = t mod 1000000000 div 1000000"

section \<open>Layouts\<close>

definition fmt_width :: "nat \<Rightarrow> int \<Rightarrow> string" where
  "fmt_width w n = (if n < 0 then CHR ''-'' # pad0 w (show_nat (nat (- n))) else pad0 w (show_nat (nat n)))"

text \<open>\<open>2006-01-02T15:04:05.000Z\<close>\<close>

definition FormatTime :: "int \<Rightarrow> string" where
  "FormatTime t =
     (case Clock t of (h, m, s) \<Rightarrow>
        fmt_width 4 (Year t) @ ''-'' @ fmt_width 2 (Month t) @ ''-'' @ fmt_width 2 (Day t) @ ''T'' @
        fmt_width 2 h @ '':'' @ fmt_width 2 m @ '':'' @ fmt_width 2 s @ ''.'' @ fmt_width 3 (Millisecond t) @ ''Z'')"

text \<open>\<open>20060102T150405Z\<close>\<close>

definition format_compact :: "int \<Rightarrow> string" where
  "format_compact t =
     (case Clock t of (h, m, s) \<Rightarrow>
        fmt_width 4 (Year t) @ fmt_width 2 (Month t) @ fmt_width 2 (Day t) @ ''T'' @
        fmt_width 2 h @ fmt_width 2 m @ fmt_width 2 s @ ''Z'')"

text \<open>\<open>2006-01-02 15:04 UTC\<close>\<close>

definition format_display :: "int \<Rightarrow> string" where
  "format_display t =
     (case Clock t of (h, m, s) \<Rightarrow>
        fmt_width 4 (Year t) @ ''-'' @ fmt_width 2 (Month t) @ ''-'' @ fmt_width 2 (Day t) @ '' '' @
        fmt_width 2 h @ '':'' @ fmt_width 2 m @ '' UTC'')"

section \<open>Years and months\<close>

lemma multiples_below_split:
  assumes "0 < n"
  shows "n * multiples_below n y \<le> y + (n - 1)" "y \<le> n * multiples_below n y"
proof -
  define a where "a = y + (n - 1)"
  have "n * (a div n) + a mod n = a" "0 \<le> a mod n" "a mod n < n" using assms by simp_all
  then have "n * (a div n) \<le> a \<and> a - (n - 1) \<le> n * (a div n)" by linarith
  then show "n * multiples_below n y \<le> y + (n - 1)" "y \<le> n * multiples_below n y"
    unfolding multiples_below_def a_def [symmetric] by (simp_all add: a_def)
qed

lemma multiples_below_step:
  assumes "0 < n"
  shows "multiples_below n (y + 1) = multiples_below n y + (if n dvd y then 1 else 0)"
proof -
  define q r where "q = y div n" and "r = y mod n"
  have y: "y = n * q + r" "0 \<le> r" "r < n" using assms by (simp_all add: q_def r_def)
  have "multiples_below n y = (if r = 0 then q else q + 1)"
    unfolding multiples_below_def
    by (rule int_div_pos_eq [where r = "if r = 0 then n - 1 else r - 1"]) (use y assms in \<open>auto simp: algebra_simps\<close>)
  moreover have "multiples_below n (y + 1) = q + 1"
    unfolding multiples_below_def
    by (rule int_div_pos_eq [where r = r]) (use y assms in \<open>auto simp: algebra_simps\<close>)
  ultimately show ?thesis by (auto simp: r_def dvd_eq_mod_eq_0)
qed

lemma days_before_year_bounds:
  "400 * days_before_year y \<ge> 146097 * y - 396" "400 * days_before_year y \<le> 146097 * y + 699"
  using multiples_below_split [of 4 y] multiples_below_split [of 100 y] multiples_below_split [of 400 y]
  by (simp_all add: days_before_year_def algebra_simps)

lemma year_of_days: "days_before_year (year_of z) \<le> z" "z < days_before_year (year_of z + 1)"
proof -
  define y where "y = 400 * z div 146097"
  have y: "146097 * y \<le> 400 * z" "400 * z < 146097 * y + 146097" unfolding y_def by linarith+
  have "days_before_year (y - 1) \<le> z" using days_before_year_bounds(2) [of "y - 1"] y(1) by (simp add: algebra_simps)
  moreover have "z < days_before_year (y + 2)" using days_before_year_bounds(1) [of "y + 2"] y(2) by (simp add: algebra_simps)
  ultimately show "days_before_year (year_of z) \<le> z" "z < days_before_year (year_of z + 1)"
    by (auto simp: year_of_def Let_def y_def [symmetric] add.assoc)
qed

lemma days_before_year_mono: "x < y \<Longrightarrow> days_before_year x < days_before_year y"
  using days_before_year_bounds(2) [of x] days_before_year_bounds(1) [of y] by linarith

lemma year_of_mono: "y \<le> z \<Longrightarrow> year_of y \<le> year_of z"
proof (rule ccontr)
  assume "y \<le> z" "\<not> year_of y \<le> year_of z"
  then have "days_before_year (year_of z + 1) \<le> days_before_year (year_of y)"
    using days_before_year_mono [of "year_of z + 1" "year_of y"] by (cases "year_of z + 1 = year_of y") auto
  then show False using year_of_days(1) [of y] year_of_days(2) [of z] \<open>y \<le> z\<close> by linarith
qed

lemma year_length: "days_before_year (y + 1) - days_before_year y = (if is_leap y then 366 else 365)"
proof -
  define b4 b100 b400 where b: "b4 = (4 dvd y)" "b100 = (100 dvd y)" "b400 = (400 dvd y)"
  have imp: "b100 \<longrightarrow> b4" "b400 \<longrightarrow> b100"
    using dvd_trans [of 4 100 y] dvd_trans [of 100 400 y] unfolding b by simp_all
  have step: "multiples_below 4 (y + 1) = multiples_below 4 y + (if b4 then 1 else 0)"
    "multiples_below 100 (y + 1) = multiples_below 100 y + (if b100 then 1 else 0)"
    "multiples_below 400 (y + 1) = multiples_below 400 y + (if b400 then 1 else 0)"
    unfolding b by (rule multiples_below_step, simp)+
  have leap: "is_leap y \<longleftrightarrow> b4 \<and> (\<not> b100 \<or> b400)" unfolding is_leap_def b ..
  show ?thesis
    unfolding days_before_year_def step leap using imp by (cases b4; cases b100; cases b400) simp_all
qed

text \<open>Within a year the month and the day of the month grow with the day of the year.\<close>

lemma length_filter_mono: "(\<And>x. P x \<Longrightarrow> Q x) \<Longrightarrow> length (filter P xs) \<le> length (filter Q xs)"
  by (induction xs) auto

lemma month_of_mono: "d \<le> e \<Longrightarrow> month_of leap d \<le> month_of leap e"
  unfolding month_of_def by (rule length_filter_mono) simp

lemma day_in_year:
  assumes "0 \<le> doy" and "doy < (if leap then 366 else 365)"
  shows "1 \<le> month_of leap doy" "month_of leap doy \<le> 12" "1 \<le> day_of leap doy" "day_of leap doy \<le> 31"
  using assms by (auto simp: day_of_def month_of_def month_starts_def split: if_splits)

lemma date_mono:
  assumes "d < e"
  shows "month_of leap d < month_of leap e \<or> month_of leap d = month_of leap e \<and> day_of leap d < day_of leap e"
  using month_of_mono [of d e leap] assms by (auto simp: day_of_def)

section \<open>Fixed-width numbers\<close>

text \<open>Strings are compared byte by byte.\<close>

fun str_less :: "string \<Rightarrow> string \<Rightarrow> bool" where
  "str_less s [] = False"
| "str_less [] (d # t) = True"
| "str_less (c # s) (d # t) = ((of_char c :: nat) < of_char d \<or> c = d \<and> str_less s t)"

lemma str_less_irrefl [simp]: "\<not> str_less s s"
  by (induction s) auto

lemma str_less_trans: "str_less s t \<Longrightarrow> str_less t u \<Longrightarrow> str_less s u"
  by (induction s t arbitrary: u rule: str_less.induct) (case_tac u; auto)+

lemma str_less_append_same [simp]: "str_less (p @ s) (p @ t) \<longleftrightarrow> str_less s t"
  by (induction p) auto

lemma str_less_append: "str_less p q \<Longrightarrow> length p = length q \<Longrightarrow> str_less (p @ s) (q @ t)"
  by (induction p q rule: str_less.induct) auto

fun digits :: "nat \<Rightarrow> nat \<Rightarrow> string" where
  "digits 0 n = []"
| "digits (Suc w) n = digits w (n div 10) @ [digit_char (n mod 10)]"

lemma length_digits [simp]: "length (digits w n) = w"
  by (induction w arbitrary: n) auto

lemma digits_0: "digits w 0 = replicate w (CHR ''0'')"
proof (induction w)
  case (Suc w)
  have "digit_char 0 = CHR ''0''" by code_simp
  then show ?case using Suc by (simp add: replicate_append_same)
qed simp

lemma digits_less: "n < m \<Longrightarrow> m < 10 ^ w \<Longrightarrow> str_less (digits w n) (digits w m)"
proof (induction w arbitrary: n m)
  case (Suc w)
  show ?case
  proof (cases "n div 10 < m div 10")
    case True
    then show ?thesis using Suc.IH [OF True] Suc.prems(2) by (auto intro: str_less_append)
  next
    case False
    then have eq: "n div 10 = m div 10" using div_le_mono [of n m 10] Suc.prems(1) by simp
    have "n = n div 10 * 10 + n mod 10" "m = m div 10 * 10 + m mod 10" by simp_all
    then have "n mod 10 < m mod 10" using eq Suc.prems(1) by linarith
    then show ?thesis using eq by simp
  qed
qed simp

lemma pad0_digits: "n < 10 ^ w \<Longrightarrow> 0 < w \<Longrightarrow> pad0 w (show_nat n) = digits w n"
proof (induction w arbitrary: n)
  case (Suc w)
  show ?case
  proof (cases "n < 10")
    case True
    then show ?thesis by (simp add: show_nat_def show_base.simps [of 10 n] pad0_def digits_0)
  next
    case False
    then have "0 < w" using Suc.prems(1) by (cases w) auto
    moreover have "n div 10 < 10 ^ w" using Suc.prems(1) by auto
    ultimately have "pad0 w (show_nat (n div 10)) = digits w (n div 10)" by (intro Suc.IH)
    moreover have "show_nat n = show_nat (n div 10) @ [digit_char (n mod 10)]"
      using False by (simp add: show_nat_def show_base.simps [of 10 n])
    ultimately show ?thesis by (simp add: pad0_def)
  qed
qed simp

text \<open>A number of a given width, and how two of them compare inside a longer text.\<close>

definition fits :: "nat \<Rightarrow> int \<Rightarrow> bool" where
  "fits w n \<longleftrightarrow> 0 < w \<and> 0 \<le> n \<and> n < 10 ^ w"

lemma fmt_width_digits: "fits w n \<Longrightarrow> fmt_width w n = digits w (nat n)"
  by (auto simp: fits_def fmt_width_def nat_less_iff intro: pad0_digits)

lemma fmt_width_append_less:
  assumes "fits w n" and "fits w m" and "n < m \<or> n = m \<and> str_less s t"
  shows "str_less (fmt_width w n @ s) (fmt_width w m @ t)"
proof (cases "n < m")
  case True
  then have "str_less (digits w (nat n)) (digits w (nat m))"
    using assms(1,2) by (intro digits_less) (auto simp: fits_def nat_less_iff)
  then show ?thesis using assms(1,2) by (simp add: fmt_width_digits str_less_append)
next
  case False
  then show ?thesis using assms(3) by simp
qed

section \<open>Texts in the order of the times\<close>

definition four_digit_year :: "int \<Rightarrow> bool" where
  "four_digit_year t \<longleftrightarrow> 0 \<le> Year t \<and> Year t \<le> 9999"

lemma date_fits:
  assumes "four_digit_year t"
  shows "fits 4 (Year t)" "fits 2 (Month t)" "fits 2 (Day t)"
proof -
  have "0 \<le> days_of t - days_before_year (Year t)"
    "days_of t - days_before_year (Year t) < (if is_leap (Year t) then 366 else 365)"
    using year_of_days [of "days_of t"] year_length [of "Year t"] by (simp_all add: Year_def)
  from day_in_year [OF this] show "fits 2 (Month t)" "fits 2 (Day t)"
    by (simp_all add: fits_def Month_def Day_def)
  show "fits 4 (Year t)" using assms by (simp add: fits_def four_digit_year_def)
qed

lemma clock_fits:
  assumes "Clock t = (h, m, s)"
  shows "fits 2 h" "fits 2 m" "fits 2 s" "fits 3 (Millisecond t)"
proof -
  define x where "x = t div 1000000000 mod 86400"
  have "0 \<le> x" "x < 86400" by (simp_all add: x_def)
  moreover have "h = x div 3600" "m = x mod 3600 div 60" "s = x mod 60"
    using assms by (simp_all add: Clock_def Let_def x_def)
  moreover have "0 \<le> x mod 3600" "x mod 3600 < 3600" by simp_all
  ultimately show "fits 2 h" "fits 2 m" "fits 2 s" by (auto simp: fits_def intro: order_le_less_trans [of _ "59"])
  have "0 \<le> t mod 1000000000" "t mod 1000000000 < 1000000000" by simp_all
  then show "fits 3 (Millisecond t)" by (auto simp: fits_def Millisecond_def)
qed

text \<open>The date by the day, the time of day by the milliseconds of the day.\<close>

lemma date_by_day:
  assumes "days_of a < days_of b"
  shows "Year a < Year b \<or> Year a = Year b \<and> (Month a < Month b \<or> Month a = Month b \<and> Day a < Day b)"
proof (cases "Year a = Year b")
  case True
  then show ?thesis
    using date_mono [of "days_of a - days_before_year (Year b)" "days_of b - days_before_year (Year b)" "is_leap (Year b)"] assms
    by (auto simp: Month_def Day_def)
next
  case False
  then show ?thesis using year_of_mono [of "days_of a" "days_of b"] assms by (simp add: Year_def)
qed

definition millis_of_day :: "int \<Rightarrow> int" where
  "millis_of_day t = t div 1000000 mod 86400000"

lemma millis_split: "t div 1000000 = (days_of t - epoch_days) * 86400000 + millis_of_day t" "0 \<le> millis_of_day t"
    "millis_of_day t < 86400000"
proof -
  have "t div 1000000000 div 86400 = t div 1000000 div 86400000"
    by (simp add: zdiv_zmult2_eq [symmetric])
  then show "t div 1000000 = (days_of t - epoch_days) * 86400000 + millis_of_day t"
    by (simp add: days_of_def millis_of_day_def)
qed (simp_all add: millis_of_day_def)

lemma clock_millis:
  assumes "Clock t = (h, m, s)"
  shows "millis_of_day t = ((h * 60 + m) * 60 + s) * 1000 + Millisecond t"
proof -
  define x where "x = t div 1000000000 mod 86400"
  have c: "h = x div 3600" "m = x mod 3600 div 60" "s = x mod 60"
    using assms by (simp_all add: Clock_def Let_def x_def)
  have "x mod 60 = x mod 3600 mod 60" by (simp add: mod_mod_cancel)
  then have "x = (h * 60 + m) * 60 + s" unfolding c by (simp add: algebra_simps)
  moreover have "millis_of_day t = x * 1000 + Millisecond t"
  proof -
    have "t mod (1000000 * 1000) div 1000000 = t div 1000000 mod 1000"
      by (subst zmod_zmult2_eq) simp_all
    moreover have "t div 1000000 mod (1000 * 86400) = 1000 * (t div 1000000 div 1000 mod 86400) + t div 1000000 mod 1000"
      by (rule zmod_zmult2_eq) simp
    moreover have "t div 1000000 div 1000 = t div 1000000000" by (simp add: zdiv_zmult2_eq [symmetric])
    ultimately show ?thesis by (simp add: millis_of_day_def Millisecond_def x_def)
  qed
  ultimately show ?thesis by simp
qed

lemma mixed_radix_less:
  fixes p :: int
  assumes "p * k + q < p' * k + q'" and "0 \<le> q" and "q' < k" and "0 < k"
  shows "p < p' \<or> p = p' \<and> q < q'"
proof (rule ccontr)
  assume no: "\<not> ?thesis"
  then have "p' + 1 \<le> p" using assms(1) by (cases "p = p'") auto
  then have "(p' + 1) * k \<le> p * k" using assms(4) by (intro mult_right_mono) simp_all
  then show False using assms by (simp add: distrib_right)
qed

lemma mixed_radix_eq:
  fixes p :: int
  assumes "p * k + q = p' * k + q'" and "0 \<le> q" and "q < k" and "0 \<le> q'" and "q' < k"
  shows "p = p' \<and> q = q'"
proof -
  have "(p * k + q) div k = p" "(p' * k + q') div k = p'"
    using assms(2-) int_div_pos_eq [of "p * k + q" k p q] int_div_pos_eq [of "p' * k + q'" k p' q'] by (simp_all add: mult.commute)
  then show ?thesis using assms(1) by simp
qed

lemma div_less_bound:
  fixes r :: int
  assumes "r < k * n" and "0 < n"
  shows "r div n < k"
proof (rule ccontr)
  assume "\<not> r div n < k"
  then have "k * n \<le> r div n * n" using assms(2) by (intro mult_right_mono) simp_all
  moreover have "r div n * n \<le> r" using assms(2) by (simp add: minus_mod_eq_div_mult [symmetric])
  ultimately show False using assms(1) by simp
qed

lemma clock_small:
  assumes "Clock t = (h, m, s)"
  shows "0 \<le> m" "m < 60" "0 \<le> s" "s < 60" "0 \<le> Millisecond t" "Millisecond t < 1000"
proof -
  define x where "x = t div 1000000000 mod 86400"
  have c: "m = x mod 3600 div 60" "s = x mod 60" using assms by (simp_all add: Clock_def Let_def x_def)
  show "m < 60" unfolding c by (rule div_less_bound) simp_all
  show "0 \<le> m" unfolding c by (simp add: pos_imp_zdiv_nonneg_iff)
  show "0 \<le> s" "s < 60" unfolding c by simp_all
  show "0 \<le> Millisecond t" "Millisecond t < 1000" using clock_fits(4) [OF assms] by (simp_all add: fits_def)
qed

lemma clock_by_millis:
  assumes "Clock a = (h, m, s)" and "Clock b = (h', m', s')" and "millis_of_day a < millis_of_day b"
  shows "h < h' \<or> h = h' \<and> (m < m' \<or> m = m' \<and> (s < s' \<or> s = s' \<and> Millisecond a < Millisecond b))"
proof -
  note small = clock_small [OF assms(1)] clock_small [OF assms(2)]
  have less: "((h * 60 + m) * 60 + s) * 1000 + Millisecond a < ((h' * 60 + m') * 60 + s') * 1000 + Millisecond b"
    using assms(3) by (simp only: clock_millis [OF assms(1)] clock_millis [OF assms(2)])
  show ?thesis
    using mixed_radix_less [OF less] mixed_radix_less [of "h * 60 + m" 60 s "h' * 60 + m'" s']
      mixed_radix_less [of h 60 m h' m']
      mixed_radix_eq [of "h * 60 + m" 60 s "h' * 60 + m'" s'] mixed_radix_eq [of h 60 m h' m'] small by auto
qed

lemma FormatTime_less:
  assumes "four_digit_year a" and "four_digit_year b" and "a div 1000000 < b div 1000000"
  shows "str_less (FormatTime a) (FormatTime b)"
proof -
  obtain h m s h' m' s' where c: "Clock a = (h, m, s)" "Clock b = (h', m', s')" by (metis prod.exhaust)
  note fit = date_fits [OF assms(1)] date_fits [OF assms(2)] clock_fits [OF c(1)] clock_fits [OF c(2)]
  consider (day) "days_of a < days_of b" | (clock) "days_of a = days_of b" "millis_of_day a < millis_of_day b"
    using assms(3) millis_split [of a] millis_split [of b] by (cases "days_of a" "days_of b" rule: linorder_cases) auto
  then show ?thesis
  proof cases
    case day
    then show ?thesis
      using date_by_day [OF day] fit unfolding FormatTime_def c prod.case
      by (auto intro!: fmt_width_append_less)
  next
    case clock
    then have "Year a = Year b" "Month a = Month b" "Day a = Day b"
      by (simp_all add: Year_def Month_def Day_def)
    then show ?thesis
      using clock_by_millis [OF c clock(2)] fit unfolding FormatTime_def c prod.case
      by (auto intro!: fmt_width_append_less)
  qed
qed

lemma FormatTime_eq:
  assumes "a div 1000000 = b div 1000000"
  shows "FormatTime a = FormatTime b"
proof -
  have days: "days_of a = days_of b"
  proof -
    have "t div 1000000000 div 86400 = t div 1000000 div 86400000" for t :: int
      by (simp add: zdiv_zmult2_eq [symmetric])
    then show ?thesis using assms by (simp add: days_of_def)
  qed
  have "t div 1000000000 = t div 1000000 div 1000" for t :: int by (simp add: zdiv_zmult2_eq [symmetric])
  then have "Clock a = Clock b" using assms by (simp add: Clock_def)
  moreover have "Millisecond t = t div 1000000 mod 1000" for t
  proof -
    have "t mod (1000000 * 1000) div 1000000 = t div 1000000 mod 1000"
      by (subst zmod_zmult2_eq) simp_all
    then show ?thesis by (simp add: Millisecond_def)
  qed
  ultimately show ?thesis using days assms by (simp add: FormatTime_def Year_def Month_def Day_def)
qed

text \<open>
  The catalog compares its times as texts, and that is right: for any two instants in years with four
  digits, \<open>FormatTime\<close> gives texts that compare byte by byte as the instants compare in milliseconds, and are equal exactly
  for the same millisecond.
\<close>

theorem FormatTime_order:
  assumes "four_digit_year a" and "four_digit_year b"
  shows "(str_less (FormatTime a) (FormatTime b) \<longleftrightarrow> a div 1000000 < b div 1000000) \<and>
    (FormatTime a = FormatTime b \<longleftrightarrow> a div 1000000 = b div 1000000)"
proof (cases "a div 1000000" "b div 1000000" rule: linorder_cases)
  case less
  have "str_less (FormatTime a) (FormatTime b)" using FormatTime_less [OF assms less] .
  then have "FormatTime a \<noteq> FormatTime b" by auto
  then show ?thesis using \<open>str_less (FormatTime a) (FormatTime b)\<close> less by simp
next
  case equal
  then show ?thesis using FormatTime_eq [OF equal] by simp
next
  case greater
  have gt: "str_less (FormatTime b) (FormatTime a)" using FormatTime_less [OF assms(2,1) greater] .
  then have "FormatTime a \<noteq> FormatTime b" "\<not> str_less (FormatTime a) (FormatTime b)"
    using gt str_less_trans [OF gt, of "FormatTime b"] by auto
  then show ?thesis using greater by simp
qed

lemma leap_day:
  "Year 951782399999000000 = 2000" "Month 951782399999000000 = 2" "Day 951782399999000000 = 28"
  "Year 951782400000000000 = 2000" "Month 951782400000000000 = 2" "Day 951782400000000000 = 29"
  by code_simp+

theorem FormatTime_order_witness:
  "(Year 951782400000000000, Month 951782400000000000, Day 951782400000000000) = (2000, 2, 29) \<and>
   str_less (FormatTime 951782399999000000) (FormatTime 951782400000000000)"
  using FormatTime_order [of 951782399999000000 951782400000000000] leap_day by (simp add: four_digit_year_def)

end
