(* ===== verification/Catalog_Repository.thy ===== *)
theory Catalog_Repository
  imports World Go_Time
begin

text \<open>
  The repository (\<open>src/internal/catalog/repository.go\<close>): every method as a program over the
  world. A method that uses \<open>withTx\<close> is atomic; the others are sequences of statements that
  can stop half way.
\<close>

section \<open>Uploads\<close>

record DatasetIdentity =
  di_Source :: string
  di_Pool :: string
  di_Dataset :: string
  di_Snapshot :: string
  di_BaseSnapshot :: string
  di_MaxIncrementalChainDepth :: int

record ResolvedDataset =
  rd_SourceID :: string
  rd_PoolID :: string
  rd_DatasetID :: string

record StartedUpload =
  su_SourceID :: string
  su_PoolID :: string
  su_DatasetID :: string
  su_SnapshotID :: string
  su_UploadSessionID :: string
  su_OperationID :: string
  su_BaseSnapshotID :: "string option"

record ChunkRecord =
  cr_ID :: string
  cr_Index :: int
  cr_ObjectKey :: string
  cr_SizeBytes :: int
  cr_OffsetStart :: int
  cr_OffsetEnd :: int
  cr_SHA256 :: string

definition resolve_source :: "string \<Rightarrow> ('s world, string) prog" where
  "resolve_source sourceName =
     check (db_query (q_GetSourceByName sourceName))
       (\<lambda>err. if errors_Is err ErrNoRows
              then State_Monad.bind (NewID ''src'') (\<lambda>sid.
                check (db_exec (q_CreateSource sid sourceName []))
                  (\<lambda>e. throw (Wrapf (msg ''create source: %w'') [] e)) (\<lambda>_. ok sid))
              else throw (Wrapf (msg ''get source: %w'') [] err))
       (\<lambda>source. check (db_exec (q_TouchSource (src_ID source)))
          (\<lambda>e. throw (Wrapf (msg ''touch source: %w'') [] e)) (\<lambda>_. ok (src_ID source)))"

definition resolve_pool :: "string \<Rightarrow> string \<Rightarrow> ('s world, string) prog" where
  "resolve_pool sid poolName =
     check (db_query (q_GetPoolByName sid poolName))
       (\<lambda>err. if errors_Is err ErrNoRows
              then State_Monad.bind (NewID ''pool'') (\<lambda>pid.
                check (db_exec (q_CreatePool pid sid poolName))
                  (\<lambda>e. throw (Wrapf (msg ''create pool: %w'') [] e)) (\<lambda>_. ok pid))
              else throw (Wrapf (msg ''get pool: %w'') [] err))
       (\<lambda>pool. check (db_exec (q_TouchPool (pl_ID pool)))
          (\<lambda>e. throw (Wrapf (msg ''touch pool: %w'') [] e)) (\<lambda>_. ok (pl_ID pool)))"

definition resolve_dataset :: "string \<Rightarrow> string \<Rightarrow> string \<Rightarrow> ('s world, string) prog" where
  "resolve_dataset sid pid datasetPath =
     check (db_query (q_GetDatasetByPath sid pid datasetPath))
       (\<lambda>err. if errors_Is err ErrNoRows
              then State_Monad.bind (NewID ''ds'') (\<lambda>did.
                check (db_exec (q_CreateDataset did sid pid datasetPath datasetPath))
                  (\<lambda>e. throw (Wrapf (msg ''create dataset: %w'') [] e)) (\<lambda>_. ok did))
              else throw (Wrapf (msg ''get dataset: %w'') [] err))
       (\<lambda>dataset. check (db_exec (q_TouchDataset (ds_ID dataset)))
          (\<lambda>e. throw (Wrapf (msg ''touch dataset: %w'') [] e)) (\<lambda>_. ok (ds_ID dataset)))"

definition ResolveDataset :: "string \<Rightarrow> string \<Rightarrow> string \<Rightarrow> ('s world, ResolvedDataset) prog" where
  "ResolveDataset sourceName poolName datasetPath =
     check (resolve_source sourceName) throw (\<lambda>sid.
     check (resolve_pool sid poolName) throw (\<lambda>pid.
     check (resolve_dataset sid pid datasetPath) throw (\<lambda>did.
       ok \<lparr>rd_SourceID = sid, rd_PoolID = pid, rd_DatasetID = did\<rparr>)))"

definition RestoreChain :: "string \<Rightarrow> ('s world, ListSnapshotRestoreChainRow list) prog" where
  "RestoreChain snapshotID = db_query (q_ListSnapshotRestoreChain snapshotID)"

definition ChainDepth :: "string \<Rightarrow> ('s world, int) prog" where
  "ChainDepth snapshotID = check (RestoreChain snapshotID) throw (\<lambda>chain. ok (int (length chain)))"

text \<open>The part of \<open>startUpload\<close> that resolves and checks the base snapshot.\<close>

definition check_base :: "DatasetIdentity \<Rightarrow> Snapshot \<Rightarrow> ('s world, string option) prog" where
  "check_base ident base =
     (if sn_Status base \<noteq> SnapCommitted
      then throw (Errorf (msg ''base snapshot %q is %s, not committed'')
             [di_BaseSnapshot ident, show_snapshot_status (sn_Status base)])
      else if di_MaxIncrementalChainDepth ident > 0
      then check (ChainDepth (sn_ID base))
        (\<lambda>e. throw (Wrapf (msg ''check base snapshot chain depth: %w'') [] e))
        (\<lambda>depth.
          let incomingDepth = depth + 1 in
          if incomingDepth > di_MaxIncrementalChainDepth ident
          then throw (Errorf (msg ''incremental chain depth would be %d, exceeding MAX_INCREMENTAL_CHAIN_DEPTH=%d; send a full snapshot to create a new anchor'')
                 [show_int incomingDepth, show_int (di_MaxIncrementalChainDepth ident)])
          else ok (Some (sn_ID base)))
      else ok (Some (sn_ID base)))"

definition start_base :: "DatasetIdentity \<Rightarrow> string \<Rightarrow> ('s world, string option) prog" where
  "start_base ident did =
     (if di_BaseSnapshot ident = [] then ok None
      else check (db_query (q_GetSnapshotByName did (di_BaseSnapshot ident)))
        (\<lambda>e. throw (Wrapf (msg ''base snapshot %q not found: %w'') [di_BaseSnapshot ident] e))
        (check_base ident))"

text \<open>The part that makes room for the new snapshot row: only a failed or aborted one is replaced.\<close>

definition start_replace :: "DatasetIdentity \<Rightarrow> string \<Rightarrow> ('s world, unit) prog" where
  "start_replace ident did =
     check (db_query (q_GetSnapshotByName did (di_Snapshot ident)))
       (\<lambda>err. if \<not> errors_Is err ErrNoRows then throw (Wrapf (msg ''check snapshot: %w'') [] err) else ok ())
       (\<lambda>existing.
         if sn_Status existing \<noteq> SnapFailed \<and> sn_Status existing \<noteq> SnapAborted
         then throw (Errorf (msg ''snapshot %q already exists'') [di_Snapshot ident])
         else check (db_exec (q_DeleteSnapshot (sn_ID existing)))
           (\<lambda>e. throw (Wrapf (msg ''delete previous %s snapshot %q before retry: %w'')
                  [show_snapshot_status (sn_Status existing), di_Snapshot ident] e))
           ok)"

text \<open>The part that inserts the rows of the upload.\<close>

definition start_rows ::
  "DatasetIdentity \<Rightarrow> int \<Rightarrow> ResolvedDataset \<Rightarrow> string option \<Rightarrow> ('s world, StartedUpload) prog" where
  "start_rows ident chunkSize resolved baseID =
     (let did = rd_DatasetID resolved in
     State_Monad.bind (NewID ''snap'') (\<lambda>snapID.
     State_Monad.bind (NewID ''upload'') (\<lambda>uploadID.
     State_Monad.bind (NewID ''op'') (\<lambda>opID.
     check (db_exec (q_CreatePendingSnapshot snapID did (di_Snapshot ident) baseID))
       (\<lambda>e. throw (Wrapf (msg ''create snapshot: %w'') [] e)) (\<lambda>_.
     check (db_exec (q_CreateUploadSession uploadID did (Some snapID) (di_Snapshot ident) baseID chunkSize))
       (\<lambda>e. throw (Wrapf (msg ''create upload session: %w'') [] e)) (\<lambda>_.
     check (db_exec (q_CreateOperation opID OpUpload OpRunning (Some (rd_SourceID resolved))
              (Some (rd_PoolID resolved)) (Some did) (Some snapID) (Some uploadID)
              (Some (msg ''upload started''))))
       (\<lambda>e. throw (Wrapf (msg ''create operation: %w'') [] e)) (\<lambda>_.
     ok \<lparr>su_SourceID = rd_SourceID resolved, su_PoolID = rd_PoolID resolved, su_DatasetID = did,
         su_SnapshotID = snapID, su_UploadSessionID = uploadID, su_OperationID = opID,
         su_BaseSnapshotID = baseID\<rparr>)))))))"

definition startUpload :: "DatasetIdentity \<Rightarrow> int \<Rightarrow> ('s world, StartedUpload) prog" where
  "startUpload ident chunkSize =
     check (ResolveDataset (di_Source ident) (di_Pool ident) (di_Dataset ident)) throw (\<lambda>resolved.
     check (start_base ident (rd_DatasetID resolved)) throw (\<lambda>baseID.
     check (start_replace ident (rd_DatasetID resolved)) throw (\<lambda>_.
     start_rows ident chunkSize resolved baseID)))"

definition StartUpload :: "DatasetIdentity \<Rightarrow> int \<Rightarrow> ('s world, StartedUpload) prog" where
  "StartUpload ident chunkSize = withTx (startUpload ident chunkSize)"

definition AddVerifiedChunk :: "string \<Rightarrow> string \<Rightarrow> ChunkRecord \<Rightarrow> ('s world, unit) prog" where
  "AddVerifiedChunk snapshotID uploadID chunk =
     State_Monad.bind (if cr_ID chunk = [] then NewID ''chunk'' else ret (cr_ID chunk)) (\<lambda>cid.
       db_exec (q_CreateSnapshotChunk cid snapshotID uploadID (cr_Index chunk) (cr_ObjectKey chunk)
         (cr_SizeBytes chunk) (cr_OffsetStart chunk) (cr_OffsetEnd chunk) (cr_SHA256 chunk)))"

definition UpdateUploadProgress :: "string \<Rightarrow> int \<Rightarrow> int \<Rightarrow> int \<Rightarrow> ('s world, unit) prog" where
  "UpdateUploadProgress uploadID currentIndex completed bytesReceived =
     db_exec (q_UpdateUploadProgress UpWritingChunk currentIndex completed bytesReceived uploadID)"

definition UpdateUploadStatus :: "string \<Rightarrow> upload_status \<Rightarrow> ('s world, unit) prog" where
  "UpdateUploadStatus uploadID status = db_exec (q_UpdateUploadStatus status uploadID)"

definition SetUploadManifestObjectKey :: "string \<Rightarrow> string \<Rightarrow> ('s world, unit) prog" where
  "SetUploadManifestObjectKey uploadID manifestKey =
     db_exec (q_SetUploadManifestObjectKey (Some manifestKey) uploadID)"

definition CommitUpload ::
  "string \<Rightarrow> string \<Rightarrow> string \<Rightarrow> int \<Rightarrow> int \<Rightarrow> string \<Rightarrow> string \<Rightarrow> string \<Rightarrow> int \<Rightarrow> string \<Rightarrow>
   ('s world, unit) prog" where
  "CommitUpload snapshotID uploadID manifestKey logicalBytes storedBytes streamSHA256
       streamFromGUID streamToGUID chunkCount operationID =
     withTx (
       check (db_exec (q_CommitSnapshot (Some manifestKey) (Some logicalBytes) storedBytes
                (Some streamSHA256) streamFromGUID streamToGUID chunkCount snapshotID))
         (\<lambda>e. throw (Wrapf (msg ''commit snapshot: %w'') [] e)) (\<lambda>_.
       check (db_exec (q_CompleteUploadSession logicalBytes chunkCount (Some streamSHA256)
                (Some manifestKey) uploadID))
         (\<lambda>e. throw (Wrapf (msg ''complete upload: %w'') [] e)) (\<lambda>_.
       db_exec (q_UpdateOperationStatus OpSucceeded (Some (msg ''upload committed'')) None operationID))))"

definition FailUpload :: "string \<Rightarrow> string \<Rightarrow> string \<Rightarrow> error \<Rightarrow> ('s world, unit) prog" where
  "FailUpload snapshotID uploadID operationID reason =
     (let m = error_text reason in
      withTx (
        check (db_exec (q_FailSnapshot (Some m) snapshotID))
          (\<lambda>e. throw (Wrapf (msg ''fail snapshot: %w'') [] e)) (\<lambda>_.
        check (db_exec (q_FailUploadSession (Some m) uploadID))
          (\<lambda>e. throw (Wrapf (msg ''fail upload session: %w'') [] e)) (\<lambda>_.
        check (db_exec (q_UpdateOperationStatus OpFailed (Some (msg ''upload failed'')) (Some m) operationID))
          (\<lambda>e. throw (Wrapf (msg ''fail upload operation: %w'') [] e)) ok))))"

section \<open>Reads and deletes\<close>

definition ListSnapshotChunks :: "string \<Rightarrow> ('s world, SnapshotChunk list) prog" where
  "ListSnapshotChunks snapshotID = db_query (q_ListSnapshotChunks snapshotID)"

definition NextCommittedChild :: "string \<Rightarrow> ('s world, (SnapshotRefRow \<times> int) option) prog" where
  "NextCommittedChild snapshotID =
     check (db_query (q_ListCommittedChildSnapshots (Some snapshotID))) throw (\<lambda>children.
       case children of
         [] \<Rightarrow> ok None
       | child # _ \<Rightarrow>
           check (db_query (q_CountCommittedDescendants (Some snapshotID))) throw (\<lambda>tot.
             let remainingAfterNext = tot - 1 in
             ok (Some (child, if remainingAfterNext < 0 then 0 else remainingAfterNext))))"

definition ListUploadSessionChunks :: "string \<Rightarrow> ('s world, SnapshotChunk list) prog" where
  "ListUploadSessionChunks uploadID = db_query (q_ListUploadSessionChunks uploadID)"

record AbandonedUpload =
  au_ID :: string
  au_SnapshotID :: "string option"
  au_ManifestObjectKey :: "string option"

definition ListAbandonedUploadSessions :: "int \<Rightarrow> int \<Rightarrow> ('s world, AbandonedUpload list) prog" where
  "ListAbandonedUploadSessions olderThan lim =
     check (db_query (q_ListAbandonedUploadSessions olderThan (if lim \<le> 0 then 100 else lim))) throw (\<lambda>uploads.
       ok (map (\<lambda>u. \<lparr>au_ID = up_ID u, au_SnapshotID = up_SnapshotID u,
                     au_ManifestObjectKey = up_ManifestObjectKey u\<rparr>) uploads))"

definition DeleteSnapshot :: "string \<Rightarrow> ('s world, unit) prog" where
  "DeleteSnapshot snapshotID = db_exec (q_DeleteSnapshot snapshotID)"

definition DeleteUploadSession :: "string \<Rightarrow> ('s world, unit) prog" where
  "DeleteUploadSession uploadID = db_exec (q_DeleteUploadSession uploadID)"

section \<open>Catalog backups\<close>

text \<open>A zero \<open>time.Time\<close> is \<open>None\<close>.\<close>

record CatalogBackupRecord =
  br_ID :: string
  br_OperationID :: string
  br_ObjectKey :: string
  br_MetadataObjectKey :: string
  br_SizeBytes :: int
  br_ChecksumSHA256 :: string
  br_StartedAt :: int
  br_CompletedAt :: "int option"
  br_Status :: backup_status
  br_FailureReason :: string

record CatalogBackupRef =
  bf_ID :: string
  bf_ObjectKey :: string
  bf_MetadataObjectKey :: string

text \<open>\<open>sql.NullString\{String: s, Valid: s != ""\}\<close>.\<close>

definition null_if_empty :: "string \<Rightarrow> string option" where
  "null_if_empty s = (if s = [] then None else Some s)"

definition CreateCatalogBackupOperation :: "('s world, string) prog" where
  "CreateCatalogBackupOperation =
     State_Monad.bind (NewID ''op'') (\<lambda>operationID.
       check (db_exec (q_CreateOperation operationID OpCatalogBackup OpRunning None None None None None
                (Some (msg ''catalog backup running''))))
         throw (\<lambda>_. ok operationID))"

definition createCatalogBackup :: "CatalogBackupRecord \<Rightarrow> ('s world, unit) prog" where
  "createCatalogBackup r =
     db_exec (q_CreateCatalogBackup (br_ID r) (null_if_empty (br_OperationID r)) (br_ObjectKey r)
       (null_if_empty (br_MetadataObjectKey r)) (br_SizeBytes r) (br_ChecksumSHA256 r)
       (br_StartedAt r) (br_CompletedAt r) (br_Status r) (null_if_empty (br_FailureReason r)))"

definition with_backup_id :: "CatalogBackupRecord \<Rightarrow> ('s world, CatalogBackupRecord) state" where
  "with_backup_id r =
     (if br_ID r = [] then State_Monad.bind (NewID ''catbak'') (\<lambda>i. ret (r\<lparr>br_ID := i\<rparr>)) else ret r)"

definition RecordCatalogBackup :: "CatalogBackupRecord \<Rightarrow> ('s world, unit) prog" where
  "RecordCatalogBackup r = State_Monad.bind (with_backup_id r) createCatalogBackup"

definition RecordSucceededCatalogBackup :: "CatalogBackupRecord \<Rightarrow> string \<Rightarrow> ('s world, unit) prog" where
  "RecordSucceededCatalogBackup r summary =
     State_Monad.bind (with_backup_id r) (\<lambda>r'.
       withTx (
         check (createCatalogBackup r') throw (\<lambda>_.
         db_exec (q_UpdateOperationStatus OpSucceeded (Some summary) None (br_OperationID r')))))"

definition CompleteCatalogBackupOperation :: "string \<Rightarrow> string \<Rightarrow> ('s world, unit) prog" where
  "CompleteCatalogBackupOperation operationID summary =
     db_exec (q_UpdateOperationStatus OpSucceeded (Some summary) None operationID)"

definition FailCatalogBackupOperation :: "string \<Rightarrow> error \<Rightarrow> ('s world, unit) prog" where
  "FailCatalogBackupOperation operationID reason =
     db_exec (q_UpdateOperationStatus OpFailed (Some (msg ''catalog backup failed''))
       (Some (error_text reason)) operationID)"

definition ListCatalogBackupsOlderThan :: "int \<Rightarrow> int \<Rightarrow> ('s world, CatalogBackupRef list) prog" where
  "ListCatalogBackupsOlderThan cutoff lim =
     check (db_query (q_ListCatalogBackupsOlderThan cutoff (if lim \<le> 0 then 100 else lim))) throw (\<lambda>rows.
       ok (map (\<lambda>b. \<lparr>bf_ID = cb_ID b, bf_ObjectKey = cb_ObjectKey b,
                     bf_MetadataObjectKey =
                       (case cb_MetadataObjectKey b of None \<Rightarrow> [] | Some k \<Rightarrow> k)\<rparr>) rows))"

definition DeleteCatalogBackup :: "string \<Rightarrow> ('s world, unit) prog" where
  "DeleteCatalogBackup rid = db_exec (q_DeleteCatalogBackup rid)"

section \<open>Reconciliation\<close>

record ReconcileResult =
  StaleUploadsFailed :: int
  rr_OperationID :: string

definition stale_reason :: "int \<Rightarrow> UploadSession \<Rightarrow> string" where
  "stale_reason cutoff u =
     Sprintf (msg ''stale upload session %s last heartbeat %s before startup cutoff %s'')
       [up_ID u, FormatTime (up_LastHeartbeatAt u * 1000000), FormatTime (cutoff * 1000000)]"

definition reconcile_upload :: "int \<Rightarrow> UploadSession \<Rightarrow> ('s world, unit) prog" where
  "reconcile_upload cutoff u =
     (let reason = stale_reason cutoff u in
      check (case up_SnapshotID u of
               None \<Rightarrow> ok ()
             | Some sid \<Rightarrow>
                 check (db_exec (q_FailSnapshot (Some reason) sid))
                   (\<lambda>e. throw (Wrapf (msg ''fail stale snapshot %s: %w'') [sid] e)) ok)
        throw (\<lambda>_.
      check (db_exec (q_FailUploadSession (Some reason) (up_ID u)))
        (\<lambda>e. throw (Wrapf (msg ''fail stale upload %s: %w'') [up_ID u] e)) (\<lambda>_.
      check (db_exec (q_FailOperationByUploadSession
               (Some (msg ''upload failed by startup reconciliation'')) (Some reason) (Some (up_ID u))))
        (\<lambda>e. throw (Wrapf (msg ''fail upload operation for stale upload %s: %w'') [up_ID u] e)) ok)))"

definition ReconcileStaleUploads :: "int \<Rightarrow> int \<Rightarrow> ('s world, ReconcileResult) prog" where
  "ReconcileStaleUploads staleBefore lim =
     check (db_query (q_ListStaleUploadSessions staleBefore (if lim \<le> 0 then 100 else lim)))
       (\<lambda>e. throw (Wrapf (msg ''list stale upload sessions: %w'') [] e)) (\<lambda>stale.
     if stale = [] then ok \<lparr>StaleUploadsFailed = 0, rr_OperationID = []\<rparr>
     else State_Monad.bind (NewID ''op'') (\<lambda>operationID.
     check (db_exec (q_CreateOperation operationID OpReconciliation OpRunning None None None None None
              (Some (msg ''startup reconciliation running''))))
       (\<lambda>e. throw (Wrapf (msg ''create reconciliation operation: %w'') [] e)) (\<lambda>_.
     check (for_each (reconcile_upload staleBefore) stale) throw (\<lambda>_.
     check (db_exec (q_UpdateOperationStatus OpSucceeded
              (Some (Sprintf (msg ''marked %d stale upload(s) failed'') [show_nat (length stale)]))
              None operationID))
       (\<lambda>e. throw (Wrapf (msg ''complete reconciliation operation: %w'') [] e)) (\<lambda>_.
     ok \<lparr>StaleUploadsFailed = int (length stale), rr_OperationID = operationID\<rparr>)))))"

section \<open>Frames\<close>

text \<open>Every method keeps the catalog invariant and leaves the object store alone.\<close>

lemma resolve_source_frames [frame_rules]:
  "keeps cat_ok (resolve_source x1)" "frame (\<lambda>w w'. wObj w' = wObj w) (resolve_source x1)"
  unfolding resolve_source_def Let_def by (intro frame_rules statement_rules)+

lemma resolve_pool_frames [frame_rules]:
  "keeps cat_ok (resolve_pool x1 x2)" "frame (\<lambda>w w'. wObj w' = wObj w) (resolve_pool x1 x2)"
  unfolding resolve_pool_def Let_def by (intro frame_rules statement_rules)+

lemma resolve_dataset_frames [frame_rules]:
  "keeps cat_ok (resolve_dataset x1 x2 x3)" "frame (\<lambda>w w'. wObj w' = wObj w) (resolve_dataset x1 x2 x3)"
  unfolding resolve_dataset_def Let_def by (intro frame_rules statement_rules)+

lemma ResolveDataset_frames [frame_rules]:
  "keeps cat_ok (ResolveDataset x1 x2 x3)" "frame (\<lambda>w w'. wObj w' = wObj w) (ResolveDataset x1 x2 x3)"
  unfolding ResolveDataset_def Let_def by (intro frame_rules statement_rules)+

lemma RestoreChain_frames [frame_rules]:
  "keeps cat_ok (RestoreChain x1)" "frame (\<lambda>w w'. wObj w' = wObj w) (RestoreChain x1)"
  unfolding RestoreChain_def Let_def by (intro frame_rules statement_rules)+

lemma ChainDepth_frames [frame_rules]:
  "keeps cat_ok (ChainDepth x1)" "frame (\<lambda>w w'. wObj w' = wObj w) (ChainDepth x1)"
  unfolding ChainDepth_def Let_def by (intro frame_rules statement_rules)+

lemma check_base_frames [frame_rules]:
  "keeps cat_ok (check_base x1 x2)" "frame (\<lambda>w w'. wObj w' = wObj w) (check_base x1 x2)"
  unfolding check_base_def Let_def by (intro frame_rules statement_rules)+

lemma start_base_frames [frame_rules]:
  "keeps cat_ok (start_base x1 x2)" "frame (\<lambda>w w'. wObj w' = wObj w) (start_base x1 x2)"
  unfolding start_base_def Let_def by (intro frame_rules statement_rules)+

lemma start_replace_frames [frame_rules]:
  "keeps cat_ok (start_replace x1 x2)" "frame (\<lambda>w w'. wObj w' = wObj w) (start_replace x1 x2)"
  unfolding start_replace_def Let_def by (intro frame_rules statement_rules)+

lemma start_rows_frames [frame_rules]:
  "keeps cat_ok (start_rows x1 x2 x3 x4)" "frame (\<lambda>w w'. wObj w' = wObj w) (start_rows x1 x2 x3 x4)"
  unfolding start_rows_def Let_def by (intro frame_rules statement_rules)+

lemma startUpload_frames [frame_rules]:
  "keeps cat_ok (startUpload x1 x2)" "frame (\<lambda>w w'. wObj w' = wObj w) (startUpload x1 x2)"
  unfolding startUpload_def Let_def by (intro frame_rules statement_rules)+

lemma StartUpload_frames [frame_rules]:
  "keeps cat_ok (StartUpload x1 x2)" "frame (\<lambda>w w'. wObj w' = wObj w) (StartUpload x1 x2)"
  unfolding StartUpload_def Let_def by (intro frame_rules statement_rules)+

lemma AddVerifiedChunk_frames [frame_rules]:
  "keeps cat_ok (AddVerifiedChunk x1 x2 x3)" "frame (\<lambda>w w'. wObj w' = wObj w) (AddVerifiedChunk x1 x2 x3)"
  unfolding AddVerifiedChunk_def Let_def by (intro frame_rules statement_rules)+

lemma UpdateUploadProgress_frames [frame_rules]:
  "keeps cat_ok (UpdateUploadProgress x1 x2 x3 x4)" "frame (\<lambda>w w'. wObj w' = wObj w) (UpdateUploadProgress x1 x2 x3 x4)"
  unfolding UpdateUploadProgress_def Let_def by (intro frame_rules statement_rules)+

lemma UpdateUploadStatus_frames [frame_rules]:
  "keeps cat_ok (UpdateUploadStatus x1 x2)" "frame (\<lambda>w w'. wObj w' = wObj w) (UpdateUploadStatus x1 x2)"
  unfolding UpdateUploadStatus_def Let_def by (intro frame_rules statement_rules)+

lemma SetUploadManifestObjectKey_frames [frame_rules]:
  "keeps cat_ok (SetUploadManifestObjectKey x1 x2)" "frame (\<lambda>w w'. wObj w' = wObj w) (SetUploadManifestObjectKey x1 x2)"
  unfolding SetUploadManifestObjectKey_def Let_def by (intro frame_rules statement_rules)+

lemma CommitUpload_frames [frame_rules]:
  "keeps cat_ok (CommitUpload x1 x2 x3 x4 x5 x6 x7 x8 x9 x10)" "frame (\<lambda>w w'. wObj w' = wObj w) (CommitUpload x1 x2 x3 x4 x5 x6 x7 x8 x9 x10)"
  unfolding CommitUpload_def Let_def by (intro frame_rules statement_rules)+

lemma FailUpload_frames [frame_rules]:
  "keeps cat_ok (FailUpload x1 x2 x3 x4)" "frame (\<lambda>w w'. wObj w' = wObj w) (FailUpload x1 x2 x3 x4)"
  unfolding FailUpload_def Let_def by (intro frame_rules statement_rules)+

lemma ListSnapshotChunks_frames [frame_rules]:
  "keeps cat_ok (ListSnapshotChunks x1)" "frame (\<lambda>w w'. wObj w' = wObj w) (ListSnapshotChunks x1)"
  unfolding ListSnapshotChunks_def Let_def by (intro frame_rules statement_rules)+

lemma NextCommittedChild_frames [frame_rules]:
  "keeps cat_ok (NextCommittedChild x1)" "frame (\<lambda>w w'. wObj w' = wObj w) (NextCommittedChild x1)"
  unfolding NextCommittedChild_def Let_def by (intro frame_rules statement_rules)+

lemma ListUploadSessionChunks_frames [frame_rules]:
  "keeps cat_ok (ListUploadSessionChunks x1)" "frame (\<lambda>w w'. wObj w' = wObj w) (ListUploadSessionChunks x1)"
  unfolding ListUploadSessionChunks_def Let_def by (intro frame_rules statement_rules)+

lemma ListAbandonedUploadSessions_frames [frame_rules]:
  "keeps cat_ok (ListAbandonedUploadSessions x1 x2)" "frame (\<lambda>w w'. wObj w' = wObj w) (ListAbandonedUploadSessions x1 x2)"
  unfolding ListAbandonedUploadSessions_def Let_def by (intro frame_rules statement_rules)+

lemma DeleteSnapshot_frames [frame_rules]:
  "keeps cat_ok (DeleteSnapshot x1)" "frame (\<lambda>w w'. wObj w' = wObj w) (DeleteSnapshot x1)"
  unfolding DeleteSnapshot_def Let_def by (intro frame_rules statement_rules)+

lemma DeleteUploadSession_frames [frame_rules]:
  "keeps cat_ok (DeleteUploadSession x1)" "frame (\<lambda>w w'. wObj w' = wObj w) (DeleteUploadSession x1)"
  unfolding DeleteUploadSession_def Let_def by (intro frame_rules statement_rules)+

lemma CreateCatalogBackupOperation_frames [frame_rules]:
  "keeps cat_ok CreateCatalogBackupOperation" "frame (\<lambda>w w'. wObj w' = wObj w) CreateCatalogBackupOperation"
  unfolding CreateCatalogBackupOperation_def Let_def by (intro frame_rules statement_rules)+

lemma createCatalogBackup_frames [frame_rules]:
  "keeps cat_ok (createCatalogBackup x1)" "frame (\<lambda>w w'. wObj w' = wObj w) (createCatalogBackup x1)"
  unfolding createCatalogBackup_def Let_def by (intro frame_rules statement_rules)+

lemma with_backup_id_frames [frame_rules]:
  "keeps cat_ok (with_backup_id x1)" "frame (\<lambda>w w'. wObj w' = wObj w) (with_backup_id x1)"
  unfolding with_backup_id_def Let_def by (intro frame_rules statement_rules)+

lemma RecordCatalogBackup_frames [frame_rules]:
  "keeps cat_ok (RecordCatalogBackup x1)" "frame (\<lambda>w w'. wObj w' = wObj w) (RecordCatalogBackup x1)"
  unfolding RecordCatalogBackup_def Let_def by (intro frame_rules statement_rules)+

lemma RecordSucceededCatalogBackup_frames [frame_rules]:
  "keeps cat_ok (RecordSucceededCatalogBackup x1 x2)" "frame (\<lambda>w w'. wObj w' = wObj w) (RecordSucceededCatalogBackup x1 x2)"
  unfolding RecordSucceededCatalogBackup_def Let_def by (intro frame_rules statement_rules)+

lemma CompleteCatalogBackupOperation_frames [frame_rules]:
  "keeps cat_ok (CompleteCatalogBackupOperation x1 x2)" "frame (\<lambda>w w'. wObj w' = wObj w) (CompleteCatalogBackupOperation x1 x2)"
  unfolding CompleteCatalogBackupOperation_def Let_def by (intro frame_rules statement_rules)+

lemma FailCatalogBackupOperation_frames [frame_rules]:
  "keeps cat_ok (FailCatalogBackupOperation x1 x2)" "frame (\<lambda>w w'. wObj w' = wObj w) (FailCatalogBackupOperation x1 x2)"
  unfolding FailCatalogBackupOperation_def Let_def by (intro frame_rules statement_rules)+

lemma ListCatalogBackupsOlderThan_frames [frame_rules]:
  "keeps cat_ok (ListCatalogBackupsOlderThan x1 x2)" "frame (\<lambda>w w'. wObj w' = wObj w) (ListCatalogBackupsOlderThan x1 x2)"
  unfolding ListCatalogBackupsOlderThan_def Let_def by (intro frame_rules statement_rules)+

lemma DeleteCatalogBackup_frames [frame_rules]:
  "keeps cat_ok (DeleteCatalogBackup x1)" "frame (\<lambda>w w'. wObj w' = wObj w) (DeleteCatalogBackup x1)"
  unfolding DeleteCatalogBackup_def Let_def by (intro frame_rules statement_rules)+

lemma reconcile_upload_frames [frame_rules]:
  "keeps cat_ok (reconcile_upload x1 x2)" "frame (\<lambda>w w'. wObj w' = wObj w) (reconcile_upload x1 x2)"
  unfolding reconcile_upload_def Let_def by (intro frame_rules statement_rules)+

lemma ReconcileStaleUploads_frames [frame_rules]:
  "keeps cat_ok (ReconcileStaleUploads x1 x2)" "frame (\<lambda>w w'. wObj w' = wObj w) (ReconcileStaleUploads x1 x2)"
  unfolding ReconcileStaleUploads_def Let_def by (intro frame_rules statement_rules)+

section \<open>What starting an upload does\<close>

text \<open>A part of the catalog that a statement, and then a program, leaves as it is.\<close>

definition stmt_same :: "(catalog \<Rightarrow> 'x) \<Rightarrow> statement \<Rightarrow> bool" where
  "stmt_same part f \<longleftrightarrow> (\<forall>now c c'. f now c = Inr c' \<longrightarrow> part c' = part c)"

abbreviation same_part :: "(catalog \<Rightarrow> 'x) \<Rightarrow> ('s world, 'a) state \<Rightarrow> bool" where
  "same_part part m \<equiv> frame (\<lambda>w w'. part (wCat w') = part (wCat w)) m"

lemma same_part_db_exec [frame_rules]: "stmt_same part f \<Longrightarrow> same_part part (db_exec f)"
  by (auto simp: frame_def db_exec_def stmt_same_def split: sum.splits)

lemma same_part_cat:
  "frame (\<lambda>w w'. wCat w' = wCat w) m \<Longrightarrow> same_part part m"
  by (simp add: frame_def)

lemma same_part_reads [frame_rules]:
  "same_part part (db_query q)" "same_part part (NewID p)" "same_part part ctx_Err"
  by (rule same_part_cat, rule frame_rules)+

lemma run_throw_Inr [simp]: "run_state (throw e) w = (Inr x, w') \<longleftrightarrow> False"
  by simp

text \<open>The statements of \<open>ResolveDataset\<close> do not touch the snapshots.\<close>

lemma resolve_same_snapshots [frame_rules]:
  "stmt_same snapshots (q_CreateSource a b d)" "stmt_same snapshots (q_TouchSource a)"
  "stmt_same snapshots (q_CreatePool a b d)" "stmt_same snapshots (q_TouchPool a)"
  "stmt_same snapshots (q_CreateDataset a b d e f)" "stmt_same snapshots (q_TouchDataset a)"
  "stmt_same sources (q_CreatePool a b d)" "stmt_same sources (q_TouchPool a)"
  "stmt_same sources (q_CreateDataset a b d e f)" "stmt_same sources (q_TouchDataset a)"
  "stmt_same pools (q_CreateDataset a b d e f)" "stmt_same pools (q_TouchDataset a)"
  by (auto simp: stmt_same_def q_CreateSource_def q_TouchSource_def q_CreatePool_def q_TouchPool_def
      q_CreateDataset_def q_TouchDataset_def split: if_splits)

lemma ResolveDataset_snapshots: "same_part snapshots (ResolveDataset a b d)"
  unfolding ResolveDataset_def resolve_source_def resolve_pool_def resolve_dataset_def
  by (intro frame_rules)

lemma mem_update_where:
  "r \<in> set rows \<Longrightarrow> (\<And>x. col (f x) = col x) \<Longrightarrow> \<exists>r' \<in> set (update_where p f rows). col r' = col r"
  by (auto simp: update_where_def)

lemma one_row_find: "one_row (find p rows) = Inr r \<Longrightarrow> r \<in> set rows \<and> p r"
  by (auto simp: one_row_def split: option.splits dest: find_SomeD)

lemma run_resolve_source:
  assumes "run_state (resolve_source name) w = (Inr sid, w')"
  shows "(sid, name) \<in> (\<lambda>s. (src_ID s, src_Name s)) ` set (sources (wCat w'))"
proof (cases "run_state (db_query (q_GetSourceByName name)) w")
  case (Pair r w1)
  show ?thesis
  proof (cases r)
    case (Inl e)
    then show ?thesis using assms Pair
      by (auto simp: resolve_source_def run_check NewID_def q_CreateSource_def
          split: if_splits prod.splits sum.splits dest!: run_db_exec_Inr)
  next
    case (Inr s)
    then have s: "s \<in> set (sources (wCat w))" "src_Name s = name" and w1: "w1 = tick w"
      using run_db_query_Inr [of "q_GetSourceByName name" w s w1] Pair
      by (auto simp: q_GetSourceByName_def dest: one_row_find)
    have "run_state (db_exec (q_TouchSource (src_ID s))) w1 = (Inr (), w')" and sid: "sid = src_ID s"
      using assms Pair Inr by (auto simp: resolve_source_def run_check split: prod.splits sum.splits)
    then have "sources (wCat w') = update_where (\<lambda>x. src_ID x = src_ID s)
        (\<lambda>x. x\<lparr>src_LastSeenAt := Some (db_now w1)\<rparr>) (sources (wCat w))"
      using run_db_exec_Inr w1 by (fastforce simp: q_TouchSource_def)
    then show ?thesis using s sid by (auto simp: image_update_where)
  qed
qed

lemma run_resolve_pool:
  assumes "run_state (resolve_pool sid name) w = (Inr pid, w')"
  shows "(pid, sid, name) \<in> (\<lambda>p. (pl_ID p, pl_SourceID p, pl_Name p)) ` set (pools (wCat w'))"
proof (cases "run_state (db_query (q_GetPoolByName sid name)) w")
  case (Pair r w1)
  show ?thesis
  proof (cases r)
    case (Inl e)
    then show ?thesis using assms Pair
      by (auto simp: resolve_pool_def run_check NewID_def q_CreatePool_def
          split: if_splits prod.splits sum.splits dest!: run_db_exec_Inr)
  next
    case (Inr s)
    then have s: "s \<in> set (pools (wCat w))" "pl_SourceID s = sid" "pl_Name s = name" and w1: "w1 = tick w"
      using run_db_query_Inr [of "q_GetPoolByName sid name" w s w1] Pair
      by (auto simp: q_GetPoolByName_def dest: one_row_find)
    have "run_state (db_exec (q_TouchPool (pl_ID s))) w1 = (Inr (), w')" and pid: "pid = pl_ID s"
      using assms Pair Inr by (auto simp: resolve_pool_def run_check split: prod.splits sum.splits)
    then have "pools (wCat w') = update_where (\<lambda>x. pl_ID x = pl_ID s)
        (\<lambda>x. x\<lparr>pl_LastSeenAt := Some (db_now w1)\<rparr>) (pools (wCat w))"
      using run_db_exec_Inr w1 by (fastforce simp: q_TouchPool_def)
    then show ?thesis using s pid by (auto simp: image_update_where)
  qed
qed

lemma run_resolve_dataset:
  assumes "run_state (resolve_dataset sid pid path) w = (Inr did, w')"
  shows "(did, sid, pid, path) \<in>
    (\<lambda>d. (ds_ID d, ds_SourceID d, ds_PoolID d, ds_Path d)) ` set (datasets (wCat w'))"
proof (cases "run_state (db_query (q_GetDatasetByPath sid pid path)) w")
  case (Pair r w1)
  show ?thesis
  proof (cases r)
    case (Inl e)
    then show ?thesis using assms Pair
      by (auto simp: resolve_dataset_def run_check NewID_def q_CreateDataset_def
          split: if_splits prod.splits sum.splits dest!: run_db_exec_Inr)
  next
    case (Inr s)
    then have s: "s \<in> set (datasets (wCat w))" "ds_SourceID s = sid" "ds_PoolID s = pid" "ds_Path s = path"
      and w1: "w1 = tick w"
      using run_db_query_Inr [of "q_GetDatasetByPath sid pid path" w s w1] Pair
      by (auto simp: q_GetDatasetByPath_def dest: one_row_find)
    have "run_state (db_exec (q_TouchDataset (ds_ID s))) w1 = (Inr (), w')" and did: "did = ds_ID s"
      using assms Pair Inr by (auto simp: resolve_dataset_def run_check split: prod.splits sum.splits)
    then have "datasets (wCat w') = update_where (\<lambda>x. ds_ID x = ds_ID s)
        (\<lambda>x. x\<lparr>ds_LastSeenAt := Some (db_now w1)\<rparr>) (datasets (wCat w))"
      using run_db_exec_Inr w1 by (fastforce simp: q_TouchDataset_def)
    then show ?thesis using s did by (auto simp: image_update_where)
  qed
qed

text \<open>The dataset row \<open>did\<close> is the one of the named source, pool and path.\<close>

definition dataset_is :: "catalog \<Rightarrow> string \<Rightarrow> string \<Rightarrow> string \<Rightarrow> string \<Rightarrow> bool" where
  "dataset_is c did source pool path \<longleftrightarrow>
     (\<exists>sid pid. (sid, source) \<in> (\<lambda>s. (src_ID s, src_Name s)) ` set (sources c) \<and>
        (pid, sid, pool) \<in> (\<lambda>p. (pl_ID p, pl_SourceID p, pl_Name p)) ` set (pools c) \<and>
        (did, sid, pid, path) \<in> (\<lambda>d. (ds_ID d, ds_SourceID d, ds_PoolID d, ds_Path d)) ` set (datasets c))"

lemma resolve_later_parts:
  "same_part sources (resolve_pool a b)" "same_part sources (resolve_dataset a b d)"
  "same_part pools (resolve_dataset a b d)"
  unfolding resolve_pool_def resolve_dataset_def by (intro frame_rules)+

lemma run_ResolveDataset:
  assumes "run_state (ResolveDataset source pool path) w = (Inr rd, w')"
  shows "dataset_is (wCat w') (rd_DatasetID rd) source pool path"
proof -
  obtain sid w1 where s: "run_state (resolve_source source) w = (Inr sid, w1)"
    and r1: "run_state (check (resolve_pool sid pool) throw (\<lambda>pid. check (resolve_dataset sid pid path) throw
      (\<lambda>did. ok \<lparr>rd_SourceID = sid, rd_PoolID = pid, rd_DatasetID = did\<rparr>))) w1 = (Inr rd, w')"
    using assms unfolding ResolveDataset_def by (rule run_check_throw_Inr)
  obtain pid w2 where p: "run_state (resolve_pool sid pool) w1 = (Inr pid, w2)"
    and r2: "run_state (check (resolve_dataset sid pid path) throw
      (\<lambda>did. ok \<lparr>rd_SourceID = sid, rd_PoolID = pid, rd_DatasetID = did\<rparr>)) w2 = (Inr rd, w')"
    using r1 by (rule run_check_throw_Inr)
  obtain did where d: "run_state (resolve_dataset sid pid path) w2 = (Inr did, w')"
    and rd: "rd_DatasetID rd = did"
    using r2 by (rule run_check_throw_Inr) auto
  have "sources (wCat w') = sources (wCat w1)" "pools (wCat w') = pools (wCat w2)"
    using frameD [OF resolve_later_parts(1) p] frameD [OF resolve_later_parts(2) d]
      frameD [OF resolve_later_parts(3) d] by simp_all
  then have "(sid, source) \<in> (\<lambda>s. (src_ID s, src_Name s)) ` set (sources (wCat w'))"
    and "(pid, sid, pool) \<in> (\<lambda>p. (pl_ID p, pl_SourceID p, pl_Name p)) ` set (pools (wCat w'))"
    using run_resolve_source [OF s] run_resolve_pool [OF p] by simp_all
  then show ?thesis using run_resolve_dataset [OF d] unfolding dataset_is_def rd by blast
qed

lemma cat_start_base: "frame (\<lambda>w w'. wCat w' = wCat w) (start_base ident did)"
  unfolding start_base_def check_base_def ChainDepth_def RestoreChain_def Let_def
  by (intro frame_rules)

lemma run_ChainDepth:
  assumes "run_state (ChainDepth i) w = (Inr d, w')"
  obtains chain where "q_ListSnapshotRestoreChain i (db_now w) (wCat w) = Inr chain"
    and "d = int (length chain)"
  using assms unfolding ChainDepth_def RestoreChain_def
  by (rule run_check_throw_Inr) (auto dest!: run_db_query_Inr)

lemma chain_query_now: "q_ListSnapshotRestoreChain i now c = q_ListSnapshotRestoreChain i now' c"
  by (simp add: q_ListSnapshotRestoreChain_def)

text \<open>The base an increment may name: committed, of the same dataset, and with a short enough chain.\<close>

definition base_ok :: "catalog \<Rightarrow> DatasetIdentity \<Rightarrow> string \<Rightarrow> Snapshot \<Rightarrow> bool" where
  "base_ok c ident did base \<longleftrightarrow>
     base \<in> set (snapshots c) \<and> sn_DatasetID base = did \<and> sn_Name base = di_BaseSnapshot ident \<and>
     sn_Status base = SnapCommitted \<and>
     (0 < di_MaxIncrementalChainDepth ident \<longrightarrow>
        (\<exists>chain. q_ListSnapshotRestoreChain (sn_ID base) 0 c = Inr chain \<and>
           int (length chain) + 1 \<le> di_MaxIncrementalChainDepth ident))"

lemma run_check_base:
  assumes "run_state (check_base ident base) w = (Inr b, w')"
  shows "b = Some (sn_ID base) \<and> sn_Status base = SnapCommitted \<and>
    (0 < di_MaxIncrementalChainDepth ident \<longrightarrow>
       (\<exists>chain. q_ListSnapshotRestoreChain (sn_ID base) 0 (wCat w) = Inr chain \<and>
          int (length chain) + 1 \<le> di_MaxIncrementalChainDepth ident))"
proof (cases "0 < di_MaxIncrementalChainDepth ident")
  case True
  have st: "sn_Status base = SnapCommitted" using assms by (auto simp: check_base_def split: if_splits)
  then obtain d w2 where d: "run_state (ChainDepth (sn_ID base)) w = (Inr d, w2)"
    and b: "d + 1 \<le> di_MaxIncrementalChainDepth ident" "b = Some (sn_ID base)"
    using assms True unfolding check_base_def
    by (auto elim!: run_check_throw_Inr simp: Let_def split: if_splits)
  obtain chain where "q_ListSnapshotRestoreChain (sn_ID base) (db_now w) (wCat w) = Inr chain"
    and "d = int (length chain)" using d by (rule run_ChainDepth)
  then show ?thesis using st b
    chain_query_now [of "sn_ID base" 0 "wCat w" "db_now w"] by auto
next
  case False
  then show ?thesis using assms by (auto simp: check_base_def split: if_splits)
qed

lemma run_start_base:
  assumes "run_state (start_base ident did) w = (Inr b, w')"
  shows "if di_BaseSnapshot ident = [] then b = None
    else \<exists>base. b = Some (sn_ID base) \<and> base_ok (wCat w) ident did base"
proof (cases "di_BaseSnapshot ident = []")
  case True
  then show ?thesis using assms by (simp add: start_base_def)
next
  case False
  then obtain base w1 where
    q: "run_state (db_query (q_GetSnapshotByName did (di_BaseSnapshot ident))) w = (Inr base, w1)"
    and c: "run_state (check_base ident base) w1 = (Inr b, w')"
    using assms unfolding start_base_def by (simp only: if_False) (rule run_check_throw_Inr)
  have "base \<in> set (snapshots (wCat w))" "sn_DatasetID base = did" "sn_Name base = di_BaseSnapshot ident"
    and "w1 = tick w"
    using run_db_query_Inr [OF q] by (auto simp: q_GetSnapshotByName_def dest: one_row_find)
  then have "base_ok (wCat w) ident did base" and "b = Some (sn_ID base)"
    using run_check_base [OF c] by (simp_all add: base_ok_def)
  then show ?thesis using False by auto
qed

text \<open>What an upload may replace: a row that is not \<open>failed\<close> or \<open>aborted\<close> is protected.\<close>

definition protected :: "Snapshot \<Rightarrow> bool" where
  "protected s \<longleftrightarrow> sn_Status s \<noteq> SnapFailed \<and> sn_Status s \<noteq> SnapAborted"

lemma run_start_replace:
  assumes "run_state (start_replace ident did) w = (Inr u, w')" and "cat_ok w"
  shows "\<exists>P. snapshots (wCat w') = filter (\<lambda>s. \<not> P s) (snapshots (wCat w)) \<and>
      (\<forall>s \<in> set (snapshots (wCat w)). P s \<longrightarrow> \<not> protected s)"
    and "sources (wCat w') = sources (wCat w)" and "pools (wCat w') = pools (wCat w)"
    and "datasets (wCat w') = datasets (wCat w)"
proof -
  have "(\<exists>P. snapshots (wCat w') = filter (\<lambda>s. \<not> P s) (snapshots (wCat w)) \<and>
      (\<forall>s \<in> set (snapshots (wCat w)). P s \<longrightarrow> \<not> protected s)) \<and>
      sources (wCat w') = sources (wCat w) \<and> pools (wCat w') = pools (wCat w) \<and>
      datasets (wCat w') = datasets (wCat w)"
  proof (cases "run_state (db_query (q_GetSnapshotByName did (di_Snapshot ident))) w")
    case (Pair r w1)
    have w1: "w1 = tick w" using run_db_query_state [OF Pair] .
    show ?thesis
    proof (cases r)
      case (Inl e)
      then have "w' = w1" using assms(1) Pair by (auto simp: start_replace_def run_check split: if_splits)
      then show ?thesis using w1 by (intro conjI exI [of _ "\<lambda>_. False"]) simp_all
    next
      case (Inr s)
      then have s: "s \<in> set (snapshots (wCat w))"
        using run_db_query_Inr [of "q_GetSnapshotByName did (di_Snapshot ident)" w s w1] Pair
        by (auto simp: q_GetSnapshotByName_def dest: one_row_find)
      have run: "run_state (db_exec (q_DeleteSnapshot (sn_ID s))) w1 = (Inr (), w')" and st: "\<not> protected s"
        using assms(1) Pair Inr
        by (auto simp: start_replace_def run_check protected_def split: if_splits prod.splits sum.splits)
      obtain c where c: "delete_snapshots (\<lambda>t. sn_ID t = sn_ID s) (wCat w) = Inr c" and "wCat w' = c"
        using run_db_exec_Inr [OF run] w1 by (auto simp: q_DeleteSnapshot_def)
      moreover have "t = s" if "t \<in> set (snapshots (wCat w))" "sn_ID t = sn_ID s" for t
        using assms(2) s that by (auto simp: catalog_ok_def unique_ok_def distinct_map inj_on_def)
      ultimately show ?thesis
        using delete_snapshots_fields [OF c] st
        by (intro conjI exI [of _ "\<lambda>t. sn_ID t = sn_ID s"]) auto
    qed
  qed
  then show "\<exists>P. snapshots (wCat w') = filter (\<lambda>s. \<not> P s) (snapshots (wCat w)) \<and>
      (\<forall>s \<in> set (snapshots (wCat w)). P s \<longrightarrow> \<not> protected s)"
    and "sources (wCat w') = sources (wCat w)" and "pools (wCat w') = pools (wCat w)"
    and "datasets (wCat w') = datasets (wCat w)" by simp_all
qed

text \<open>The row and the catalog a successful start leaves.\<close>

definition started_row :: "DatasetIdentity \<Rightarrow> StartedUpload \<Rightarrow> Snapshot \<Rightarrow> bool" where
  "started_row ident st row \<longleftrightarrow>
     sn_ID row = su_SnapshotID st \<and> sn_DatasetID row = su_DatasetID st \<and>
     sn_Name row = di_Snapshot ident \<and> sn_ParentSnapshotID row = su_BaseSnapshotID st \<and>
     sn_Status row = SnapUploading \<and> sn_ManifestObjectKey row = None"

lemma wp_start_rows:
  "wp (start_rows ident cs rd b) (\<lambda>r w'. \<forall>st. r = Inr st \<longrightarrow>
     (\<exists>row. snapshots (wCat w') = snapshots (wCat w) @ [row] \<and> started_row ident st row) \<and>
     sources (wCat w') = sources (wCat w) \<and> pools (wCat w') = pools (wCat w) \<and>
     datasets (wCat w') = datasets (wCat w) \<and>
     su_DatasetID st = rd_DatasetID rd \<and> su_BaseSnapshotID st = b) w"
  unfolding start_rows_def Let_def
  by (simp add: wp_rules q_CreatePendingSnapshot_def q_CreateUploadSession_def q_CreateOperation_def
      started_row_def)

lemma run_startUpload:
  assumes "run_state (startUpload ident cs) w = (Inr st, w')" and ok: "cat_ok w"
  shows "\<exists>row P. snapshots (wCat w') = filter (\<lambda>s. \<not> P s) (snapshots (wCat w)) @ [row] \<and>
      started_row ident st row \<and> (\<forall>s \<in> set (snapshots (wCat w)). P s \<longrightarrow> \<not> protected s)"
    and "dataset_is (wCat w') (su_DatasetID st) (di_Source ident) (di_Pool ident) (di_Dataset ident)"
    and "if di_BaseSnapshot ident = [] then su_BaseSnapshotID st = None
      else \<exists>base c. su_BaseSnapshotID st = Some (sn_ID base) \<and> base_ok c ident (su_DatasetID st) base \<and>
        catalog_ok c \<and> snapshots c = snapshots (wCat w)"
proof -
  obtain rd w1 where rd: "run_state (ResolveDataset (di_Source ident) (di_Pool ident) (di_Dataset ident)) w = (Inr rd, w1)"
    and r1: "run_state (check (start_base ident (rd_DatasetID rd)) throw (\<lambda>baseID.
       check (start_replace ident (rd_DatasetID rd)) throw (\<lambda>_. start_rows ident cs rd baseID))) w1 = (Inr st, w')"
    using assms(1) unfolding startUpload_def by (rule run_check_throw_Inr)
  obtain b w2 where b: "run_state (start_base ident (rd_DatasetID rd)) w1 = (Inr b, w2)"
    and r2: "run_state (check (start_replace ident (rd_DatasetID rd)) throw (\<lambda>_. start_rows ident cs rd b)) w2 = (Inr st, w')"
    using r1 by (rule run_check_throw_Inr)
  obtain u w3 where rep: "run_state (start_replace ident (rd_DatasetID rd)) w2 = (Inr u, w3)"
    and r3: "run_state (start_rows ident cs rd b) w3 = (Inr st, w')"
    using r2 by (rule run_check_throw_Inr)
  have w1: "cat_ok w1" "snapshots (wCat w1) = snapshots (wCat w)"
    using frameD [OF ResolveDataset_frames(1) rd] frameD [OF ResolveDataset_snapshots rd] ok by simp_all
  have w2: "wCat w2 = wCat w1" using frameD [OF cat_start_base b] .
  note rep' = run_start_replace [OF rep, unfolded w2, OF w1(1)]
  obtain row where row: "snapshots (wCat w') = snapshots (wCat w3) @ [row]" "started_row ident st row"
    and same: "sources (wCat w') = sources (wCat w3)" "pools (wCat w') = pools (wCat w3)"
      "datasets (wCat w') = datasets (wCat w3)"
    and st: "su_DatasetID st = rd_DatasetID rd" "su_BaseSnapshotID st = b"
    using wpD [OF wp_start_rows r3] by auto
  show "\<exists>row P. snapshots (wCat w') = filter (\<lambda>s. \<not> P s) (snapshots (wCat w)) @ [row] \<and>
      started_row ident st row \<and> (\<forall>s \<in> set (snapshots (wCat w)). P s \<longrightarrow> \<not> protected s)"
    using rep'(1) row w1(2) by auto
  show "dataset_is (wCat w') (su_DatasetID st) (di_Source ident) (di_Pool ident) (di_Dataset ident)"
    using run_ResolveDataset [OF rd] same rep' st(1) by (simp add: dataset_is_def)
  show "if di_BaseSnapshot ident = [] then su_BaseSnapshotID st = None
      else \<exists>base c. su_BaseSnapshotID st = Some (sn_ID base) \<and> base_ok c ident (su_DatasetID st) base \<and>
        catalog_ok c \<and> snapshots c = snapshots (wCat w)"
    using run_start_base [OF b] st w1 by (auto split: if_splits)
qed

lemma run_StartUpload:
  assumes "run_state (StartUpload ident cs) w = (Inr st, w')"
  obtains w1 where "run_state (startUpload ident cs) (tick w) = (Inr st, w1)" and "w' = tick w1"
  using assms unfolding StartUpload_def by (cases rule: run_withTx_cases) auto

lemma linked_unique:
  assumes "inj_on sn_ID rows" and "linked (s # a)" and "linked (s # b)"
    and "set (s # a) \<subseteq> rows" and "set (s # b) \<subseteq> rows"
  shows "a = b"
  using assms(2-5)
proof (induction a arbitrary: s b)
  case Nil
  then show ?case by (cases b) auto
next
  case (Cons t a)
  then obtain u b' where b: "b = u # b'" by (cases b) auto
  have "t = u" using Cons.prems b by (intro inj_onD [OF assms(1)]) auto
  then show ?case using Cons b by auto
qed

lemma chain_query_length:
  assumes "catalog_ok c" and "s \<in> set (snapshots c)" and "linked (s # ch)"
    and "set (s # ch) \<subseteq> set (snapshots c)"
    and "q_ListSnapshotRestoreChain (sn_ID s) now c = Inr chain"
  shows "length chain = Suc (length ch)"
proof -
  obtain ch' where q: "q_ListSnapshotRestoreChain (sn_ID s) now c = Inr (map chain_row (rev (s # ch')))"
    and l: "linked (s # ch')" "set ch' \<subseteq> set (snapshots c)"
    using assms(1,2) by (rule restore_chain)
  have "inj_on sn_ID (set (snapshots c))"
    using assms(1) by (simp add: catalog_ok_def unique_ok_def distinct_map)
  then have "ch = ch'" by (rule linked_unique) (use assms(2-4) l in auto)
  then show ?thesis using q assms(5) by simp
qed

lemma started_chain_length:
  assumes ok: "cat_ok w" "cat_ok w'" and snaps: "snapshots (wCat w') = filter keep (snapshots (wCat w)) @ [row]"
    and base: "base \<in> set (snapshots (wCat w))" "sn_ParentSnapshotID row = Some (sn_ID base)"
    and qb: "q_ListSnapshotRestoreChain (sn_ID base) 0 (wCat w) = Inr chain0"
    and q: "q_ListSnapshotRestoreChain (sn_ID row) now (wCat w') = Inr chain"
  shows "length chain = Suc (length chain0)"
proof -
  have row: "row \<in> set (snapshots (wCat w'))" using snaps by simp
  obtain ch where qr: "q_ListSnapshotRestoreChain (sn_ID row) now (wCat w') = Inr (map chain_row (rev (row # ch)))"
    and l: "linked (row # ch)" "set ch \<subseteq> set (snapshots (wCat w'))" "distinct (row # ch)"
    using ok(2) row by (rule restore_chain)
  obtain t r where ch: "ch = t # r" using l(1) base(2) by (cases ch) auto
  have sub: "set ch \<subseteq> set (snapshots (wCat w))" using l(2,3) snaps by auto
  have "t = base"
    using ok(1) l(1) base sub by (auto simp: ch catalog_ok_def unique_ok_def distinct_map inj_on_def)
  then have "length chain0 = Suc (length r)"
    using chain_query_length [OF ok(1) base(1) _ _ qb, of r] l(1) sub ch by auto
  then show ?thesis using qr q ch by simp
qed

section \<open>Properties\<close>

text \<open>
  C17. Starting an upload that succeeds has resolved exactly the dataset the request names, and
  has appended one snapshot row for it, in status \<open>uploading\<close>, under the requested name. An
  incremental upload hangs on a committed snapshot of the same dataset with the base name, a
  full one on none. The rows it replaced were failed or aborted.
\<close>

theorem StartUpload_row:
  assumes "cat_ok w" and "run_state (StartUpload ident cs) w = (Inr st, w')"
  shows "(\<exists>row P. snapshots (wCat w') = filter (\<lambda>s. \<not> P s) (snapshots (wCat w)) @ [row] \<and>
      started_row ident st row \<and> (\<forall>s \<in> set (snapshots (wCat w)). P s \<longrightarrow> \<not> protected s)) \<and>
    dataset_is (wCat w') (su_DatasetID st) (di_Source ident) (di_Pool ident) (di_Dataset ident) \<and>
    (if di_BaseSnapshot ident = [] then su_BaseSnapshotID st = None
     else \<exists>base \<in> set (snapshots (wCat w)). su_BaseSnapshotID st = Some (sn_ID base) \<and>
       sn_DatasetID base = su_DatasetID st \<and> sn_Name base = di_BaseSnapshot ident \<and>
       sn_Status base = SnapCommitted)"
proof -
  obtain w1 where run: "run_state (startUpload ident cs) (tick w) = (Inr st, w1)" and w': "w' = tick w1"
    using assms(2) by (rule run_StartUpload)
  note r = run_startUpload [OF run, simplified, OF assms(1)]
  show ?thesis using r w' by (auto simp: base_ok_def split: if_splits)
qed

text \<open>A world to run the handlers on: the small catalog, an empty store, no faults.\<close>

definition sample_world :: "memory world" where
  "sample_world =
     \<lparr>wCat = sample_catalog, wObj = NewMemoryStore, wTick = 0, wDbFault = (\<lambda>_. False),
      wCtxErr = (\<lambda>_. False), wNow = (\<lambda>n. int n), wRand = (\<lambda>n. [word_of_nat n])\<rparr>"

lemma sample_world_ok: "cat_ok sample_world"
  by (simp add: sample_world_def sample_catalog_ok)

definition sample_ident :: DatasetIdentity where
  "sample_ident =
     \<lparr>di_Source = ''host'', di_Pool = ''tank'', di_Dataset = ''home'', di_Snapshot = ''s4'',
      di_BaseSnapshot = ''s2'', di_MaxIncrementalChainDepth = 3\<rparr>"

definition sample_started :: StartedUpload where
  "sample_started =
     \<lparr>su_SourceID = ''s'', su_PoolID = ''p'', su_DatasetID = ''d'', su_SnapshotID = ''snap_0a'',
      su_UploadSessionID = ''upload_0b'', su_OperationID = ''op_0c'', su_BaseSnapshotID = Some ''b''\<rparr>"

lemma sample_start:
  "run_state (StartUpload sample_ident 4) sample_world =
     (Inr sample_started, snd (run_state (StartUpload sample_ident 4) sample_world))"
  by (rule run_fst) code_simp

theorem StartUpload_row_witness:
  "\<exists>w'. run_state (StartUpload sample_ident 4) sample_world = (Inr sample_started, w') \<and>
    (\<exists>row P. snapshots (wCat w') = filter (\<lambda>s. \<not> P s) (snapshots (wCat sample_world)) @ [row] \<and>
      started_row sample_ident sample_started row \<and>
      (\<forall>s \<in> set (snapshots (wCat sample_world)). P s \<longrightarrow> \<not> protected s))"
  using StartUpload_row [OF sample_world_ok sample_start] sample_start by blast

text \<open>
  C18. The depth limit holds after the fact: when an incremental upload was admitted under a
  positive limit, the restore chain of the snapshot it creates, in the catalog it leaves, is no
  longer than the limit.
\<close>

theorem StartUpload_depth_bound:
  assumes ok: "cat_ok w" and run: "run_state (StartUpload ident cs) w = (Inr st, w')"
    and lim: "0 < di_MaxIncrementalChainDepth ident" and inc: "di_BaseSnapshot ident \<noteq> []"
  shows "\<exists>chain. q_ListSnapshotRestoreChain (su_SnapshotID st) now (wCat w') = Inr chain \<and>
    int (length chain) \<le> di_MaxIncrementalChainDepth ident"
proof -
  obtain w1 where run1: "run_state (startUpload ident cs) (tick w) = (Inr st, w1)" and w': "w' = tick w1"
    using run by (rule run_StartUpload)
  note r = run_startUpload [OF run1, simplified, OF ok]
  have ok': "cat_ok w'" using frameD [OF StartUpload_frames(1) run] ok by simp
  obtain row P where row: "snapshots (wCat w') = filter (\<lambda>s. \<not> P s) (snapshots (wCat w)) @ [row]"
    "started_row ident st row" using r(1) w' by auto
  obtain base c where base: "su_BaseSnapshotID st = Some (sn_ID base)" "base_ok c ident (su_DatasetID st) base"
    and c: "catalog_ok c" "snapshots c = snapshots (wCat w)" using r(3) inc by auto
  have same: "q_ListSnapshotRestoreChain (sn_ID base) 0 (wCat w) = q_ListSnapshotRestoreChain (sn_ID base) 0 c"
    by (simp add: q_ListSnapshotRestoreChain_def c(2))
  obtain chain0 where chain0: "q_ListSnapshotRestoreChain (sn_ID base) 0 (wCat w) = Inr chain0"
    "int (length chain0) + 1 \<le> di_MaxIncrementalChainDepth ident"
    using base(2) lim same by (auto simp: base_ok_def)
  obtain ch where chain: "q_ListSnapshotRestoreChain (sn_ID row) now (wCat w') = Inr (map chain_row (rev (row # ch)))"
    using restore_chain [OF ok', of row] row(1) by (metis in_set_conv_decomp)
  have "length (map chain_row (rev (row # ch))) = Suc (length chain0)"
    using started_chain_length [OF ok ok' row(1) _ _ chain0(1) chain] base row(2) c(2)
    by (simp add: base_ok_def started_row_def)
  then show ?thesis using chain chain0(2) row(2) by (auto simp: started_row_def)
qed

theorem StartUpload_depth_bound_witness:
  "\<exists>w' chain. run_state (StartUpload sample_ident 4) sample_world = (Inr sample_started, w') \<and>
    q_ListSnapshotRestoreChain (su_SnapshotID sample_started) 0 (wCat w') = Inr chain \<and>
    int (length chain) \<le> di_MaxIncrementalChainDepth sample_ident"
proof -
  have "0 < di_MaxIncrementalChainDepth sample_ident" and "di_BaseSnapshot sample_ident \<noteq> []"
    by (simp_all add: sample_ident_def)
  from StartUpload_depth_bound [OF sample_world_ok sample_start this, of 0] sample_start
  show ?thesis by blast
qed

text \<open>
  C16. The three state changes of an upload are all or nothing: when starting, committing or
  failing an upload returns an error, the catalog is the one the call found, whatever the
  statement, begin or commit that failed.
\<close>

theorem upload_transactions_atomic:
  "(run_state (StartUpload ident cs) w = (Inl e1, w1) \<longrightarrow> wCat w1 = wCat w) \<and>
   (run_state (CommitUpload sid uid mk lb sb sha fg tg n opid) w = (Inl e2, w2) \<longrightarrow> wCat w2 = wCat w) \<and>
   (run_state (FailUpload sid uid opid reason) w = (Inl e3, w3) \<longrightarrow> wCat w3 = wCat w)"
  unfolding StartUpload_def CommitUpload_def FailUpload_def Let_def
  by (auto elim!: run_withTx_cases)

definition faulty_world :: "memory world" where
  "faulty_world = sample_world\<lparr>wDbFault := (\<lambda>n. n = 13)\<rparr>"

theorem upload_transactions_atomic_witness:
  "\<exists>w'. run_state (StartUpload sample_ident 4) faulty_world =
      (Inl (Wrapf (msg ''create snapshot: %w'') [] ErrDriver), w') \<and> wCat w' = wCat faulty_world"
proof -
  have "fst (run_state (StartUpload sample_ident 4) faulty_world) =
      Inl (Wrapf (msg ''create snapshot: %w'') [] ErrDriver)" by code_simp
  then have "run_state (StartUpload sample_ident 4) faulty_world =
      (Inl (Wrapf (msg ''create snapshot: %w'') [] ErrDriver),
       snd (run_state (StartUpload sample_ident 4) faulty_world))" by (rule run_fst)
  moreover from this have "wCat (snd (run_state (StartUpload sample_ident 4) faulty_world)) = wCat faulty_world"
    by (rule upload_transactions_atomic [THEN conjunct1, rule_format])
  ultimately show ?thesis by blast
qed

text \<open>
  No method of the repository can break the schema: from a catalog that satisfies its
  constraints every method leaves one that does, on every path, error paths included.
\<close>

lemma repository_keeps_catalog_ok:
  "keeps cat_ok (ResolveDataset a b d) \<and> keeps cat_ok (StartUpload ident cs) \<and>
   keeps cat_ok (AddVerifiedChunk sid uid chunk) \<and> keeps cat_ok (UpdateUploadProgress uid i n b1) \<and>
   keeps cat_ok (UpdateUploadStatus uid status) \<and> keeps cat_ok (SetUploadManifestObjectKey uid mk) \<and>
   keeps cat_ok (CommitUpload sid uid mk lb sb sha fg tg n opid) \<and>
   keeps cat_ok (FailUpload sid uid opid reason) \<and> keeps cat_ok (DeleteSnapshot sid) \<and>
   keeps cat_ok (DeleteUploadSession uid) \<and> keeps cat_ok CreateCatalogBackupOperation \<and>
   keeps cat_ok (RecordCatalogBackup r) \<and> keeps cat_ok (RecordSucceededCatalogBackup r summary) \<and>
   keeps cat_ok (CompleteCatalogBackupOperation opid summary) \<and>
   keeps cat_ok (FailCatalogBackupOperation opid reason) \<and> keeps cat_ok (DeleteCatalogBackup bid) \<and>
   keeps cat_ok (ReconcileStaleUploads cutoff lim)"
  by (intro conjI frame_rules)

text \<open>The catalog after a commit, with the times the three statements recorded.\<close>

definition commit_effect ::
  "string \<Rightarrow> string \<Rightarrow> string \<Rightarrow> int \<Rightarrow> int \<Rightarrow> string \<Rightarrow> string \<Rightarrow> string \<Rightarrow> int \<Rightarrow> string \<Rightarrow>
   int \<Rightarrow> int \<Rightarrow> int \<Rightarrow> catalog \<Rightarrow> catalog" where
  "commit_effect sid uid mk lb sb sha fg tg n opid t1 t2 t3 c = c
    \<lparr>snapshots := update_where (\<lambda>s. sn_ID s = sid)
       (\<lambda>s. s\<lparr>sn_Status := SnapCommitted, sn_ManifestObjectKey := Some mk, sn_LogicalBytes := Some lb,
              sn_StoredBytes := sb, sn_StreamSha256 := Some sha, sn_StreamFromGuid := fg,
              sn_StreamToGuid := tg, sn_ChunkCount := n, sn_UploadCompletedAt := Some t1\<rparr>)
       (snapshots c),
     upload_sessions := update_where (\<lambda>x. up_ID x = uid)
       (\<lambda>x. x\<lparr>up_Status := UpComplete, up_BytesReceived := lb, up_ChunksCompleted := n,
              up_StreamSha256 := Some sha, up_ManifestObjectKey := Some mk, up_CompletedAt := Some t2\<rparr>)
       (upload_sessions c),
     operations := update_where (\<lambda>p. op_ID p = opid)
       (\<lambda>p. p\<lparr>op_Status := OpSucceeded, op_Summary := Some (msg ''upload committed''),
              op_FailureReason := None, op_UpdatedAt := t3, op_CompletedAt := Some t3\<rparr>)
       (operations c)\<rparr>"

lemma run_CommitUpload:
  assumes "run_state (CommitUpload sid uid mk lb sb sha fg tg n opid) w = (Inr u, w')"
  shows "\<exists>t1 t2 t3. wCat w' = commit_effect sid uid mk lb sb sha fg tg n opid t1 t2 t3 (wCat w)"
  using assms unfolding CommitUpload_def
proof (cases rule: run_withTx_cases)
  case (committed x w1)
  have "wp (check (db_exec (q_CommitSnapshot (Some mk) (Some lb) sb (Some sha) fg tg n sid))
         (\<lambda>e. throw (Wrapf (msg ''commit snapshot: %w'') [] e)) (\<lambda>_.
       check (db_exec (q_CompleteUploadSession lb n (Some sha) (Some mk) uid))
         (\<lambda>e. throw (Wrapf (msg ''complete upload: %w'') [] e)) (\<lambda>_.
       db_exec (q_UpdateOperationStatus OpSucceeded (Some (msg ''upload committed'')) None opid))))
    (\<lambda>r v. \<forall>u. r = Inr u \<longrightarrow>
       (\<exists>t1 t2 t3. wCat v = commit_effect sid uid mk lb sb sha fg tg n opid t1 t2 t3 (wCat w))) (tick w)"
    by (simp add: wp_rules q_CommitSnapshot_def update_snapshots_def q_CompleteUploadSession_def
        update_sessions_def q_UpdateOperationStatus_def update_operations_def commit_effect_def) blast
  from wpD [OF this committed(1)] show ?thesis using committed(3) by simp
qed simp_all

text \<open>
  A commit that returns without error has done exactly three things: the snapshot row is
  \<open>committed\<close> with its manifest key, sizes, digest, GUIDs and chunk count, the session is
  \<open>complete\<close>, the operation has succeeded. Every other row and table is as it was.
\<close>

theorem CommitUpload_result:
  assumes "run_state (CommitUpload sid uid mk lb sb sha fg tg n opid) w = (Inr u, w')"
  shows "\<exists>t1 t2 t3. wCat w' = commit_effect sid uid mk lb sb sha fg tg n opid t1 t2 t3 (wCat w)"
  using assms by (rule run_CommitUpload)

theorem CommitUpload_result_witness:
  "\<exists>w' t1 t2 t3. run_state (CommitUpload ''c'' ''u'' ''m'' 5 5 ''h'' ''0'' ''0x1'' 1 ''o'') sample_world = (Inr (), w') \<and>
    wCat w' = commit_effect ''c'' ''u'' ''m'' 5 5 ''h'' ''0'' ''0x1'' 1 ''o'' t1 t2 t3 (wCat sample_world)"
proof -
  have "fst (run_state (CommitUpload ''c'' ''u'' ''m'' 5 5 ''h'' ''0'' ''0x1'' 1 ''o'') sample_world) = Inr ()"
    by code_simp
  from run_fst [OF this] CommitUpload_result [OF run_fst [OF this]] show ?thesis by blast
qed

end
