(* ===== verification/App_Settings.thy ===== *)
theory App_Settings
  imports Go_Float Catalog_Repository
begin

text \<open>
  The settings an administrator can change (\<open>src/internal/appsettings/settings.go\<close>): the upload rate
  limit and the greatest chain depth, from the environment, the database or the defaults, and the
  manager that caches them. The mutex of the manager makes each operation one step.
\<close>

section \<open>Definitions\<close>

definition UploadThroughputLimitKey :: string where
  "UploadThroughputLimitKey = ''upload_throughput_limit_mbit''"

definition MaxIncrementalChainDepthKey :: string where
  "MaxIncrementalChainDepthKey = ''max_incremental_chain_depth''"

definition ErrEnvironmentOverride :: error where
  "ErrEnvironmentOverride = Errorf (msg ''setting is controlled by an environment variable'') []"

definition SourceEnvironment :: string where "SourceEnvironment = ''Environment''"

definition SourceDatabase :: string where "SourceDatabase = ''Database''"

definition SourceDefault :: string where "SourceDefault = ''Default''"

record Setting =
  se_Key :: string
  se_Value :: string
  se_DefaultValue :: string
  se_Source :: string
  se_EnvironmentVariable :: string
  se_EnvironmentControlled :: bool

record SettingsSnapshot =
  UploadThroughputLimit :: Setting
  UploadThroughputLimitBytesPerSecond :: int
  MaxIncrementalChainDepth :: Setting
  MaxIncrementalChainDepthValue :: int

record Overrides =
  ov_UploadThroughputLimitMbps :: string
  ov_MaxIncrementalChainDepth :: string

record Manager =
  mg_overrides :: Overrides
  mg_current :: SettingsSnapshot

subsection \<open>Values\<close>

text \<open>\<open>math.MaxInt64\<close> is converted to the \<open>float64\<close> next to it, which is \<open>2 ^ 63\<close>.\<close>

definition ParseThroughputLimitMbps :: "(float64 \<Rightarrow> int) \<Rightarrow> string \<Rightarrow> error + int" where
  "ParseThroughputLimitMbps unrep val =
     (case ParseFloat (TrimSpace val) of
        Some (Fin mbps) \<Rightarrow>
          if f_less (Fin mbps) (Fin 0) then Inl (Errorf (msg ''must not be negative'') [])
          else if f_less (Fin 0) (Fin mbps) \<and> f_less (Fin mbps) (round64 (1 / 10))
          then Inl (Errorf (msg ''positive limit must be at least 0.1 Mbps'') [])
          else
            let bytesPerSecond = f_div (f_mul (Fin mbps) (f_of_int 1000000)) (f_of_int 8) in
            if f_less (f_of_int (2 ^ 63 - 1)) bytesPerSecond then Inl (Errorf (msg ''limit is too large'') [])
            else Inr (float_to_int64 unrep (math_Round bytesPerSecond))
      | _ \<Rightarrow> Inl (Errorf (msg ''must be a finite number'') []))"

definition ParseMaxIncrementalChainDepth :: "string \<Rightarrow> error + int" where
  "ParseMaxIncrementalChainDepth val =
     (case ParseInt10 (TrimSpace val) of
        None \<Rightarrow> Inl (Errorf (msg ''must be a whole number'') [])
      | Some parsed \<Rightarrow> if parsed < 0 then Inl (Errorf (msg ''must not be negative'') []) else Inr parsed)"

definition defaultValue :: "string \<Rightarrow> string" where
  "defaultValue key =
     (if key = UploadThroughputLimitKey then ''45'' else if key = MaxIncrementalChainDepthKey then ''30'' else [])"

definition environmentVariable :: "string \<Rightarrow> string" where
  "environmentVariable key =
     (if key = UploadThroughputLimitKey then ''UPLOAD_THROUGHPUT_LIMIT_MBIT''
      else if key = MaxIncrementalChainDepthKey then ''MAX_INCREMENTAL_CHAIN_DEPTH'' else [])"

definition override :: "Overrides \<Rightarrow> string \<Rightarrow> string" where
  "override ov key =
     (if key = UploadThroughputLimitKey then ov_UploadThroughputLimitMbps ov
      else if key = MaxIncrementalChainDepthKey then ov_MaxIncrementalChainDepth ov else [])"

definition environmentControlled :: "Overrides \<Rightarrow> string \<Rightarrow> bool" where
  "environmentControlled ov key \<longleftrightarrow> TrimSpace (override ov key) \<noteq> []"

definition resolveSetting :: "(float64 \<Rightarrow> int) \<Rightarrow> string \<Rightarrow> string \<Rightarrow> string \<Rightarrow> error + Setting \<times> int" where
  "resolveSetting unrep key val source =
     (let v = TrimSpace val in
      if key \<noteq> UploadThroughputLimitKey \<and> key \<noteq> MaxIncrementalChainDepthKey
      then Inl (Errorf (msg ''unknown setting %q'') [key])
      else case (if key = UploadThroughputLimitKey then ParseThroughputLimitMbps unrep v
                 else ParseMaxIncrementalChainDepth v) of
        Inl e \<Rightarrow> Inl e
      | Inr parsed \<Rightarrow>
          Inr (\<lparr>se_Key = key, se_Value = v, se_DefaultValue = defaultValue key, se_Source = source,
                se_EnvironmentVariable = environmentVariable key,
                se_EnvironmentControlled = (source = SourceEnvironment)\<rparr>, parsed))"

definition applySnapshot :: "SettingsSnapshot \<Rightarrow> Setting \<Rightarrow> int \<Rightarrow> SettingsSnapshot" where
  "applySnapshot snapshot setting parsed =
     (if se_Key setting = UploadThroughputLimitKey
      then snapshot\<lparr>UploadThroughputLimit := setting, UploadThroughputLimitBytesPerSecond := parsed\<rparr>
      else if se_Key setting = MaxIncrementalChainDepthKey
      then snapshot\<lparr>MaxIncrementalChainDepth := setting, MaxIncrementalChainDepthValue := parsed\<rparr>
      else snapshot)"

subsection \<open>The manager\<close>

text \<open>The value of one setting and where it comes from.\<close>

definition setting_source :: "Overrides \<Rightarrow> (string \<rightharpoonup> string) \<Rightarrow> string \<Rightarrow> string \<times> string" where
  "setting_source ov stored key =
     (let over = TrimSpace (override ov key) in
      if over \<noteq> [] then (over, SourceEnvironment)
      else case stored key of
        Some val \<Rightarrow> (val, SourceDatabase)
      | None \<Rightarrow> (defaultValue key, SourceDefault))"

fun load_settings ::
  "(float64 \<Rightarrow> int) \<Rightarrow> Overrides \<Rightarrow> (string \<rightharpoonup> string) \<Rightarrow> string list \<Rightarrow> SettingsSnapshot \<Rightarrow> error + SettingsSnapshot" where
  "load_settings unrep ov stored [] snapshot = Inr snapshot"
| "load_settings unrep ov stored (key # keys) snapshot =
     (case setting_source ov stored key of (val, source) \<Rightarrow>
      case resolveSetting unrep key val source of
        Inl e \<Rightarrow> Inl (Wrapf (msg ''load setting %s from %s: %w'') [key, source] e)
      | Inr (setting, parsed) \<Rightarrow> load_settings unrep ov stored keys (applySnapshot snapshot setting parsed))"

definition zero_Setting :: Setting where
  "zero_Setting = \<lparr>se_Key = [], se_Value = [], se_DefaultValue = [], se_Source = [], se_EnvironmentVariable = [],
     se_EnvironmentControlled = False\<rparr>"

definition zero_SettingsSnapshot :: SettingsSnapshot where
  "zero_SettingsSnapshot =
     \<lparr>UploadThroughputLimit = zero_Setting, UploadThroughputLimitBytesPerSecond = 0,
      MaxIncrementalChainDepth = zero_Setting, MaxIncrementalChainDepthValue = 0\<rparr>"

text \<open>The map built from the rows: a later row overwrites an earlier one of the same key.\<close>

definition stored_settings :: "AppSetting list \<Rightarrow> string \<rightharpoonup> string" where
  "stored_settings rows = foldl (\<lambda>m row. m(as_Key row \<mapsto> as_Value row)) Map.empty rows"

definition load :: "(float64 \<Rightarrow> int) \<Rightarrow> Overrides \<Rightarrow> ('s world, SettingsSnapshot) prog" where
  "load unrep ov =
     check (db_query q_ListAppSettings) (\<lambda>e. throw (Wrapf (msg ''list app settings: %w'') [] e)) (\<lambda>rows.
     ret (load_settings unrep ov (stored_settings rows) [UploadThroughputLimitKey, MaxIncrementalChainDepthKey]
       zero_SettingsSnapshot))"

text \<open>\<open>New\<close> with a database; without one it only returns an error.\<close>

definition settings_New :: "(float64 \<Rightarrow> int) \<Rightarrow> bool \<Rightarrow> Overrides \<Rightarrow> ('s world, Manager) prog" where
  "settings_New unrep database overrides =
     (if \<not> database then throw (Errorf (msg ''settings database is required'') [])
      else check (load unrep overrides) throw (\<lambda>current. ok \<lparr>mg_overrides = overrides, mg_current = current\<rparr>))"

text \<open>\<open>Set\<close> and \<open>Reset\<close> return the manager as they leave it; an error leaves it as it was.\<close>

definition Manager_Set :: "(float64 \<Rightarrow> int) \<Rightarrow> Manager \<Rightarrow> string \<Rightarrow> string \<Rightarrow> ('s world, Manager) prog" where
  "Manager_Set unrep m key val =
     (let v = TrimSpace val in
      case resolveSetting unrep key v SourceDatabase of
        Inl e \<Rightarrow> throw e
      | Inr (setting, parsed) \<Rightarrow>
          if environmentControlled (mg_overrides m) key
          then throw (Wrapf (msg ''%s: %w'') [environmentVariable key] ErrEnvironmentOverride)
          else check (db_exec (q_UpsertAppSetting key v))
            (\<lambda>e. throw (Wrapf (msg ''save setting %s: %w'') [key] e))
            (\<lambda>_. ok (m\<lparr>mg_current := applySnapshot (mg_current m) setting parsed\<rparr>)))"

definition Manager_Reset :: "(float64 \<Rightarrow> int) \<Rightarrow> Manager \<Rightarrow> string \<Rightarrow> ('s world, Manager) prog" where
  "Manager_Reset unrep m key =
     (if environmentControlled (mg_overrides m) key
      then throw (Wrapf (msg ''%s: %w'') [environmentVariable key] ErrEnvironmentOverride)
      else case resolveSetting unrep key (defaultValue key) SourceDefault of
        Inl e \<Rightarrow> throw e
      | Inr (setting, parsed) \<Rightarrow>
          check (db_exec (q_DeleteAppSetting key))
            (\<lambda>e. throw (Wrapf (msg ''reset setting %s: %w'') [key] e))
            (\<lambda>_. ok (m\<lparr>mg_current := applySnapshot (mg_current m) setting parsed\<rparr>)))"

section \<open>The cache and the database\<close>

text \<open>What \<open>load\<close> would return with a catalog whose database answers.\<close>

definition settings_view :: "(float64 \<Rightarrow> int) \<Rightarrow> Overrides \<Rightarrow> (string \<rightharpoonup> string) \<Rightarrow> error + SettingsSnapshot" where
  "settings_view unrep ov stored =
     load_settings unrep ov stored [UploadThroughputLimitKey, MaxIncrementalChainDepthKey] zero_SettingsSnapshot"

definition db_settings :: "catalog \<Rightarrow> string \<rightharpoonup> string" where
  "db_settings c = map_of (map (\<lambda>a. (as_Key a, as_Value a)) (app_settings c))"

lemma setting_keys [simp]:
  "UploadThroughputLimitKey \<noteq> MaxIncrementalChainDepthKey" "MaxIncrementalChainDepthKey \<noteq> UploadThroughputLimitKey"
  by (simp_all add: UploadThroughputLimitKey_def MaxIncrementalChainDepthKey_def)

lemma stored_settings_map: "stored_settings rows = map_of (rev (map (\<lambda>a. (as_Key a, as_Value a)) rows))"
proof -
  have "foldl (\<lambda>m row. m(as_Key row \<mapsto> as_Value row)) m rows = m ++ map_of (rev (map (\<lambda>a. (as_Key a, as_Value a)) rows))" for m
    by (induction rows arbitrary: m) (simp_all add: map_add_upd)
  then show ?thesis by (simp add: stored_settings_def)
qed

lemma stored_settings_query:
  assumes "catalog_ok c" and "q_ListAppSettings now c = Inr rows"
  shows "stored_settings rows = db_settings c"
proof -
  let ?kv = "\<lambda>a. (as_Key a, as_Value a)"
  have rows: "set rows = set (app_settings c)" and "distinct rows = distinct (app_settings c)"
    using assms(2) by (auto simp: q_ListAppSettings_def)
  moreover have d: "distinct (map as_Key (app_settings c))" using assms(1) by (simp add: invariant_defs)
  ultimately have "distinct (map as_Key rows)" by (simp add: distinct_map)
  with d have "distinct (map fst (rev (map ?kv rows)))" "distinct (map fst (map ?kv (app_settings c)))"
    by (simp_all add: comp_def rev_map [symmetric])
  then show ?thesis
    unfolding stored_settings_map db_settings_def using map_of_inject_set rows by fastforce
qed

lemma db_settings_upsert:
  assumes "q_UpsertAppSetting key val now c = Inr c'"
  shows "db_settings c' = (db_settings c)(key \<mapsto> val)"
proof -
  let ?kv = "\<lambda>a. (as_Key a, as_Value a)"
  have upd: "map_of (map ?kv (update_where (\<lambda>a. as_Key a = key) (\<lambda>a. a\<lparr>as_Value := val, as_UpdatedAt := now\<rparr>) rows)) k =
      (if k = key \<and> key \<in> as_Key ` set rows then Some val else map_of (map ?kv rows) k)" for rows :: "AppSetting list" and k
    by (induction rows) (auto simp: update_where_def)
  have new: "map_of (map ?kv rows @ [(key, val)]) k = (if k = key then Some val else map_of (map ?kv rows) k)"
    if "key \<notin> as_Key ` set rows" for rows :: "AppSetting list" and k
    using that by (induction rows) auto
  show ?thesis
    using assms upd [of "app_settings c"] new [of "app_settings c"]
    by (auto simp: q_UpsertAppSetting_def db_settings_def fun_eq_iff split: if_splits)
qed

lemma db_settings_delete:
  assumes "q_DeleteAppSetting key now c = Inr c'"
  shows "db_settings c' = (db_settings c)(key := None)"
proof -
  have "map_of (map (\<lambda>a. (as_Key a, as_Value a)) (filter (\<lambda>a. as_Key a \<noteq> key) rows)) k =
      (if k = key then None else map_of (map (\<lambda>a. (as_Key a, as_Value a)) rows) k)" for rows :: "AppSetting list" and k
    by (induction rows) auto
  then show ?thesis using assms by (auto simp: q_DeleteAppSetting_def db_settings_def fun_eq_iff)
qed

text \<open>The two settings of a snapshot do not depend on each other.\<close>

definition one_setting :: "(float64 \<Rightarrow> int) \<Rightarrow> Overrides \<Rightarrow> (string \<rightharpoonup> string) \<Rightarrow> string \<Rightarrow> error + Setting \<times> int" where
  "one_setting unrep ov stored key =
     (case setting_source ov stored key of (val, source) \<Rightarrow> resolveSetting unrep key val source)"

lemma resolveSetting_key: "resolveSetting unrep key val source = Inr (s, n) \<Longrightarrow> se_Key s = key"
  by (auto simp: resolveSetting_def Let_def split: if_splits sum.splits)

lemma settings_view_Inr:
  "settings_view unrep ov stored = Inr snap \<longleftrightarrow>
   one_setting unrep ov stored UploadThroughputLimitKey =
     Inr (UploadThroughputLimit snap, UploadThroughputLimitBytesPerSecond snap) \<and>
   one_setting unrep ov stored MaxIncrementalChainDepthKey =
     Inr (MaxIncrementalChainDepth snap, MaxIncrementalChainDepthValue snap)"
  by (cases snap) (auto simp: settings_view_def one_setting_def applySnapshot_def zero_SettingsSnapshot_def
      dest: resolveSetting_key split: prod.splits sum.splits)

lemma settings_view_change:
  assumes "settings_view unrep ov stored = Inr snap"
    and "\<And>k. k \<noteq> key \<Longrightarrow> stored' k = stored k" and "one_setting unrep ov stored' key = Inr (s, n)"
  shows "settings_view unrep ov stored' = Inr (applySnapshot snap s n)"
proof -
  have other: "one_setting unrep ov stored' k = one_setting unrep ov stored k" if "k \<noteq> key" for k
    using assms(2) [OF that] by (simp add: one_setting_def setting_source_def Let_def)
  have k: "se_Key s = key" using assms(3) by (auto simp: one_setting_def dest: resolveSetting_key split: prod.splits)
  show ?thesis
    using assms(1,3) k other [of UploadThroughputLimitKey] other [of MaxIncrementalChainDepthKey]
    by (auto simp: settings_view_Inr applySnapshot_def)
qed

lemma one_setting_database:
  assumes "\<not> environmentControlled ov key"
  shows "stored key = Some val \<Longrightarrow> one_setting unrep ov stored key = resolveSetting unrep key val SourceDatabase"
    and "stored key = None \<Longrightarrow> one_setting unrep ov stored key = resolveSetting unrep key (defaultValue key) SourceDefault"
  using assms by (simp_all add: one_setting_def setting_source_def environmentControlled_def)

text \<open>Calls of a client that goes on after an error.\<close>

datatype settings_call = CallSet string string | CallReset string

fun settings_step :: "(float64 \<Rightarrow> int) \<Rightarrow> settings_call \<Rightarrow> Manager \<Rightarrow> ('s world, Manager) prog" where
  "settings_step unrep (CallSet key val) m = Manager_Set unrep m key val"
| "settings_step unrep (CallReset key) m = Manager_Reset unrep m key"

fun settings_calls :: "(float64 \<Rightarrow> int) \<Rightarrow> settings_call list \<Rightarrow> Manager \<Rightarrow> ('s world, Manager) state" where
  "settings_calls unrep [] m = ret m"
| "settings_calls unrep (call # calls) m =
     check (settings_step unrep call m) (\<lambda>_. settings_calls unrep calls m) (\<lambda>m'. settings_calls unrep calls m')"

definition cached :: "(float64 \<Rightarrow> int) \<Rightarrow> Overrides \<Rightarrow> Manager \<Rightarrow> 's world \<Rightarrow> bool" where
  "cached unrep ov m w \<longleftrightarrow> mg_overrides m = ov \<and> settings_view unrep ov (db_settings (wCat w)) = Inr (mg_current m)"

lemma cached_step:
  assumes "cached unrep ov m w"
  shows "wp (settings_step unrep call m)
    (\<lambda>r w'. case r of Inl e \<Rightarrow> cached unrep ov m w' | Inr m' \<Rightarrow> cached unrep ov m' w') w"
proof (cases call)
  case (CallSet key val)
  let ?v = "TrimSpace val"
  have step: "cached unrep ov (m\<lparr>mg_current := applySnapshot (mg_current m) s n\<rparr>) ((tick w)\<lparr>wCat := c\<rparr>)"
    if "resolveSetting unrep key ?v SourceDatabase = Inr (s, n)" "\<not> environmentControlled (mg_overrides m) key"
      "q_UpsertAppSetting key ?v (db_now w) (wCat w) = Inr c" for s n c
    using that assms settings_view_change [where key = key and stored = "db_settings (wCat w)" and stored' = "db_settings c"]
      db_settings_upsert [OF that(3)] one_setting_database(1) [of ov key "db_settings c" ?v unrep]
    by (simp add: cached_def)
  show ?thesis
    using CallSet assms step by (auto simp: Manager_Set_def Let_def wp_rules cached_def split: sum.splits prod.splits)
next
  case (CallReset key)
  have step: "cached unrep ov (m\<lparr>mg_current := applySnapshot (mg_current m) s n\<rparr>) ((tick w)\<lparr>wCat := c\<rparr>)"
    if "resolveSetting unrep key (defaultValue key) SourceDefault = Inr (s, n)" "\<not> environmentControlled (mg_overrides m) key"
      "q_DeleteAppSetting key (db_now w) (wCat w) = Inr c" for s n c
    using that assms settings_view_change [where key = key and stored = "db_settings (wCat w)" and stored' = "db_settings c"]
      db_settings_delete [OF that(3)] one_setting_database(2) [of ov key "db_settings c" unrep]
    by (simp add: cached_def)
  show ?thesis
    using CallReset assms step by (auto simp: Manager_Reset_def Let_def wp_rules cached_def split: sum.splits prod.splits)
qed

lemma cached_calls:
  "cached unrep ov m w \<Longrightarrow> wp (settings_calls unrep calls m) (\<lambda>m' w'. cached unrep ov m' w') w"
proof (induction calls arbitrary: m w)
  case (Cons call calls)
  show ?case
    using wp_mono [OF cached_step [OF Cons.prems, of call]] Cons.IH
    by (auto simp: wp_rules split: sum.splits)
qed (simp add: wp_rules)

section \<open>Properties\<close>

text \<open>
  C29. The manager's cache is what the database and the environment say: after \<open>New\<close> and any sequence
  of \<open>Set\<close> and \<open>Reset\<close> calls, successful or not, loading the settings afresh would give the current
  ones. So the limits the server enforces are those a restart would enforce.
\<close>

theorem Manager_caches_database:
  assumes "cat_ok w" and "run_state (settings_New unrep True ov) w = (Inr m, w1)"
    and "run_state (settings_calls unrep calls m) w1 = (m', w2)"
  shows "mg_overrides m' = ov \<and> settings_view unrep ov (db_settings (wCat w2)) = Inr (mg_current m')"
proof -
  obtain rows where q: "q_ListAppSettings (db_now w) (wCat w) = Inr rows" by (simp add: q_ListAppSettings_def)
  have "wp (settings_New unrep True ov) (\<lambda>r w'. case r of Inl e \<Rightarrow> True | Inr m \<Rightarrow> cached unrep ov m w') w"
    using stored_settings_query [OF assms(1) q] q
    by (simp add: settings_New_def load_def wp_rules settings_view_def [symmetric] cached_def
        del: load_settings.simps split: sum.splits)
  from wpD [OF this assms(2)] have "cached unrep ov m w1" by simp
  from wpD [OF cached_calls [OF this] assms(3)] show ?thesis by (simp add: cached_def)
qed

lemma tenth: "round64 (1 / 10) = Fin (3602879701896397 / 36028797018963968)"
proof -
  have "round_pos (1 / 10) = of_int 7205759403792794 * pow2 (- 56)"
    by (rule round_pos_near [where k = "- 4"]) (simp_all add: pow2_def)
  then show ?thesis by (intro round64_small) (simp_all add: round_rat_def pow2_def)
qed

lemma max_int64_float: "f_of_int (2 ^ 63 - 1) = Fin (2 ^ 63)"
proof -
  have "round_pos (of_int (2 ^ 63 - 1)) = of_int (2 ^ 53) * pow2 10"
  proof -
    have "round_half_even (of_int (2 ^ 63 - 1) / pow2 10) = 2 ^ 53" by (rule round_half_even_near) (simp add: pow2_def)
    moreover have "ilog2 (of_int (2 ^ 63 - 1)) = 62" by (rule ilog2_unique) (simp_all add: pow2_def)
    ultimately show ?thesis by (simp add: round_pos_def ulp_exp_def)
  qed
  then show ?thesis unfolding f_of_int_def by (intro round64_small) (simp_all add: round_rat_def pow2_def)
qed

lemma exact_ints: "f_of_int 1000000 = Fin 1000000" "f_of_int 8 = Fin 8" "round64 0 = Fin 0"
  using round_rat_int [of 1000000] round_rat_int [of 8] round_rat_int [of 0] 
  by (simp_all add: f_of_int_def round64_small)

text \<open>The rate of a positive limit, before it is made a whole number.\<close>

lemma rate_bound:
  assumes "3602879701896397 / 36028797018963968 \<le> mbps"
    and "f_div (f_mul (Fin mbps) (Fin 1000000)) (Fin 8) = Fin q"
  shows "12500 \<le> q"
proof -
  obtain p where p: "round64 (mbps * 1000000) = Fin p" and q: "round64 (p / 8) = Fin q"
    using assms(2) by (cases "round64 (mbps * 1000000)") simp_all
  have "round_rat (of_int 100000) \<le> round_rat (mbps * 1000000)"
    by (rule round_rat_mono) (use assms(1) in simp)
  then have "100000 \<le> p" using round64_finite [OF p] round_rat_int [of 100000] by simp
  then have "round_rat (of_int 12500) \<le> round_rat (p / 8)" by (intro round_rat_mono) simp
  then show ?thesis using round64_finite [OF q] round_rat_int [of 12500] by simp
qed

text \<open>
  A rate limit that is accepted is zero, which means none, or at least 12500 bytes per second (0.1
  Mbps) and fits in 64 bits; the only other outcome is the value a platform gives for \<open>2 ^ 63\<close>, which
  the comparison with \<open>math.MaxInt64\<close> lets pass.
\<close>

theorem ParseThroughputLimitMbps_range:
  assumes "ParseThroughputLimitMbps unrep val = Inr n"
  shows "n = 0 \<or> 12500 \<le> n \<and> n < 2 ^ 63 \<or> n = unrep (Fin (2 ^ 63))"
proof -
  obtain mbps where f: "ParseFloat (TrimSpace val) = Some (Fin mbps)"
    using assms by (auto simp: ParseThroughputLimitMbps_def split: option.splits float64.splits)
  let ?q = "f_div (f_mul (Fin mbps) (Fin 1000000)) (Fin 8)"
  have r: "(if mbps < 0 then Inl (Errorf (msg ''must not be negative'') [])
      else if 0 < mbps \<and> mbps < 3602879701896397 / 36028797018963968
      then Inl (Errorf (msg ''positive limit must be at least 0.1 Mbps'') [])
      else if f_less (Fin (2 ^ 63)) ?q then Inl (Errorf (msg ''limit is too large'') [])
      else Inr (float_to_int64 unrep (math_Round ?q))) = Inr n"
    using assms unfolding ParseThroughputLimitMbps_def f max_int64_float exact_ints tenth Let_def
      option.case float64.case f_less.simps .
  have sign: "0 \<le> mbps" and low: "mbps = 0 \<or> 3602879701896397 / 36028797018963968 \<le> mbps"
    and high: "\<not> f_less (Fin (2 ^ 63)) ?q" and n: "n = float_to_int64 unrep (math_Round ?q)"
    using r by (auto simp del: f_div.simps f_mul.simps split: if_splits)
  show ?thesis
  proof (cases "mbps = 0")
    case True
    moreover have "floor (1 / 2 :: rat) = 0" by (rule floor_unique) simp_all
    ultimately show ?thesis using n by (simp add: exact_ints round_away_def rat_trunc_def in_int64_def)
  next
    case False
    obtain q where q: "f_div (f_mul (Fin mbps) (Fin 1000000)) (Fin 8) = Fin q"
    proof (rule round64_nonneg [of "mbps * 1000000"])
      fix p
      assume p: "round64 (mbps * 1000000) = Fin p" "0 \<le> p"
      show thesis by (rule round64_nonneg [of "p / 8"]) (use p high that in auto)
    qed (use sign high in auto)
    have "12500 \<le> q" using rate_bound [OF _ q] low False by blast
    moreover have "q \<le> 2 ^ 63" using high unfolding q by simp
    ultimately have "12500 \<le> round_away q" "round_away q \<le> 2 ^ 63"
      by (simp_all add: round_away_def le_floor_iff floor_le_iff)
    then show ?thesis using n unfolding q by (auto simp: rat_trunc_def in_int64_def)
  qed
qed

text \<open>The parsed form of a limit close to the greatest one.\<close>

lemma edge_number: "parse_number ''73786976294838.206464'' = Some (73786976294838206464 / 1000000)"
  by code_simp

lemma edge_float: "ParseFloat ''73786976294838.206464'' = Some (Fin (4722366482869645 / 64))"
proof -
  have "round_pos (73786976294838206464 / 1000000) = of_int 4722366482869645 * pow2 (- 6)"
    by (rule round_pos_near [where k = 46]) (simp_all add: pow2_def)
  then have "round64 (73786976294838206464 / 1000000) = Fin (4722366482869645 / 64)"
    by (intro round64_small) (simp_all add: round_rat_def pow2_def)
  moreover have "parse_special ''73786976294838.206464'' = None" by code_simp
  ultimately show ?thesis by (simp add: ParseFloat_def edge_number)
qed

text \<open>
  A limit whose rate rounds to \<open>2 ^ 63\<close> bytes per second is accepted, and what is stored as the
  rate is left to the platform (the least 64-bit integer where the conversion does not saturate, and
  a negative rate means no limit).
\<close>

theorem ParseThroughputLimitMbps_overflows:
  "ParseThroughputLimitMbps unrep ''73786976294838.206464'' = Inr (unrep (Fin (2 ^ 63)))"
proof -
  have "round_pos (4722366482869645 / 64 * 1000000) = of_int (2 ^ 53) * pow2 13"
  proof -
    have "round_half_even (4722366482869645 / 64 * 1000000 / pow2 13) = 2 ^ 53"
      by (rule round_half_even_near) (simp add: pow2_def)
    moreover have "ilog2 (4722366482869645 / 64 * 1000000) = 65" by (rule ilog2_unique) (simp_all add: pow2_def)
    ultimately show ?thesis by (simp add: round_pos_def ulp_exp_def)
  qed
  then have "round64 (4722366482869645 / 64 * 1000000) = Fin (2 ^ 66)"
    by (intro round64_small) (simp_all add: round_rat_def pow2_def)
  moreover have "round_pos (of_int (2 ^ 53) * pow2 10) = of_int (2 ^ 53) * pow2 10"
    by (rule round_pos_representable) simp_all
  then have "round64 (2 ^ 66 / 8) = Fin (2 ^ 63)" by (intro round64_small) (simp_all add: round_rat_def pow2_def)
  ultimately have q: "f_div (f_mul (Fin (4722366482869645 / 64)) (Fin 1000000)) (Fin 8) = Fin (2 ^ 63)"
    by (simp only: f_mul.simps f_div.simps)
  have trim: "TrimSpace ''73786976294838.206464'' = ''73786976294838.206464''" by code_simp
  have "round_away (2 ^ 63) = 2 ^ 63"
    unfolding round_away_def by (simp add: floor_unique)
  then have "float_to_int64 unrep (math_Round (Fin (2 ^ 63))) = unrep (Fin (2 ^ 63))"
    by (simp add: rat_trunc_def in_int64_def)
  then show ?thesis
    unfolding ParseThroughputLimitMbps_def trim edge_float max_int64_float exact_ints tenth Let_def
      option.case float64.case q by simp
qed

text \<open>Twelve megabits, then a depth of nine, then a value that is refused.\<close>

definition no_overrides :: Overrides where
  "no_overrides = \<lparr>ov_UploadThroughputLimitMbps = [], ov_MaxIncrementalChainDepth = []\<rparr>"

lemma default_rate: "ParseThroughputLimitMbps (\<lambda>_. 0) ''45'' = Inr 5625000"
proof -
  have f: "TrimSpace ''45'' = ''45''" "ParseFloat ''45'' = Some (Fin 45)" by code_simp+
  have "f_div (f_mul (Fin 45) (Fin 1000000)) (Fin 8) = Fin 5625000"
    using round_rat_int [of 45000000] round_rat_int [of 5625000] by (simp add: round64_small)
  moreover have "round_away 5625000 = 5625000" unfolding round_away_def by (simp add: floor_unique)
  ultimately show ?thesis
    unfolding ParseThroughputLimitMbps_def f max_int64_float exact_ints tenth Let_def option.case float64.case
    by (simp del: f_div.simps f_mul.simps add: rat_trunc_def in_int64_def)
qed

lemma default_depth: "ParseMaxIncrementalChainDepth ''30'' = Inr 30"
  by code_simp

lemma sample_settings:
  "case fst (run_state (settings_New (\<lambda>_. 0) True no_overrides) sample_world) of Inl e \<Rightarrow> False | Inr m \<Rightarrow> True"
proof -
  have "TrimSpace ''45'' = ''45''" "TrimSpace ''30'' = ''30''" "TrimSpace [] = []" by code_simp+
  moreover have "app_settings sample_catalog = []" by (simp add: sample_catalog_def empty_catalog_def)
  ultimately show ?thesis
    by (simp add: settings_New_def load_def run_check db_query_def sample_world_def q_ListAppSettings_def stored_settings_def
        setting_source_def no_overrides_def override_def resolveSetting_def defaultValue_def default_rate default_depth Let_def)
qed

theorem Manager_caches_database_witness:
  "\<exists>m w1 m' w2. run_state (settings_New (\<lambda>_. 0) True no_overrides) sample_world = (Inr m, w1) \<and>
    run_state (settings_calls (\<lambda>_. 0) [CallSet MaxIncrementalChainDepthKey ''9'', CallSet UploadThroughputLimitKey ''-1''] m) w1 = (m', w2) \<and>
    settings_view (\<lambda>_. 0) no_overrides (db_settings (wCat w2)) = Inr (mg_current m')"
proof -
  obtain m w1 where new: "run_state (settings_New (\<lambda>_. 0) True no_overrides) sample_world = (Inr m, w1)"
    using run_succeeds [OF sample_settings] by blast
  obtain m' w2 where calls: "run_state (settings_calls (\<lambda>_. 0)
      [CallSet MaxIncrementalChainDepthKey ''9'', CallSet UploadThroughputLimitKey ''-1''] m) w1 = (m', w2)"
    by (rule prod.exhaust)
  from new calls Manager_caches_database [OF sample_world_ok new calls] show ?thesis by blast
qed

theorem ParseThroughputLimitMbps_range_witness:
  "ParseThroughputLimitMbps (\<lambda>_. 0) ''45'' = Inr 5625000 \<and>
   (5625000 = (0 :: int) \<or> 12500 \<le> (5625000 :: int) \<and> 5625000 < (2 :: int) ^ 63 \<or> 5625000 = (0 :: int))"
  using ParseThroughputLimitMbps_range [OF default_rate] default_rate by blast

end
