(* ===== verification/Config.thy ===== *)
theory Config
  imports App_Settings
begin

text \<open>
  The configuration from the environment (\<open>src/internal/config/config.go\<close>): \<open>env\<close> is \<open>os.Getenv\<close>, which gives the empty
  string for a variable that is not set. A duration is in nanoseconds. \<open>time.ParseDuration\<close> is modelled as the library documents it: a signed sequence of
  decimal numbers, each with an optional fraction and a unit; the fraction is truncated to nanoseconds.
\<close>

section \<open>Durations\<close>

definition is_digit :: "char \<Rightarrow> bool" where
  "is_digit c \<longleftrightarrow> digit_val c < 10"

text \<open>\<open>leadingInt\<close>: the digits at the front; \<open>None\<close> when the number passes 2^63.\<close>

fun leadingInt :: "int \<Rightarrow> string \<Rightarrow> (int \<times> string) option" where
  "leadingInt x [] = Some (x, [])"
| "leadingInt x (c # s) =
     (if \<not> is_digit c then Some (x, c # s)
      else if x > 2 ^ 63 div 10 then None
      else let y = x * 10 + int (digit_val c) in if y > 2 ^ 63 then None else leadingInt y s)"

text \<open>
  \<open>leadingFraction\<close>: digits after the point with their scale; digits that would overflow are read and dropped.
\<close>

fun leadingFraction :: "int \<Rightarrow> int \<Rightarrow> bool \<Rightarrow> string \<Rightarrow> int \<times> int \<times> string" where
  "leadingFraction x scale over [] = (x, scale, [])"
| "leadingFraction x scale over (c # s) =
     (if \<not> is_digit c then (x, scale, c # s)
      else if over then leadingFraction x scale True s
      else if x > (2 ^ 63 - 1) div 10 then leadingFraction x scale True s
      else let y = x * 10 + int (digit_val c) in
        if y > 2 ^ 63 then leadingFraction x scale True s else leadingFraction y (scale * 10) False s)"

text \<open>The units; the two micro signs are U+00B5 and U+03BC.\<close>

definition unitMap :: "string \<rightharpoonup> int" where
  "unitMap u =
     map_of [(''ns'', 1), (''us'', 1000), ([CHR 0xC2, CHR 0xB5, CHR ''s''], 1000), ([CHR 0xCE, CHR 0xBC, CHR ''s''], 1000),
       (''ms'', 1000000), (''s'', 1000000000), (''m'', 60 * 1000000000), (''h'', 3600 * 1000000000)] u"

definition unit_char :: "char \<Rightarrow> bool" where
  "unit_char c \<longleftrightarrow> c \<noteq> CHR ''.'' \<and> \<not> is_digit c"

text \<open>
  One number with its unit, in nanoseconds. The product of fraction and unit is computed in floating point by the library;
  for units up to an hour and the digits kept it is the truncation of the exact value, up to the rounding of a
  float64, which is what \<open>f_mul\<close> and \<open>f_div\<close> compute here.
\<close>

definition fraction_nanos :: "int \<Rightarrow> int \<Rightarrow> int \<Rightarrow> int" where
  "fraction_nanos f scale unit =
     (case f_mul (f_of_int f) (f_div (f_of_int unit) (f_of_int scale)) of Fin x \<Rightarrow> rat_trunc x | _ \<Rightarrow> 0)"

definition invalid_duration :: "string \<Rightarrow> error" where
  "invalid_duration orig = Errorf (msg ''time: invalid duration %q'') [orig]"

definition parse_component :: "string \<Rightarrow> string \<Rightarrow> error + int \<times> string" where
  "parse_component orig s =
     (if \<not> (s \<noteq> [] \<and> (hd s = CHR ''.'' \<or> is_digit (hd s))) then Inl (invalid_duration orig)
      else case leadingInt 0 s of
        None \<Rightarrow> Inl (invalid_duration orig)
      | Some (v, s1) \<Rightarrow>
          let pre = (length s1 \<noteq> length s);
              has_dot = (s1 \<noteq> [] \<and> hd s1 = CHR ''.'');
              (f, scale, s2) = (if has_dot then leadingFraction 0 1 False (tl s1) else (0, 1, s1));
              post = (has_dot \<and> length s2 \<noteq> length (tl s1));
              u = takeWhile unit_char s2; s3 = dropWhile unit_char s2 in
          if \<not> pre \<and> \<not> post then Inl (invalid_duration orig)
          else if u = [] then Inl (Errorf (msg ''time: missing unit in duration %q'') [orig])
          else case unitMap u of
            None \<Rightarrow> Inl (Errorf (msg ''time: unknown unit %q in duration %q'') [u, orig])
          | Some unit \<Rightarrow>
              if v > 2 ^ 63 div unit then Inl (invalid_duration orig)
              else let w = v * unit + (if f > 0 then fraction_nanos f scale unit else 0) in
                if f > 0 \<and> w > 2 ^ 63 then Inl (invalid_duration orig) else Inr (w, s3))"

text \<open>The loop over the components; each consumes input, so as many rounds as characters are enough.\<close>

fun parse_components :: "nat \<Rightarrow> string \<Rightarrow> int \<Rightarrow> string \<Rightarrow> error + int" where
  "parse_components n orig d [] = Inr d"
| "parse_components 0 orig d (c # s) = Inl Diverges"
| "parse_components (Suc n) orig d (c # s) =
     (case parse_component orig (c # s) of
        Inl e \<Rightarrow> Inl e
      | Inr (v, rest) \<Rightarrow> if d + v > 2 ^ 63 then Inl (invalid_duration orig) else parse_components n orig (d + v) rest)"

definition ParseDuration :: "string \<Rightarrow> error + int" where
  "ParseDuration s =
     (let neg = (s \<noteq> [] \<and> hd s = CHR ''-'');
          t = (if s \<noteq> [] \<and> hd s \<in> {CHR ''-'', CHR ''+''} then tl s else s) in
      if t = ''0'' then Inr 0
      else if t = [] then Inl (invalid_duration s)
      else case parse_components (length t) s 0 t of
        Inl e \<Rightarrow> Inl e
      | Inr d \<Rightarrow> if neg then Inr (- d) else if d > 2 ^ 63 - 1 then Inl (invalid_duration s) else Inr d)"

text \<open>\<open>Duration.String\<close> of a positive number of whole seconds.\<close>

definition duration_String :: "nat \<Rightarrow> string" where
  "duration_String n =
     (let h = n div 3600; m = n div 60 mod 60; s = n mod 60 in
      (if h > 0 then show_nat h @ ''h'' else []) @ (if n div 60 > 0 then show_nat m @ ''m'' else []) @ show_nat s @ ''s'')"

section \<open>The configuration\<close>

record Config =
  HTTPPort :: string
  SSHPort :: string
  SSHHostKeyPath :: string
  WebAdminPassword :: string
  cf_RestoreSSHCommandPrefix :: string
  DatabasePath :: string
  S3Endpoint :: string
  S3Region :: string
  cf_S3Bucket :: string
  S3AccessKeyID :: string
  S3SecretAccessKey :: string
  S3ForcePathStyle :: bool
  StorageEncryptionPassphrase :: string
  StorageRootPrefix :: string
  cf_MaxIncrementalChainDepth :: int
  MaxIncrementalChainDepthEnvOverride :: string
  cf_UploadThroughputLimitBytesPerSecond :: int
  UploadThroughputLimitMbpsEnvOverride :: string
  CatalogBackupInterval :: int
  CleanupWorkerInterval :: int
  ReconcileStaleAfter :: int
  AbandonedUploadCleanupAfter :: int
  ValidationInterval :: int
  ValidationLimit :: int
  ShutdownGracePeriod :: int

type_synonym environment = "string \<Rightarrow> string"

definition env_or :: "environment \<Rightarrow> string \<Rightarrow> string \<Rightarrow> string" where
  "env_or env key fallback = (if env key \<noteq> [] then env key else fallback)"

definition nonEmptyEnv :: "environment \<Rightarrow> string \<Rightarrow> string" where
  "nonEmptyEnv env key = TrimSpace (env key)"

definition ParseBool :: "string \<Rightarrow> bool option" where
  "ParseBool s =
     (if s \<in> {''1'', ''t'', ''T'', ''TRUE'', ''true'', ''True''} then Some True
      else if s \<in> {''0'', ''f'', ''F'', ''FALSE'', ''false'', ''False''} then Some False else None)"

definition envBool :: "environment \<Rightarrow> string \<Rightarrow> bool \<Rightarrow> bool" where
  "envBool env key fallback =
     (if env key = [] then fallback else case ParseBool (env key) of None \<Rightarrow> fallback | Some b \<Rightarrow> b)"

text \<open>The default, a number of seconds, goes through its text too.\<close>

definition envDuration :: "environment \<Rightarrow> string \<Rightarrow> nat \<Rightarrow> error + int" where
  "envDuration env key fallback =
     (case ParseDuration (env_or env key (duration_String fallback)) of
        Inl e \<Rightarrow> Inl (Wrapf (msg ''parse %s: %w'') [key] e) | Inr d \<Rightarrow> Inr d)"

definition envInt64 :: "environment \<Rightarrow> string \<Rightarrow> int \<Rightarrow> error + int" where
  "envInt64 env key fallback =
     (if env key = [] then Inr fallback
      else case ParseInt10 (env key) of
        None \<Rightarrow> Inl (Wrapf (msg ''parse %s: %w'') [key] (Errorf (msg ''strconv.ParseInt: parsing %q'') [env key]))
      | Some n \<Rightarrow> Inr n)"

definition defaultRestoreSSHCommandPrefix :: "environment \<Rightarrow> string" where
  "defaultRestoreSSHCommandPrefix env =
     (let domain = TrimSpace (env ''RAILWAY_TCP_PROXY_DOMAIN''); port = TrimSpace (env ''RAILWAY_TCP_PROXY_PORT'') in
      if domain \<noteq> [] \<and> port \<noteq> [] then ''ssh -p '' @ port @ '' [named_source]@'' @ domain
      else ''ssh [named_source]@<ssh-host>'')"

definition parseStorageEncryptionPassphrase :: "string \<Rightarrow> string" where
  "parseStorageEncryptionPassphrase v = TrimSpace v"

text \<open>\<open>filepath.Dir\<close>: what is before the last slash, cleaned.\<close>

definition filepath_Dir :: "string \<Rightarrow> string" where
  "filepath_Dir p = path_Clean (rev (dropWhile (\<lambda>c. c \<noteq> CHR ''/'') (rev p)))"

definition hostKeyPath :: "environment \<Rightarrow> string \<Rightarrow> string" where
  "hostKeyPath env databasePath =
     env_or env ''SSH_HOST_KEY_PATH'' (path_Join [filepath_Dir databasePath, ''ssh_host_ed25519''])"

definition setting_env :: "environment \<Rightarrow> (string \<Rightarrow> error + int) \<Rightarrow> string \<Rightarrow> string \<Rightarrow> error + int \<times> string" where
  "setting_env env parse name fallback =
     (let over = nonEmptyEnv env name in
      case parse (if over = [] then fallback else over) of
        Inl e \<Rightarrow> Inl (Wrapf (msg ''parse %s: %w'') [name] e) | Inr n \<Rightarrow> Inr (n, over))"

definition bind_err :: "error + 'a \<Rightarrow> ('a \<Rightarrow> error + 'b) \<Rightarrow> error + 'b" where
  "bind_err m k = (case m of Inl e \<Rightarrow> Inl e | Inr x \<Rightarrow> k x)"

definition config_Load :: "(float64 \<Rightarrow> int) \<Rightarrow> environment \<Rightarrow> error + Config" where
  "config_Load unrep env =
     bind_err (setting_env env (ParseThroughputLimitMbps unrep) (environmentVariable UploadThroughputLimitKey)
       (defaultValue UploadThroughputLimitKey)) (\<lambda>(uploadThroughputLimit, uploadThroughputOverride).
     bind_err (setting_env env ParseMaxIncrementalChainDepth (environmentVariable MaxIncrementalChainDepthKey)
       (defaultValue MaxIncrementalChainDepthKey)) (\<lambda>(maxIncrementalChainDepth, maxChainDepthOverride).
     bind_err (envInt64 env ''VALIDATION_LIMIT'' 25) (\<lambda>validationLimit.
     if validationLimit \<le> 0 then Inl (Errorf (msg ''VALIDATION_LIMIT must be greater than zero'') [])
     else
     bind_err (envDuration env ''SHUTDOWN_GRACE_PERIOD'' (15)) (\<lambda>shutdownGrace.
     bind_err (envDuration env ''CATALOG_BACKUP_INTERVAL'' (24 * 3600)) (\<lambda>catalogBackupInterval.
     bind_err (envDuration env ''CLEANUP_WORKER_INTERVAL'' (30)) (\<lambda>cleanupWorkerInterval.
     bind_err (envDuration env ''RECONCILE_STALE_AFTER'' (10 * 60)) (\<lambda>reconcileStaleAfter.
     bind_err (envDuration env ''ABANDONED_UPLOAD_CLEANUP_AFTER'' (24 * 3600)) (\<lambda>abandonedUploadCleanupAfter.
     bind_err (envDuration env ''VALIDATION_INTERVAL'' (3600)) (\<lambda>validationInterval.
     let databasePath = env_or env ''DATABASE_PATH'' ''./data/catalog.db'' in
     Inr \<lparr>HTTPPort = env_or env ''HTTP_PORT'' (env_or env ''PORT'' ''3000''),
          SSHPort = env_or env ''SSH_PORT'' ''2222'',
          SSHHostKeyPath = hostKeyPath env databasePath,
          WebAdminPassword = env_or env ''WEB_ADMIN_PASSWORD'' [],
          cf_RestoreSSHCommandPrefix = env_or env ''RESTORE_SSH_COMMAND_PREFIX'' (defaultRestoreSSHCommandPrefix env),
          DatabasePath = databasePath,
          S3Endpoint = env_or env ''S3_ENDPOINT'' [],
          S3Region = env_or env ''S3_REGION'' ''us-east-1'',
          cf_S3Bucket = env_or env ''S3_BUCKET'' [],
          S3AccessKeyID = env_or env ''S3_ACCESS_KEY_ID'' [],
          S3SecretAccessKey = env_or env ''S3_SECRET_ACCESS_KEY'' [],
          S3ForcePathStyle = envBool env ''S3_FORCE_PATH_STYLE'' False,
          StorageEncryptionPassphrase = parseStorageEncryptionPassphrase (env_or env ''STORAGE_ENCRYPTION_KEY'' []),
          StorageRootPrefix = env_or env ''STORAGE_ROOT_PREFIX'' ''zfs-s3nd/v1'',
          cf_MaxIncrementalChainDepth = maxIncrementalChainDepth,
          MaxIncrementalChainDepthEnvOverride = maxChainDepthOverride,
          cf_UploadThroughputLimitBytesPerSecond = uploadThroughputLimit,
          UploadThroughputLimitMbpsEnvOverride = uploadThroughputOverride,
          CatalogBackupInterval = catalogBackupInterval,
          CleanupWorkerInterval = cleanupWorkerInterval,
          ReconcileStaleAfter = reconcileStaleAfter,
          AbandonedUploadCleanupAfter = abandonedUploadCleanupAfter,
          ValidationInterval = validationInterval,
          ValidationLimit = validationLimit,
          ShutdownGracePeriod = shutdownGrace\<rparr>)))))))))"

section \<open>Parsing durations\<close>

lemma leadingInt_length: "leadingInt x s = Some (y, r) \<Longrightarrow> length r \<le> length s"
  by (induction x s rule: leadingInt.induct) (auto simp: Let_def split: if_splits)

lemma leadingFraction_length: "leadingFraction x sc b s = (y, sc', r) \<Longrightarrow> length r \<le> length s"
  by (induction x sc b s rule: leadingFraction.induct) (auto simp: Let_def split: if_splits)

lemma parse_component_shrinks:
  assumes "parse_component orig s = Inr (v, rest)"
  shows "length rest < length s"
proof -
  obtain n s1 where s1: "leadingInt 0 s = Some (n, s1)"
    using assms by (auto simp: parse_component_def split: if_splits option.splits)
  obtain f scale s2 where s2: "(if s1 \<noteq> [] \<and> hd s1 = CHR ''.'' then leadingFraction 0 1 False (tl s1) else (0, 1, s1)) = (f, scale, s2)"
    by (cases "if s1 \<noteq> [] \<and> hd s1 = CHR ''.'' then leadingFraction 0 1 False (tl s1) else (0, 1, s1)") auto
  have rest: "rest = dropWhile unit_char s2" "takeWhile unit_char s2 \<noteq> []"
    using assms s1 s2 by (auto simp: parse_component_def Let_def split: if_splits option.splits)
  have "length s2 \<le> length s1"
    using s2 leadingFraction_length [of 0 1 False "tl s1" f scale s2] by (auto split: if_splits)
  moreover have "length s1 \<le> length s" using leadingInt_length [OF s1] .
  moreover have "length (takeWhile unit_char s2) + length (dropWhile unit_char s2) = length s2"
    by (metis length_append takeWhile_dropWhile_id)
  ultimately show ?thesis using rest by (cases "takeWhile unit_char s2") auto
qed

lemma parse_component_error: "parse_component orig s \<noteq> Inl Diverges"
  by (auto simp: parse_component_def invalid_duration_def Let_def split: if_splits option.splits prod.splits)

lemma parse_components_fuel: "length s \<le> n \<Longrightarrow> parse_components n orig d s \<noteq> Inl Diverges"
proof (induction n orig d s rule: parse_components.induct)
  case (3 n orig d c s)
  show ?case
  proof (cases "parse_component orig (c # s)")
    case (Inl e)
    then show ?thesis using parse_component_error [of orig "c # s"] by simp
  next
    case (Inr p)
    obtain v rest where p: "p = (v, rest)" by (cases p)
    have "length rest \<le> n" using parse_component_shrinks [of orig "c # s" v rest] Inr p 3(2) by simp
    then show ?thesis using 3(1) [OF Inr p [symmetric]] Inr p by (simp add: invalid_duration_def)
  qed
qed auto

subsection \<open>Printed durations\<close>

lemma parse_digits_mono: "parse_digits 10 acc ds = Some n \<Longrightarrow> acc \<le> n"
proof (induction ds arbitrary: acc)
  case (Cons c ds)
  then have "acc * 10 + digit_val c \<le> n" by (simp split: if_splits)
  then show ?case by linarith
qed simp

lemma leadingInt_digits:
  assumes "parse_digits 10 acc ds = Some n" and "int n \<le> 2 ^ 63" and "\<not> is_digit c"
  shows "leadingInt (int acc) (ds @ c # t) = Some (int n, c # t)"
  using assms(1)
proof (induction ds arbitrary: acc)
  case (Cons d ds)
  then have d: "digit_val d < 10" and rest: "parse_digits 10 (acc * 10 + digit_val d) ds = Some n"
    by (auto split: if_splits)
  have le: "acc * 10 + digit_val d \<le> n" by (rule parse_digits_mono [OF rest])
  have "int acc \<le> 2 ^ 63 div 10" and "int acc * 10 + int (digit_val d) \<le> 2 ^ 63" using le assms(2) by simp_all
  then show ?case using Cons.IH [OF rest] d by (simp add: is_digit_def Let_def)
qed (simp add: assms(3))

lemma show_nat_digits: "parse_digits 10 0 (show_nat n) = Some n"
  unfolding show_nat_def by (rule parse_digits_show_base) simp_all

lemma hd_show_nat: "show_nat n \<noteq> [] \<and> is_digit (hd (show_nat n))"
proof -
  have ne: "show_nat n \<noteq> []" by (simp add: show_nat_def)
  then have "hd (show_nat n) \<in> set (show_nat n)" by simp
  then show ?thesis using ne notin_show_nat unfolding is_digit_def by blast
qed

text \<open>A printed number with a unit letter in front of a digit or the end.\<close>

lemma parse_component_printed:
  assumes "unitMap [c] = Some unit" and "unit_char c" and "0 < unit" and "int k \<le> 2 ^ 63 div unit"
    and "rest = [] \<or> is_digit (hd rest)"
  shows "parse_component orig (show_nat k @ c # rest) = Inr (int k * unit, rest)"
proof -
  have k: "int k \<le> 2 ^ 63"
  proof -
    have "2 ^ 63 div unit \<le> (2 ^ 63 :: int)" using zdiv_mono2 [of "2 ^ 63" 1 unit] assms(3) by simp
    then show ?thesis using assms(4) by linarith
  qed
  have lead: "leadingInt 0 (show_nat k @ c # rest) = Some (int k, c # rest)"
    using leadingInt_digits [OF show_nat_digits k, of c rest] assms(2) by (simp add: unit_char_def)
  have "takeWhile unit_char (c # rest) = [c]" "dropWhile unit_char (c # rest) = rest"
    using assms(2,5) by (cases rest; simp add: unit_char_def)+
  moreover have "hd (show_nat k @ c # rest) = hd (show_nat k)" using hd_show_nat by (simp add: hd_append)
  moreover have "length (show_nat k) > 0" using hd_show_nat by simp
  ultimately show ?thesis using hd_show_nat [of k] lead assms by (simp add: parse_component_def Let_def unit_char_def)
qed

lemma units:
  "unitMap ''h'' = Some 3600000000000" "unitMap ''m'' = Some 60000000000" "unitMap ''s'' = Some 1000000000"
  "unit_char CHR ''h''" "unit_char CHR ''m''" "unit_char CHR ''s''"
  by (code_simp)+

lemma parse_seconds:
  assumes "int k < 60"
  shows "parse_component orig (show_nat k @ ''s'') = Inr (int k * 1000000000, [])"
  using parse_component_printed [of "CHR ''s''" 1000000000 k "[]" orig] assms units by simp

lemma parse_minutes:
  assumes "int k < 60" and "rest \<noteq> []" and "is_digit (hd rest)"
  shows "parse_component orig (show_nat k @ CHR ''m'' # rest) = Inr (int k * 60000000000, rest)"
  using parse_component_printed [of "CHR ''m''" 60000000000 k rest orig] assms units by simp

lemma parse_hours:
  assumes "int k * 3600000000000 < 2 ^ 63" and "rest \<noteq> []" and "is_digit (hd rest)"
  shows "parse_component orig (show_nat k @ CHR ''h'' # rest) = Inr (int k * 3600000000000, rest)"
proof -
  have "int k \<le> 2 ^ 63 div 3600000000000" using assms(1) by simp
  then show ?thesis using parse_component_printed [of "CHR ''h''" 3600000000000 k rest orig] assms units by simp
qed

lemma parse_components_step:
  assumes "parse_component orig s = Inr (v, rest)" and "d + v \<le> 2 ^ 63" and "s \<noteq> []"
  shows "parse_components (Suc n) orig d s = parse_components n orig (d + v) rest"
proof -
  obtain c t where "s = c # t" using assms(3) by (cases s) auto
  then show ?thesis using assms by simp
qed

lemma parse_components_sec:
  assumes "S < 60" and "d + int S * 1000000000 \<le> 2 ^ 63"
  shows "parse_components (Suc j) orig d (show_nat S @ ''s'') = Inr (d + int S * 1000000000)"
  using parse_components_step [OF parse_seconds [of S orig] assms(2)] assms(1) by simp

lemma parse_components_min:
  assumes "M < 60" and "S < 60" and "d + int M * 60000000000 + int S * 1000000000 \<le> 2 ^ 63"
  shows "parse_components (Suc (Suc j)) orig d (show_nat M @ ''m'' @ show_nat S @ ''s'') =
    Inr (d + int M * 60000000000 + int S * 1000000000)"
proof -
  let ?sec = "show_nat S @ ''s''"
  have "is_digit (hd ?sec)" using hd_show_nat [of S] by (simp add: hd_append)
  with assms(1) have "parse_component orig (show_nat M @ CHR ''m'' # ?sec) = Inr (int M * 60000000000, ?sec)"
    by (intro parse_minutes) simp_all
  from parse_components_step [OF this, of d "Suc j"] show ?thesis
    using parse_components_sec [OF assms(2,3), of j orig] assms(3) by simp
qed

lemma parse_components_hour:
  assumes "M < 60" and "S < 60" and "int H * 3600000000000 + int M * 60000000000 + int S * 1000000000 < 2 ^ 63"
  shows "parse_components (Suc (Suc (Suc j))) orig 0 (show_nat H @ ''h'' @ show_nat M @ ''m'' @ show_nat S @ ''s'') =
    Inr (int H * 3600000000000 + int M * 60000000000 + int S * 1000000000)"
proof -
  let ?min = "show_nat M @ ''m'' @ show_nat S @ ''s''"
  have "is_digit (hd ?min)" using hd_show_nat [of M] by (simp add: hd_append)
  with assms(3) have "parse_component orig (show_nat H @ CHR ''h'' # ?min) = Inr (int H * 3600000000000, ?min)"
    by (intro parse_hours) simp_all
  from parse_components_step [OF this, of 0 "Suc (Suc j)"] show ?thesis
    using parse_components_min [OF assms(1,2), of "int H * 3600000000000" j orig] assms(3) by simp
qed

lemma hms: "int n * 1000000000 = int (n div 3600) * 3600000000000 + int (n div 60 mod 60) * 60000000000 + int (n mod 60) * 1000000000"
proof -
  have "n = n div 60 * 60 + n mod 60" "n div 60 = n div 60 div 60 * 60 + n div 60 mod 60" by (rule div_mult_mod_eq [symmetric])+
  moreover have "n div 60 div 60 = n div 3600" by (simp add: div_mult2_eq [symmetric])
  ultimately have "n = n div 3600 * 3600 + n div 60 mod 60 * 60 + n mod 60" by linarith
  then have "int n = int (n div 3600) * 3600 + int (n div 60 mod 60) * 60 + int (n mod 60)"
    by (metis (no_types) of_nat_add of_nat_mult of_nat_numeral)
  then show ?thesis by simp
qed

lemma show_nat_Suc: "\<exists>j. length (show_nat n) = Suc j"
  using hd_show_nat [of n] by (cases "show_nat n") auto

lemma parse_components_String:
  assumes "int n * 1000000000 < 2 ^ 63"
  shows "parse_components (length (duration_String n)) orig 0 (duration_String n) = Inr (int n * 1000000000)"
proof -
  define H M S where "H = n div 3600" and "M = n div 60 mod 60" and "S = n mod 60"
  have b: "M < 60" "S < 60" by (simp_all add: M_def S_def)
  have val: "int n * 1000000000 = int H * 3600000000000 + int M * 60000000000 + int S * 1000000000"
    unfolding H_def M_def S_def by (rule hms)
  obtain h m s where l: "length (show_nat H) = Suc h" "length (show_nat M) = Suc m" "length (show_nat S) = Suc s"
    using show_nat_Suc by meson
  consider "H > 0" | "H = 0" "n div 60 > 0" | "H = 0" "n div 60 = 0" by linarith
  then show ?thesis
  proof cases
    case 1
    then have "duration_String n = show_nat H @ ''h'' @ show_nat M @ ''m'' @ show_nat S @ ''s''"
      by (auto simp: duration_String_def H_def M_def S_def Let_def)
    then show ?thesis using parse_components_hour [OF b, of H "Suc (Suc (Suc (h + (m + s))))" orig] val assms l by (simp add: ac_simps)
  next
    case 2
    then have "duration_String n = show_nat M @ ''m'' @ show_nat S @ ''s''"
      by (auto simp: duration_String_def H_def M_def S_def Let_def)
    then show ?thesis using parse_components_min [OF b, of 0 "Suc (Suc (m + s))" orig] val assms l 2 by (simp add: ac_simps)
  next
    case 3
    then have d: "duration_String n = show_nat S @ ''s''" and "M = 0"
      by (auto simp: duration_String_def H_def M_def S_def Let_def)
    then show ?thesis using parse_components_sec [OF b(2), of 0 "Suc s" orig] val assms l 3 by simp
  qed
qed

lemma duration_String_head: "duration_String n \<noteq> [] \<and> is_digit (hd (duration_String n)) \<and> duration_String n \<noteq> ''0''"
proof -
  have "last (duration_String n) = CHR ''s''" by (simp add: duration_String_def Let_def)
  then have "duration_String n \<noteq> ''0''" by auto
  moreover have "is_digit (hd (duration_String n))"
    using hd_show_nat by (simp add: duration_String_def Let_def hd_append)
  ultimately show ?thesis by (simp add: duration_String_def Let_def)
qed

lemma ParseDuration_String:
  assumes "int n * 1000000000 < 2 ^ 63"
  shows "ParseDuration (duration_String n) = Inr (int n * 1000000000)"
proof -
  let ?s = "duration_String n"
  have sign: "\<not> is_digit CHR ''-''" "\<not> is_digit CHR ''+''" by code_simp+
  have h: "?s \<noteq> []" "hd ?s \<noteq> CHR ''-''" "hd ?s \<notin> {CHR ''-'', CHR ''+''}" "?s \<noteq> ''0''"
    using duration_String_head [of n] sign by auto
  show ?thesis
    using h assms parse_components_String [OF assms, of ?s] by (simp add: ParseDuration_def)
qed

lemma leadingInt_range: "leadingInt x s = Some (y, r) \<Longrightarrow> 0 \<le> x \<Longrightarrow> 0 \<le> y"
  by (induction x s rule: leadingInt.induct) (auto simp: Let_def split: if_splits)

lemma leadingFraction_range: "leadingFraction x sc b s = (y, sc', r) \<Longrightarrow> 0 \<le> x \<Longrightarrow> 0 < sc \<Longrightarrow> 0 \<le> y \<and> 0 < sc'"
  by (induction x sc b s rule: leadingFraction.induct) (auto simp: Let_def split: if_splits)

lemma round64_fin_nonneg: "round64 x = Fin r \<Longrightarrow> 0 \<le> x \<Longrightarrow> 0 \<le> r"
  using round64_finite [of x r] round_rat_mono [of 0 x] round_rat_int [of 0] by simp

lemma f_mul_fin_nonneg:
  assumes "f_mul a b = Fin x" and "\<And>r. a = Fin r \<Longrightarrow> 0 \<le> r" and "\<And>r. b = Fin r \<Longrightarrow> 0 \<le> r"
  shows "0 \<le> x"
  using assms by (cases a; cases b) (auto dest: round64_fin_nonneg split: if_splits)

lemma f_div_fin_nonneg:
  assumes "f_div a b = Fin x" and "\<And>r. a = Fin r \<Longrightarrow> 0 \<le> r" and "\<And>r. b = Fin r \<Longrightarrow> 0 \<le> r"
  shows "0 \<le> x"
  using assms by (cases a; cases b) (auto dest: round64_fin_nonneg split: if_splits)

lemma f_of_int_fin_nonneg: "f_of_int n = Fin r \<Longrightarrow> 0 \<le> n \<Longrightarrow> 0 \<le> r"
  unfolding f_of_int_def by (erule round64_fin_nonneg) simp

lemma fraction_nanos_nonneg:
  assumes "0 \<le> f" and "0 < scale" and "0 < unit"
  shows "0 \<le> fraction_nanos f scale unit"
proof (cases "f_mul (f_of_int f) (f_div (f_of_int unit) (f_of_int scale))")
  case (Fin x)
  have "0 \<le> r" if "f_div (f_of_int unit) (f_of_int scale) = Fin r" for r
    using that by (rule f_div_fin_nonneg) (use assms f_of_int_fin_nonneg in auto)
  then have "0 \<le> x" using f_mul_fin_nonneg [OF Fin] f_of_int_fin_nonneg assms(1) by blast
  then show ?thesis by (simp add: fraction_nanos_def Fin rat_trunc_def)
qed (simp_all add: fraction_nanos_def)

lemma unitMap_pos: "unitMap u = Some unit \<Longrightarrow> 0 < unit"
  by (auto simp: unitMap_def split: if_splits)

lemma parse_component_range:
  assumes "parse_component orig s = Inr (v, rest)"
  shows "0 \<le> v"
proof -
  obtain n s1 where s1: "leadingInt 0 s = Some (n, s1)"
    using assms by (auto simp: parse_component_def split: if_splits option.splits)
  obtain f scale s2 where s2: "(if s1 \<noteq> [] \<and> hd s1 = CHR ''.'' then leadingFraction 0 1 False (tl s1) else (0, 1, s1)) = (f, scale, s2)"
    by (cases "if s1 \<noteq> [] \<and> hd s1 = CHR ''.'' then leadingFraction 0 1 False (tl s1) else (0, 1, s1)") auto
  obtain unit where unit: "unitMap (takeWhile unit_char s2) = Some unit"
      and v: "v = n * unit + (if f > 0 then fraction_nanos f scale unit else 0)"
    using assms s1 s2 by (auto simp: parse_component_def Let_def split: if_splits option.splits)
  have "0 \<le> n" using leadingInt_range [OF s1] by simp
  moreover have "0 \<le> f \<and> 0 < scale" using s2 leadingFraction_range [of 0 1 False "tl s1" f scale s2] by (auto split: if_splits)
  ultimately show ?thesis using v unitMap_pos [OF unit] fraction_nanos_nonneg by simp
qed

lemma parse_components_range:
  "parse_components n orig d s = Inr v \<Longrightarrow> 0 \<le> d \<Longrightarrow> d \<le> 2 ^ 63 \<Longrightarrow> 0 \<le> v \<and> v \<le> 2 ^ 63"
proof (induction n orig d s rule: parse_components.induct)
  case (3 n orig d c s)
  then obtain x rest where p: "parse_component orig (c # s) = Inr (x, rest)" and le: "\<not> d + x > 2 ^ 63"
      and v: "parse_components n orig (d + x) rest = Inr v"
    by (auto split: sum.splits if_splits)
  have "0 \<le> x" by (rule parse_component_range [OF p])
  then show ?case using 3(1) [OF p refl le v] 3(3) le by simp
qed auto

lemma ParseDuration_range: "ParseDuration s = Inr d \<Longrightarrow> in_int64 d"
proof -
  assume run: "ParseDuration s = Inr d"
  have range: "0 \<le> v \<and> v \<le> 2 ^ 63" if "parse_components n s 0 t = Inr v" for n t v
    using parse_components_range [OF that] by simp
  show ?thesis
    using run by (auto simp: ParseDuration_def Let_def in_int64_def split: if_splits sum.splits dest!: range)
qed

lemma ParseDuration_total: "ParseDuration s \<noteq> Inl Diverges"
proof -
  have "parse_components (length t) s 0 t \<noteq> Inl Diverges" for t by (rule parse_components_fuel) simp
  then show ?thesis
    unfolding ParseDuration_def Let_def
    by (auto simp: invalid_duration_def simp del: length_tl split: sum.split)
qed



text \<open>The exported wrapper, in which an empty text means no limit.\<close>

definition config_ParseThroughputLimitMbps :: "(float64 \<Rightarrow> int) \<Rightarrow> string \<Rightarrow> error + int" where
  "config_ParseThroughputLimitMbps unrep val = (if TrimSpace val = [] then Inr 0 else ParseThroughputLimitMbps unrep val)"

lemma bind_err_Inr [simp]: "bind_err m k = Inr y \<longleftrightarrow> (\<exists>x. m = Inr x \<and> k x = Inr y)"
  by (cases m) (simp_all add: bind_err_def)

lemma envDuration_range: "envDuration env key n = Inr d \<Longrightarrow> in_int64 d"
  by (auto simp: envDuration_def split: sum.splits dest: ParseDuration_range)

lemma envDuration_default: "env key = [] \<Longrightarrow> int n * 1000000000 < 2 ^ 63 \<Longrightarrow> envDuration env key n = Inr (int n * 1000000000)"
  by (simp add: envDuration_def env_or_def ParseDuration_String)

lemma setting_env_depth: "setting_env env ParseMaxIncrementalChainDepth name v = Inr (n, over) \<Longrightarrow> 0 \<le> n"
  by (auto simp: setting_env_def ParseMaxIncrementalChainDepth_def Let_def split: sum.splits option.splits if_splits)

text \<open>
  C1. What the configuration promises to the schedulers: if it loads, the validation limit is positive, the chain depth is not negative,
  all intervals are durations of 64 bits and the encryption passphrase is the trimmed variable.
\<close>

theorem config_Load_bounds:
  assumes "config_Load unrep env = Inr c"
  shows "0 < ValidationLimit c \<and> 0 \<le> cf_MaxIncrementalChainDepth c \<and>
    list_all in_int64 [CatalogBackupInterval c, CleanupWorkerInterval c, ReconcileStaleAfter c, AbandonedUploadCleanupAfter c,
      ValidationInterval c, ShutdownGracePeriod c] \<and>
    StorageEncryptionPassphrase c = TrimSpace (env ''STORAGE_ENCRYPTION_KEY'')"
proof -
  have "0 < ValidationLimit c"
    and "\<exists>n over. setting_env env ParseMaxIncrementalChainDepth (environmentVariable MaxIncrementalChainDepthKey)
      (defaultValue MaxIncrementalChainDepthKey) = Inr (n, over) \<and> cf_MaxIncrementalChainDepth c = n"
    and "list_all (\<lambda>d. \<exists>key n. envDuration env key n = Inr d) [CatalogBackupInterval c, CleanupWorkerInterval c,
      ReconcileStaleAfter c, AbandonedUploadCleanupAfter c, ValidationInterval c, ShutdownGracePeriod c]"
    and "StorageEncryptionPassphrase c = TrimSpace (env_or env ''STORAGE_ENCRYPTION_KEY'' [])"
    using assms unfolding config_Load_def Let_def parseStorageEncryptionPassphrase_def
    by (clarsimp split: if_split_asm; blast?)+
  moreover have "env_or env ''STORAGE_ENCRYPTION_KEY'' [] = env ''STORAGE_ENCRYPTION_KEY''" by (simp add: env_or_def)
  ultimately show ?thesis using setting_env_depth envDuration_range by auto
qed

lemma empty_environment:
  "\<exists>c. config_Load (\<lambda>_. 0) (\<lambda>_. []) = Inr c \<and> ValidationLimit c = 25 \<and> CleanupWorkerInterval c = 30000000000"
proof -
  have trim: "TrimSpace [] = []" by code_simp
  show ?thesis
    by (simp add: config_Load_def setting_env_def nonEmptyEnv_def trim defaultValue_def default_rate default_depth envInt64_def
        envDuration_default Let_def bind_err_def)
qed

theorem config_Load_bounds_witness:
  "\<exists>c. config_Load (\<lambda>_. 0) (\<lambda>_. []) = Inr c \<and> 0 < ValidationLimit c \<and> 0 \<le> cf_MaxIncrementalChainDepth c"
proof -
  obtain c where c: "config_Load (\<lambda>_. 0) (\<lambda>_. []) = Inr c" using empty_environment by blast
  show ?thesis using c config_Load_bounds [OF c] by blast
qed

end
