(* ===== verification/Go_Encoding.thy ===== *)
theory Go_Encoding
  imports Go_Strings
begin

text \<open>
  The parts of Go's standard library that encode: bytes as characters, fixed-width integers in
  either byte order (\<open>encoding/binary\<close>) and standard base64 (\<open>encoding/base64\<close>), with
  their round trips.
\<close>

section \<open>Bytes and characters\<close>

type_synonym u64 = "64 word"
type_synonym u32 = "32 word"

definition char_of_byte :: "byte \<Rightarrow> char" where
  "char_of_byte b = char_of (unat b)"

definition byte_of_char :: "char \<Rightarrow> byte" where
  "byte_of_char c = of_nat (of_char c)"

lemma char_of_byte_of_char [simp]: "char_of_byte (byte_of_char c) = c"
  by (simp add: char_of_byte_def byte_of_char_def unat_of_nat)

lemma byte_of_char_of_byte [simp]: "byte_of_char (char_of_byte b) = b"
proof -
  have "unat b < 256" using unsigned_less [of b, where 'a = nat] by simp
  then show ?thesis by (simp add: char_of_byte_def byte_of_char_def)
qed

definition go_bytes :: "string \<Rightarrow> bytes" where
  "go_bytes s = map byte_of_char s"

definition go_string :: "bytes \<Rightarrow> string" where
  "go_string bs = map char_of_byte bs"

lemma go_string_bytes [simp]: "go_string (go_bytes s) = s"
  by (simp add: go_string_def go_bytes_def o_def)

lemma go_bytes_string [simp]: "go_bytes (go_string bs) = bs"
  by (simp add: go_string_def go_bytes_def o_def)

section \<open>Byte orders\<close>

text \<open>\<open>encoding/binary\<close>: fixed-width unsigned integers in either byte order.\<close>

datatype ByteOrder = LittleEndian | BigEndian

fun le_nat :: "bytes \<Rightarrow> nat" where
  "le_nat [] = 0"
| "le_nat (b # bs) = unat b + 256 * le_nat bs"

definition order_nat :: "ByteOrder \<Rightarrow> bytes \<Rightarrow> nat" where
  "order_nat order bs = (case order of LittleEndian \<Rightarrow> le_nat bs | BigEndian \<Rightarrow> le_nat (rev bs))"

definition order_Uint32 :: "ByteOrder \<Rightarrow> bytes \<Rightarrow> u32" where
  "order_Uint32 order bs = of_nat (order_nat order bs)"

definition order_Uint64 :: "ByteOrder \<Rightarrow> bytes \<Rightarrow> u64" where
  "order_Uint64 order bs = of_nat (order_nat order bs)"

text \<open>The Go slice \<open>xs[i:j]\<close> of a long enough \<open>xs\<close>.\<close>

definition go_slice :: "nat \<Rightarrow> nat \<Rightarrow> 'a list \<Rightarrow> 'a list" where
  "go_slice i j xs = take (j - i) (drop i xs)"

text \<open>The inverse of the readers: \<open>PutUint32\<close> and \<open>PutUint64\<close>.\<close>

fun le_bytes :: "nat \<Rightarrow> nat \<Rightarrow> bytes" where
  "le_bytes 0 n = []"
| "le_bytes (Suc k) n = word_of_nat (n mod 256) # le_bytes k (n div 256)"

definition order_bytes :: "ByteOrder \<Rightarrow> nat \<Rightarrow> nat \<Rightarrow> bytes" where
  "order_bytes order k n =
     (case order of LittleEndian \<Rightarrow> le_bytes k n | BigEndian \<Rightarrow> rev (le_bytes k n))"

lemma length_le_bytes [simp]: "length (le_bytes k n) = k"
  by (induction k arbitrary: n) auto

lemma length_order_bytes [simp]: "length (order_bytes order k n) = k"
  by (cases order) (simp_all add: order_bytes_def)

lemma le_bytes_numeral:
  "le_bytes (numeral k) n = word_of_nat (n mod 256) # le_bytes (pred_numeral k) (n div 256)"
  by (subst numeral_eq_Suc [of k]) (rule le_bytes.simps(2))

lemma le_nat_le_bytes: "n < 256 ^ k \<Longrightarrow> le_nat (le_bytes k n) = n"
proof (induction k arbitrary: n)
  case (Suc k)
  then have "n div 256 < 256 ^ k" by (simp add: less_mult_imp_div_less mult.commute)
  with Suc.IH have "le_nat (le_bytes k (n div 256)) = n div 256" .
  moreover have "unat (word_of_nat (n mod 256) :: byte) = n mod 256" by (simp add: unat_of_nat)
  ultimately show ?case by simp
qed simp

lemma order_nat_order_bytes: "n < 256 ^ k \<Longrightarrow> order_nat order (order_bytes order k n) = n"
  by (cases order) (simp_all add: order_nat_def order_bytes_def le_nat_le_bytes)

lemma order_Uint64_bytes [simp]: "order_Uint64 order (order_bytes order 8 (unat (w :: u64))) = w"
proof -
  have "unat w < 256 ^ 8" using unsigned_less [of w, where 'a = nat] by simp
  then show ?thesis by (simp add: order_Uint64_def order_nat_order_bytes)
qed

lemma order_Uint32_bytes [simp]: "order_Uint32 order (order_bytes order 4 (unat (w :: u32))) = w"
proof -
  have "unat w < 256 ^ 4" using unsigned_less [of w, where 'a = nat] by simp
  then show ?thesis by (simp add: order_Uint32_def order_nat_order_bytes)
qed

lemma le_bytes_le_nat: "le_bytes (length bs) (le_nat bs) = bs"
proof (induction bs)
  case (Cons b bs)
  have "unat b < 256" using unsigned_less [of b, where 'a = nat] by simp
  then show ?case using Cons by simp
qed simp

lemma le_nat_bound: "le_nat bs < 256 ^ length bs"
proof (induction bs)
  case (Cons b bs)
  have "unat b < 256" using unsigned_less [of b, where 'a = nat] by simp
  then show ?case using Cons by simp
qed simp

lemma order_bytes_Uint32: "length bs = 4 \<Longrightarrow> order_bytes order 4 (unat (order_Uint32 order bs)) = bs"
proof -
  assume len: "length bs = 4"
  have "order_nat order bs < 256 ^ 4"
    using le_nat_bound [of bs] le_nat_bound [of "rev bs"] len
    by (cases order) (simp_all add: order_nat_def)
  then have "unat (order_Uint32 order bs) = order_nat order bs"
    by (simp add: order_Uint32_def unat_of_nat)
  then show ?thesis
    using le_bytes_le_nat [of bs] le_bytes_le_nat [of "rev bs"] len
    by (cases order) (simp_all add: order_nat_def order_bytes_def)
qed

section \<open>Base64\<close>

definition b64_alphabet :: string where
  "b64_alphabet = ''ABCDEFGHIJKLMNOPQRSTUVWXYZabcdefghijklmnopqrstuvwxyz0123456789+/''"

definition b64_char :: "nat \<Rightarrow> char" where
  "b64_char n = b64_alphabet ! n"

fun index_of :: "'a \<Rightarrow> 'a list \<Rightarrow> nat option" where
  "index_of x [] = None"
| "index_of x (y # ys) = (if x = y then Some 0 else map_option Suc (index_of x ys))"

definition b64_val :: "char \<Rightarrow> nat option" where
  "b64_val c = index_of c b64_alphabet"

fun base64_groups :: "nat list \<Rightarrow> string" where
  "base64_groups (a # b # c # r) =
     b64_char (a div 4) # b64_char (a mod 4 * 16 + b div 16) #
     b64_char (b mod 16 * 4 + c div 64) # b64_char (c mod 64) # base64_groups r"
| "base64_groups [a, b] =
     [b64_char (a div 4), b64_char (a mod 4 * 16 + b div 16), b64_char (b mod 16 * 4), CHR ''='']"
| "base64_groups [a] = [b64_char (a div 4), b64_char (a mod 4 * 16), CHR ''='', CHR ''='']"
| "base64_groups [] = []"

definition base64_EncodeToString :: "bytes \<Rightarrow> string" where
  "base64_EncodeToString bs = base64_groups (map unat bs)"

text \<open>
  The decoder: carriage returns and line feeds are skipped, padding may only end the input, and
  the unused low bits of a padded group are ignored. \<open>None\<close> is a \<open>CorruptInputError\<close>.
\<close>

fun base64_ungroup :: "string \<Rightarrow> nat list option" where
  "base64_ungroup [] = Some []"
| "base64_ungroup (p # q # x # y # r) =
     (case (b64_val p, b64_val q) of
        (Some i, Some j) \<Rightarrow>
          (if x = CHR ''='' then
             if y = CHR ''='' \<and> r = [] then Some [i * 4 + j div 16] else None
           else case b64_val x of
             None \<Rightarrow> None
           | Some k \<Rightarrow>
               if y = CHR ''='' then
                 if r = [] then Some [i * 4 + j div 16, j mod 16 * 16 + k div 4] else None
               else case (b64_val y, base64_ungroup r) of
                 (Some l, Some ns) \<Rightarrow>
                   Some ((i * 4 + j div 16) # (j mod 16 * 16 + k div 4) # (k mod 4 * 64 + l) # ns)
               | _ \<Rightarrow> None)
      | _ \<Rightarrow> None)"
| "base64_ungroup _ = None"

definition base64_DecodeString :: "string \<Rightarrow> bytes option" where
  "base64_DecodeString s =
     map_option (map word_of_nat) (base64_ungroup (filter (\<lambda>c. c \<noteq> CHR 0x0A \<and> c \<noteq> CHR 0x0D) s))"

lemma b64_alphabet_ok:
  "list_all (\<lambda>n. b64_val (b64_char n) = Some n \<and>
     b64_char n \<notin> {CHR ''='', CHR 0x0A, CHR 0x0D}) [0..<64]"
  by code_simp

lemma b64_char_ok:
  assumes "n < 64"
  shows "b64_val (b64_char n) = Some n" and "b64_char n \<noteq> CHR ''=''"
    and "b64_char n \<noteq> CHR 0x0A" and "b64_char n \<noteq> CHR 0x0D"
  using b64_alphabet_ok assms by (auto simp: list_all_iff)

lemma base64_sextets:
  fixes a b c :: nat
  shows "a < 256 \<Longrightarrow> a div 4 < 64" and "b < 256 \<Longrightarrow> a mod 4 * 16 + b div 16 < 64"
    and "c < 256 \<Longrightarrow> b mod 16 * 4 + c div 64 < 64"
    and "a mod 4 * 16 < 64" and "b mod 16 * 4 < 64"
  by linarith+

lemma base64_octets:
  fixes b c :: nat
  shows "b < 256 \<Longrightarrow> b div 16 div 16 = 0"
    and "b < 256 \<Longrightarrow> c < 256 \<Longrightarrow> b div 16 mod 16 * 16 + (b mod 16 + c div 64 div 4) = b"
    and "c < 256 \<Longrightarrow> c div 64 mod 4 * 64 + c mod 64 = c"
    and "b < 256 \<Longrightarrow> b div 16 mod 16 * 16 + b mod 16 = b"
  by simp_all

lemma base64_ungroup_groups:
  "(\<forall>n \<in> set ns. n < 256) \<Longrightarrow> base64_ungroup (base64_groups ns) = Some ns"
  by (induction ns rule: base64_groups.induct) (simp_all add: b64_char_ok base64_sextets base64_octets)

lemma base64_groups_no_newline:
  "(\<forall>n \<in> set ns. n < 256) \<Longrightarrow>
     filter (\<lambda>c. c \<noteq> CHR 0x0A \<and> c \<noteq> CHR 0x0D) (base64_groups ns) = base64_groups ns"
  by (induction ns rule: base64_groups.induct) (simp_all add: b64_char_ok base64_sextets base64_octets)

lemma base64_Decode_Encode [simp]: "base64_DecodeString (base64_EncodeToString bs) = Some bs"
proof -
  have "\<forall>n \<in> set (map unat bs). n < 256"
    using unsigned_less [where 'a = nat and 'b = 8] by auto
  then show ?thesis
    by (simp add: base64_DecodeString_def base64_EncodeToString_def base64_groups_no_newline
        base64_ungroup_groups map_idI)
qed

end
