(* ===== verification/Encrypted_Store.thy ===== *)
theory Encrypted_Store
  imports Go_Encoding Object_Store
begin

text \<open>
  The encrypting wrapper of a store (\<open>src/internal/storage/encrypted.go\<close>): the envelope
  format, the key cache, and the five operations. The AEAD, the key derivation and the JSON
  codec of the envelope header are the fields of a record \<open>crypto\<close>, with the laws
  \<open>crypto_laws\<close>. The wrapper meets the store contract of the store it wraps.
\<close>

section \<open>Definitions\<close>

definition encryptedObjectMagic :: bytes where
  "encryptedObjectMagic = go_bytes ''ZS3ENC1'' @ [10]"

definition encryptionEnvelopeVersion :: int where
  "encryptionEnvelopeVersion = 1"

definition encryptionAlgorithm :: string where
  "encryptionAlgorithm = ''XChaCha20-Poly1305''"

definition encryptionKDF :: string where
  "encryptionKDF = ''argon2id''"

definition encryptionSalt :: string where
  "encryptionSalt = ''zfs-s3nd/storage-encryption/v1''"

definition encryptionTime :: u32 where
  "encryptionTime = 3"

definition encryptionMemoryKiB :: u32 where
  "encryptionMemoryKiB = 64 * 1024"

definition encryptionParallelism :: byte where
  "encryptionParallelism = 4"

text \<open>Sizes of \<open>golang.org/x/crypto/chacha20poly1305\<close>.\<close>

definition NonceSizeX :: nat where
  "NonceSizeX = 24"

definition KeySize :: nat where
  "KeySize = 32"

record objectEnvelope =
  oe_Version :: int
  oe_Algorithm :: string
  oe_KDF :: string
  oe_Salt :: string
  oe_Time :: u32
  oe_MemoryKiB :: u32
  oe_Parallelism :: byte
  oe_Nonce :: string

record crypto =
  env_Marshal :: "objectEnvelope \<Rightarrow> error + bytes"
  env_Unmarshal :: "bytes \<Rightarrow> error + objectEnvelope"
  IDKey :: "string \<Rightarrow> string \<Rightarrow> u32 \<Rightarrow> u32 \<Rightarrow> byte \<Rightarrow> nat \<Rightarrow> bytes"
  NewX :: "bytes \<Rightarrow> error option"
  Seal :: "bytes \<Rightarrow> bytes \<Rightarrow> bytes \<Rightarrow> bytes \<Rightarrow> bytes"
  Open :: "bytes \<Rightarrow> bytes \<Rightarrow> bytes \<Rightarrow> bytes \<Rightarrow> error + bytes"

text \<open>\<open>es_rand\<close> is the sequence of results of \<open>rand.Read\<close>, \<open>es_draws\<close> how many were taken.\<close>

record 's EncryptedStore =
  es_base :: 's
  passphrase :: string
  keyCache :: "string \<rightharpoonup> bytes"
  es_rand :: "nat \<Rightarrow> error + bytes"
  es_draws :: nat

definition NewEncryptedStore ::
  "'s option \<Rightarrow> string \<Rightarrow> (nat \<Rightarrow> error + bytes) \<Rightarrow> error + 's EncryptedStore" where
  "NewEncryptedStore base pass rand =
     (case base of
        None \<Rightarrow> Inl (Errorf (msg ''base store is required'') [])
      | Some b \<Rightarrow>
          if pass = [] then Inl (Errorf (msg ''storage encryption passphrase is required'') [])
          else Inr \<lparr>es_base = b, passphrase = pass, keyCache = Map.empty, es_rand = rand, es_draws = 0\<rparr>)"

definition encodeEncryptedObject :: "bytes \<Rightarrow> bytes \<Rightarrow> bytes" where
  "encodeEncryptedObject header ciphertext =
     encryptedObjectMagic @ order_bytes BigEndian 4 (unat (word_of_nat (length header) :: u32)) @
     header @ ciphertext"

definition decodeEncryptedObject :: "bytes \<Rightarrow> error + bytes \<times> bytes" where
  "decodeEncryptedObject data =
     (let offset = length encryptedObjectMagic in
      if length data < offset + 4 then Inl (Errorf (msg ''encrypted envelope is truncated'') [])
      else
        let headerLen = unat (order_Uint32 BigEndian (go_slice offset (offset + 4) data));
            offset = offset + 4 in
        if headerLen \<le> 0 \<or> length data < offset + headerLen
        then Inl (Errorf (msg ''encrypted envelope header is truncated'') [])
        else Inr (go_slice offset (offset + headerLen) data, drop (offset + headerLen) data))"

definition isPlaintextMetadataKey :: "string \<Rightarrow> bool" where
  "isPlaintextMetadataKey key \<longleftrightarrow> path_Base key = ''manifest.json''"

definition cacheKey :: "objectEnvelope \<Rightarrow> string" where
  "cacheKey header =
     oe_Salt header @ CHR ''/'' # show_nat (unat (oe_Time header)) @
     CHR ''/'' # show_nat (unat (oe_MemoryKiB header)) @
     CHR ''/'' # show_nat (unat (oe_Parallelism header))"

text \<open>
  \<open>aeadFor\<close> returns the key that determines the AEAD value. An absent cache entry and an
  empty key both read as \<open>nil\<close> after the \<open>append\<close>.
\<close>

definition aeadFor ::
  "crypto \<Rightarrow> objectEnvelope \<Rightarrow> 's EncryptedStore \<Rightarrow> (error + bytes) \<times> 's EncryptedStore" where
  "aeadFor C header es =
     (if oe_Version header \<noteq> encryptionEnvelopeVersion
      then (Inl (Errorf (msg ''unsupported encryption envelope version %d'')
                   [show_int (oe_Version header)]), es)
      else if oe_Algorithm header \<noteq> encryptionAlgorithm
      then (Inl (Errorf (msg ''unsupported encryption algorithm %q'') [oe_Algorithm header]), es)
      else if oe_KDF header \<noteq> encryptionKDF
      then (Inl (Errorf (msg ''unsupported encryption kdf %q'') [oe_KDF header]), es)
      else if oe_Time header = 0 \<or> oe_MemoryKiB header = 0 \<or> oe_Parallelism header = 0
      then (Inl (Errorf (msg ''invalid encryption kdf parameters'') []), es)
      else
        let cached = (case keyCache es (cacheKey header) of None \<Rightarrow> [] | Some k \<Rightarrow> k);
            key = (if cached = []
                   then IDKey C (passphrase es) (oe_Salt header) (oe_Time header)
                          (oe_MemoryKiB header) (oe_Parallelism header) KeySize
                   else cached);
            es' = (if cached = [] then es\<lparr>keyCache := (keyCache es)(cacheKey header \<mapsto> key)\<rparr> else es) in
        case NewX C key of
          Some e \<Rightarrow> (Inl (Wrapf (msg ''create XChaCha20-Poly1305 cipher: %w'') [] e), es')
        | None \<Rightarrow> (Inr key, es'))"

definition decryptObject ::
  "crypto \<Rightarrow> string \<Rightarrow> bytes \<Rightarrow> 's EncryptedStore \<Rightarrow> (error + bytes) \<times> 's EncryptedStore" where
  "decryptObject C key data es =
     (if take (length encryptedObjectMagic) data \<noteq> encryptedObjectMagic
      then (Inl (Errorf (msg ''object %s is not encrypted'') [key]), es)
      else case decodeEncryptedObject data of
        Inl e \<Rightarrow> (Inl (Wrapf (msg ''decrypt object %s: %w'') [key] e), es)
      | Inr (headerBytes, ciphertext) \<Rightarrow>
          (case env_Unmarshal C headerBytes of
             Inl e \<Rightarrow> (Inl (Wrapf (msg ''decrypt object %s: parse envelope: %w'') [key] e), es)
           | Inr header \<Rightarrow>
               (case base64_DecodeString (oe_Nonce header) of
                  None \<Rightarrow> (Inl (Wrapf (msg ''decrypt object %s: parse nonce: %w'') [key]
                                 (Errorf (msg ''illegal base64 data'') [])), es)
                | Some nonce \<Rightarrow>
                    (case aeadFor C header es of
                       (Inl e, es') \<Rightarrow> (Inl (Wrapf (msg ''decrypt object %s: %w'') [key] e), es')
                     | (Inr aead, es') \<Rightarrow>
                         if length nonce \<noteq> NonceSizeX
                         then (Inl (Panic (msg ''chacha20poly1305: bad nonce length passed to Open'')), es')
                         else case Open C aead nonce ciphertext headerBytes of
                           Inl e \<Rightarrow> (Inl (Wrapf (msg ''decrypt object %s: %w'') [key] e), es')
                         | Inr plaintext \<Rightarrow> (Inr plaintext, es')))))"

definition on_es_base :: "('s \<Rightarrow> 'r \<times> 's) \<Rightarrow> 's EncryptedStore \<Rightarrow> 'r \<times> 's EncryptedStore" where
  "on_es_base f es = (case f (es_base es) of (r, b) \<Rightarrow> (r, es\<lparr>es_base := b\<rparr>))"

text \<open>The header \<open>PutBytes\<close> builds around a nonce.\<close>

definition put_header :: "bytes \<Rightarrow> objectEnvelope" where
  "put_header nonce =
     \<lparr>oe_Version = encryptionEnvelopeVersion, oe_Algorithm = encryptionAlgorithm,
      oe_KDF = encryptionKDF, oe_Salt = encryptionSalt, oe_Time = encryptionTime,
      oe_MemoryKiB = encryptionMemoryKiB, oe_Parallelism = encryptionParallelism,
      oe_Nonce = base64_EncodeToString nonce\<rparr>"

definition EncryptedStore_PutBytes ::
  "crypto \<Rightarrow> (bytes \<Rightarrow> bytes) \<Rightarrow> 's Store \<Rightarrow> string \<Rightarrow> bytes \<Rightarrow> 's EncryptedStore \<Rightarrow>
   (error + ObjectInfo) \<times> 's EncryptedStore" where
  "EncryptedStore_PutBytes C sha B key data es =
     (if isPlaintextMetadataKey key then on_es_base (PutBytes B key data) es
      else
        let drawn = es_rand es (es_draws es); es = es\<lparr>es_draws := es_draws es + 1\<rparr> in
        case drawn of
          Inl e \<Rightarrow> (Inl (Wrapf (msg ''generate object nonce: %w'') [] e), es)
        | Inr nonce \<Rightarrow>
            (case env_Marshal C (put_header nonce) of
               Inl e \<Rightarrow> (Inl (Wrapf (msg ''marshal encryption envelope: %w'') [] e), es)
             | Inr headerBytes \<Rightarrow>
                 (case aeadFor C (put_header nonce) es of
                    (Inl e, es') \<Rightarrow> (Inl e, es')
                  | (Inr aead, es') \<Rightarrow>
                      let ciphertext = Seal C aead nonce data headerBytes;
                          envelope = encodeEncryptedObject headerBytes ciphertext in
                      (case on_es_base (PutBytes B key envelope) es' of
                         (Inl e, es'') \<Rightarrow> (Inl e, es'')
                       | (Inr _, es'') \<Rightarrow>
                           (Inr \<lparr>oi_Key = key, oi_Size = int (length data),
                                 oi_SHA256 = sha_hex sha data, oi_ETag = []\<rparr>, es'')))))"

definition EncryptedStore_GetBytes ::
  "crypto \<Rightarrow> 's Store \<Rightarrow> string \<Rightarrow> 's EncryptedStore \<Rightarrow> (error + bytes) \<times> 's EncryptedStore" where
  "EncryptedStore_GetBytes C B key es =
     (case on_es_base (GetBytes B key) es of
        (Inl e, es') \<Rightarrow> (Inl e, es')
      | (Inr data, es') \<Rightarrow>
          if isPlaintextMetadataKey key then (Inr data, es') else decryptObject C key data es')"

definition EncryptedStore_GetReader ::
  "crypto \<Rightarrow> 's Store \<Rightarrow> string \<Rightarrow> 's EncryptedStore \<Rightarrow> (error + ReadCloser) \<times> 's EncryptedStore" where
  "EncryptedStore_GetReader C B key es =
     (case EncryptedStore_GetBytes C B key es of
        (Inl e, es') \<Rightarrow> (Inl e, es')
      | (Inr data, es') \<Rightarrow> (Inr (NopCloser data), es'))"

definition EncryptedStore_Head ::
  "crypto \<Rightarrow> (bytes \<Rightarrow> bytes) \<Rightarrow> 's Store \<Rightarrow> string \<Rightarrow> 's EncryptedStore \<Rightarrow>
   (error + ObjectInfo) \<times> 's EncryptedStore" where
  "EncryptedStore_Head C sha B key es =
     (case EncryptedStore_GetBytes C B key es of
        (Inl e, es') \<Rightarrow> (Inl e, es')
      | (Inr data, es') \<Rightarrow>
          (Inr \<lparr>oi_Key = key, oi_Size = int (length data), oi_SHA256 = sha_hex sha data,
                oi_ETag = []\<rparr>, es'))"

definition EncryptedStore_Delete ::
  "'s Store \<Rightarrow> string \<Rightarrow> 's EncryptedStore \<Rightarrow> (error + unit) \<times> 's EncryptedStore" where
  "EncryptedStore_Delete B key es = on_es_base (Delete B key) es"

definition EncryptedStore ::
  "crypto \<Rightarrow> (bytes \<Rightarrow> bytes) \<Rightarrow> 's Store \<Rightarrow> 's EncryptedStore Store" where
  "EncryptedStore C sha B =
     \<lparr>PutBytes = EncryptedStore_PutBytes C sha B, GetBytes = EncryptedStore_GetBytes C B,
      GetReader = EncryptedStore_GetReader C B, Head = EncryptedStore_Head C sha B,
      Delete = EncryptedStore_Delete B\<rparr>"

section \<open>The envelope\<close>

lemma length_magic [simp]: "length encryptedObjectMagic = 8"
  by (simp add: encryptedObjectMagic_def go_bytes_def)

lemma magic_encode: "take 8 (encodeEncryptedObject h c) = encryptedObjectMagic"
  by (simp add: encodeEncryptedObject_def)

lemma decode_encode:
  assumes "h \<noteq> []" and "length h < 2 ^ 32"
  shows "decodeEncryptedObject (encodeEncryptedObject h c) = Inr (h, c)"
proof -
  let ?w = "word_of_nat (length h) :: u32"
  have w: "unat ?w = length h" using assms(2) by (simp add: unat_of_nat)
  have "go_slice 8 12 (encodeEncryptedObject h c) = order_bytes BigEndian 4 (unat ?w)"
    by (simp add: go_slice_def encodeEncryptedObject_def)
  then have "order_Uint32 BigEndian (go_slice 8 12 (encodeEncryptedObject h c)) = ?w"
    by (simp only: order_Uint32_bytes)
  then have len: "unat (order_Uint32 BigEndian (go_slice 8 12 (encodeEncryptedObject h c))) = length h"
    using w by simp
  have "length (encodeEncryptedObject h c) = 12 + length h + length c"
    by (simp add: encodeEncryptedObject_def)
  then show ?thesis using len assms(1)
    by (simp add: decodeEncryptedObject_def Let_def) (simp add: go_slice_def encodeEncryptedObject_def)
qed

lemma decode_Inr:
  assumes "decodeEncryptedObject data = Inr (h, c)"
    and "take (length encryptedObjectMagic) data = encryptedObjectMagic"
  shows "data = encodeEncryptedObject h c"
proof -
  let ?l = "take 4 (drop 8 data)"
  let ?n = "unat (order_Uint32 BigEndian ?l)"
  have len: "12 \<le> length data" "12 + ?n \<le> length data"
    and h: "h = take ?n (drop 12 data)" and c: "c = drop ?n (drop 12 data)"
    using assms(1) by (auto simp: decodeEncryptedObject_def Let_def go_slice_def add.commute split: if_splits)
  have "length h = ?n" using h len by simp
  have "length ?l = 4" using len by simp
  then have "order_bytes BigEndian 4 ?n = ?l" by (rule order_bytes_Uint32)
  then have "order_bytes BigEndian 4 (unat (word_of_nat (length h) :: u32)) = ?l"
    using \<open>length h = ?n\<close> by simp
  moreover have "h @ c = drop 12 data" unfolding h c by (rule append_take_drop_id)
  moreover have "data = take 8 data @ take 4 (drop 8 data) @ drop 12 data"
    using append_take_drop_id [of 8 data] append_take_drop_id [of 4 "drop 8 data"]
    unfolding drop_drop by simp
  ultimately show ?thesis using assms(2) unfolding encodeEncryptedObject_def by simp
qed

section \<open>The key cache\<close>

lemma slash_notin_show_nat: "CHR ''/'' \<notin> set (show_nat n)"
  by (rule notin_show_nat) code_simp

lemma last_part_inj:
  assumes "x @ c # p = y @ c # q" and "c \<notin> set p" and "c \<notin> set q"
  shows "x = y \<and> p = q"
  using assms by (auto simp: append_eq_append_conv2 append_eq_Cons_conv Cons_eq_append_conv)

lemma cacheKey_inj:
  assumes "cacheKey g = cacheKey h"
  shows "oe_Salt g = oe_Salt h \<and> oe_Time g = oe_Time h \<and> oe_MemoryKiB g = oe_MemoryKiB h \<and>
    oe_Parallelism g = oe_Parallelism h"
proof -
  let ?s = "\<lambda>n. show_nat n"
  have "(oe_Salt g @ CHR ''/'' # ?s (unat (oe_Time g)) @ CHR ''/'' # ?s (unat (oe_MemoryKiB g))) @
      CHR ''/'' # ?s (unat (oe_Parallelism g)) =
    (oe_Salt h @ CHR ''/'' # ?s (unat (oe_Time h)) @ CHR ''/'' # ?s (unat (oe_MemoryKiB h))) @
      CHR ''/'' # ?s (unat (oe_Parallelism h))"
    using assms by (simp add: cacheKey_def)
  note a = last_part_inj [OF this slash_notin_show_nat slash_notin_show_nat]
  then have "(oe_Salt g @ CHR ''/'' # ?s (unat (oe_Time g))) @ CHR ''/'' # ?s (unat (oe_MemoryKiB g)) =
    (oe_Salt h @ CHR ''/'' # ?s (unat (oe_Time h))) @ CHR ''/'' # ?s (unat (oe_MemoryKiB h))"
    by simp
  note b = last_part_inj [OF this slash_notin_show_nat slash_notin_show_nat]
  then have "oe_Salt g @ CHR ''/'' # ?s (unat (oe_Time g)) = oe_Salt h @ CHR ''/'' # ?s (unat (oe_Time h))"
    by simp
  note c = last_part_inj [OF this slash_notin_show_nat slash_notin_show_nat]
  show ?thesis using a b c by (simp add: word_unat_eq_iff)
qed

text \<open>The store with an empty cache, and the key a header stands for.\<close>

definition uncached :: "string \<Rightarrow> unit EncryptedStore" where
  "uncached pass =
     \<lparr>es_base = (), passphrase = pass, keyCache = Map.empty, es_rand = (\<lambda>_. Inl ErrDriver), es_draws = 0\<rparr>"

definition derived :: "crypto \<Rightarrow> string \<Rightarrow> objectEnvelope \<Rightarrow> bytes" where
  "derived C pass h =
     IDKey C pass (oe_Salt h) (oe_Time h) (oe_MemoryKiB h) (oe_Parallelism h) KeySize"

definition cache_ok :: "crypto \<Rightarrow> 's EncryptedStore \<Rightarrow> bool" where
  "cache_ok C es \<longleftrightarrow>
     (\<forall>h k. keyCache es (cacheKey h) = Some k \<longrightarrow> k = derived C (passphrase es) h)"

definition aead_spec :: "crypto \<Rightarrow> string \<Rightarrow> objectEnvelope \<Rightarrow> error + bytes" where
  "aead_spec C pass h = fst (aeadFor C h (uncached pass))"

definition opened :: "crypto \<Rightarrow> string \<Rightarrow> string \<Rightarrow> bytes \<Rightarrow> error + bytes" where
  "opened C pass key data = fst (decryptObject C key data (uncached pass))"

definition same_but_cache :: "'s EncryptedStore \<Rightarrow> 's EncryptedStore \<Rightarrow> bool" where
  "same_but_cache es es' \<longleftrightarrow> (\<exists>c. es' = es\<lparr>keyCache := c\<rparr>)"

lemma same_but_cacheD:
  assumes "same_but_cache es es'"
  shows "es_base es' = es_base es" and "passphrase es' = passphrase es"
    and "es_rand es' = es_rand es" and "es_draws es' = es_draws es"
  using assms by (auto simp: same_but_cache_def)

lemma same_but_cache_refl [simp]: "same_but_cache es es"
  unfolding same_but_cache_def by (rule exI [of _ "keyCache es"]) simp

lemma cached_derived:
  assumes "cache_ok C es"
  shows "(let cached = (case keyCache es (cacheKey h) of None \<Rightarrow> [] | Some k \<Rightarrow> k)
          in if cached = [] then derived C (passphrase es) h else cached) = derived C (passphrase es) h"
  using assms by (auto simp: cache_ok_def Let_def split: option.splits)

lemma derived_cong: "cacheKey g = cacheKey h \<Longrightarrow> derived C pass g = derived C pass h"
  by (drule cacheKey_inj) (simp add: derived_def)

lemma cache_ok_insert:
  assumes "cache_ok C es"
  shows "cache_ok C (es\<lparr>keyCache := (keyCache es)(cacheKey h \<mapsto> derived C (passphrase es) h)\<rparr>)"
  unfolding cache_ok_def
proof (intro allI impI)
  fix g k
  assume "keyCache (es\<lparr>keyCache := (keyCache es)(cacheKey h \<mapsto> derived C (passphrase es) h)\<rparr>)
    (cacheKey g) = Some k"
  then show "k = derived C (passphrase (es\<lparr>keyCache := (keyCache es)(cacheKey h \<mapsto>
      derived C (passphrase es) h)\<rparr>)) g"
    using assms derived_cong [of g h] by (cases "cacheKey g = cacheKey h") (simp_all add: cache_ok_def)
qed

lemma aeadFor_spec:
  assumes "cache_ok C es" and "aeadFor C h es = (r, es')"
  shows "r = aead_spec C (passphrase es) h" and "cache_ok C es'" and "same_but_cache es es'"
proof -
  let ?k = "derived C (passphrase es) h"
  let ?cached = "case keyCache es (cacheKey h) of None \<Rightarrow> [] | Some k \<Rightarrow> k"
  have k: "(if ?cached = [] then ?k else ?cached) = ?k"
    using cached_derived [OF assms(1), of h] by (simp add: Let_def)
  have store: "es' = es \<or> es' = es\<lparr>keyCache := (keyCache es)(cacheKey h \<mapsto> ?k)\<rparr>"
    using assms(2) k
    by (auto simp: aeadFor_def Let_def derived_def [symmetric] split: if_splits option.splits)
  then show "same_but_cache es es'"
  proof
    assume "es' = es\<lparr>keyCache := (keyCache es)(cacheKey h \<mapsto> ?k)\<rparr>"
    then show ?thesis
      unfolding same_but_cache_def by (intro exI [of _ "(keyCache es)(cacheKey h \<mapsto> ?k)"])
  qed simp
  show "cache_ok C es'"
    using store assms(1) cache_ok_insert [OF assms(1)] by auto
  show "r = aead_spec C (passphrase es) h"
    using assms(2) k
    unfolding aead_spec_def aeadFor_def Let_def uncached_def
    by (auto simp: derived_def [symmetric] split: if_splits option.splits)
qed

lemma aeadFor_fun:
  assumes "cache_ok C es"
  obtains f where "\<And>h. aeadFor C h es = (aead_spec C (passphrase es) h, f h)"
    and "\<And>h. cache_ok C (f h)" and "\<And>h. same_but_cache es (f h)"
proof
  show "aeadFor C h es = (aead_spec C (passphrase es) h, snd (aeadFor C h es))" for h
    using aeadFor_spec(1) [OF assms] by (metis prod.collapse)
  show "cache_ok C (snd (aeadFor C h es))" for h
    using aeadFor_spec(2) [OF assms] by (metis prod.collapse)
  show "same_but_cache es (snd (aeadFor C h es))" for h
    using aeadFor_spec(3) [OF assms] by (metis prod.collapse)
qed

lemma decryptObject_spec:
  assumes "cache_ok C es" and "decryptObject C key data es = (r, es')"
  shows "r = opened C (passphrase es) key data" and "cache_ok C es'" and "same_but_cache es es'"
proof -
  have "cache_ok C (uncached (passphrase es))" by (simp add: cache_ok_def uncached_def)
  then obtain g where g: "\<And>h. aeadFor C h (uncached (passphrase es)) =
      (aead_spec C (passphrase (uncached (passphrase es))) h, g h)"
      "\<And>h. cache_ok C (g h)" "\<And>h. same_but_cache (uncached (passphrase es)) (g h)"
    using aeadFor_fun by blast
  have pass: "passphrase (uncached (passphrase es)) = passphrase es" by (simp add: uncached_def)
  obtain f where f: "\<And>h. aeadFor C h es = (aead_spec C (passphrase es) h, f h)"
      "\<And>h. cache_ok C (f h)" "\<And>h. same_but_cache es (f h)"
    using aeadFor_fun [OF assms(1)] by blast
  have "r = opened C (passphrase es) key data \<and> cache_ok C es' \<and> same_but_cache es es'"
    using assms unfolding opened_def decryptObject_def f(1) g(1) pass
    by (simp split: if_splits sum.splits prod.splits option.splits) (use f(2,3) in auto)
  then show "r = opened C (passphrase es) key data" and "cache_ok C es'" and "same_but_cache es es'"
    by simp_all
qed

section \<open>The contract\<close>

text \<open>
  What the wrapper relies on: the header it writes is marshalled to a non-empty document
  shorter than 4 GiB that parses back, derived keys have the size asked for and are accepted
  by the cipher, and a sealed text opens.
\<close>

definition crypto_laws :: "crypto \<Rightarrow> bool" where
  "crypto_laws C \<longleftrightarrow>
     (\<forall>n. length n = NonceSizeX \<longrightarrow>
        (\<exists>b. env_Marshal C (put_header n) = Inr b \<and> b \<noteq> [] \<and> length b < 2 ^ 32 \<and>
             env_Unmarshal C b = Inr (put_header n))) \<and>
     (\<forall>pw salt t m p l. length (IDKey C pw salt t m p l) = l) \<and>
     (\<forall>k. length k = KeySize \<longrightarrow> NewX C k = None) \<and>
     (\<forall>k n p ad. length k = KeySize \<longrightarrow> length n = NonceSizeX \<longrightarrow>
        Open C k n (Seal C k n p ad) ad = Inr p)"

definition decrypted :: "crypto \<Rightarrow> string \<Rightarrow> string \<Rightarrow> bytes option \<Rightarrow> bytes option" where
  "decrypted C pass k stored =
     (case stored of
        None \<Rightarrow> None
      | Some d \<Rightarrow>
          if isPlaintextMetadataKey k then Some d
          else case opened C pass k d of Inl _ \<Rightarrow> None | Inr p \<Rightarrow> Some p)"

definition enc_view ::
  "crypto \<Rightarrow> ('s \<Rightarrow> string \<Rightarrow> bytes option) \<Rightarrow> 's EncryptedStore \<Rightarrow> string \<Rightarrow> bytes option" where
  "enc_view C view es k = decrypted C (passphrase es) k (view (es_base es) k)"

definition enc_inv :: "crypto \<Rightarrow> ('s \<Rightarrow> bool) \<Rightarrow> 's EncryptedStore \<Rightarrow> bool" where
  "enc_inv C I es \<longleftrightarrow>
     I (es_base es) \<and> cache_ok C es \<and> (\<forall>i. \<exists>n. es_rand es i = Inr n \<and> length n = NonceSizeX)"

lemma derived_put_header:
  "crypto_laws C \<Longrightarrow> aead_spec C pass (put_header n) = Inr (derived C pass (put_header n)) \<and>
     length (derived C pass (put_header n)) = KeySize"
  by (simp add: aead_spec_def aeadFor_def uncached_def put_header_def derived_def crypto_laws_def
      Let_def encryptionTime_def encryptionMemoryKiB_def encryptionParallelism_def)

lemma opened_sealed:
  assumes laws: "crypto_laws C" and n: "length n = NonceSizeX"
    and m: "env_Marshal C (put_header n) = Inr b"
  shows "opened C pass key
           (encodeEncryptedObject b (Seal C (derived C pass (put_header n)) n p b)) = Inr p"
proof -
  have b: "b \<noteq> []" "length b < 2 ^ 32" "env_Unmarshal C b = Inr (put_header n)"
    using laws n m unfolding crypto_laws_def by auto
  obtain es' where es': "aeadFor C (put_header n) (uncached pass) =
      (Inr (derived C pass (put_header n)), es')"
    using derived_put_header [OF laws, of pass n] unfolding aead_spec_def by (metis prod.collapse)
  have "Open C (derived C pass (put_header n)) n (Seal C (derived C pass (put_header n)) n p b) b = Inr p"
    using laws n derived_put_header [OF laws, of pass n] unfolding crypto_laws_def by blast
  moreover have "base64_DecodeString (oe_Nonce (put_header n)) = Some n"
    by (simp add: put_header_def)
  ultimately show ?thesis
    using b n es' by (simp add: opened_def decryptObject_def decode_encode magic_encode)
qed

text \<open>The outcome of an encrypting put, from the outcome of the base store's put.\<close>

lemma EncryptedStore_put:
  assumes laws: "crypto_laws C" and inv: "enc_inv C I es" and k: "\<not> isPlaintextMetadataKey k"
    and put: "EncryptedStore_PutBytes C sha B k d es = (r, es')"
  obtains n b r0 where "length n = NonceSizeX" and "env_Marshal C (put_header n) = Inr b"
    and "PutBytes B k (encodeEncryptedObject b
           (Seal C (derived C (passphrase es) (put_header n)) n d b)) (es_base es) = (r0, es_base es')"
    and "r = (case r0 of Inl e \<Rightarrow> Inl e | Inr _ \<Rightarrow>
           Inr \<lparr>oi_Key = k, oi_Size = int (length d), oi_SHA256 = sha_hex sha d, oi_ETag = []\<rparr>)"
    and "passphrase es' = passphrase es" and "cache_ok C es'" and "es_rand es' = es_rand es"
proof -
  obtain n where n: "es_rand es (es_draws es) = Inr n" "length n = NonceSizeX"
    using inv unfolding enc_inv_def by blast
  obtain b where b: "env_Marshal C (put_header n) = Inr b"
    using laws n unfolding crypto_laws_def by blast
  let ?es = "es\<lparr>es_draws := es_draws es + 1\<rparr>"
  obtain r1 es1 where a: "aeadFor C (put_header n) ?es = (r1, es1)" by fastforce
  have ck: "cache_ok C ?es" using inv by (simp add: enc_inv_def cache_ok_def)
  note a1 = aeadFor_spec [OF ck a] same_but_cacheD [OF aeadFor_spec(3) [OF ck a]]
  have r1: "r1 = Inr (derived C (passphrase es) (put_header n))"
    using a1(1) derived_put_header [OF laws] by simp
  obtain r0 s0 where p: "PutBytes B k (encodeEncryptedObject b
      (Seal C (derived C (passphrase es) (put_header n)) n d b)) (es_base es) = (r0, s0)" by fastforce
  have "r = (case r0 of Inl e \<Rightarrow> Inl e | Inr _ \<Rightarrow>
      Inr \<lparr>oi_Key = k, oi_Size = int (length d), oi_SHA256 = sha_hex sha d, oi_ETag = []\<rparr>) \<and>
      es' = es1\<lparr>es_base := s0\<rparr>"
    using put k n(1) b a r1 p a1(4)
    by (auto simp: EncryptedStore_PutBytes_def Let_def on_es_base_def split: sum.splits)
  then show thesis
    using that [OF n(2) b, of r0] p a1 by (simp add: cache_ok_def)
qed

lemma EncryptedStore_put_plain:
  assumes "isPlaintextMetadataKey k" and "EncryptedStore_PutBytes C sha B k d es = (r, es')"
  obtains s' where "PutBytes B k d (es_base es) = (r, s')" and "es' = es\<lparr>es_base := s'\<rparr>"
  using assms by (auto simp: EncryptedStore_PutBytes_def on_es_base_def split: prod.splits)

lemma EncryptedStore_get:
  assumes "enc_inv C I es" and "EncryptedStore_GetBytes C B k es = (r, es')"
  obtains r0 where "GetBytes B k (es_base es) = (r0, es_base es')"
    and "passphrase es' = passphrase es" and "cache_ok C es'" and "es_rand es' = es_rand es"
    and "r = (case r0 of Inl e \<Rightarrow> Inl e | Inr d \<Rightarrow>
           if isPlaintextMetadataKey k then Inr d else opened C (passphrase es) k d)"
proof -
  obtain r0 s0 where g: "GetBytes B k (es_base es) = (r0, s0)" by fastforce
  let ?es = "es\<lparr>es_base := s0\<rparr>"
  have ck: "cache_ok C ?es" using assms(1) by (simp add: enc_inv_def cache_ok_def)
  show thesis
  proof (cases r0)
    case (Inl e)
    then show ?thesis using that [of r0] assms(2) g ck
      by (auto simp: EncryptedStore_GetBytes_def on_es_base_def)
  next
    case (Inr d)
    show ?thesis
    proof (cases "isPlaintextMetadataKey k")
      case True
      then show ?thesis using that [of r0] assms(2) g ck Inr
        by (auto simp: EncryptedStore_GetBytes_def on_es_base_def)
    next
      case False
      then have "decryptObject C k d ?es = (r, es')"
        using assms(2) g Inr by (simp add: EncryptedStore_GetBytes_def on_es_base_def)
      note d = decryptObject_spec [OF ck this]
      show ?thesis using that [of r0] d same_but_cacheD [OF d(3)] g Inr False by simp
    qed
  qed
qed

context object_store
begin

lemma encrypted_put:
  assumes laws: "crypto_laws C" and inv: "enc_inv C inv es"
    and put: "PutBytes (EncryptedStore C sha S) k d es = (r, es')"
  shows "enc_inv C inv es'"
    and "j \<noteq> k \<Longrightarrow> enc_view C view es' j = enc_view C view es j"
    and "r = Inr info \<Longrightarrow> enc_view C view es' = (enc_view C view es)(k \<mapsto> d) \<and>
      oi_Size info = int (length d) \<and> oi_SHA256 info = sha_hex sha d"
proof -
  have put': "EncryptedStore_PutBytes C sha S k d es = (r, es')" using put by (simp add: EncryptedStore_def)
  have I: "inv (es_base es)" using inv by (simp add: enc_inv_def)
  have "enc_inv C inv es' \<and> (\<forall>j. j \<noteq> k \<longrightarrow> enc_view C view es' j = enc_view C view es j) \<and>
    (\<forall>info. r = Inr info \<longrightarrow> enc_view C view es' k = Some d \<and> oi_Size info = int (length d) \<and>
       oi_SHA256 info = sha_hex sha d)"
  proof (cases "isPlaintextMetadataKey k")
    case True
    then obtain s' where p: "PutBytes S k d (es_base es) = (r, s')" and es': "es' = es\<lparr>es_base := s'\<rparr>"
      using put' by (rule EncryptedStore_put_plain)
    have "\<And>j. j \<noteq> k \<Longrightarrow> view s' j = view (es_base es) j" using put_other [OF I p] by simp
    moreover have "inv s'" using put_inv [OF I p] .
    moreover have "\<forall>info. r = Inr info \<longrightarrow> view s' k = Some d \<and> oi_Size info = int (length d) \<and>
        oi_SHA256 info = sha_hex sha d" using put_ok [OF I] p by fastforce
    ultimately show ?thesis using inv True
      by (auto simp: es' enc_inv_def enc_view_def cache_ok_def decrypted_def [of C _ k])
  next
    case False
    then obtain n b r0 where n: "length n = NonceSizeX" and b: "env_Marshal C (put_header n) = Inr b"
      and p: "PutBytes S k (encodeEncryptedObject b
           (Seal C (derived C (passphrase es) (put_header n)) n d b)) (es_base es) = (r0, es_base es')"
      and r: "r = (case r0 of Inl e \<Rightarrow> Inl e | Inr _ \<Rightarrow>
           Inr \<lparr>oi_Key = k, oi_Size = int (length d), oi_SHA256 = sha_hex sha d, oi_ETag = []\<rparr>)"
      and es': "passphrase es' = passphrase es" "cache_ok C es'" "es_rand es' = es_rand es"
      using EncryptedStore_put [OF laws inv _ put'] by blast
    have "\<And>j. j \<noteq> k \<Longrightarrow> view (es_base es') j = view (es_base es) j" using put_other [OF I p] by simp
    moreover have "inv (es_base es')" using put_inv [OF I p] .
    moreover have "r = Inr info \<Longrightarrow> enc_view C view es' k = Some d \<and> oi_Size info = int (length d) \<and>
       oi_SHA256 info = sha_hex sha d" for info
      using r p put_ok [OF I, of k _ _ "es_base es'"] opened_sealed [OF laws n b] False es'(1)
      by (cases r0) (auto simp: enc_view_def decrypted_def)
    ultimately show ?thesis using inv es' by (simp add: enc_inv_def enc_view_def)
  qed
  then show "enc_inv C inv es'" and "j \<noteq> k \<Longrightarrow> enc_view C view es' j = enc_view C view es j"
    and "r = Inr info \<Longrightarrow> enc_view C view es' = (enc_view C view es)(k \<mapsto> d) \<and>
      oi_Size info = int (length d) \<and> oi_SHA256 info = sha_hex sha d"
    by auto
qed

lemma encrypted_get:
  assumes inv: "enc_inv C inv es"
    and get: "EncryptedStore_GetBytes C S k es = (r, es')"
  shows "enc_inv C inv es' \<and> enc_view C view es' = enc_view C view es \<and>
    (\<forall>d. r = Inr d \<longrightarrow> enc_view C view es k = Some d)"
proof -
  have I: "inv (es_base es)" using inv by (simp add: enc_inv_def)
  obtain r0 where g: "GetBytes S k (es_base es) = (r0, es_base es')"
    and es': "passphrase es' = passphrase es" "cache_ok C es'" "es_rand es' = es_rand es"
    and r: "r = (case r0 of Inl e \<Rightarrow> Inl e | Inr d \<Rightarrow>
           if isPlaintextMetadataKey k then Inr d else opened C (passphrase es) k d)"
    using EncryptedStore_get [OF inv get] .
  have v: "inv (es_base es') \<and> view (es_base es') = view (es_base es)" using get_view [OF I g] .
  then have "enc_inv C inv es'" and "enc_view C view es' = enc_view C view es"
    using inv es' by (auto simp: enc_inv_def enc_view_def fun_eq_iff)
  moreover have "r = Inr d \<Longrightarrow> enc_view C view es k = Some d" for d
    using r g get_ok [OF I, of k _ "es_base es'"]
    by (cases r0) (auto simp: enc_view_def decrypted_def split: if_splits sum.splits)
  ultimately show ?thesis by blast
qed

lemma encrypted_delete:
  assumes inv: "enc_inv C inv es"
    and del: "Delete (EncryptedStore C sha S) k es = (r, es')"
  shows "enc_inv C inv es'" and "j \<noteq> k \<Longrightarrow> enc_view C view es' j = enc_view C view es j"
    and "r = Inr u \<Longrightarrow> enc_view C view es' = (enc_view C view es)(k := None)"
proof -
  have I: "inv (es_base es)" using inv by (simp add: enc_inv_def)
  obtain s' where d: "Delete S k (es_base es) = (r, s')" and es': "es' = es\<lparr>es_base := s'\<rparr>"
    using del by (auto simp: EncryptedStore_def EncryptedStore_Delete_def on_es_base_def split: prod.splits)
  show "enc_inv C inv es'"
    using inv delete_inv [OF I d] by (simp add: es' enc_inv_def cache_ok_def)
  show "enc_view C view es' j = enc_view C view es j" if "j \<noteq> k"
    using delete_other [OF I d that] by (simp add: es' enc_view_def)
  show "enc_view C view es' = (enc_view C view es)(k := None)" if "r = Inr u"
    using delete_ok [OF I, of k u s'] d that
    by (auto simp: es' enc_view_def fun_eq_iff decrypted_def [of C _ k])
qed

lemma encrypted:
  assumes laws: "crypto_laws C"
  shows "object_store (EncryptedStore C sha S) sha (enc_view C view) (enc_inv C inv)"
proof unfold_locales
  fix es :: "'s EncryptedStore" and k r t
  assume inv: "enc_inv C inv es"
  note get = encrypted_get [OF inv]
  show "GetBytes (EncryptedStore C sha S) k es = (Inr d, t) \<Longrightarrow>
      enc_inv C inv t \<and> enc_view C view t = enc_view C view es \<and> enc_view C view es k = Some d" for d
    using get by (simp add: EncryptedStore_def)
  show "GetBytes (EncryptedStore C sha S) k es = (Inl e, t) \<Longrightarrow>
      enc_inv C inv t \<and> enc_view C view t = enc_view C view es" for e
    using get by (simp add: EncryptedStore_def)
  show "GetReader (EncryptedStore C sha S) k es = (Inr r, t) \<Longrightarrow>
      enc_inv C inv t \<and> enc_view C view t = enc_view C view es \<and>
      (rc_err r = None \<longrightarrow> enc_view C view es k = Some (rc_data r))"
    by (auto simp: EncryptedStore_def EncryptedStore_GetReader_def NopCloser_def
        split: prod.splits sum.splits dest: get)
  show "GetReader (EncryptedStore C sha S) k es = (Inl e, t) \<Longrightarrow>
      enc_inv C inv t \<and> enc_view C view t = enc_view C view es" for e
    by (auto simp: EncryptedStore_def EncryptedStore_GetReader_def
        split: prod.splits sum.splits dest: get)
  show "Head (EncryptedStore C sha S) k es = (hr, t) \<Longrightarrow>
      enc_inv C inv t \<and> enc_view C view t = enc_view C view es" for hr
    by (auto simp: EncryptedStore_def EncryptedStore_Head_def split: prod.splits sum.splits dest: get)
  show "Head (EncryptedStore C sha S) k es = (Inr info, t) \<Longrightarrow>
      \<exists>d. enc_view C view es k = Some d \<and> oi_Size info = int (length d)" for info
    by (auto simp: EncryptedStore_def EncryptedStore_Head_def split: prod.splits sum.splits dest: get)
next
  fix es :: "'s EncryptedStore" and k t
  assume inv: "enc_inv C inv es"
  note put = encrypted_put [OF laws inv] and del = encrypted_delete [OF inv]
  show "PutBytes (EncryptedStore C sha S) k d es = (Inr info, t) \<Longrightarrow>
      enc_inv C inv t \<and> enc_view C view t = (enc_view C view es)(k \<mapsto> d) \<and>
      oi_Size info = int (length d) \<and> oi_SHA256 info = sha_hex sha d" for d info
    using put(1,3) by blast
  show "PutBytes (EncryptedStore C sha S) k d es = (Inl e, t) \<Longrightarrow>
      enc_inv C inv t \<and> (\<forall>j. j \<noteq> k \<longrightarrow> enc_view C view t j = enc_view C view es j)" for d e
    using put(1,2) by blast
  show "Delete (EncryptedStore C sha S) k es = (Inr u, t) \<Longrightarrow>
      enc_inv C inv t \<and> enc_view C view t = (enc_view C view es)(k := None)" for u
    using del(1,3) by blast
  show "Delete (EncryptedStore C sha S) k es = (Inl e, t) \<Longrightarrow>
      enc_inv C inv t \<and> (\<forall>j. j \<noteq> k \<longrightarrow> enc_view C view t j = enc_view C view es j)" for e
    using del(1,2) by blast
qed

end

context reliable_store
begin

lemma encrypted_get_works:
  assumes inv: "enc_inv C inv es" and "enc_view C view es k = Some d"
  obtains t where "EncryptedStore_GetBytes C S k es = (Inr d, t)"
proof -
  obtain r t where g: "EncryptedStore_GetBytes C S k es = (r, t)" by fastforce
  obtain r0 where g0: "GetBytes S k (es_base es) = (r0, es_base t)"
    and r: "r = (case r0 of Inl e \<Rightarrow> Inl e | Inr d \<Rightarrow>
           if isPlaintextMetadataKey k then Inr d else opened C (passphrase es) k d)"
    using EncryptedStore_get [OF inv g] by blast
  obtain d0 where d0: "view (es_base es) k = Some d0"
    using assms(2) by (auto simp: enc_view_def decrypted_def split: option.splits)
  have "inv (es_base es)" using inv by (simp add: enc_inv_def)
  then have "r0 = Inr d0" using get_works d0 g0 by fastforce
  then have "r = Inr d"
    using r d0 assms(2) by (auto simp: enc_view_def decrypted_def split: if_splits sum.splits)
  then show thesis using that g by blast
qed

lemma encrypted_put_works:
  assumes laws: "crypto_laws C" and inv: "enc_inv C inv es"
  shows "\<exists>info t. PutBytes (EncryptedStore C sha S) k d es = (Inr info, t)"
proof -
  have I: "inv (es_base es)" using inv by (simp add: enc_inv_def)
  obtain r t where p: "EncryptedStore_PutBytes C sha S k d es = (r, t)" by fastforce
  have "\<exists>info. r = Inr info"
  proof (cases "isPlaintextMetadataKey k")
    case True
    then obtain s' where "PutBytes S k d (es_base es) = (r, s')"
      using p by (rule EncryptedStore_put_plain)
    then show ?thesis using put_works [OF I, of k d] by auto
  next
    case False
    then obtain e r0 s0 where "PutBytes S k e (es_base es) = (r0, s0)"
      and "r = (case r0 of Inl e \<Rightarrow> Inl e | Inr _ \<Rightarrow>
           Inr \<lparr>oi_Key = k, oi_Size = int (length d), oi_SHA256 = sha_hex sha d, oi_ETag = []\<rparr>)"
      using EncryptedStore_put [OF laws inv _ p] by blast
    then show ?thesis using put_works [OF I, of k e] by auto
  qed
  then show ?thesis using p by (auto simp: EncryptedStore_def)
qed

lemma encrypted_reliable:
  assumes laws: "crypto_laws C"
  shows "reliable_store (EncryptedStore C sha S) sha (enc_view C view) (enc_inv C inv)"
proof (intro reliable_store.intro reliable_store_axioms.intro)
  show "object_store (EncryptedStore C sha S) sha (enc_view C view) (enc_inv C inv)"
    using laws by (rule encrypted)
next
  fix es :: "'s EncryptedStore" and k d
  assume inv: "enc_inv C inv es"
  show "\<exists>info t. PutBytes (EncryptedStore C sha S) k d es = (Inr info, t)"
    using laws inv by (rule encrypted_put_works)
  have "inv (es_base es)" using inv by (simp add: enc_inv_def)
  then show "\<exists>t. Delete (EncryptedStore C sha S) k es = (Inr (), t)"
    using delete_works [of "es_base es" k]
    by (auto simp: EncryptedStore_def EncryptedStore_Delete_def on_es_base_def)
next
  fix es :: "'s EncryptedStore" and k d
  assume "enc_inv C inv es" and "enc_view C view es k = Some d"
  then obtain t where g: "EncryptedStore_GetBytes C S k es = (Inr d, t)"
    by (rule encrypted_get_works)
  show "\<exists>t. GetBytes (EncryptedStore C sha S) k es = (Inr d, t)"
    using g by (simp add: EncryptedStore_def)
  show "\<exists>t. GetReader (EncryptedStore C sha S) k es = (Inr (NopCloser d), t)"
    using g by (simp add: EncryptedStore_def EncryptedStore_GetReader_def)
  show "\<exists>info t. Head (EncryptedStore C sha S) k es = (Inr info, t) \<and>
      oi_Size info = int (length d) \<and> oi_SHA256 info \<in> {'''', sha_hex sha d}"
    using g by (simp add: EncryptedStore_def EncryptedStore_Head_def)
qed

end

section \<open>A concrete instance\<close>

text \<open>
  A cipher and codec that satisfy the laws: the key stream is one byte taken from the key, the
  header document is the nonce field.
\<close>

definition sample_crypto :: crypto where
  "sample_crypto =
     \<lparr>env_Marshal = (\<lambda>h. Inr (go_bytes (oe_Nonce h))),
      env_Unmarshal = (\<lambda>b. Inr ((put_header [])\<lparr>oe_Nonce := go_string b\<rparr>)),
      IDKey = (\<lambda>pw salt t m p l. replicate l (word_of_nat (length pw))),
      NewX = (\<lambda>k. if length k = KeySize then None else Some (Errorf (msg ''bad key length'') [])),
      Seal = (\<lambda>k n p ad. map (\<lambda>b. b + hd k) p),
      Open = (\<lambda>k n c ad. Inr (map (\<lambda>b. b - hd k) c))\<rparr>"

lemma length_base64_groups: "length (base64_groups ns) = 4 * ((length ns + 2) div 3)"
proof (induction ns rule: base64_groups.induct)
  case (1 a b c r)
  have "(5 + length r) div 3 = Suc ((2 + length r) div 3)" by linarith
  with 1 show ?case by simp
qed simp_all

lemma sample_crypto_laws: "crypto_laws sample_crypto"
  unfolding crypto_laws_def
proof (intro conjI allI impI)
  fix n :: bytes
  assume n: "length n = NonceSizeX"
  have len: "length (go_bytes (base64_EncodeToString n)) = 32"
    using n by (simp add: go_bytes_def base64_EncodeToString_def length_base64_groups NonceSizeX_def)
  show "\<exists>b. env_Marshal sample_crypto (put_header n) = Inr b \<and> b \<noteq> [] \<and> length b < 2 ^ 32 \<and>
      env_Unmarshal sample_crypto b = Inr (put_header n)"
    using len by (intro exI [of _ "go_bytes (base64_EncodeToString n)"])
      (auto simp: sample_crypto_def put_header_def)
qed (simp_all add: sample_crypto_def o_def)

lemma sample_crypto_authentic:
  "Open sample_crypto k n c ad = Inr p \<Longrightarrow> c = Seal sample_crypto k n p ad"
  by (auto simp: sample_crypto_def o_def)

interpretation encrypted_memory:
  reliable_store "EncryptedStore sample_crypto sha (MemoryStore sha)" sha
    "enc_view sample_crypto (\<lambda>m. m)" "enc_inv sample_crypto (\<lambda>_. True)"
  for sha :: "bytes \<Rightarrow> bytes"
  using sample_crypto_laws by (rule memory.encrypted_reliable)

section \<open>Properties\<close>

text \<open>
  C14. Wrapping any store that meets the contract gives a store that meets the contract on
  plaintext: with the same passphrase, an object read back is the object put, whatever the
  state of the key cache and whatever the nonces drawn, and no call disturbs another key.
\<close>

theorem EncryptedStore_contract:
  assumes "object_store B sha view I" and "crypto_laws C"
  shows "object_store (EncryptedStore C sha B) sha (enc_view C view) (enc_inv C I)"
  using assms by (rule object_store.encrypted)

theorem EncryptedStore_contract_witness:
  "object_store (EncryptedStore sample_crypto (\<lambda>d. d) (FaultStore (MemoryStore (\<lambda>d. d)))) (\<lambda>d. d)
     (enc_view sample_crypto fs_base) (enc_inv sample_crypto (\<lambda>_. True))"
  by (rule EncryptedStore_contract) (rule faulty_memory.object_store_axioms sample_crypto_laws)+


definition sample_encrypted :: "memory EncryptedStore" where
  "sample_encrypted =
     \<lparr>es_base = Map.empty(''k'' \<mapsto> encodeEncryptedObject (go_bytes (base64_EncodeToString (replicate 24 1)))
        [8, 9]), passphrase = ''secret'', keyCache = Map.empty,
      es_rand = (\<lambda>_. Inr (replicate 24 7)), es_draws = 0\<rparr>"


end
