(* ===== verification/Restore_Plan.thy ===== *)
theory Restore_Plan
  imports Catalog_Repository
begin

text \<open>
  The restore plan of a snapshot (\<open>src/internal/restoreplan/plan.go\<close>): its chain, the snapshot
  that must be restored before it and the one to restore next, with the texts shown to the user.
\<close>

section \<open>Definitions\<close>

record Plan =
  p_SnapshotID :: string
  p_Chain :: "ListSnapshotRestoreChainRow list"
  p_Snapshot :: ListSnapshotRestoreChainRow
  p_Parent :: "SnapshotRefRow option"
  p_Next :: "SnapshotRefRow option"
  p_RemainingAfterNext :: int

definition plan_parent :: "ListSnapshotRestoreChainRow list \<Rightarrow> SnapshotRefRow option" where
  "plan_parent chain =
     (if length chain > 1
      then let row = chain ! (length chain - 2) in Some \<lparr>sr_ID = rc_ID row, sr_Name = rc_Name row\<rparr>
      else None)"

definition Build :: "string \<Rightarrow> ('s world, Plan) prog" where
  "Build snapshotID =
     check (RestoreChain snapshotID) throw (\<lambda>chain.
     if chain = [] then throw (Errorf (msg ''snapshot %s not found'') [snapshotID])
     else
     let plan = \<lparr>p_SnapshotID = snapshotID, p_Chain = chain, p_Snapshot = chain ! (length chain - 1),
                 p_Parent = plan_parent chain, p_Next = None, p_RemainingAfterNext = 0\<rparr> in
     check (NextCommittedChild snapshotID) throw (\<lambda>r.
     case r of
       None \<Rightarrow> ok plan
     | Some (nxt, remaining) \<Rightarrow> ok (plan\<lparr>p_Next := Some nxt, p_RemainingAfterNext := remaining\<rparr>)))"

definition ValidateStreamable :: "Plan \<Rightarrow> error + unit" where
  "ValidateStreamable p =
     (if rc_Status (p_Snapshot p) \<noteq> SnapCommitted \<or> rc_ManifestObjectKey (p_Snapshot p) = None \<or>
         rc_ManifestObjectKey (p_Snapshot p) = Some []
      then Inl (Errorf (msg ''snapshot %s is not committed or has no manifest'') [rc_Name (p_Snapshot p)])
      else Inr ())"

definition plan_ManifestKey :: "Plan \<Rightarrow> string" where
  "plan_ManifestKey p = (case rc_ManifestObjectKey (p_Snapshot p) of None \<Rightarrow> [] | Some k \<Rightarrow> k)"

definition ParentRequirement :: "Plan \<Rightarrow> string" where
  "ParentRequirement p =
     (case p_Parent p of
        None \<Rightarrow> []
      | Some q \<Rightarrow> ''restore requires parent snapshot '' @ sr_ID q @ '' ('' @ sr_Name q @
          '') before receiving '' @ p_SnapshotID p @ ''.\<newline>'')"

definition CLINextRestore :: "Plan \<Rightarrow> string" where
  "CLINextRestore p =
     (case p_Next p of
        None \<Rightarrow> []
      | Some n \<Rightarrow>
          if p_RemainingAfterNext p > 0
          then ''\<newline>next restore: zfs-s3nd restore-stream '' @ sr_ID n @ '' | zfs recv -F <target> (plus '' @
            show_int (p_RemainingAfterNext p) @ '' more)\<newline>''
          else ''\<newline>next restore: zfs-s3nd restore-stream '' @ sr_ID n @ '' | zfs recv -F <target>\<newline>'')"

definition SSHNextRestore :: "Plan \<Rightarrow> string" where
  "SSHNextRestore p =
     (case p_Next p of
        None \<Rightarrow> []
      | Some n \<Rightarrow>
          if p_RemainingAfterNext p > 0
          then ''\<newline>next restore: ssh <zfs-s3nd> restore-stream '' @ sr_ID n @ '' | zfs recv -F <target> (plus '' @
            show_int (p_RemainingAfterNext p) @ '' more)\<newline>''
          else ''\<newline>next restore: ssh <zfs-s3nd> restore-stream '' @ sr_ID n @ '' | zfs recv -F <target>\<newline>'')"

lemma Build_frames [frame_rules]:
  "keeps cat_ok (Build i)"
  "frame (\<lambda>w w'. wObj w' = wObj w) (Build i)"
  "frame (\<lambda>w w'. wCat w' = wCat w) (Build i)"
  unfolding Build_def RestoreChain_def NextCommittedChild_def Let_def by (intro frame_rules)+

section \<open>What a plan says\<close>

lemma unknown_chain:
  assumes "\<forall>s \<in> set (snapshots c). sn_ID s \<noteq> i"
  shows "q_ListSnapshotRestoreChain i now c = Inr []"
proof -
  have "find (\<lambda>s. sn_ID s = i) (snapshots c) = None" using assms by (auto simp: find_None_iff)
  then show ?thesis by (simp add: q_ListSnapshotRestoreChain_def)
qed

lemma plan_parent_chain:
  assumes "linked (s # ch)"
  shows "map_option sr_ID (plan_parent (map chain_row (rev (s # ch)))) = sn_ParentSnapshotID s"
proof (cases ch)
  case Nil
  then show ?thesis using assms by (simp add: plan_parent_def)
next
  case (Cons t r)
  then show ?thesis using assms by (simp add: plan_parent_def nth_append chain_row_def)
qed

lemma run_RestoreChain:
  assumes "cat_ok w" and "run_state (RestoreChain i) w = (Inr chain, w')" and "chain \<noteq> []"
  shows "w' = tick w \<and> (\<exists>s \<in> set (snapshots (wCat w)). \<exists>ch. sn_ID s = i \<and>
    chain = map chain_row (rev (s # ch)) \<and> linked (s # ch))"
proof -
  have q: "q_ListSnapshotRestoreChain i (db_now w) (wCat w) = Inr chain" "w' = tick w"
    using run_db_query_Inr [of "q_ListSnapshotRestoreChain i" w chain w'] assms(2) by (simp_all add: RestoreChain_def)
  obtain s where s: "s \<in> set (snapshots (wCat w))" "sn_ID s = i"
    using unknown_chain [of "wCat w" i "db_now w"] q(1) assms(3) by auto
  obtain ch where "q_ListSnapshotRestoreChain (sn_ID s) (db_now w) (wCat w) = Inr (map chain_row (rev (s # ch)))"
    and "linked (s # ch)" using restore_chain [OF assms(1) s(1)] by metis
  then show ?thesis using q s by auto
qed

lemma run_NextCommittedChild:
  assumes "run_state (NextCommittedChild i) w = (Inr r, w')"
  shows "case r of
      None \<Rightarrow> committed_children (snapshots (wCat w)) i = []
    | Some (q, n) \<Rightarrow> \<exists>t \<in> set (committed_children (snapshots (wCat w)) i). sn_ID t = sr_ID q"
proof -
  obtain kids w1 where kids: "run_state (db_query (q_ListCommittedChildSnapshots (Some i))) w = (Inr kids, w1)"
    and rest: "run_state (case kids of [] \<Rightarrow> ok None | child # _ \<Rightarrow>
        check (db_query (q_CountCommittedDescendants (Some i))) throw (\<lambda>tot.
          let remainingAfterNext = tot - 1 in
          ok (Some (child, if remainingAfterNext < 0 then 0 else remainingAfterNext)))) w1 = (Inr r, w')"
    using assms unfolding NextCommittedChild_def by (rule run_check_throw_Inr)
  have eq: "kids = map (\<lambda>s. \<lparr>sr_ID = sn_ID s, sr_Name = sn_Name s\<rparr>)
      (sort_key sn_CreatedAt (committed_children (snapshots (wCat w)) i))"
    using run_db_query_Inr [OF kids] by (simp add: q_ListCommittedChildSnapshots_def)
  show ?thesis
  proof (cases kids)
    case Nil
    then have "sort_key sn_CreatedAt (committed_children (snapshots (wCat w)) i) = []" using eq by simp
    then have "committed_children (snapshots (wCat w)) i = []"
      by (metis length_0_conv length_sort)
    then show ?thesis using Nil rest by simp
  next
    case (Cons child others)
    obtain n where r: "r = Some (child, n)"
      using rest Cons by (auto simp: run_check Let_def split: prod.splits sum.splits)
    have "child \<in> set kids" using Cons by simp
    then have "\<exists>t \<in> set (committed_children (snapshots (wCat w)) i). sn_ID t = sr_ID child"
      unfolding eq by auto
    then show ?thesis using r by simp
  qed
qed

lemma descendant_child:
  "committed_descendant rows i t \<Longrightarrow> committed_children rows i \<noteq> []"
  by (induction rule: committed_descendant.induct) (auto simp: committed_children_def filter_empty_conv)

text \<open>With a database that answers, every snapshot of the catalog has a plan.\<close>

lemma Build_succeeds:
  assumes "cat_ok w" and "\<And>n. \<not> wDbFault w n" and "s \<in> set (snapshots (wCat w))"
  shows "\<exists>p w'. run_state (Build (sn_ID s)) w = (Inr p, w') \<and> p_Snapshot p = chain_row s \<and>
    wCat w' = wCat w \<and> wObj w' = wObj w"
proof -
  obtain ch where q: "q_ListSnapshotRestoreChain (sn_ID s) (db_now w) (wCat w) = Inr (map chain_row (rev (s # ch)))"
    using restore_chain [OF assms(1,3)] by metis
  have count: "\<exists>n. q_CountCommittedDescendants (Some (sn_ID s)) now (wCat w) = Inr n" for now
    using count_descendants [OF assms(1,3)] by blast
  have "wp (Build (sn_ID s)) (\<lambda>r w'. \<exists>p. r = Inr p \<and> p_Snapshot p = chain_row s) w"
    using q assms(2) count [of "db_now (tick (tick w))"]
    by (auto simp: Build_def RestoreChain_def NextCommittedChild_def wp_rules q_ListCommittedChildSnapshots_def Let_def
        nth_append split: list.splits sum.splits)
  then obtain p w' where run: "run_state (Build (sn_ID s)) w = (Inr p, w')" "p_Snapshot p = chain_row s"
    by (auto simp: wp_def split: prod.splits)
  then show ?thesis using frameD [OF Build_frames(3) run(1)] frameD [OF Build_frames(2) run(1)] by blast
qed

text \<open>
  A plan that is built describes the lineage in the catalog: its snapshot is the one asked for,
  its parent is the row's parent, its chain starts with a full snapshot, and its next step is a
  committed child, absent exactly when nothing committed restores on top of the snapshot. Building
  it changes nothing.
\<close>

theorem Build_plan:
  assumes "cat_ok w" and "run_state (Build i) w = (Inr p, w')"
  shows "wCat w' = wCat w \<and> wObj w' = wObj w \<and>
    (\<exists>s \<in> set (snapshots (wCat w)). sn_ID s = i \<and> p_Snapshot p = chain_row s \<and>
       map_option sr_ID (p_Parent p) = sn_ParentSnapshotID s \<and>
       rc_ParentSnapshotID (hd (p_Chain p)) = None \<and>
       (case p_Next p of
          None \<Rightarrow> \<not> (\<exists>t. committed_descendant (snapshots (wCat w)) i t)
        | Some q \<Rightarrow> \<exists>t \<in> set (snapshots (wCat w)). sn_ID t = sr_ID q \<and> sn_Status t = SnapCommitted \<and>
            sn_ParentSnapshotID t = Some i))"
proof -
  obtain chain w1 where c: "run_state (RestoreChain i) w = (Inr chain, w1)" and ne: "chain \<noteq> []"
    and rest: "run_state (let plan = \<lparr>p_SnapshotID = i, p_Chain = chain, p_Snapshot = chain ! (length chain - 1),
                 p_Parent = plan_parent chain, p_Next = None, p_RemainingAfterNext = 0\<rparr> in
     check (NextCommittedChild i) throw (\<lambda>r. case r of None \<Rightarrow> ok plan
       | Some (nxt, remaining) \<Rightarrow> ok (plan\<lparr>p_Next := Some nxt, p_RemainingAfterNext := remaining\<rparr>))) w1 = (Inr p, w')"
    using assms(2) unfolding Build_def by (rule run_check_throw_Inr) (simp split: if_splits)
  obtain s ch where s: "s \<in> set (snapshots (wCat w))" "sn_ID s = i" and chain: "chain = map chain_row (rev (s # ch))"
    and l: "linked (s # ch)" and w1: "w1 = tick w" using run_RestoreChain [OF assms(1) c ne] by blast
  obtain r w2 where r: "run_state (NextCommittedChild i) w1 = (Inr r, w2)"
    and p: "p_Chain p = chain" "p_Snapshot p = chain ! (length chain - 1)" "p_Parent p = plan_parent chain"
      "p_Next p = map_option fst r"
    using rest by (auto simp: run_check Let_def split: prod.splits sum.splits option.splits)
  have "p_Snapshot p = chain_row s" using p(2) chain by (simp add: nth_append)
  moreover have "rc_ParentSnapshotID (hd (p_Chain p)) = None"
    using linked_last [OF l] p(1) chain by (simp del: rev.simps add: hd_map hd_rev chain_row_def)
  moreover have "case p_Next p of None \<Rightarrow> \<not> (\<exists>t. committed_descendant (snapshots (wCat w)) i t)
      | Some q \<Rightarrow> \<exists>t \<in> set (snapshots (wCat w)). sn_ID t = sr_ID q \<and> sn_Status t = SnapCommitted \<and>
          sn_ParentSnapshotID t = Some i"
    using run_NextCommittedChild [OF r] p(4) w1 descendant_child
    by (fastforce simp: set_committed_children split: option.splits)
  moreover have "wCat w' = wCat w" "wObj w' = wObj w"
    using frameD [OF Build_frames(3) assms(2)] frameD [OF Build_frames(2) assms(2)] by simp_all
  moreover have "map_option sr_ID (p_Parent p) = sn_ParentSnapshotID s"
    using plan_parent_chain [OF l] p(3) chain by simp
  ultimately show ?thesis using s(2) by (intro conjI bexI [OF _ s(1)])
qed

theorem Build_plan_witness:
  "\<exists>p w'. run_state (Build ''b'') sample_world = (Inr p, w') \<and> p_SnapshotID p = ''b'' \<and>
    (\<exists>s \<in> set (snapshots (wCat sample_world)). sn_ID s = ''b'' \<and> p_Snapshot p = chain_row s)"
proof -
  have "case fst (run_state (Build ''b'') sample_world) of Inl e \<Rightarrow> False | Inr p \<Rightarrow> p_SnapshotID p = ''b''"
    by code_simp
  from run_succeeds [OF this] obtain p w' where run: "run_state (Build ''b'') sample_world = (Inr p, w')"
    and "p_SnapshotID p = ''b''" by blast
  then show ?thesis using Build_plan [OF sample_world_ok run] by blast
qed

end
