(* ===== verification/Storage_Keys.thy ===== *)
theory Storage_Keys
  imports Go_Strings
begin

text \<open>
  Object keys (\<open>src/internal/storage/keys.go\<close>): how a source, pool, dataset, snapshot and
  chunk index become an object key, in terms of \<open>path.Join\<close> and \<open>url.PathEscape\<close>. The
  facts: components are encoded injectively, the key of a snapshot determines its identity
  when no component is \<open>.\<close> or \<open>..\<close>, and it does not otherwise.
\<close>

section \<open>Definitions\<close>

record KeyBuilder =
  RootPrefix :: string

definition safe_char :: "char \<Rightarrow> bool" where
  "safe_char c \<longleftrightarrow> is_alnum c \<or> c \<in> set ''._:-''"

text \<open>\<open>safeComponent.MatchString\<close>: \<open>^[A-Za-z0-9._:-]+$\<close>.\<close>

definition safeComponent :: "string \<Rightarrow> bool" where
  "safeComponent s \<longleftrightarrow> s \<noteq> [] \<and> list_all safe_char s"

definition encodeComponent :: "string \<Rightarrow> string" where
  "encodeComponent component =
     (if safeComponent component \<and> \<not> HasPrefix component ''@'' then component
      else ReplaceChar (CHR ''@'') ''%40'' (PathEscape component))"

definition DatasetPrefix :: "KeyBuilder \<Rightarrow> string \<Rightarrow> string \<Rightarrow> string \<Rightarrow> string" where
  "DatasetPrefix b source pool dataset =
     path_Join
       ([TrimChar (CHR ''/'') (RootPrefix b), ''sources'', encodeComponent source,
         ''pools'', encodeComponent pool, ''datasets''] @
        map encodeComponent (filter (\<lambda>part. part \<noteq> []) (split_on (CHR ''/'') dataset)))"

definition DatasetMetadataKey :: "KeyBuilder \<Rightarrow> string \<Rightarrow> string \<Rightarrow> string \<Rightarrow> string" where
  "DatasetMetadataKey b source pool dataset =
     path_Join [DatasetPrefix b source pool dataset, ''@dataset.json'']"

definition SnapshotPrefix :: "KeyBuilder \<Rightarrow> string \<Rightarrow> string \<Rightarrow> string \<Rightarrow> string \<Rightarrow> string" where
  "SnapshotPrefix b source pool dataset snapshot =
     path_Join [DatasetPrefix b source pool dataset, ''@snapshots'', encodeComponent snapshot]"

definition ChunkKey :: "KeyBuilder \<Rightarrow> string \<Rightarrow> string \<Rightarrow> string \<Rightarrow> string \<Rightarrow> int \<Rightarrow> string" where
  "ChunkKey b source pool dataset snapshot index =
     path_Join [SnapshotPrefix b source pool dataset snapshot, ''chunks'',
                fmt_d012 index @ ''.zfschunk'']"

definition ManifestKey :: "KeyBuilder \<Rightarrow> string \<Rightarrow> string \<Rightarrow> string \<Rightarrow> string \<Rightarrow> string" where
  "ManifestKey b source pool dataset snapshot =
     path_Join [SnapshotPrefix b source pool dataset snapshot, ''manifest.json'']"

definition CatalogBackupPrefix :: "KeyBuilder \<Rightarrow> string" where
  "CatalogBackupPrefix b =
     path_Join [TrimChar (CHR ''/'') (RootPrefix b), ''@catalog-backups'']"

section \<open>Encoding a component\<close>

text \<open>The encoding acts character by character.\<close>

definition enc_char :: "char \<Rightarrow> string" where
  "enc_char c = (if path_segment_safe c \<and> c \<noteq> CHR ''@'' then [c] else percent_byte c)"

lemma hex_digits: "d < 16 \<Longrightarrow> upper_hex d \<in> set ''0123456789ABCDEF''"
  unfolding upper_hex_def by (rule nth_mem) simp

lemma of_char_div16: "of_char (c :: char) div 16 < (16::nat)"
  using nat_of_char_less_256 [of c] by linarith

lemma percent_byte_chars: "x \<in> set (percent_byte c) \<Longrightarrow> x \<in> set ''%0123456789ABCDEF''"
  using hex_digits [OF of_char_div16 [of c]] hex_digits [of "of_char c mod 16"]
  by (auto simp: percent_byte_def)

lemma safe_char_path_segment: "safe_char c \<Longrightarrow> path_segment_safe c \<and> c \<noteq> CHR ''@''"
  by (auto simp: safe_char_def path_segment_safe_def is_alnum_def)

lemma ReplaceChar_percent:
  "ReplaceChar (CHR ''@'') ''%40'' (percent_byte c) = percent_byte c"
proof -
  have "CHR ''@'' \<notin> set (percent_byte c)" using percent_byte_chars [of "CHR ''@''" c] by auto
  then show ?thesis by (auto simp: ReplaceChar_def percent_byte_def)
qed

lemma ReplaceChar_append: "ReplaceChar c r (s @ t) = ReplaceChar c r s @ ReplaceChar c r t"
  by (simp add: ReplaceChar_def)

lemma enc_char_at: "enc_char (CHR ''@'') = ''%40''"
  by (simp add: enc_char_def percent_byte_def upper_hex_def)

lemma enc_char_replace:
  "ReplaceChar (CHR ''@'') ''%40'' (if path_segment_safe c then [c] else percent_byte c) = enc_char c"
proof (cases "c = CHR ''@''")
  case True
  then show ?thesis
    by (simp add: enc_char_at) (simp add: path_segment_safe_def ReplaceChar_def)
next
  case False
  then show ?thesis
    by (simp add: enc_char_def ReplaceChar_percent) (simp add: ReplaceChar_def)
qed

lemma encodeComponent_eq: "encodeComponent s = concat (map enc_char s)"
proof -
  have safe: "concat (map enc_char s) = s" if "list_all safe_char s"
    using that by (induction s) (auto simp: enc_char_def dest: safe_char_path_segment)
  have "ReplaceChar (CHR ''@'') ''%40'' (PathEscape s) = concat (map enc_char s)"
    unfolding PathEscape_def
    by (induction s) (auto simp: ReplaceChar_append enc_char_replace [symmetric], simp add: ReplaceChar_def)
  with safe show ?thesis by (auto simp: encodeComponent_def safeComponent_def)
qed

text \<open>Undoing the escapes.\<close>

definition unhex :: "char \<Rightarrow> nat" where
  "unhex c = (let n = of_char c :: nat in if n \<le> 57 then n - 48 else n - 55)"

fun unescape :: "string \<Rightarrow> string" where
  "unescape (x # a # b # rest) =
     (if x = CHR ''%'' then char_of (unhex a * 16 + unhex b) # unescape rest
      else x # unescape (a # b # rest))"
| "unescape s = s"

lemma unhex_upper_hex: "d < 16 \<Longrightarrow> unhex (upper_hex d) = d"
proof -
  have "\<forall>d \<in> {..<16}. unhex (upper_hex d) = d"
    by (simp add: lessThan_nat_numeral lessThan_Suc upper_hex_def unhex_def)
  then show "d < 16 \<Longrightarrow> unhex (upper_hex d) = d" by simp
qed

lemma unescape_Cons: "x \<noteq> CHR ''%'' \<Longrightarrow> unescape (x # s) = x # unescape s"
  by (cases s; cases "tl s") auto

lemma unescape_percent: "unescape (percent_byte c @ s) = c # unescape s"
  using of_char_div16 [of c] by (simp add: percent_byte_def unhex_upper_hex div_mult_mod_eq)

lemma unescape_encode: "unescape (encodeComponent s) = s"
proof -
  have "unescape (concat (map enc_char s)) = s"
  proof (induction s)
    case (Cons c s)
    have "path_segment_safe c \<Longrightarrow> c \<noteq> CHR ''%''" by (auto simp: path_segment_safe_def is_alnum_def)
    with Cons show ?case by (auto simp: enc_char_def unescape_Cons unescape_percent)
  qed simp
  then show ?thesis by (simp add: encodeComponent_eq)
qed

lemma encodeComponent_inj [simp]: "encodeComponent s = encodeComponent t \<longleftrightarrow> s = t"
  using unescape_encode by metis

lemma enc_char_set: "x \<in> set (enc_char c) \<Longrightarrow> x \<noteq> CHR ''/'' \<and> x \<noteq> CHR ''@''"
  using percent_byte_chars [of x c]
  by (auto simp: enc_char_def path_segment_safe_def is_alnum_def split: if_splits)

lemma encodeComponent_chars:
  "CHR ''/'' \<notin> set (encodeComponent s)" "CHR ''@'' \<notin> set (encodeComponent s)"
  using enc_char_set by (fastforce simp: encodeComponent_eq)+

lemma encodeComponent_Nil [simp]: "encodeComponent s = [] \<longleftrightarrow> s = []"
proof -
  have "encodeComponent [] = []" by (simp add: encodeComponent_eq)
  then show ?thesis using encodeComponent_inj [of s "[]"] by simp
qed

lemma encodeComponent_safe: "safeComponent s \<Longrightarrow> encodeComponent s = s"
proof -
  assume *: "safeComponent s"
  have "\<not> HasPrefix s ''@''"
    using * by (cases s) (auto simp: HasPrefix_def safeComponent_def safe_char_def is_alnum_def)
  with * show ?thesis by (simp add: encodeComponent_def)
qed

lemma plain_encodeComponent:
  assumes "s \<noteq> []" "s \<noteq> ''.''" "s \<noteq> ''..''"
  shows "plain_part (encodeComponent s)"
proof -
  have "encodeComponent ''.'' = ''.''" "encodeComponent ''..'' = ''..''"
    by (simp_all add: encodeComponent_safe safeComponent_def safe_char_def)
  then have "encodeComponent s \<noteq> ''.''" "encodeComponent s \<noteq> ''..''"
    using assms encodeComponent_inj by metis+
  with assms show ?thesis by (simp add: plain_part_def encodeComponent_chars)
qed

section \<open>The normal form of a key\<close>

text \<open>Relative cleaned paths: some \<open>..\<close> followed by plain components.\<close>

definition canon :: "string list \<Rightarrow> bool" where
  "canon ps \<longleftrightarrow> (\<exists>k qs. ps = replicate k ''..'' @ qs \<and> (\<forall>q \<in> set qs. plain_part q))"

lemma plain_dotdot [simp]: "\<not> plain_part ''..''"
  by (simp add: plain_part_def)

lemma canon_append: "canon ps \<Longrightarrow> \<forall>q \<in> set qs. plain_part q \<Longrightarrow> canon (ps @ qs)"
proof -
  assume "canon ps" and qs: "\<forall>q \<in> set qs. plain_part q"
  then obtain k rs where ps: "ps = replicate k ''..'' @ rs" and rs: "\<forall>q \<in> set rs. plain_part q"
    by (auto simp: canon_def)
  show "canon (ps @ qs)"
    unfolding canon_def using ps rs qs by (intro exI [of _ k] exI [of _ "rs @ qs"]) auto
qed

lemma clean_step_up: "clean_step False ''..'' (replicate k ''..'') = replicate (Suc k) ''..''"
  by (cases k) auto

declare clean_step.simps [simp del]

lemma clean_step_skip: "p = [] \<or> p = ''.'' \<Longrightarrow> clean_step rooted p stack = stack"
  by (simp add: clean_step.simps)

lemma clean_step_pop: "q \<noteq> ''..'' \<Longrightarrow> clean_step rooted ''..'' (q # stack) = stack"
  by (simp add: clean_step.simps)

lemma canon_clean_step:
  assumes "canon (rev stack)" and "CHR ''/'' \<notin> set p"
  shows "canon (rev (clean_step False p stack))"
proof -
  obtain k qs where st: "rev stack = replicate k ''..'' @ qs" and qs: "\<forall>q \<in> set qs. plain_part q"
    using assms(1) by (auto simp: canon_def)
  consider (skip) "p = [] \<or> p = ''.''" | (up) "p = ''..''" | (plain) "plain_part p"
    using assms(2) by (auto simp: plain_part_def)
  then show ?thesis
  proof cases
    case skip
    with assms(1) show ?thesis by (simp add: clean_step_skip)
  next
    case plain
    then show ?thesis using canon_append [OF assms(1), of "[p]"]
      by (simp add: clean_step_plain)
  next
    case up
    show ?thesis
    proof (cases qs rule: rev_cases)
      case Nil
      with st have "stack = replicate k ''..''" by (metis append_Nil2 rev_replicate rev_rev_ident)
      with up have "clean_step False p stack = replicate (Suc k) ''..''" by (simp only: clean_step_up)
      then have "rev (clean_step False p stack) = replicate (Suc k) ''..'' @ []" by (metis append_Nil2 rev_replicate)
      then show ?thesis unfolding canon_def
        by (intro exI [of _ "Suc k"] exI [of _ "[]"]) (simp only: list.set ball_simps simp_thms)
    next
      case (snoc rs q)
      with st have "stack = q # rev (replicate k ''..'' @ rs)"
        by (metis append.assoc rev_append rev_rev_ident append_Cons append_Nil rev.simps(1) rev.simps(2))
      moreover have "q \<noteq> ''..''" using qs snoc by auto
      ultimately have "rev (clean_step False p stack) = replicate k ''..'' @ rs"
        using up by (simp add: clean_step_pop)
      with qs snoc show ?thesis by (auto simp: canon_def)
    qed
  qed
qed

lemma canon_clean_parts:
  "canon (rev stack) \<Longrightarrow> \<forall>p \<in> set ps. CHR ''/'' \<notin> set p \<Longrightarrow> canon (rev (clean_parts False stack ps))"
  unfolding clean_parts_def
  by (induction ps arbitrary: stack) (auto simp: canon_clean_step)

lemma clean_parts_canon:
  assumes "canon ps"
  shows "clean_parts False [] ps = rev ps"
proof -
  obtain k qs where ps: "ps = replicate k ''..'' @ qs" and qs: "\<forall>q \<in> set qs. plain_part q"
    using assms by (auto simp: canon_def)
  have "(clean_step False ''..'' ^^ k) [] = replicate k ''..''"
    by (induction k) (simp_all add: clean_step_up [simplified])
  then have "clean_parts False [] (replicate k ''..'') = replicate k ''..''"
    by (simp add: clean_parts_def)
  with qs show ?thesis by (simp add: ps clean_parts_append clean_parts_plain)
qed

text \<open>The components of a relative path after cleaning.\<close>

definition comps :: "string \<Rightarrow> string list" where
  "comps s = rev (clean_parts False [] (split_on (CHR ''/'') s))"

lemma canon_Nil: "canon []"
  by (simp add: canon_def)

lemma canon_comps: "canon (comps s)"
  unfolding comps_def
  by (rule canon_clean_parts) (auto simp: canon_Nil dest: split_on_parts_no_sep)

lemma canon_parts: "canon ps \<Longrightarrow> p \<in> set ps \<Longrightarrow> p \<noteq> [] \<and> CHR ''/'' \<notin> set p"
proof -
  assume "canon ps" and "p \<in> set ps"
  then have "p = ''..'' \<or> plain_part p" unfolding canon_def by force
  then show ?thesis by (auto simp: plain_part_def)
qed

lemma comps_join: "canon ps \<Longrightarrow> ps \<noteq> [] \<Longrightarrow> comps (join_with (CHR ''/'') ps) = ps"
proof -
  assume ps: "canon ps" "ps \<noteq> []"
  then have "split_on (CHR ''/'') (join_with (CHR ''/'') ps) = ps"
    using canon_parts by (intro split_join) blast+
  then show "comps (join_with (CHR ''/'') ps) = ps"
    using clean_parts_canon [OF ps(1)] by (simp add: comps_def)
qed

lemma comps_Nil [simp]: "comps [] = []"
  by (simp add: comps_def clean_parts_def clean_step_skip)

lemma HasPrefix_join:
  assumes "canon ps" "ps \<noteq> []"
  shows "\<not> HasPrefix (join_with (CHR ''/'') ps) ''/''"
proof -
  obtain p rest where ps: "ps = p # rest" using assms(2) by (cases ps) auto
  with canon_parts [OF assms(1), of p] obtain c cs where "p = c # cs" "c \<noteq> CHR ''/''"
    by (cases p) auto
  with ps show ?thesis by (cases rest) (auto simp: HasPrefix_def)
qed

lemma join_with_not_Nil: "canon ps \<Longrightarrow> ps \<noteq> [] \<Longrightarrow> join_with c ps \<noteq> []"
  using canon_parts by (cases "(c, ps)" rule: join_with.cases) auto

text \<open>Joining a relative path and plain components appends the components.\<close>

lemma path_Join_plain:
  assumes x: "\<not> HasPrefix x ''/''" and ps: "\<forall>p \<in> set ps. plain_part p" "ps \<noteq> []"
  shows "path_Join (x # ps) = join_with (CHR ''/'') (comps x @ ps)"
proof -
  have ne: "filter (\<lambda>e. e \<noteq> []) ps = ps" using ps by (auto simp: plain_part_def filter_id_conv)
  have clean: "clean_parts False [] (split_on (CHR ''/'') y) = rev (comps x @ ps)"
    and nor: "\<not> HasPrefix y ''/''"
    if "y = join_with (CHR ''/'') (filter (\<lambda>e. e \<noteq> []) (x # ps))" for y
  proof -
    have split_ps: "split_on (CHR ''/'') (join_with (CHR ''/'') ps) = ps"
      using ps by (intro split_join) (auto simp: plain_part_def)
    have cps: "canon ps" using canon_append [OF canon_Nil ps(1)] by simp
    show "clean_parts False [] (split_on (CHR ''/'') y) = rev (comps x @ ps)"
    proof (cases "x = []")
      case True
      then show ?thesis using that ne split_ps clean_parts_canon [OF cps] by simp
    next
      case False
      then have "y = x @ CHR ''/'' # join_with (CHR ''/'') ps"
        using that ne ps by (simp add: join_with_Cons)
      then show ?thesis
        using split_ps ps by (simp add: split_on_append clean_parts_append clean_parts_plain comps_def)
    qed
    show "\<not> HasPrefix y ''/''"
    proof (cases "x = []")
      case True
      then show ?thesis using that ne HasPrefix_join [OF cps ps(2)] by simp
    next
      case False
      then show ?thesis using that ne x ps by (cases x) (auto simp: HasPrefix_def join_with_Cons)
    qed
  qed
  let ?y = "join_with (CHR ''/'') (filter (\<lambda>e. e \<noteq> []) (x # ps))"
  have "join_with (CHR ''/'') (comps x @ ps) \<noteq> []"
    using canon_append [OF canon_comps ps(1), of x] ps(2) by (intro join_with_not_Nil) auto
  moreover have "filter (\<lambda>e. e \<noteq> []) (x # ps) \<noteq> []" using ne ps(2) by auto
  ultimately show ?thesis
    using clean [OF refl] nor [OF refl] by (simp add: path_Join_def path_Clean_def Let_def)
qed

section \<open>Snapshot keys\<close>

lemma TrimChar_no_prefix: "\<not> HasPrefix (TrimChar (CHR ''/'') s) ''/''"
proof -
  define u where "u = dropWhile (\<lambda>x. x = CHR ''/'') s"
  have u: "u = [] \<or> hd u \<noteq> CHR ''/''" 
    unfolding u_def using hd_dropWhile [of "\<lambda>x. x = CHR ''/''" s] by blast
  define v where "v = rev (takeWhile (\<lambda>x. x = CHR ''/'') (rev u))"
  have "TrimChar (CHR ''/'') s @ v = u"
    unfolding TrimChar_def u_def [symmetric] v_def by (simp only: rev_append [symmetric] takeWhile_dropWhile_id rev_rev_ident)
  with u show ?thesis by (cases "TrimChar (CHR ''/'') s") (auto simp: HasPrefix_def)
qed

lemma path_Clean_relative:
  assumes "\<not> HasPrefix s ''/''"
  shows "\<not> HasPrefix (path_Clean s) ''/''"
proof (cases "comps s = []")
  case True
  with assms show ?thesis by (simp add: path_Clean_def comps_def Let_def HasPrefix_def)
next
  case False
  with HasPrefix_join [OF canon_comps False] join_with_not_Nil [OF canon_comps False, of "CHR ''/''"] assms
  show ?thesis by (simp add: path_Clean_def comps_def Let_def)
qed

lemma path_Join_relative:
  assumes "\<not> HasPrefix x ''/''" and "y \<noteq> []" and "CHR ''/'' \<notin> set y"
  shows "\<not> HasPrefix (path_Join (x # y # rest)) ''/''"
proof -
  obtain z where "join_with (CHR ''/'') (filter (\<lambda>e. e \<noteq> []) (x # y # rest)) =
      (if x = [] then y else x) @ z"
  proof (cases "filter (\<lambda>e. e \<noteq> []) rest = []")
    case True
    show ?thesis by (rule that [of "if x = [] then [] else CHR ''/'' # y"]) (use True assms in simp)
  next
    case False
    show ?thesis
      by (rule that [of "if x = [] then CHR ''/'' # join_with (CHR ''/'') (filter (\<lambda>e. e \<noteq> []) rest)
             else CHR ''/'' # join_with (CHR ''/'') (y # filter (\<lambda>e. e \<noteq> []) rest)"])
        (use False assms in \<open>simp add: join_with_Cons\<close>)
  qed
  moreover have "\<not> HasPrefix ((if x = [] then y else x) @ z) ''/''"
    using assms by (cases x; cases y) (auto simp: HasPrefix_def)
  ultimately show ?thesis
    using assms(2) path_Clean_relative by (simp add: path_Join_def Let_def)
qed

lemma DatasetPrefix_relative: "\<not> HasPrefix (DatasetPrefix b source pool dataset) ''/''"
  unfolding DatasetPrefix_def append_Cons
  by (rule path_Join_relative) (auto simp: TrimChar_no_prefix)

lemma SnapshotPrefix_relative: "\<not> HasPrefix (SnapshotPrefix b source pool dataset snapshot) ''/''"
  unfolding SnapshotPrefix_def
  by (rule path_Join_relative) (auto simp: DatasetPrefix_relative)

lemma fmt_d012_chars: "c \<in> set (fmt_d012 i) \<Longrightarrow> c = CHR ''-'' \<or> (\<exists>d < 10. c = digit_char d)"
proof -
  have dig: "\<exists>d < 10. c = digit_char d" if "c \<in> set (pad0 w (show_nat n))" for w n
  proof -
    have "c = CHR ''0'' \<or> c \<in> set (show_base 10 n)"
      using that set_pad0 [of w "show_nat n"] by (auto simp: show_nat_def)
    moreover have "CHR ''0'' = digit_char 0" by code_simp
    ultimately consider "c = digit_char 0" | "c \<in> set (show_base 10 n)" by auto
    then show ?thesis
    proof cases
      case 1
      then show ?thesis by (intro exI [of _ 0]) simp
    next
      case 2
      then show ?thesis using show_base_digits [of 10 c n] by simp
    qed
  qed
  then show "c \<in> set (fmt_d012 i) \<Longrightarrow> c = CHR ''-'' \<or> (\<exists>d < 10. c = digit_char d)"
    by (auto simp: fmt_d012_def split: if_splits)
qed

lemma fmt_d012_no_slash: "CHR ''/'' \<notin> set (fmt_d012 i)"
proof
  assume "CHR ''/'' \<in> set (fmt_d012 i)"
  then obtain d where "d < 10" and "CHR ''/'' = digit_char d"
    using fmt_d012_chars [of "CHR ''/''" i] by auto
  then have "of_char (CHR ''/'') = (48 + d :: nat)" by simp
  then show False by simp
qed

lemma plain_chunk_name: "plain_part (fmt_d012 i @ ''.zfschunk'')"
  using fmt_d012_no_slash [of i] by (auto simp: plain_part_def append_eq_Cons_conv)

lemma plain_literals:
  "plain_part ''sources''" "plain_part ''pools''" "plain_part ''datasets''"
  "plain_part ''@snapshots''" "plain_part ''chunks''" "plain_part ''manifest.json''"
  by (simp_all add: plain_part_def)

text \<open>Whatever the names, a chunk or manifest key is the cleaned prefix and its own last parts.\<close>

lemma ChunkKey_parts:
  "ChunkKey b source pool dataset snapshot index =
     join_with (CHR ''/'')
       (comps (SnapshotPrefix b source pool dataset snapshot) @
        [''chunks'', fmt_d012 index @ ''.zfschunk''])"
  unfolding ChunkKey_def
  by (rule path_Join_plain) (auto simp: SnapshotPrefix_relative plain_literals plain_chunk_name)

lemma ManifestKey_parts:
  "ManifestKey b source pool dataset snapshot =
     join_with (CHR ''/'')
       (comps (SnapshotPrefix b source pool dataset snapshot) @ [''manifest.json''])"
  unfolding ManifestKey_def
  by (rule path_Join_plain) (auto simp: SnapshotPrefix_relative plain_literals)

lemma join_canon_inj:
  assumes "canon ps" "ps \<noteq> []" "canon qs" "qs \<noteq> []"
    and "join_with (CHR ''/'') ps = join_with (CHR ''/'') qs"
  shows "ps = qs"
proof -
  have "comps (join_with (CHR ''/'') ps) = comps (join_with (CHR ''/'') qs)" by (simp add: assms(5))
  then show ?thesis using assms(1-4) by (simp add: comps_join)
qed

lemma canon_ChunkKey:
  "canon (comps x @ [''chunks'', fmt_d012 index @ ''.zfschunk''])"
  by (rule canon_append [OF canon_comps]) (auto simp: plain_literals plain_chunk_name)

lemma canon_ManifestKey: "canon (comps x @ [''manifest.json''])"
  by (rule canon_append [OF canon_comps]) (auto simp: plain_literals)

lemma ChunkKey_index_inj:
  assumes "0 \<le> i" "0 \<le> j"
    and "ChunkKey b source pool dataset snapshot i = ChunkKey b source pool dataset snapshot j"
  shows "i = j"
proof -
  have "fmt_d012 i @ ''.zfschunk'' = fmt_d012 j @ ''.zfschunk''"
    using join_canon_inj [OF canon_ChunkKey _ canon_ChunkKey _ assms(3) [unfolded ChunkKey_parts]]
    by simp
  then have "fmt_d012 i = fmt_d012 j" by simp
  then show ?thesis using assms(1,2) fmt_d012_inj by blast
qed

lemma path_Base_ManifestKey: "path_Base (ManifestKey b source pool dataset snapshot) = ''manifest.json''"
proof (cases "comps (SnapshotPrefix b source pool dataset snapshot) = []")
  case True
  then show ?thesis by (simp add: ManifestKey_parts path_Base_def)
next
  case False
  then show ?thesis
    using path_Base_join [OF plain_literals(6)]
    by (simp add: ManifestKey_parts join_with_append)
qed

lemma path_Base_ChunkKey:
  "path_Base (ChunkKey b source pool dataset snapshot index) = fmt_d012 index @ ''.zfschunk''"
proof -
  let ?x = "comps (SnapshotPrefix b source pool dataset snapshot)"
  have "ChunkKey b source pool dataset snapshot index =
      join_with (CHR ''/'') (?x @ [''chunks'']) @ CHR ''/'' # fmt_d012 index @ ''.zfschunk''"
    using join_with_append [of "?x @ [''chunks'']" "[fmt_d012 index @ ''.zfschunk'']" "CHR ''/''"]
    by (simp add: ChunkKey_parts)
  then show ?thesis using path_Base_join [OF plain_chunk_name] by simp
qed

lemma chunk_name_not_manifest: "fmt_d012 index @ ''.zfschunk'' \<noteq> ''manifest.json''"
proof
  assume "fmt_d012 index @ ''.zfschunk'' = ''manifest.json''"
  then have "rev (fmt_d012 index @ ''.zfschunk'') = rev ''manifest.json''" by (rule arg_cong)
  then show False by simp
qed

lemma ChunkKey_not_ManifestKey:
  "ChunkKey b source pool dataset snapshot index \<noteq> ManifestKey b' source' pool' dataset' snapshot'"
  using path_Base_ChunkKey path_Base_ManifestKey chunk_name_not_manifest by metis

section \<open>Keys identify snapshots\<close>

definition proper_name :: "string \<Rightarrow> bool" where
  "proper_name s \<longleftrightarrow> s \<noteq> [] \<and> s \<noteq> ''.'' \<and> s \<noteq> ''..''"

definition dataset_parts :: "string \<Rightarrow> string list" where
  "dataset_parts dataset = filter (\<lambda>part. part \<noteq> []) (split_on (CHR ''/'') dataset)"

definition proper_id :: "string \<Rightarrow> string \<Rightarrow> string \<Rightarrow> string \<Rightarrow> bool" where
  "proper_id source pool dataset snapshot \<longleftrightarrow>
     proper_name source \<and> proper_name pool \<and> proper_name snapshot \<and>
     list_all proper_name (dataset_parts dataset)"

lemma comps_SnapshotPrefix:
  assumes "proper_id source pool dataset snapshot"
  shows "comps (SnapshotPrefix b source pool dataset snapshot) =
    comps (TrimChar (CHR ''/'') (RootPrefix b)) @
      [''sources'', encodeComponent source, ''pools'', encodeComponent pool, ''datasets''] @
      map encodeComponent (dataset_parts dataset) @ [''@snapshots'', encodeComponent snapshot]"
proof -
  let ?r = "TrimChar (CHR ''/'') (RootPrefix b)"
  let ?ps = "[''sources'', encodeComponent source, ''pools'', encodeComponent pool, ''datasets''] @
      map encodeComponent (dataset_parts dataset)"
  have ps: "\<forall>p \<in> set ?ps. plain_part p"
    using assms
    by (auto simp: proper_id_def proper_name_def plain_encodeComponent plain_literals list_all_iff)
  have "DatasetPrefix b source pool dataset = path_Join (?r # ?ps)"
    by (simp add: DatasetPrefix_def dataset_parts_def)
  also have "\<dots> = join_with (CHR ''/'') (comps ?r @ ?ps)"
    by (rule path_Join_plain [OF TrimChar_no_prefix ps]) simp
  finally have dp: "comps (DatasetPrefix b source pool dataset) = comps ?r @ ?ps"
    using comps_join [OF canon_append [OF canon_comps [of ?r] ps]] by simp
  have ss: "\<forall>p \<in> set [''@snapshots'', encodeComponent snapshot]. plain_part p"
    using assms by (auto simp: proper_id_def proper_name_def plain_encodeComponent plain_literals)
  have "SnapshotPrefix b source pool dataset snapshot =
      join_with (CHR ''/'') (comps (DatasetPrefix b source pool dataset) @
        [''@snapshots'', encodeComponent snapshot])"
    unfolding SnapshotPrefix_def by (rule path_Join_plain [OF DatasetPrefix_relative ss]) simp
  then have "comps (SnapshotPrefix b source pool dataset snapshot) =
      comps (DatasetPrefix b source pool dataset) @ [''@snapshots'', encodeComponent snapshot]"
    using canon_append [OF canon_comps ss] by (simp add: comps_join)
  then show ?thesis by (simp add: dp)
qed

lemma snapshots_marker_split:
  assumes "xs @ m # ys = xs' @ m # ys'" and "m \<notin> set xs" and "m \<notin> set xs'"
  shows "xs = xs' \<and> ys = ys'"
  using assms
proof (induction xs arbitrary: xs')
  case Nil
  then show ?case by (cases xs') auto
next
  case (Cons x xs)
  then show ?case by (cases xs') auto
qed

lemma SnapshotPrefix_comps_inj:
  assumes "proper_id source pool dataset snapshot" and "proper_id source' pool' dataset' snapshot'"
    and "comps (SnapshotPrefix b source pool dataset snapshot) =
         comps (SnapshotPrefix b source' pool' dataset' snapshot')"
  shows "source = source' \<and> pool = pool' \<and> dataset_parts dataset = dataset_parts dataset' \<and>
         snapshot = snapshot'"
proof -
  have at: "''@snapshots'' \<notin> set (map encodeComponent xs)" for xs
    using encodeComponent_chars(2) by auto (metis list.set_intros(1))
  have "map encodeComponent (dataset_parts dataset) @ [''@snapshots'', encodeComponent snapshot] =
        map encodeComponent (dataset_parts dataset') @ [''@snapshots'', encodeComponent snapshot']"
    and *: "source = source'" "pool = pool'"
    using assms(3) by (simp_all add: comps_SnapshotPrefix [OF assms(1)] comps_SnapshotPrefix [OF assms(2)])
  then have "map encodeComponent (dataset_parts dataset) = map encodeComponent (dataset_parts dataset')
      \<and> [encodeComponent snapshot] = [encodeComponent snapshot']"
    by (intro snapshots_marker_split [OF _ at at]) simp
  then have "dataset_parts dataset = dataset_parts dataset'" "snapshot = snapshot'"
    by (auto intro: map_inj_on simp: inj_on_def)
  with * show ?thesis by simp
qed

text \<open>A \<open>.\<close> component disappears in \<open>path.Join\<close>.\<close>

lemma split_on_join_with:
  "es \<noteq> [] \<Longrightarrow> split_on c (join_with c es) = concat (map (split_on c) es)"
proof (induction es)
  case (Cons e es)
  then show ?case by (cases "es = []") (simp_all add: join_with_Cons split_on_append)
qed simp

lemma HasPrefix_join_Cons: "a \<noteq> [] \<Longrightarrow> HasPrefix (join_with c (a # as)) [x] \<longleftrightarrow> HasPrefix a [x]"
  by (cases a; cases as) (auto simp: HasPrefix_def)

lemma path_Join_dot:
  assumes "filter (\<lambda>e. e \<noteq> []) xs \<noteq> []"
  shows "path_Join (xs @ ''.'' # ys) = path_Join (xs @ ys)"
proof -
  obtain a as where as: "filter (\<lambda>e. e \<noteq> []) xs = a # as" using assms by (cases "filter (\<lambda>e. e \<noteq> []) xs") auto
  then have "a \<in> set (filter (\<lambda>e. e \<noteq> []) xs)" by simp
  then have a: "a \<noteq> []" by simp
  define zs where "zs = filter (\<lambda>e. e \<noteq> []) ys"
  have dot: "split_on (CHR ''/'') ''.'' = [''.'']" by simp
  have same: "clean_parts r [] (split_on (CHR ''/'') (join_with (CHR ''/'') (a # as @ ''.'' # zs))) =
      clean_parts r [] (split_on (CHR ''/'') (join_with (CHR ''/'') (a # as @ zs)))" for r
    by (simp add: split_on_join_with dot clean_parts_append del: split_on.simps)
       (simp add: clean_parts_def clean_step_skip)
  have "path_Clean (join_with (CHR ''/'') (a # as @ ''.'' # zs)) =
        path_Clean (join_with (CHR ''/'') (a # as @ zs))"
    by (simp only: path_Clean_def HasPrefix_join_Cons [OF a] same)
  then show ?thesis by (simp add: path_Join_def Let_def as zs_def)
qed

lemma DatasetPrefix_dot:
  "DatasetPrefix b source pool (d @ ''/./'' @ e) = DatasetPrefix b source pool (d @ ''/'' @ e)"
proof -
  let ?f = "\<lambda>ds. map encodeComponent (filter (\<lambda>part. part \<noteq> []) ds)"
  let ?xs = "[TrimChar (CHR ''/'') (RootPrefix b), ''sources'', encodeComponent source, ''pools'',
      encodeComponent pool, ''datasets''] @ ?f (split_on (CHR ''/'') d)"
  have dot: "encodeComponent ''.'' = ''.''"
    by (simp add: encodeComponent_safe safeComponent_def safe_char_def)
  have "split_on (CHR ''/'') (''.'' @ CHR ''/'' # e) = ''.'' # split_on (CHR ''/'') e"
    by (rule split_on_append_sep) simp
  then have "DatasetPrefix b source pool (d @ ''/./'' @ e) =
      path_Join (?xs @ ''.'' # ?f (split_on (CHR ''/'') e))"
    by (simp add: DatasetPrefix_def split_on_append dot del: split_on.simps)
  also have "\<dots> = path_Join (?xs @ ?f (split_on (CHR ''/'') e))"
    by (rule path_Join_dot) simp
  also have "\<dots> = DatasetPrefix b source pool (d @ ''/'' @ e)"
    by (simp add: DatasetPrefix_def split_on_append del: split_on.simps)
  finally show ?thesis .
qed

section \<open>Properties\<close>

text \<open>C22. Chunk keys identify snapshots: for two identities none of whose components is empty,
  \<open>.\<close> or \<open>..\<close>, the same key means the same source, pool, dataset components, snapshot and
  chunk index, whatever the root prefix.\<close>

theorem ChunkKey_identifies:
  assumes "proper_id source pool dataset snapshot" and "proper_id source' pool' dataset' snapshot'"
    and "0 \<le> i" and "0 \<le> j"
    and "ChunkKey b source pool dataset snapshot i = ChunkKey b source' pool' dataset' snapshot' j"
  shows "source = source' \<and> pool = pool' \<and> dataset_parts dataset = dataset_parts dataset' \<and>
         snapshot = snapshot' \<and> i = j"
proof -
  have "comps (SnapshotPrefix b source pool dataset snapshot) @ [''chunks'', fmt_d012 i @ ''.zfschunk''] =
        comps (SnapshotPrefix b source' pool' dataset' snapshot') @ [''chunks'', fmt_d012 j @ ''.zfschunk'']"
    by (rule join_canon_inj [OF canon_ChunkKey _ canon_ChunkKey _ assms(5) [unfolded ChunkKey_parts]]) simp_all
  then have "comps (SnapshotPrefix b source pool dataset snapshot) =
             comps (SnapshotPrefix b source' pool' dataset' snapshot')"
    and "fmt_d012 i = fmt_d012 j" by auto
  then show ?thesis
    using SnapshotPrefix_comps_inj [OF assms(1,2)] fmt_d012_inj [OF assms(3,4)] by simp
qed

theorem ChunkKey_identifies_witness:
  "proper_id ''nas'' ''tank'' ''home/photos'' ''@odd name'' \<and>
   proper_id ''nas'' ''tank'' ''home/photos/'' ''@odd name'' \<and>
   (ChunkKey \<lparr>RootPrefix = ''zfs-s3nd/v1''\<rparr> ''nas'' ''tank'' ''home/photos'' ''@odd name'' 0 =
    ChunkKey \<lparr>RootPrefix = ''zfs-s3nd/v1''\<rparr> ''nas'' ''tank'' ''home/photos/'' ''@odd name'' 0) \<and>
   dataset_parts ''home/photos'' = dataset_parts ''home/photos/''"
proof -
  have p: "proper_id ''nas'' ''tank'' ''home/photos'' ''@odd name''"
    "proper_id ''nas'' ''tank'' ''home/photos/'' ''@odd name''"
    by (simp_all add: proper_id_def proper_name_def dataset_parts_def)
  have k: "ChunkKey \<lparr>RootPrefix = ''zfs-s3nd/v1''\<rparr> ''nas'' ''tank'' ''home/photos'' ''@odd name'' 0 =
    ChunkKey \<lparr>RootPrefix = ''zfs-s3nd/v1''\<rparr> ''nas'' ''tank'' ''home/photos/'' ''@odd name'' 0"
    by (simp add: ChunkKey_def SnapshotPrefix_def DatasetPrefix_def)
  show ?thesis using p k ChunkKey_identifies [OF p _ _ k] by simp
qed

text \<open>A \<open>.\<close> component of the dataset is lost in the key: chunk and manifest keys of
  \<open>d/./e\<close> are those of \<open>d/e\<close>, so the two datasets share their objects.\<close>

theorem dot_components_collide:
  "ChunkKey b source pool (d @ ''/./'' @ e) snapshot i = ChunkKey b source pool (d @ ''/'' @ e) snapshot i \<and>
   ManifestKey b source pool (d @ ''/./'' @ e) snapshot = ManifestKey b source pool (d @ ''/'' @ e) snapshot"
  by (simp only: ChunkKey_def ManifestKey_def SnapshotPrefix_def DatasetPrefix_dot simp_thms)

end
