(* ===== verification/Catalog_Backup.thy ===== *)
theory Catalog_Backup
  imports Catalog_Repository Storage_Keys
begin

text \<open>
  Backups of the catalog itself (\<open>src/internal/catalogbackup/backup.go\<close>): a copy of the database is
  put into the object store with a metadata object beside it, a row records it, and backups past the
  retention are removed. What SQLite and the file system do is a parameter: \<open>be_vacuum\<close> is the file
  \<open>VACUUM INTO\<close> writes for a catalog, \<open>be_ReadFile\<close> what reading it gives. The clock of the runner is the
  clock of the world, and the removal of the temporary file at the end is not modelled.
\<close>

section \<open>Definitions\<close>

record BackupRunner =
  br_Catalog :: bool
  br_Repo :: bool
  br_Store :: bool
  br_Keys :: KeyBuilder
  br_TempDir :: string
  br_Retention :: int

record backup_env =
  be_MkdirAll :: "string \<Rightarrow> error option"
  be_TempDir :: string
  be_vacuum :: "catalog \<Rightarrow> bytes"
  be_ReadFile :: "bytes \<Rightarrow> error + bytes"

record backup_Result =
  bk_BackupID :: string
  bk_OperationID :: string
  bk_ObjectKey :: string
  bk_MetadataObjectKey :: string
  bk_SizeBytes :: int
  bk_ChecksumSHA256 :: string
  bk_StartedAt :: string
  bk_CompletedAt :: string

definition DefaultRetention :: int where
  "DefaultRetention = 30 * 24 * 3600 * 1000000000"

definition backupObjectKey :: "BackupRunner \<Rightarrow> int \<Rightarrow> string \<Rightarrow> string \<Rightarrow> string" where
  "backupObjectKey r t backupID ext =
     (let pre = TrimChar (CHR ''/'') (CatalogBackupPrefix (br_Keys r)) in
      pre @ ''/'' @ fmt_width 4 (Year t) @ ''/'' @ fmt_width 2 (Month t) @ ''/'' @ fmt_width 2 (Day t) @ ''/'' @
      format_compact t @ ''-'' @ backupID @ ext)"

subsection \<open>Expired backups\<close>

definition expire_object :: "'s Store \<Rightarrow> string \<Rightarrow> string \<Rightarrow> string \<Rightarrow> ('s world, unit) prog" where
  "expire_object S what rid key =
     (if key \<noteq> []
      then check (store_call (Delete S key))
        (\<lambda>e. throw (Wrapf (msg ''delete expired catalog backup %s '' @ what @ msg '' %s: %w'') [rid, key] e)) ok
      else ok ())"

definition expire_backup :: "'s Store \<Rightarrow> CatalogBackupRef \<Rightarrow> ('s world, unit) prog" where
  "expire_backup S backup =
     check (expire_object S ''object'' (bf_ID backup) (bf_ObjectKey backup)) throw (\<lambda>_.
     check (expire_object S ''metadata'' (bf_ID backup) (bf_MetadataObjectKey backup)) throw (\<lambda>_.
     check (DeleteCatalogBackup (bf_ID backup))
       (\<lambda>e. throw (Wrapf (msg ''delete expired catalog backup row %s: %w'') [bf_ID backup] e)) ok))"

text \<open>One round of the loop per unit of fuel. The cutoff is in milliseconds, as the column is.\<close>

fun cleanup_rounds :: "nat \<Rightarrow> 's Store \<Rightarrow> int \<Rightarrow> ('s world, unit) prog" where
  "cleanup_rounds 0 S cutoff = throw Diverges"
| "cleanup_rounds (Suc fuel) S cutoff =
     check (ListCatalogBackupsOlderThan cutoff 100)
       (\<lambda>e. throw (Wrapf (msg ''list expired catalog backups: %w'') [] e)) (\<lambda>backups.
     if backups = [] then ok ()
     else check (for_each (expire_backup S) backups) throw (\<lambda>_. cleanup_rounds fuel S cutoff))"

text \<open>Rounds that are always enough: every round but the last one removes a row.\<close>

definition cleanupExpired :: "'s Store \<Rightarrow> int \<Rightarrow> ('s world, unit) prog" where
  "cleanupExpired S cutoff =
     State (\<lambda>w. run_state (cleanup_rounds (Suc (length (catalog_backups (wCat w)))) S cutoff) w)"

subsection \<open>A run\<close>

definition vacuum_into :: "backup_env \<Rightarrow> ('s world, bytes) prog" where
  "vacuum_into E = db_query (\<lambda>now c. Inr (be_vacuum E c))"

definition backup_fail :: "string \<Rightarrow> error \<Rightarrow> ('s world, 'a) prog" where
  "backup_fail operationID cause =
     State_Monad.bind (FailCatalogBackupOperation operationID cause) (\<lambda>_. throw cause)"

text \<open>The copy of the database, read back from its file.\<close>

definition backup_data :: "backup_env \<Rightarrow> BackupRunner \<Rightarrow> ('s world, bytes) prog" where
  "backup_data E r =
     (let tempDir = (if br_TempDir r = [] then be_TempDir E else br_TempDir r) in
      case be_MkdirAll E tempDir of
        Some e \<Rightarrow> throw (Wrapf (msg ''create temp dir: %w'') [] e)
      | None \<Rightarrow>
          check (vacuum_into E) (\<lambda>e. throw (Wrapf (msg ''vacuum catalog into backup: %w'') [] e)) (\<lambda>file.
          case be_ReadFile E file of
            Inl e \<Rightarrow> throw (Wrapf (msg ''read catalog backup: %w'') [] e)
          | Inr data \<Rightarrow> ok data))"

definition put_backup :: "'s Store \<Rightarrow> (bytes \<Rightarrow> bytes) \<Rightarrow> string \<Rightarrow> bytes \<Rightarrow> ('s world, unit) prog" where
  "put_backup S sha key data =
     check (store_call (PutBytes S key data)) (\<lambda>e. throw (Wrapf (msg ''upload catalog backup: %w'') [] e)) (\<lambda>info.
     if oi_Size info \<noteq> int (length data)
     then throw (Errorf (msg ''catalog backup persisted size mismatch: got %d want %d'')
            [show_int (oi_Size info), show_nat (length data)])
     else if oi_SHA256 info \<noteq> [] \<and> oi_SHA256 info \<noteq> sha_hex sha data
     then throw (Errorf (msg ''catalog backup checksum mismatch: got %s want %s'') [oi_SHA256 info, sha_hex sha data])
     else ok ())"

definition put_metadata :: "'s Store \<Rightarrow> string \<Rightarrow> bytes \<Rightarrow> ('s world, unit) prog" where
  "put_metadata S key data =
     check (store_call (PutBytes S key data))
       (\<lambda>e. throw (Wrapf (msg ''upload catalog backup metadata: %w'') [] e)) (\<lambda>info.
     if oi_Size info \<noteq> int (length data)
     then throw (Errorf (msg ''catalog backup metadata persisted size mismatch: got %d want %d'')
            [show_int (oi_Size info), show_nat (length data)])
     else ok ())"

text \<open>The metadata and the row, once the copy is in the store.\<close>

definition backup_finish ::
  "'s Store \<Rightarrow> (bytes \<Rightarrow> bytes) \<Rightarrow> (backup_Result \<Rightarrow> error + bytes) \<Rightarrow> BackupRunner \<Rightarrow> int \<Rightarrow> string \<Rightarrow> string \<Rightarrow> bytes \<Rightarrow>
   ('s world, backup_Result \<times> int) prog" where
  "backup_finish S sha encode r started backupID operationID data =
     State_Monad.bind time_Now (\<lambda>completed.
     let backupKey = backupObjectKey r started backupID ''.sqlite'';
         metadataKey = backupObjectKey r started backupID ''.json'';
         result = \<lparr>bk_BackupID = backupID, bk_OperationID = operationID, bk_ObjectKey = backupKey,
           bk_MetadataObjectKey = metadataKey, bk_SizeBytes = int (length data), bk_ChecksumSHA256 = sha_hex sha data,
           bk_StartedAt = FormatTime started, bk_CompletedAt = FormatTime completed\<rparr> in
     case encode result of
       Inl e \<Rightarrow> throw (Wrapf (msg ''marshal catalog backup metadata: %w'') [] e)
     | Inr metadataBytes \<Rightarrow>
         check (put_metadata S metadataKey metadataBytes) throw (\<lambda>_.
         check (RecordSucceededCatalogBackup
             \<lparr>br_ID = backupID, br_OperationID = operationID, br_ObjectKey = backupKey, br_MetadataObjectKey = metadataKey,
              br_SizeBytes = bk_SizeBytes result, br_ChecksumSHA256 = sha_hex sha data, br_StartedAt = started div 1000000,
              br_CompletedAt = Some (completed div 1000000), br_Status = BackupSucceeded, br_FailureReason = []\<rparr>
             (msg ''catalog backup succeeded''))
           (\<lambda>e. throw (Wrapf (msg ''record catalog backup success: %w'') [] e)) (\<lambda>_.
         ok (result, completed))))"

text \<open>Everything between the operation row and the clean-up: an error is handed to \<open>backup_fail\<close> by the caller.\<close>

definition backup_body ::
  "'s Store \<Rightarrow> (bytes \<Rightarrow> bytes) \<Rightarrow> (backup_Result \<Rightarrow> error + bytes) \<Rightarrow> backup_env \<Rightarrow> BackupRunner \<Rightarrow> int \<Rightarrow> string \<Rightarrow> string \<Rightarrow>
   ('s world, backup_Result \<times> int) prog" where
  "backup_body S sha encode E r started backupID operationID =
     check (backup_data E r) throw (\<lambda>data.
     check (put_backup S sha (backupObjectKey r started backupID ''.sqlite'') data) throw (\<lambda>_.
     backup_finish S sha encode r started backupID operationID data))"

definition backup_Run ::
  "'s Store \<Rightarrow> (bytes \<Rightarrow> bytes) \<Rightarrow> (backup_Result \<Rightarrow> error + bytes) \<Rightarrow> backup_env \<Rightarrow> BackupRunner \<Rightarrow> ('s world, backup_Result) prog" where
  "backup_Run S sha encode E r =
     (if \<not> br_Catalog r then throw (Errorf (msg ''catalog is required'') [])
      else if \<not> br_Repo r then throw (Errorf (msg ''repo is required'') [])
      else if \<not> br_Store r then throw (Errorf (msg ''store is required'') [])
      else let retention = (if br_Retention r = 0 then DefaultRetention else br_Retention r) in
      State_Monad.bind time_Now (\<lambda>started.
      State_Monad.bind (NewID ''catbak'') (\<lambda>backupID.
      check CreateCatalogBackupOperation
        (\<lambda>e. throw (Wrapf (msg ''create catalog backup operation: %w'') [] e)) (\<lambda>operationID.
      check (backup_body S sha encode E r started backupID operationID) (backup_fail operationID) (\<lambda>(result, completed).
      if retention > 0
      then check (cleanupExpired S ((completed - retention) div 1000000))
        (\<lambda>e. throw (Wrapf (msg ''cleanup expired catalog backups: %w'') [] e)) (\<lambda>_. ok result)
      else ok result)))))"

section \<open>Frames\<close>

lemma expire_backup_keeps [frame_rules]: "keeps cat_ok (expire_backup S b)"
  unfolding expire_backup_def expire_object_def DeleteCatalogBackup_def by (intro frame_rules statement_rules)

lemma cleanup_rounds_keeps [frame_rules]: "keeps cat_ok (cleanup_rounds n S cutoff)"
  by (induction n) (auto simp: ListCatalogBackupsOlderThan_def intro!: frame_rules)

lemma cleanupExpired_keeps [frame_rules]: "keeps cat_ok (cleanupExpired S cutoff)"
  unfolding frame_def
proof
  fix w :: "'a world"
  show "cat_ok w \<longrightarrow> cat_ok (snd (run_state (cleanupExpired S cutoff) w))"
    using cleanup_rounds_keeps [of "Suc (length (catalog_backups (wCat w)))" S cutoff]
    by (simp add: frame_def cleanupExpired_def del: cleanup_rounds.simps)
qed

lemma backup_fail_keeps [frame_rules]: "keeps cat_ok (backup_fail i e)"
  unfolding backup_fail_def FailCatalogBackupOperation_def by (intro frame_rules statement_rules)

lemma backup_body_keeps [frame_rules]: "keeps cat_ok (backup_body S sha encode E r started i j)"
  unfolding backup_body_def backup_finish_def backup_data_def vacuum_into_def put_backup_def put_metadata_def Let_def
    RecordSucceededCatalogBackup_def with_backup_id_def createCatalogBackup_def
  by (intro frame_rules statement_rules)

lemma CreateCatalogBackupOperation_keeps [frame_rules]: "keeps cat_ok CreateCatalogBackupOperation"
  unfolding CreateCatalogBackupOperation_def by (intro frame_rules statement_rules)

lemma backup_Run_keeps [frame_rules]: "keeps cat_ok (backup_Run S sha encode E r)"
  unfolding backup_Run_def Let_def by (intro frame_rules)

section \<open>Expired backups are removed, and the loop ends\<close>

definition ref_keys :: "CatalogBackupRef \<Rightarrow> string set" where
  "ref_keys b = {bf_ObjectKey b, bf_MetadataObjectKey b} - {[]}"

definition backup_ref :: "CatalogBackup \<Rightarrow> CatalogBackupRef" where
  "backup_ref b = \<lparr>bf_ID = cb_ID b, bf_ObjectKey = cb_ObjectKey b,
     bf_MetadataObjectKey = (case cb_MetadataObjectKey b of None \<Rightarrow> [] | Some k \<Rightarrow> k)\<rparr>"

text \<open>The objects a set of backups names.\<close>

definition backup_keys :: "CatalogBackup list \<Rightarrow> string set" where
  "backup_keys rows = (\<Union>b \<in> set rows. ref_keys (backup_ref b))"

definition without :: "string set \<Rightarrow> (string \<Rightarrow> bytes option) \<Rightarrow> string \<Rightarrow> bytes option" where
  "without K v = (\<lambda>k. if k \<in> K then None else v k)"

lemma without_simps [simp]: "without {} v = v" "without K (without L v) = without (K \<union> L) v"
  by (auto simp: without_def)

context object_store
begin

lemma run_expire_object:
  assumes "inv (wObj w)" and "run_state (expire_object S what i key) w = (r, w')"
  shows "inv (wObj w') \<and> wCat w' = wCat w \<and> r \<noteq> Inl Diverges \<and>
    (r = Inr () \<longrightarrow> view (wObj w') = without ({key} - {[]}) (view (wObj w)))"
proof (cases "key = []")
  case True
  then show ?thesis using assms by (auto simp: expire_object_def)
next
  case False
  obtain d t where d: "Delete S key (wObj w) = (d, t)" by (rule prod.exhaust)
  then show ?thesis
    using assms False delete_inv [OF assms(1) d] delete_ok [OF assms(1), of key _ t]
    by (cases d) (auto simp: expire_object_def run_check store_call_def without_def)
qed

lemma run_expire_backup:
  assumes "inv (wObj w)" and "run_state (expire_backup S b) w = (r, w')"
  shows "inv (wObj w') \<and> r \<noteq> Inl Diverges \<and>
    (r = Inr () \<longrightarrow> catalog_backups (wCat w') = filter (\<lambda>x. cb_ID x \<noteq> bf_ID b) (catalog_backups (wCat w)) \<and>
       view (wObj w') = without (ref_keys b) (view (wObj w)))"
proof -
  obtain r1 w1 where 1: "run_state (expire_object S ''object'' (bf_ID b) (bf_ObjectKey b)) w = (r1, w1)" by (rule prod.exhaust)
  obtain r2 w2 where 2: "run_state (expire_object S ''metadata'' (bf_ID b) (bf_MetadataObjectKey b)) w1 = (r2, w2)"
    by (rule prod.exhaust)
  note e1 = run_expire_object [OF assms(1) 1]
  note e2 = run_expire_object [OF conjunct1 [OF e1] 2]
  have keys: "without ({bf_MetadataObjectKey b} - {[]}) (without ({bf_ObjectKey b} - {[]}) v) = without (ref_keys b) v" for v
    by (simp add: ref_keys_def insert_Diff_if Un_commute)
  show ?thesis
    using assms(2) 1 2 e1 e2 keys
    by (cases r1; cases r2)
      (auto simp: expire_backup_def run_check DeleteCatalogBackup_def db_exec_def q_DeleteCatalogBackup_def split: if_splits)
qed

lemma run_expire_backups:
  assumes "inv (wObj w)" and "run_state (for_each (expire_backup S) bs) w = (r, w')"
  shows "inv (wObj w') \<and> r \<noteq> Inl Diverges \<and>
    (r = Inr () \<longrightarrow> catalog_backups (wCat w') = filter (\<lambda>x. cb_ID x \<notin> bf_ID ` set bs) (catalog_backups (wCat w)) \<and>
       view (wObj w') = without (\<Union>b \<in> set bs. ref_keys b) (view (wObj w)))"
  using assms
proof (induction bs arbitrary: w)
  case (Cons b bs)
  obtain r1 w1 where 1: "run_state (expire_backup S b) w = (r1, w1)" by (rule prod.exhaust)
  note e1 = run_expire_backup [OF Cons.prems(1) 1]
  show ?case
  proof (cases r1)
    case (Inl e)
    then show ?thesis using Cons.prems(2) 1 e1 by auto
  next
    case (Inr u)
    then have "run_state (for_each (expire_backup S) bs) w1 = (r, w')" using Cons.prems(2) 1 by simp
    from Cons.IH [OF conjunct1 [OF e1] this] e1 Inr show ?thesis
      by (simp add: Un_commute conj_commute)
  qed
qed auto

end

lemma run_ListCatalogBackupsOlderThan:
  assumes "run_state (ListCatalogBackupsOlderThan cutoff 100) w = (Inr found, w')"
  shows "found = map backup_ref (take 100 (sort_key cb_StartedAt (filter (\<lambda>b. cb_StartedAt b < cutoff) (catalog_backups (wCat w))))) \<and>
    w' = tick w"
  using assms
  by (auto simp: ListCatalogBackupsOlderThan_def q_ListCatalogBackupsOlderThan_def limit_rows_def run_check db_query_def
      backup_ref_def split: if_splits)

text \<open>Removing by identifier what is expired removes only expired rows.\<close>

lemma removed_are_expired:
  assumes "distinct (map cb_ID rows)" and "set old \<subseteq> set rows" and "\<forall>b \<in> set old. \<not> P b"
  shows "filter P (filter (\<lambda>x. cb_ID x \<notin> cb_ID ` set old) rows) = filter P rows"
proof -
  have "cb_ID x \<notin> cb_ID ` set old" if "x \<in> set rows" "P x" for x
    using assms that by (auto simp: distinct_map inj_on_def)
  then have "filter (\<lambda>x. cb_ID x \<notin> cb_ID ` set old \<and> P x) rows = filter P rows" by (intro filter_cong) auto
  then show ?thesis by simp
qed

text \<open>One round: the rows that are kept stay, and the expired ones become fewer.\<close>

lemma expired_round:
  assumes "distinct (map cb_ID rows)" and "set old \<subseteq> set (filter E rows)" and "old \<noteq> []"
  defines "left \<equiv> filter (\<lambda>x. cb_ID x \<notin> cb_ID ` set old) rows"
  shows "filter (\<lambda>b. \<not> E b) left = filter (\<lambda>b. \<not> E b) rows" and "length (filter E left) < length (filter E rows)"
    and "backup_keys (filter E rows) = backup_keys (filter E left) \<union> backup_keys old"
proof -
  show "filter (\<lambda>b. \<not> E b) left = filter (\<lambda>b. \<not> E b) rows"
    unfolding left_def using assms(1,2) by (intro removed_are_expired) auto
  obtain b where b: "b \<in> set old" using assms(3) by (cases old) auto
  have "length (filter (\<lambda>x. cb_ID x \<notin> cb_ID ` set old) (filter E rows)) < length (filter E rows)"
    using b assms(2) by (intro length_filter_less [of b]) auto
  then show "length (filter E left) < length (filter E rows)" by (simp add: left_def conj_commute)
  have "set (filter E rows) = set old \<union> set (filter E left)"
    using assms(1,2) by (auto simp: left_def distinct_map inj_on_def)
  then show "backup_keys (filter E rows) = backup_keys (filter E left) \<union> backup_keys old"
    unfolding backup_keys_def by auto
qed

context object_store
begin

lemma run_cleanup_rounds:
  assumes "inv (wObj w)" and "distinct (map cb_ID (catalog_backups (wCat w)))"
    and "length (filter (\<lambda>b. cb_StartedAt b < cutoff) (catalog_backups (wCat w))) < fuel"
    and "run_state (cleanup_rounds fuel S cutoff) w = (r, w')"
  shows "inv (wObj w') \<and> r \<noteq> Inl Diverges \<and>
    (r = Inr () \<longrightarrow> catalog_backups (wCat w') = filter (\<lambda>b. \<not> cb_StartedAt b < cutoff) (catalog_backups (wCat w)) \<and>
       view (wObj w') = without (backup_keys (filter (\<lambda>b. cb_StartedAt b < cutoff) (catalog_backups (wCat w)))) (view (wObj w)))"
  using assms
proof (induction fuel arbitrary: w)
  case (Suc fuel)
  let ?rows = "catalog_backups (wCat w)"
  let ?expired = "filter (\<lambda>b. cb_StartedAt b < cutoff) ?rows"
  define old where "old = take 100 (sort_key cb_StartedAt ?expired)"
  obtain r1 w1 where 1: "run_state (ListCatalogBackupsOlderThan cutoff 100) w = (r1, w1)" by (rule prod.exhaust)
  show ?case
  proof (cases r1)
    case (Inl e)
    then show ?thesis
      using Suc.prems 1 by (auto simp: run_check ListCatalogBackupsOlderThan_def db_query_def split: if_splits sum.splits)
  next
    case (Inr found)
    have found: "found = map backup_ref old" "w1 = tick w"
      using run_ListCatalogBackupsOlderThan [of cutoff w found w1] 1 Inr by (simp_all add: old_def)
    show ?thesis
    proof (cases "old = []")
      case True
      then have none: "?expired = []"
        unfolding old_def by (metis length_0_conv length_sort take_eq_Nil zero_neq_numeral)
      then show ?thesis
        using Suc.prems 1 Inr found True by (auto simp: backup_keys_def filter_empty_conv)
    next
      case False
      obtain r2 w2 where 2: "run_state (for_each (expire_backup S) found) w1 = (r2, w2)" by (rule prod.exhaust)
      have "inv (wObj w1)" using Suc.prems(1) found by simp
      note e = run_expire_backups [OF this 2]
      show ?thesis
      proof (cases r2)
        case (Inl x)
        then show ?thesis using Suc.prems(4) 1 2 Inr found False e by auto
      next
        case cleaned: (Inr u)
        have old: "set old \<subseteq> set ?expired" using set_take_subset [of 100 "sort_key cb_StartedAt ?expired"] by (auto simp: old_def)
        let ?left = "filter (\<lambda>x. cb_ID x \<notin> cb_ID ` set old) ?rows"
        have w2: "catalog_backups (wCat w2) = ?left" "inv (wObj w2)"
            "view (wObj w2) = without (backup_keys old) (view (wObj w))"
          using e cleaned found by (simp_all add: backup_ref_def image_image backup_keys_def)
        have rest: "run_state (cleanup_rounds fuel S cutoff) w2 = (r, w')"
          using Suc.prems(4) 1 2 Inr found False cleaned by simp
        note round = expired_round [OF Suc.prems(2) old False]
        have fuel: "length (filter (\<lambda>b. cb_StartedAt b < cutoff) (catalog_backups (wCat w2))) < fuel"
          using Suc.prems(3) w2(1) round(2) by simp
        have dist: "distinct (map cb_ID (catalog_backups (wCat w2)))"
          using Suc.prems(2) w2(1) by (simp add: distinct_map_filter)
        show ?thesis using Suc.IH [OF w2(2) dist fuel rest] round(1,3) w2 by simp
      qed
    qed
  qed
qed simp

end

lemma run_cleanupExpired:
  assumes "object_store S sha view I" and "I (wObj w)" and "cat_ok w"
    and "run_state (cleanupExpired S cutoff) w = (r, w')"
  shows "I (wObj w') \<and> r \<noteq> Inl Diverges \<and>
    (r = Inr () \<longrightarrow>
       catalog_backups (wCat w') = filter (\<lambda>b. \<not> cb_StartedAt b < cutoff) (catalog_backups (wCat w)) \<and>
       view (wObj w') = without (backup_keys (filter (\<lambda>b. cb_StartedAt b < cutoff) (catalog_backups (wCat w)))) (view (wObj w)))"
proof -
  have run: "run_state (cleanup_rounds (Suc (length (catalog_backups (wCat w)))) S cutoff) w = (r, w')"
    using assms(4) by (simp add: cleanupExpired_def del: cleanup_rounds.simps)
  have "distinct (map cb_ID (catalog_backups (wCat w)))" using assms(3) by (simp add: catalog_ok_def unique_ok_def)
  from object_store.run_cleanup_rounds [OF assms(1,2) this _ run] show ?thesis
    using length_filter_le [of "\<lambda>b. cb_StartedAt b < cutoff" "catalog_backups (wCat w)"] by simp
qed

text \<open>
  C39. The clean-up of expired backups ends, whatever the store and the database answer, and when it reports success the
  rows from before the cutoff are gone and no others, and so are their objects and no others.
\<close>

theorem cleanupExpired_result:
  assumes "object_store S sha view I" and "I (wObj w)" and "cat_ok w"
    and "run_state (cleanupExpired S cutoff) w = (r, w')"
  shows "r \<noteq> Inl Diverges \<and>
    (r = Inr () \<longrightarrow>
       catalog_backups (wCat w') = filter (\<lambda>b. \<not> cb_StartedAt b < cutoff) (catalog_backups (wCat w)) \<and>
       view (wObj w') = without (backup_keys (filter (\<lambda>b. cb_StartedAt b < cutoff) (catalog_backups (wCat w)))) (view (wObj w)))"
  using run_cleanupExpired [OF assms] by (rule conjunct2)

section \<open>What a run leaves behind\<close>

text \<open>Everything of a catalog but its operations and backups.\<close>

definition catalog_data :: "catalog \<Rightarrow> catalog" where
  "catalog_data c = c\<lparr>operations := [], catalog_backups := []\<rparr>"

lemma cleanupExpired_data: "frame (\<lambda>w w'. catalog_data (wCat w') = catalog_data (wCat w)) (cleanupExpired S cutoff)"
proof -
  have del: "frame (\<lambda>w w'. catalog_data (wCat w') = catalog_data (wCat w)) (DeleteCatalogBackup i)" for i
    by (auto simp: frame_def DeleteCatalogBackup_def db_exec_def q_DeleteCatalogBackup_def catalog_data_def)
  have read: "frame (\<lambda>w w'. catalog_data (wCat w') = catalog_data (wCat w)) (db_query q)" for q :: "'b query"
    by (simp add: frame_def db_query_def)
  have store: "frame (\<lambda>w w'. catalog_data (wCat w') = catalog_data (wCat w)) (store_call f)" for f :: "'a \<Rightarrow> (error + 'b) \<times> 'a"
    by (simp add: frame_def store_call_def split: prod.splits)
  have "frame (\<lambda>w w'. catalog_data (wCat w') = catalog_data (wCat w)) (cleanup_rounds n S cutoff)" for n
    by (induction n)
      (auto simp: ListCatalogBackupsOlderThan_def expire_backup_def expire_object_def intro!: frame_rules del read store)
  then have "catalog_data (wCat (snd (run_state (cleanup_rounds n S cutoff) w))) = catalog_data (wCat w)" for n w
    unfolding frame_def by blast
  then show ?thesis by (simp add: frame_def cleanupExpired_def del: cleanup_rounds.simps)
qed

definition record_row :: "CatalogBackupRecord \<Rightarrow> CatalogBackup" where
  "record_row r = \<lparr>cb_ID = br_ID r, cb_OperationID = null_if_empty (br_OperationID r), cb_ObjectKey = br_ObjectKey r,
     cb_MetadataObjectKey = null_if_empty (br_MetadataObjectKey r), cb_SizeBytes = br_SizeBytes r,
     cb_ChecksumSha256 = br_ChecksumSHA256 r, cb_StartedAt = br_StartedAt r, cb_CompletedAt = br_CompletedAt r,
     cb_Status = br_Status r, cb_FailureReason = null_if_empty (br_FailureReason r)\<rparr>"

lemma run_RecordSucceededCatalogBackup:
  assumes "br_ID rec \<noteq> []" and "run_state (RecordSucceededCatalogBackup rec summary) w = (Inr u, w')"
  shows "wObj w' = wObj w \<and> catalog_data (wCat w') = catalog_data (wCat w) \<and>
    catalog_backups (wCat w') = catalog_backups (wCat w) @ [record_row rec]"
proof -
  have run: "run_state (withTx (check (createCatalogBackup rec) throw (\<lambda>_.
      db_exec (q_UpdateOperationStatus OpSucceeded (Some summary) None (br_OperationID rec))))) w = (Inr u, w')"
    using assms by (simp add: RecordSucceededCatalogBackup_def with_backup_id_def)
  from run show ?thesis
  proof (cases rule: run_withTx_cases)
    case (committed x w1)
    obtain w2 where create: "run_state (createCatalogBackup rec) (tick w) = (Inr (), w2)"
      and status: "run_state (db_exec (q_UpdateOperationStatus OpSucceeded (Some summary) None (br_OperationID rec))) w2 = (Inr x, w1)"
      using committed(1) by (auto elim: run_check_throw_Inr)
    show ?thesis
      using run_db_exec_Inr [OF create [unfolded createCatalogBackup_def]] run_db_exec_Inr [OF status] committed(3)
      by (auto simp: q_CreateCatalogBackup_def q_UpdateOperationStatus_def update_operations_def catalog_data_def record_row_def
          split: if_splits)
  qed simp_all
qed

lemma run_CreateCatalogBackupOperation:
  "run_state CreateCatalogBackupOperation w = (Inr i, w') \<Longrightarrow>
     wObj w' = wObj w \<and> catalog_data (wCat w') = catalog_data (wCat w) \<and> catalog_backups (wCat w') = catalog_backups (wCat w)"
  by (auto simp: CreateCatalogBackupOperation_def NewID_def run_check db_exec_def q_CreateOperation_def catalog_data_def
      split: if_splits sum.splits)

lemma backup_keys_differ: "backupObjectKey r t i ''.sqlite'' \<noteq> backupObjectKey r t i ''.json''"
  by (simp add: backupObjectKey_def Let_def)

text \<open>Reading a file gives what was written to it.\<close>

definition file_laws :: "backup_env \<Rightarrow> bool" where
  "file_laws E \<longleftrightarrow> (\<forall>f d. be_ReadFile E f = Inr d \<longrightarrow> d = f)"

lemma run_backup_data:
  assumes "file_laws E" and "run_state (backup_data E r) w = (Inr data, w')"
  shows "data = be_vacuum E (wCat w) \<and> w' = tick w"
  using assms
  by (auto simp: backup_data_def vacuum_into_def Let_def run_check db_query_def file_laws_def split: option.splits sum.splits if_splits)

context object_store
begin

lemma run_put_backup:
  assumes "inv (wObj w)" and "run_state (put_backup S sha' key data) w = (Inr u, w')"
  shows "inv (wObj w') \<and> wCat w' = wCat w \<and> view (wObj w') = (view (wObj w))(key \<mapsto> data)"
proof -
  obtain d t where d: "PutBytes S key data (wObj w) = (d, t)" by (rule prod.exhaust)
  show ?thesis
    using assms d put_ok [OF assms(1), of key data _ t]
    by (cases d) (auto simp: put_backup_def run_check store_call_def split: if_splits)
qed

lemma run_put_metadata:
  assumes "inv (wObj w)" and "run_state (put_metadata S key data) w = (Inr u, w')"
  shows "inv (wObj w') \<and> wCat w' = wCat w \<and> view (wObj w') = (view (wObj w))(key \<mapsto> data)"
proof -
  obtain d t where d: "PutBytes S key data (wObj w) = (d, t)" by (rule prod.exhaust)
  show ?thesis
    using assms d put_ok [OF assms(1), of key data _ t]
    by (cases d) (auto simp: put_metadata_def run_check store_call_def split: if_splits)
qed

lemma run_backup_body:
  assumes "inv (wObj w)" and "file_laws E" and "i \<noteq> []"
    and "run_state (backup_body S sha encode E r started i j) w = (Inr (res, completed), w')"
  shows "\<exists>data meta row. inv (wObj w') \<and> data = be_vacuum E (wCat w) \<and> catalog_data (wCat w') = catalog_data (wCat w) \<and> encode res = Inr meta \<and>
    bk_ObjectKey res = backupObjectKey r started i ''.sqlite'' \<and> bk_MetadataObjectKey res = backupObjectKey r started i ''.json'' \<and>
    bk_SizeBytes res = int (length data) \<and> bk_ChecksumSHA256 res = sha_hex sha data \<and>
    catalog_backups (wCat w') = catalog_backups (wCat w) @ [row] \<and>
    view (wObj w') = (view (wObj w))(bk_ObjectKey res \<mapsto> data, bk_MetadataObjectKey res \<mapsto> meta) \<and>
    cb_Status row = BackupSucceeded \<and> cb_StartedAt row = started div 1000000 \<and> cb_ObjectKey row = bk_ObjectKey res \<and>
    cb_MetadataObjectKey row = null_if_empty (bk_MetadataObjectKey res) \<and> cb_ChecksumSha256 row = bk_ChecksumSHA256 res"
proof -
  let ?okey = "backupObjectKey r started i ''.sqlite''" and ?mkey = "backupObjectKey r started i ''.json''"
  obtain data w1 where data: "run_state (backup_data E r) w = (Inr data, w1)"
    and r1: "run_state (check (put_backup S sha ?okey data) throw (\<lambda>_. backup_finish S sha encode r started i j data)) w1 =
      (Inr (res, completed), w')"
    using assms(4) unfolding backup_body_def by (rule run_check_throw_Inr)
  from r1 obtain u w2 where put: "run_state (put_backup S sha ?okey data) w1 = (Inr u, w2)"
    and fin: "run_state (backup_finish S sha encode r started i j data) w2 = (Inr (res, completed), w')"
    by (rule run_check_throw_Inr)
  note d = run_backup_data [OF assms(2) data]
  have "inv (wObj w1)" using assms(1) d by simp
  note p = run_put_backup [OF this put]
  define rec where "rec = \<lparr>br_ID = i, br_OperationID = j, br_ObjectKey = ?okey, br_MetadataObjectKey = ?mkey,
      br_SizeBytes = int (length data), br_ChecksumSHA256 = sha_hex sha data, br_StartedAt = started div 1000000,
      br_CompletedAt = Some (completed div 1000000), br_Status = BackupSucceeded, br_FailureReason = []\<rparr>"
  obtain meta w3 where enc: "encode res = Inr meta" and mput: "run_state (put_metadata S ?mkey meta) (tick w2) = (Inr (), w3)"
    and row: "run_state (RecordSucceededCatalogBackup rec (msg ''catalog backup succeeded'')) w3 = (Inr (), w')"
    and res: "bk_ObjectKey res = ?okey" "bk_MetadataObjectKey res = ?mkey" "bk_SizeBytes res = int (length data)"
      "bk_ChecksumSHA256 res = sha_hex sha data"
    using fin unfolding backup_finish_def Let_def
    by (auto simp: time_Now_def rec_def split: sum.splits elim!: run_check_throw_Inr)
  have "inv (wObj (tick w2))" using p by simp
  note m = run_put_metadata [OF this mput]
  have "br_ID rec \<noteq> []" using assms(3) by (simp add: rec_def)
  note r = run_RecordSucceededCatalogBackup [OF this row]
  show ?thesis
    by (rule exI [of _ data], rule exI [of _ meta], rule exI [of _ "record_row rec"])
      (use d p m r enc res in \<open>simp add: record_row_def rec_def\<close>)
qed

end

lemma run_backup_Run:
  assumes "run_state (backup_Run S sha encode E r) w = (Inr res, w')"
  shows "\<exists>started i w1 j w2 completed w3. i \<noteq> [] \<and> wCat w1 = wCat w \<and> wObj w1 = wObj w \<and>
    run_state CreateCatalogBackupOperation w1 = (Inr j, w2) \<and>
    run_state (backup_body S sha encode E r started i j) w2 = (Inr (res, completed), w3) \<and>
    run_state (let ret = (if br_Retention r = 0 then DefaultRetention else br_Retention r) in
      if ret > 0 then check (cleanupExpired S ((completed - ret) div 1000000))
        (\<lambda>e. throw (Wrapf (msg ''cleanup expired catalog backups: %w'') [] e)) (\<lambda>_. ok res) else ok res) w3 = (Inr res, w')"
proof -
  define i where "i = ''catbak'' @ ''_'' @ hex_EncodeToString (wRand (tick w) (wTick (tick w)))"
  define started where "started = wNow w (wTick w)"
  let ?w1 = "tick (tick w)"
  define tl where "tl = (\<lambda>(result, completed). let ret = (if br_Retention r = 0 then DefaultRetention else br_Retention r) in
      if ret > 0 then check (cleanupExpired S ((completed - ret) div 1000000))
        (\<lambda>e. throw (Wrapf (msg ''cleanup expired catalog backups: %w'') [] e)) (\<lambda>_. ok result) else (ok result :: ('a world, backup_Result) prog))"
  have run: "run_state (check CreateCatalogBackupOperation
        (\<lambda>e. throw (Wrapf (msg ''create catalog backup operation: %w'') [] e)) (\<lambda>j.
      check (backup_body S sha encode E r started i j) (backup_fail j) tl)) ?w1 = (Inr res, w')"
    using assms unfolding backup_Run_def tl_def
    by (simp add: time_Now_def NewID_def i_def started_def Let_def split: if_splits)
  then obtain j w2 where op: "run_state CreateCatalogBackupOperation ?w1 = (Inr j, w2)"
    and rest: "run_state (check (backup_body S sha encode E r started i j) (backup_fail j) tl) w2 = (Inr res, w')"
    by (rule run_check_throw_Inr)
  obtain x w3 where body: "run_state (backup_body S sha encode E r started i j) w2 = (x, w3)" by (rule prod.exhaust)
  obtain result completed where x: "x = Inr (result, completed)" and fin: "run_state (tl (result, completed)) w3 = (Inr res, w')"
    using rest body by (cases x) (auto simp: backup_fail_def split: prod.splits)
  have "result = res" using fin by (auto simp: tl_def Let_def split: if_splits elim: run_check_throw_Inr)
  with op body x fin show ?thesis
    by (intro exI [of _ started] exI [of _ i] exI [of _ ?w1] exI [of _ j] exI [of _ w2] exI [of _ completed] exI [of _ w3])
      (simp add: i_def tl_def)
qed


section \<open>Witnesses\<close>

definition old_backup :: CatalogBackup where
  "old_backup = \<lparr>cb_ID = ''catbak_1'', cb_OperationID = None, cb_ObjectKey = ''k1'', cb_MetadataObjectKey = Some ''m1'',
     cb_SizeBytes = 1, cb_ChecksumSha256 = '''', cb_StartedAt = 3, cb_CompletedAt = Some 4, cb_Status = BackupSucceeded,
     cb_FailureReason = None\<rparr>"

definition backup_world :: "memory world" where
  "backup_world = \<lparr>wCat = empty_catalog\<lparr>catalog_backups := [old_backup]\<rparr>, wObj = [''k1'' \<mapsto> [1], ''m1'' \<mapsto> [2]], wTick = 0,
     wDbFault = (\<lambda>_. False), wCtxErr = (\<lambda>_. False), wNow = (\<lambda>n. - 62167219200000000000), wRand = (\<lambda>n. [])\<rparr>"

lemma backup_world_ok: "cat_ok backup_world"
  by (simp add: backup_world_def old_backup_def catalog_ok_def unique_ok_def references_ok_def refs_def empty_catalog_def
      null_or_in_def)

theorem cleanupExpired_result_witness:
  "\<exists>w'. run_state (cleanupExpired (MemoryStore (\<lambda>d. d)) 5) backup_world = (Inr (), w') \<and> catalog_backups (wCat w') = [] \<and>
     wObj w' ''k1'' = None"
proof -
  have "fst (run_state (cleanupExpired (MemoryStore (\<lambda>d. d)) 5) backup_world) = Inr ()" by code_simp
  then obtain w' where run: "run_state (cleanupExpired (MemoryStore (\<lambda>d. d)) 5) backup_world = (Inr (), w')"
    by (rule that [OF run_fst])
  have rows: "catalog_backups (wCat backup_world) = [old_backup]" by (simp add: backup_world_def)
  have start: "cb_StartedAt old_backup = 3" by (simp add: old_backup_def)
  have keys: "backup_keys [old_backup] = {''k1'', ''m1''}"
    by (simp add: old_backup_def backup_keys_def ref_keys_def backup_ref_def)
  from rows start keys cleanupExpired_result [OF memory.object_store_axioms TrueI backup_world_ok run]
  have "catalog_backups (wCat w') = []" "wObj w' ''k1'' = None" by (simp_all add: without_def)
  with run show ?thesis by blast
qed

definition sample_runner :: BackupRunner where
  "sample_runner = \<lparr>br_Catalog = True, br_Repo = True, br_Store = True, br_Keys = \<lparr>RootPrefix = []\<rparr>, br_TempDir = [],
     br_Retention = - 1\<rparr>"

definition sample_env :: backup_env where
  "sample_env = \<lparr>be_MkdirAll = (\<lambda>_. None), be_TempDir = ''/tmp'', be_vacuum = (\<lambda>c. map (\<lambda>_. 7) (catalog_backups c)), be_ReadFile = Inr\<rparr>"

lemma sample_backup:
  "case fst (run_state (backup_Run (MemoryStore (\<lambda>d. d)) (\<lambda>d. d) (\<lambda>_. Inr [9]) sample_env sample_runner) backup_world) of
     Inl e \<Rightarrow> False | Inr res \<Rightarrow> True"
  by (simp add: backup_Run_def backup_body_def backup_finish_def backup_data_def vacuum_into_def put_backup_def put_metadata_def
      run_check time_Now_def NewID_def CreateCatalogBackupOperation_def db_exec_def db_query_def db_now_def
      RecordSucceededCatalogBackup_def with_backup_id_def createCatalogBackup_def q_CreateCatalogBackup_def
      q_CreateOperation_def q_UpdateOperationStatus_def update_operations_def withTx_def tx_call_def the_catalog_def
      rollback_to_def store_call_def MemoryStore_defs sample_env_def sample_runner_def backup_world_def old_backup_def
      empty_catalog_def null_or_in_def null_if_empty_def tick_def Let_def sha_hex_def hex_EncodeToString_def)


end
