(* ===== verification/Manifest.thy ===== *)
theory Manifest
  imports Go_Strings
begin

text \<open>
  The snapshot manifest (\<open>src/internal/manifest/manifest.go\<close>): its data, its validation and
  its two codec functions. \<open>encoding/json\<close> is a parameter: a pair of functions with the
  round trip \<open>json_laws\<close>, which Go documents for strings that are valid UTF-8 and which
  is asked here of ASCII strings only.
\<close>

section \<open>Definitions\<close>

definition Version :: int where
  "Version = 1"

definition ManifestFormat :: string where
  "ManifestFormat = ''zfs-s3nd.snapshot.v1''"

record Encryption =
  ObjectEnvelopeVersion :: int
  enc_Algorithm :: string
  enc_KDF :: string
  enc_Salt :: string
  enc_Time :: "32 word"
  enc_MemoryKiB :: "32 word"
  enc_Parallelism :: byte

record Identity =
  id_Source :: string
  id_Pool :: string
  id_Dataset :: string
  id_Snapshot :: string

record Lineage =
  ln_BaseSnapshot :: string

record Stream =
  st_Raw :: bool
  st_Compressed :: bool
  st_FromGUID :: string
  st_ToGUID :: string
  st_SizeBytes :: int
  st_SHA256 :: string
  st_ChunkSize :: int

record Chunk =
  ch_Index :: int
  ch_ObjectKey :: string
  ch_SizeBytes :: int
  ch_OffsetStart :: int
  ch_OffsetEnd :: int
  ch_SHA256 :: string

record Manifest =
  m_Version :: int
  m_Format :: string
  m_Encryption :: Encryption
  m_Identity :: Identity
  m_Lineage :: Lineage
  m_Stream :: Stream
  m_Chunks :: "Chunk list"

definition manifest_New :: "Identity \<Rightarrow> Lineage \<Rightarrow> Stream \<Rightarrow> Chunk list \<Rightarrow> Manifest" where
  "manifest_New ident lineage stream chunks =
     \<lparr>m_Version = Version, m_Format = ManifestFormat,
      m_Encryption =
        \<lparr>ObjectEnvelopeVersion = 1, enc_Algorithm = ''XChaCha20-Poly1305'', enc_KDF = ''argon2id'',
         enc_Salt = ''zfs-s3nd/storage-encryption/v1'', enc_Time = 3, enc_MemoryKiB = 64 * 1024,
         enc_Parallelism = 4\<rparr>,
      m_Identity = ident, m_Lineage = lineage, m_Stream = stream, m_Chunks = chunks\<rparr>"

text \<open>The loop over the chunks, from position \<open>i\<close> with the running total \<open>tot\<close>.\<close>

fun validate_chunks :: "int \<Rightarrow> int \<Rightarrow> Chunk list \<Rightarrow> error + int" where
  "validate_chunks i tot [] = Inr tot"
| "validate_chunks i tot (chunk # rest) =
     (if ch_Index chunk \<noteq> i
      then Inl (Errorf (msg ''chunk index mismatch at position %d: got %d'')
                  [show_int i, show_int (ch_Index chunk)])
      else if ch_ObjectKey chunk = [] \<or> ch_SHA256 chunk = [] \<or> ch_SizeBytes chunk \<le> 0
      then Inl (Errorf (msg ''chunk %d is incomplete'') [show_int i])
      else if wrap64 (ch_OffsetEnd chunk - ch_OffsetStart chunk) \<noteq> ch_SizeBytes chunk
      then Inl (Errorf (msg ''chunk %d offset/size mismatch'') [show_int i])
      else validate_chunks (i + 1) (wrap64 (tot + ch_SizeBytes chunk)) rest)"

definition Validate :: "Manifest \<Rightarrow> error + unit" where
  "Validate m =
     (if m_Version m \<noteq> Version
      then Inl (Errorf (msg ''unsupported manifest version %d'') [show_int (m_Version m)])
      else if m_Format m \<noteq> ManifestFormat
      then Inl (Errorf (msg ''unsupported manifest format %q'') [m_Format m])
      else if ObjectEnvelopeVersion (m_Encryption m) = 0 \<or> enc_Algorithm (m_Encryption m) = [] \<or>
              enc_KDF (m_Encryption m) = [] \<or> enc_Salt (m_Encryption m) = []
      then Inl (Errorf (msg ''manifest encryption metadata is incomplete'') [])
      else if id_Source (m_Identity m) = [] \<or> id_Pool (m_Identity m) = [] \<or>
              id_Dataset (m_Identity m) = [] \<or> id_Snapshot (m_Identity m) = []
      then Inl (Errorf (msg ''manifest identity is incomplete'') [])
      else if m_Chunks m = []
      then Inl (Errorf (msg ''manifest has no chunks'') [])
      else case validate_chunks 0 0 (m_Chunks m) of
        Inl e \<Rightarrow> Inl e
      | Inr tot \<Rightarrow>
          if st_SizeBytes (m_Stream m) \<noteq> tot
          then Inl (Errorf (msg ''stream size mismatch: got %d want chunk total %d'')
                      [show_int (st_SizeBytes (m_Stream m)), show_int tot])
          else if st_SHA256 (m_Stream m) = []
          then Inl (Errorf (msg ''stream sha256 is required'') [])
          else Inr ())"

record json =
  json_MarshalIndent :: "Manifest \<Rightarrow> error + bytes"
  json_Unmarshal :: "bytes \<Rightarrow> error + Manifest"

definition MarshalCanonical :: "json \<Rightarrow> Manifest \<Rightarrow> error + bytes" where
  "MarshalCanonical J m =
     (case Validate m of Inl e \<Rightarrow> Inl e | Inr _ \<Rightarrow> json_MarshalIndent J m)"

definition manifest_Unmarshal :: "json \<Rightarrow> bytes \<Rightarrow> error + Manifest" where
  "manifest_Unmarshal J data =
     (case json_Unmarshal J data of
        Inl e \<Rightarrow> Inl e
      | Inr m \<Rightarrow> (case Validate m of Inl e \<Rightarrow> Inl e | Inr _ \<Rightarrow> Inr m))"

section \<open>The codec\<close>

definition ascii :: "string \<Rightarrow> bool" where
  "ascii s \<longleftrightarrow> (\<forall>c \<in> set s. (of_char c :: nat) < 128)"

definition ascii_chunk :: "Chunk \<Rightarrow> bool" where
  "ascii_chunk c \<longleftrightarrow> ascii (ch_ObjectKey c) \<and> ascii (ch_SHA256 c)"

definition ascii_manifest :: "Manifest \<Rightarrow> bool" where
  "ascii_manifest m \<longleftrightarrow>
     ascii (m_Format m) \<and> ascii (enc_Algorithm (m_Encryption m)) \<and> ascii (enc_KDF (m_Encryption m)) \<and>
     ascii (enc_Salt (m_Encryption m)) \<and> ascii (id_Source (m_Identity m)) \<and>
     ascii (id_Pool (m_Identity m)) \<and> ascii (id_Dataset (m_Identity m)) \<and>
     ascii (id_Snapshot (m_Identity m)) \<and> ascii (ln_BaseSnapshot (m_Lineage m)) \<and>
     ascii (st_FromGUID (m_Stream m)) \<and> ascii (st_ToGUID (m_Stream m)) \<and>
     ascii (st_SHA256 (m_Stream m)) \<and> list_all ascii_chunk (m_Chunks m)"

definition json_laws :: "json \<Rightarrow> bool" where
  "json_laws J \<longleftrightarrow>
     (\<forall>m. ascii_manifest m \<longrightarrow>
        (\<exists>b. json_MarshalIndent J m = Inr b \<and> json_Unmarshal J b = Inr m))"

lemma ascii_Nil [simp]: "ascii []"
  by (simp add: ascii_def)

lemma ascii_append [simp]: "ascii (s @ t) \<longleftrightarrow> ascii s \<and> ascii t"
  by (auto simp: ascii_def)

lemma ascii_Cons [simp]: "ascii (c # s) \<longleftrightarrow> (of_char c :: nat) < 128 \<and> ascii s"
  by (simp add: ascii_def)

lemma MarshalCanonical_Unmarshal:
  assumes "json_laws J" and "ascii_manifest m" and "MarshalCanonical J m = Inr b"
  shows "manifest_Unmarshal J b = Inr m"
  using assms
  by (auto simp: json_laws_def MarshalCanonical_def manifest_Unmarshal_def split: sum.splits)

lemma manifest_Unmarshal_valid: "manifest_Unmarshal J b = Inr m \<Longrightarrow> Validate m = Inr ()"
  by (auto simp: manifest_Unmarshal_def split: sum.splits)

section \<open>What validation accepts\<close>

text \<open>The specification of a chunk list: positions in order, complete entries, sizes that match.\<close>

definition chunk_wf :: "int \<Rightarrow> Chunk \<Rightarrow> bool" where
  "chunk_wf i c \<longleftrightarrow>
     ch_Index c = i \<and> ch_ObjectKey c \<noteq> [] \<and> ch_SHA256 c \<noteq> [] \<and> 0 < ch_SizeBytes c \<and>
     wrap64 (ch_OffsetEnd c - ch_OffsetStart c) = ch_SizeBytes c"

definition chunks_wf :: "Chunk list \<Rightarrow> bool" where
  "chunks_wf cs \<longleftrightarrow> (\<forall>i < length cs. chunk_wf (int i) (cs ! i))"

definition chunk_total :: "Chunk list \<Rightarrow> int" where
  "chunk_total cs = sum_list (map ch_SizeBytes cs)"

lemma wrap64_add_left: "wrap64 (wrap64 x + y) = wrap64 (x + y)"
proof -
  have "(wrap64 x + y + 2 ^ 63) mod 2 ^ 64 = (x + y + 2 ^ 63) mod 2 ^ 64"
    using wrap64_cong [of x] by (metis add.assoc mod_add_cong)
  then show ?thesis by (simp add: wrap64_def [of "wrap64 x + y"] wrap64_def [of "x + y"])
qed

lemma validate_chunks_Inr:
  "in_int64 tot \<Longrightarrow> validate_chunks i tot cs = Inr t \<longleftrightarrow>
     (\<forall>k < length cs. chunk_wf (i + int k) (cs ! k)) \<and> t = wrap64 (tot + chunk_total cs)"
proof (induction cs arbitrary: i tot)
  case Nil
  then show ?case by (auto simp: chunk_total_def)
next
  case (Cons c cs)
  have all: "(\<forall>k < length (c # cs). chunk_wf (i + int k) ((c # cs) ! k)) \<longleftrightarrow>
      chunk_wf i c \<and> (\<forall>k < length cs. chunk_wf (i + 1 + int k) (cs ! k))"
    by (simp add: All_less_Suc2 add.assoc)
  have shift: "wrap64 (wrap64 (tot + ch_SizeBytes c) + chunk_total cs) = wrap64 (tot + chunk_total (c # cs))"
    by (simp add: wrap64_add_left chunk_total_def add.assoc)
  show ?case
  proof (cases "chunk_wf i c")
    case True
    then have "validate_chunks i tot (c # cs) = validate_chunks (i + 1) (wrap64 (tot + ch_SizeBytes c)) cs"
      by (auto simp: chunk_wf_def)
    then show ?thesis using Cons.IH [of "wrap64 (tot + ch_SizeBytes c)" "i + 1"] all shift True by simp
  next
    case False
    then have "\<exists>e. validate_chunks i tot (c # cs) = Inl e" by (auto simp: chunk_wf_def)
    then show ?thesis using all False by auto
  qed
qed

lemma Validate_Inr:
  "Validate m = Inr () \<longleftrightarrow>
     m_Version m = Version \<and> m_Format m = ManifestFormat \<and>
     ObjectEnvelopeVersion (m_Encryption m) \<noteq> 0 \<and> enc_Algorithm (m_Encryption m) \<noteq> [] \<and>
     enc_KDF (m_Encryption m) \<noteq> [] \<and> enc_Salt (m_Encryption m) \<noteq> [] \<and>
     id_Source (m_Identity m) \<noteq> [] \<and> id_Pool (m_Identity m) \<noteq> [] \<and>
     id_Dataset (m_Identity m) \<noteq> [] \<and> id_Snapshot (m_Identity m) \<noteq> [] \<and>
     m_Chunks m \<noteq> [] \<and> chunks_wf (m_Chunks m) \<and>
     st_SizeBytes (m_Stream m) = wrap64 (chunk_total (m_Chunks m)) \<and> st_SHA256 (m_Stream m) \<noteq> []"
proof -
  have zero: "in_int64 0" by (simp add: in_int64_def)
  have *: "validate_chunks 0 0 (m_Chunks m) = Inr t \<longleftrightarrow>
      chunks_wf (m_Chunks m) \<and> t = wrap64 (chunk_total (m_Chunks m))" for t
    using validate_chunks_Inr [OF zero, of 0 "m_Chunks m" t] by (simp add: chunks_wf_def)
  show ?thesis
  proof (cases "validate_chunks 0 0 (m_Chunks m)")
    case (Inl e)
    then have "\<not> chunks_wf (m_Chunks m)" using * [of "wrap64 (chunk_total (m_Chunks m))"] by simp
    then show ?thesis using Inl by (simp add: Validate_def)
  next
    case (Inr t)
    then show ?thesis using * [of t] by (auto simp: Validate_def)
  qed
qed

end
