(* ===== verification/Ingest.thy ===== *)
theory Ingest
  imports Catalog_Repository Storage_Keys Manifest Go_Encoding
begin

text \<open>
  Receiving a stream (\<open>src/internal/ingest/service.go\<close>): the chunk loop over
  \<open>io.ReadFull\<close>, the put with retries, the manifest and the catalog commit, and the failure
  path every error after \<open>StartUpload\<close> takes.
\<close>

section \<open>Definitions\<close>

record StartedCommit =
  sc_SnapshotID :: string
  sc_UploadSessionID :: string
  sc_OperationID :: string
  sc_ManifestKey :: string

text \<open>Durations are nanoseconds. A \<open>nil\<close> function or hook is \<open>None\<close>.\<close>

record Service =
  svc_Repo :: bool
  svc_Store :: bool
  svc_Keys :: KeyBuilder
  svc_ChunkSize :: int
  svc_MaxIncrementalChainDepth :: int
  svc_MaxIncrementalChainDepthFunc :: "int option"
  svc_PutRetryMaxElapsed :: int
  svc_PutRetryInitialBackoff :: int
  svc_BeforeCatalogCommit :: "(StartedCommit \<Rightarrow> error option) option"

record Request =
  rq_Source :: string
  rq_Pool :: string
  rq_Dataset :: string
  rq_Snapshot :: string
  rq_BaseSnapshot :: string
  rq_Raw :: bool
  rq_Compressed :: bool
  rq_FromGUID :: string
  rq_ToGUID :: string
  rq_MaxIncrementalChainDepth :: int

record Result =
  rs_SnapshotID :: string
  rs_UploadSessionID :: string
  rs_OperationID :: string
  rs_ManifestKey :: string
  rs_StreamSHA256 :: string
  rs_BytesReceived :: int
  rs_Chunks :: "Chunk list"

definition defaultPutRetryMaxElapsed :: int where
  "defaultPutRetryMaxElapsed = 5 * 60 * 1000000000"

definition defaultPutRetryInitialBackoff :: int where
  "defaultPutRetryInitialBackoff = 100 * 1000000"

definition maxPutRetryBackoff :: int where
  "maxPutRetryBackoff = 30 * 1000000000"

definition EffectiveMaxIncrementalChainDepth :: "Service \<Rightarrow> int" where
  "EffectiveMaxIncrementalChainDepth s =
     (case svc_MaxIncrementalChainDepthFunc s of
        Some d \<Rightarrow> d
      | None \<Rightarrow> svc_MaxIncrementalChainDepth s)"

subsection \<open>Puts with retries\<close>

text \<open>
  One round of the loop per unit of fuel. The wait ends by the timer or by the context; a
  context that is done after the wait counts as the latter.
\<close>

definition retry_delay :: "int \<Rightarrow> int \<Rightarrow> int" where
  "retry_delay backoff remaining =
     (let delay = (if backoff > maxPutRetryBackoff then maxPutRetryBackoff else backoff)
      in if delay > remaining then remaining else delay)"

definition next_backoff :: "int \<Rightarrow> int" where
  "next_backoff backoff =
     (if backoff < maxPutRetryBackoff
      then let b = backoff * 2 in if b > maxPutRetryBackoff then maxPutRetryBackoff else b
      else backoff)"

fun put_retry ::
  "nat \<Rightarrow> 's Store \<Rightarrow> int \<Rightarrow> string \<Rightarrow> bytes \<Rightarrow> int \<Rightarrow> int \<Rightarrow> int \<Rightarrow> ('s world, ObjectInfo) prog" where
  "put_retry 0 S maxElapsed key data started backoff attempt = throw Diverges"
| "put_retry (Suc fuel) S maxElapsed key data started backoff attempt =
     check (store_call (PutBytes S key data))
       (\<lambda>lastErr.
         State_Monad.bind ctx_Err (\<lambda>cancelled.
         if cancelled then throw ErrContext
         else State_Monad.bind time_Now (\<lambda>now.
           let remaining = maxElapsed - (now - started) in
           if remaining \<le> 0
           then throw (Wrapf (msg ''object put failed after %d attempts over %s: %w'')
                  [show_int attempt, show_int maxElapsed] lastErr)
           else State_Monad.bind (time_Sleep (retry_delay backoff remaining)) (\<lambda>_.
             State_Monad.bind ctx_Err (\<lambda>cancelled.
             if cancelled then throw ErrContext
             else put_retry fuel S maxElapsed key data started (next_backoff backoff) (attempt + 1))))))
       ok"

text \<open>Rounds that are always enough: every wait but the last one is at least the first delay.\<close>

definition retry_fuel :: "int \<Rightarrow> int \<Rightarrow> nat" where
  "retry_fuel maxElapsed backoff =
     nat (maxElapsed div min backoff maxPutRetryBackoff) + 3"

definition putBytesWithRetry ::
  "'s Store \<Rightarrow> Service \<Rightarrow> string \<Rightarrow> bytes \<Rightarrow> ('s world, ObjectInfo) prog" where
  "putBytesWithRetry S svc key data =
     (let maxElapsed = (if svc_PutRetryMaxElapsed svc \<le> 0 then defaultPutRetryMaxElapsed
                        else svc_PutRetryMaxElapsed svc);
          backoff = (if svc_PutRetryInitialBackoff svc \<le> 0 then defaultPutRetryInitialBackoff
                     else svc_PutRetryInitialBackoff svc) in
      State_Monad.bind time_Now (\<lambda>started.
        put_retry (retry_fuel maxElapsed backoff) S maxElapsed key data started backoff 1))"

subsection \<open>Reading\<close>

text \<open>
  The reader delivers \<open>data\<close> and then ends, with an error or at end of file. \<open>io.ReadFull\<close>
  fills the buffer (\<open>ReadBytes d False\<close>), stops short at end of file
  (\<open>ReadBytes d True\<close>, \<open>io.ErrUnexpectedEOF\<close>), finds nothing (\<open>ReadEOF\<close>) or fails.
\<close>

datatype read_result = ReadEOF | ReadBytes bytes bool | ReadFailed error

definition ReadFull :: "nat \<Rightarrow> bytes \<Rightarrow> error option \<Rightarrow> read_result" where
  "ReadFull n data readErr =
     (if n \<le> length data then ReadBytes (take n data) False
      else case readErr of
        Some e \<Rightarrow> ReadFailed e
      | None \<Rightarrow> if data = [] then ReadEOF else ReadBytes data True)"

subsection \<open>The chunk loop\<close>

definition request_chunk_key :: "Service \<Rightarrow> Request \<Rightarrow> int \<Rightarrow> string" where
  "request_chunk_key svc req index =
     ChunkKey (svc_Keys svc) (rq_Source req) (rq_Pool req) (rq_Dataset req) (rq_Snapshot req) index"

definition request_manifest_key :: "Service \<Rightarrow> Request \<Rightarrow> string" where
  "request_manifest_key svc req =
     ManifestKey (svc_Keys svc) (rq_Source req) (rq_Pool req) (rq_Dataset req) (rq_Snapshot req)"

text \<open>One chunk: put, compare size and digest, record.\<close>

definition receive_chunk ::
  "'s Store \<Rightarrow> (bytes \<Rightarrow> bytes) \<Rightarrow> Service \<Rightarrow> Request \<Rightarrow> StartedUpload \<Rightarrow> int \<Rightarrow> int \<Rightarrow> bytes \<Rightarrow>
   ('s world, Chunk) prog" where
  "receive_chunk S sha svc req started index offset chunkData =
     (let key = request_chunk_key svc req index; n = int (length chunkData) in
      check (putBytesWithRetry S svc key chunkData)
        (\<lambda>e. throw (Wrapf (msg ''put chunk %d: %w'') [show_int index] e)) (\<lambda>info.
      if oi_Size info \<noteq> n
      then throw (Errorf (msg ''chunk %d persisted size mismatch: got %d want %d'')
             [show_int index, show_int (oi_Size info), show_int n])
      else let shaHex = sha_hex sha chunkData in
      if oi_SHA256 info \<noteq> [] \<and> oi_SHA256 info \<noteq> shaHex
      then throw (Errorf (msg ''chunk %d sha mismatch: got %s want %s'')
             [show_int index, oi_SHA256 info, shaHex])
      else let chunk = \<lparr>ch_Index = index, ch_ObjectKey = key, ch_SizeBytes = n, ch_OffsetStart = offset,
                       ch_OffsetEnd = wrap64 (offset + n), ch_SHA256 = shaHex\<rparr> in
      check (AddVerifiedChunk (su_SnapshotID started) (su_UploadSessionID started)
               \<lparr>cr_ID = [], cr_Index = ch_Index chunk, cr_ObjectKey = ch_ObjectKey chunk,
                cr_SizeBytes = ch_SizeBytes chunk, cr_OffsetStart = ch_OffsetStart chunk,
                cr_OffsetEnd = ch_OffsetEnd chunk, cr_SHA256 = ch_SHA256 chunk\<rparr>)
        (\<lambda>e. throw (Wrapf (msg ''record chunk %d: %w'') [show_int index] e)) (\<lambda>_.
      ok chunk)))"

text \<open>
  The loop: \<open>chunks\<close>, \<open>offset\<close> and the bytes hashed so far are its variables. Every error it
  raises is handed to \<open>fail\<close> by its caller.
\<close>

function receive_loop ::
  "'s Store \<Rightarrow> (bytes \<Rightarrow> bytes) \<Rightarrow> Service \<Rightarrow> Request \<Rightarrow> StartedUpload \<Rightarrow> nat \<Rightarrow>
   int \<Rightarrow> int \<Rightarrow> Chunk list \<Rightarrow> bytes \<Rightarrow> bytes \<Rightarrow> error option \<Rightarrow>
   ('s world, Chunk list \<times> int \<times> bytes) prog" where
  "receive_loop S sha svc req started chunkSize index offset chunks hashed data readErr =
     (case ReadFull chunkSize data readErr of
        ReadEOF \<Rightarrow>
          State_Monad.bind ctx_Err (\<lambda>cancelled.
            if cancelled then throw (Wrapf (msg ''read chunk %d: %w'') [show_int index] ErrContext)
            else ok (chunks, offset, hashed))
      | ReadFailed e \<Rightarrow> throw (Wrapf (msg ''read chunk %d: %w'') [show_int index] e)
      | ReadBytes chunkData short \<Rightarrow>
          State_Monad.bind (if short then ctx_Err else ret False) (\<lambda>cancelled.
            if cancelled then throw (Wrapf (msg ''read chunk %d: %w'') [show_int index] ErrContext)
            else if chunkData = [] then ok (chunks, offset, hashed)
            else
              check (receive_chunk S sha svc req started index offset chunkData) throw (\<lambda>chunk.
              let chunks' = chunks @ [chunk]; offset' = wrap64 (offset + int (length chunkData)) in
              check (UpdateUploadProgress (su_UploadSessionID started) (index + 1)
                       (int (length chunks')) offset')
                (\<lambda>e. throw (Wrapf (msg ''update progress: %w'') [] e)) (\<lambda>_.
              if short then ok (chunks', offset', hashed @ chunkData)
              else receive_loop S sha svc req started chunkSize (index + 1) offset' chunks'
                     (hashed @ chunkData) (drop chunkSize data) readErr))))"
  by pat_completeness auto

termination
proof (relation "measure (\<lambda>(S, sha, svc, req, started, chunkSize, index, offset, chunks, hashed, data, readErr).
    length data)")
qed (auto simp: ReadFull_def split: if_splits option.splits)

declare receive_loop.simps [simp del]

subsection \<open>Receive\<close>

definition request_manifest ::
  "Request \<Rightarrow> Chunk list \<Rightarrow> int \<Rightarrow> string \<Rightarrow> int \<Rightarrow> Manifest" where
  "request_manifest req chunks offset streamSHA chunkSize =
     manifest_New
       \<lparr>id_Source = rq_Source req, id_Pool = rq_Pool req, id_Dataset = rq_Dataset req,
        id_Snapshot = rq_Snapshot req\<rparr>
       \<lparr>ln_BaseSnapshot = rq_BaseSnapshot req\<rparr>
       \<lparr>st_Raw = rq_Raw req, st_Compressed = rq_Compressed req, st_FromGUID = rq_FromGUID req,
        st_ToGUID = rq_ToGUID req, st_SizeBytes = offset, st_SHA256 = streamSHA,
        st_ChunkSize = chunkSize\<rparr>
       chunks"

text \<open>The commit and the result.\<close>

definition receive_finish ::
  "Service \<Rightarrow> Request \<Rightarrow> StartedUpload \<Rightarrow> Chunk list \<Rightarrow> int \<Rightarrow> string \<Rightarrow> ('s world, Result) prog" where
  "receive_finish svc req started chunks offset streamSHA =
     (let manifestKey = request_manifest_key svc req in
      check (CommitUpload (su_SnapshotID started) (su_UploadSessionID started) manifestKey
               offset offset streamSHA (rq_FromGUID req) (rq_ToGUID req)
               (int (length chunks)) (su_OperationID started))
        throw (\<lambda>_.
      ok \<lparr>rs_SnapshotID = su_SnapshotID started,
          rs_UploadSessionID = su_UploadSessionID started,
          rs_OperationID = su_OperationID started, rs_ManifestKey = manifestKey,
          rs_StreamSHA256 = streamSHA, rs_BytesReceived = offset, rs_Chunks = chunks\<rparr>))"

text \<open>From the end of the loop to the commit.\<close>

definition receive_commit ::
  "'s Store \<Rightarrow> (bytes \<Rightarrow> bytes) \<Rightarrow> json \<Rightarrow> Service \<Rightarrow> Request \<Rightarrow> StartedUpload \<Rightarrow> int \<Rightarrow>
   Chunk list \<times> int \<times> bytes \<Rightarrow> ('s world, Result) prog" where
  "receive_commit S sha J svc req started chunkSize received =
     (case received of (chunks, offset, hashed) \<Rightarrow>
      if chunks = [] then throw (Errorf (msg ''empty upload stream'') [])
      else
      check (UpdateUploadStatus (su_UploadSessionID started) UpCommittingManifest)
        (\<lambda>e. throw (Wrapf (msg ''mark committing manifest: %w'') [] e)) (\<lambda>_.
      let streamSHA = sha_hex sha hashed;
          mani = request_manifest req chunks offset streamSHA chunkSize in
      case MarshalCanonical J mani of
        Inl e \<Rightarrow> throw (Wrapf (msg ''build manifest: %w'') [] e)
      | Inr manifestBytes \<Rightarrow>
          let manifestKey = request_manifest_key svc req in
          check (putBytesWithRetry S svc manifestKey manifestBytes)
            (\<lambda>e. throw (Wrapf (msg ''put manifest: %w'') [] e)) (\<lambda>manifestInfo.
          if oi_Size manifestInfo \<noteq> int (length manifestBytes)
          then throw (Errorf (msg ''manifest persisted size mismatch: got %d want %d'')
                 [show_int (oi_Size manifestInfo), show_nat (length manifestBytes)])
          else
          check (SetUploadManifestObjectKey (su_UploadSessionID started) manifestKey)
            (\<lambda>e. throw (Wrapf (msg ''mark committing catalog: %w'') [] e)) (\<lambda>_.
          case (case svc_BeforeCatalogCommit svc of
                  None \<Rightarrow> None
                | Some hook \<Rightarrow>
                    hook \<lparr>sc_SnapshotID = su_SnapshotID started,
                          sc_UploadSessionID = su_UploadSessionID started,
                          sc_OperationID = su_OperationID started, sc_ManifestKey = manifestKey\<rparr>) of
            Some e \<Rightarrow> throw (Wrapf (msg ''before catalog commit: %w'') [] e)
          | None \<Rightarrow>
              receive_finish svc req started chunks offset streamSHA))))"

definition receive_fail :: "StartedUpload \<Rightarrow> error \<Rightarrow> ('s world, Result) prog" where
  "receive_fail started cause =
     check (FailUpload (su_SnapshotID started) (su_UploadSessionID started) (su_OperationID started) cause)
       (\<lambda>e. throw (ErrJoin cause (Wrapf (msg ''record upload failure: %w'') [] e)))
       (\<lambda>_. throw cause)"

definition effective_chunk_size :: "Service \<Rightarrow> int" where
  "effective_chunk_size svc =
     (if svc_ChunkSize svc \<le> 0 then 64 * 1024 * 1024 else svc_ChunkSize svc)"

definition request_identity :: "Service \<Rightarrow> Request \<Rightarrow> DatasetIdentity" where
  "request_identity svc req =
     \<lparr>di_Source = rq_Source req, di_Pool = rq_Pool req, di_Dataset = rq_Dataset req,
      di_Snapshot = rq_Snapshot req, di_BaseSnapshot = rq_BaseSnapshot req,
      di_MaxIncrementalChainDepth =
        (if rq_MaxIncrementalChainDepth req = 0 then EffectiveMaxIncrementalChainDepth svc
         else rq_MaxIncrementalChainDepth req)\<rparr>"

text \<open>\<open>int\<close> is 64 bits wide, so the conversion of the chunk size never truncates.\<close>

definition Receive ::
  "'s Store \<Rightarrow> (bytes \<Rightarrow> bytes) \<Rightarrow> json \<Rightarrow> Service \<Rightarrow> Request \<Rightarrow> bytes \<Rightarrow> error option \<Rightarrow>
   ('s world, Result) prog" where
  "Receive S sha J svc req data readErr =
     (if \<not> svc_Repo svc then throw (Errorf (msg ''repo is required'') [])
      else if \<not> svc_Store svc then throw (Errorf (msg ''store is required'') [])
      else let chunkSize = effective_chunk_size svc in
      check (StartUpload (request_identity svc req) chunkSize) throw (\<lambda>started.
      check (check (receive_loop S sha svc req started (nat chunkSize) 0 0 [] [] data readErr) throw
               (receive_commit S sha J svc req started chunkSize))
        (receive_fail started) ok))"

section \<open>Frames\<close>

lemma put_retry_frames [frame_rules]:
  "keeps cat_ok (put_retry n x1 x2 x3 x4 x5 x6 x7)"
  "frame (\<lambda>w w'. wCat w' = wCat w) (put_retry n x1 x2 x3 x4 x5 x6 x7)"
  by (induction n arbitrary: x1 x2 x3 x4 x5 x6 x7) (auto simp: Let_def intro!: frame_rules)

lemma putBytesWithRetry_frames [frame_rules]:
  "keeps cat_ok (putBytesWithRetry x1 x2 x3 x4)"
  "frame (\<lambda>w w'. wCat w' = wCat w) (putBytesWithRetry x1 x2 x3 x4)"
  unfolding putBytesWithRetry_def Let_def by (intro frame_rules)+

lemma receive_chunk_frames [frame_rules]: "keeps cat_ok (receive_chunk x1 x2 x3 x4 x5 x6 x7 x8)"
  unfolding receive_chunk_def Let_def by (intro frame_rules)

lemma receive_loop_frames [frame_rules]:
  "keeps cat_ok (receive_loop x1 x2 x3 x4 x5 x6 x7 x8 x9 x10 x11 x12)"
proof (induction x1 x2 x3 x4 x5 x6 x7 x8 x9 x10 x11 x12 rule: receive_loop.induct)
  case (1 S sha svc req started chunkSize index offset chunks hashed data readErr)
  show ?case
    by (subst receive_loop.simps)
      (auto simp: Let_def split: read_result.split intro!: frame_rules 1)
qed

lemma receive_finish_frames [frame_rules]: "keeps cat_ok (receive_finish x1 x2 x3 x4 x5 x6)"
  unfolding receive_finish_def Let_def by (intro frame_rules)

lemma receive_commit_frames [frame_rules]: "keeps cat_ok (receive_commit x1 x2 x3 x4 x5 x6 x7 x8)"
  unfolding receive_commit_def Let_def by (intro frame_rules)

lemma Receive_keeps [frame_rules]: "keeps cat_ok (Receive S sha J svc req data readErr)"
  unfolding Receive_def receive_fail_def Let_def by (intro frame_rules)

section \<open>The layout of a stream\<close>

text \<open>The pieces a stream is cut into, and the chunk entries that describe them.\<close>

function slices :: "nat \<Rightarrow> bytes \<Rightarrow> bytes list" where
  "slices n data = (if n = 0 \<or> data = [] then [] else take n data # slices n (drop n data))"
  by pat_completeness auto

termination
  by (relation "measure (\<lambda>(n, data). length data)") auto

declare slices.simps [simp del]

fun entries :: "(int \<Rightarrow> string) \<Rightarrow> (bytes \<Rightarrow> bytes) \<Rightarrow> int \<Rightarrow> int \<Rightarrow> bytes list \<Rightarrow> Chunk list" where
  "entries key sha index offset [] = []"
| "entries key sha index offset (d # ds) =
     \<lparr>ch_Index = index, ch_ObjectKey = key index, ch_SizeBytes = int (length d),
      ch_OffsetStart = offset, ch_OffsetEnd = offset + int (length d), ch_SHA256 = sha_hex sha d\<rparr> #
     entries key sha (index + 1) (offset + int (length d)) ds"

lemma slices_Nil [simp]: "slices n [] = []"
  by (simp add: slices.simps)

lemma concat_slices: "0 < n \<Longrightarrow> concat (slices n data) = data"
proof (induction n data rule: slices.induct)
  case (1 n data)
  then show ?case by (cases "data = []") (simp_all add: slices.simps [of n data])
qed

lemma slices_short: "0 < n \<Longrightarrow> data \<noteq> [] \<Longrightarrow> length data \<le> n \<Longrightarrow> slices n data = [data]"
  by (simp add: slices.simps)

lemma slices_long: "0 < n \<Longrightarrow> n \<le> length data \<Longrightarrow> slices n data = take n data # slices n (drop n data)"
  by (subst slices.simps) auto

lemma slices_sizes: "0 < n \<Longrightarrow> d \<in> set (slices n data) \<Longrightarrow> d \<noteq> [] \<and> length d \<le> n"
proof (induction n data rule: slices.induct)
  case (1 n data)
  then show ?case by (cases "data = []") (auto simp: slices.simps [of n data])
qed

section \<open>What reaches the store\<close>

context object_store
begin

text \<open>A put leaves the other keys alone, and when it succeeds the object is there.\<close>

definition put_post :: "string \<Rightarrow> bytes \<Rightarrow> 's world \<Rightarrow> error + ObjectInfo \<Rightarrow> 's world \<Rightarrow> bool" where
  "put_post key d w r w' \<longleftrightarrow>
     inv (wObj w') \<and> (\<forall>j. j \<noteq> key \<longrightarrow> view (wObj w') j = view (wObj w) j) \<and>
     (\<forall>info. r = Inr info \<longrightarrow> view (wObj w') key = Some d \<and> oi_Size info = int (length d) \<and>
        oi_SHA256 info = sha_hex sha d)"

lemma put_retry_post:
  "inv (wObj w) \<Longrightarrow> wp (put_retry n S maxE key d t b a) (put_post key d w) w"
proof (induction n arbitrary: w b a)
  case 0
  then show ?case by (simp add: wp_rules put_post_def)
next
  case (Suc n)
  obtain r s where p: "PutBytes S key d (wObj w) = (r, s)" by fastforce
  show ?case
  proof (cases r)
    case (Inr info)
    then show ?thesis using put_ok [OF Suc.prems, of key d info s] p
      by (simp add: wp_rules put_post_def)
  next
    case (Inl e)
    then have e: "inv s" "\<And>j. j \<noteq> key \<Longrightarrow> view s j = view (wObj w) j"
      using put_err [OF Suc.prems, of key d e s] p by simp_all
    have again: "wp (put_retry n S maxE key d t b' a') (put_post key d w) v" if "wObj v = s" for v b' a'
      using Suc.IH [of v b' a'] e that
      by (auto simp: put_post_def elim!: wp_mono)
    have failed: "put_post key d w (Inl e') v" if "wObj v = s" for v e'
      using e that by (simp add: put_post_def)
    show ?thesis using Inl p by (simp add: wp_rules Let_def failed again)
  qed
qed

lemma putBytesWithRetry_post:
  assumes "inv (wObj w)"
  shows "wp (putBytesWithRetry S svc key d) (put_post key d w) w"
proof -
  have eq: "put_post k e (tick w) = put_post k e w" for k e by (simp add: put_post_def fun_eq_iff)
  show ?thesis
    unfolding putBytesWithRetry_def Let_def wp_rules
    by (rule put_retry_post [of "tick w", unfolded eq]) (simp add: assms)
qed

lemma run_receive_chunk:
  assumes "inv (wObj w)" and "0 \<le> offset" and "offset + int (length d) < 2 ^ 63"
    and run: "run_state (receive_chunk S sha svc req st i offset d) w = (Inr chunk, w')"
  shows "entries (request_chunk_key svc req) sha i offset [d] = [chunk]" and "inv (wObj w')"
    and "view (wObj w') (request_chunk_key svc req i) = Some d"
    and "j \<noteq> request_chunk_key svc req i \<Longrightarrow> view (wObj w') j = view (wObj w) j"
proof -
  let ?key = "request_chunk_key svc req i"
  obtain info w1 where p: "run_state (putBytesWithRetry S svc ?key d) w = (Inr info, w1)"
    and add: "run_state (AddVerifiedChunk (su_SnapshotID st) (su_UploadSessionID st)
      \<lparr>cr_ID = [], cr_Index = i, cr_ObjectKey = ?key, cr_SizeBytes = int (length d), cr_OffsetStart = offset,
       cr_OffsetEnd = wrap64 (offset + int (length d)), cr_SHA256 = sha_hex sha d\<rparr>) w1 = (Inr (), w')"
    and chunk: "chunk = \<lparr>ch_Index = i, ch_ObjectKey = ?key, ch_SizeBytes = int (length d),
      ch_OffsetStart = offset, ch_OffsetEnd = wrap64 (offset + int (length d)), ch_SHA256 = sha_hex sha d\<rparr>"
    using run unfolding receive_chunk_def Let_def
    by (auto elim!: run_check_throw_Inr split: if_splits)
  have obj: "wObj w' = wObj w1" using frameD [OF AddVerifiedChunk_frames(2) add] .
  have post: "put_post ?key d w (Inr info) w1" using wpD [OF putBytesWithRetry_post [OF assms(1)] p] .
  show "entries (request_chunk_key svc req) sha i offset [d] = [chunk]"
    using assms(2,3) chunk by (simp add: in_int64_nonneg)
  show "inv (wObj w')" and "view (wObj w') ?key = Some d"
    and "j \<noteq> ?key \<Longrightarrow> view (wObj w') j = view (wObj w) j"
    using post obj by (simp_all add: put_post_def)
qed

end

lemma request_chunk_key_inj:
  "0 \<le> i \<Longrightarrow> 0 \<le> j \<Longrightarrow> request_chunk_key svc req i = request_chunk_key svc req j \<Longrightarrow> i = j"
  unfolding request_chunk_key_def by (rule ChunkKey_index_inj)

lemma request_keys_differ: "request_chunk_key svc req i \<noteq> request_manifest_key svc req"
  unfolding request_chunk_key_def request_manifest_key_def by (rule ChunkKey_not_ManifestKey)

text \<open>One round of the loop that does not fail: it ends, or it stores a piece and may go on.\<close>

lemma run_receive_loop_step:
  assumes "run_state (receive_loop S sha svc req st cs i offset chunks hashed data readErr) w = (Inr res, w')"
    and cs: "0 < cs"
  obtains (done_) "data = []" and "readErr = None" and "res = (chunks, offset, hashed)" and "wObj w' = wObj w"
  | (more) d w1 w2 chunk where "d = take cs data" and "d \<noteq> []" and "wObj w1 = wObj w"
      and "run_state (receive_chunk S sha svc req st i offset d) w1 = (Inr chunk, w2)"
      and "length data < cs \<longrightarrow> readErr = None \<and> wObj w' = wObj w2 \<and>
             res = (chunks @ [chunk], wrap64 (offset + int (length d)), hashed @ d)"
      and "cs \<le> length data \<longrightarrow> (\<exists>w3. wObj w3 = wObj w2 \<and>
             run_state (receive_loop S sha svc req st cs (i + 1) (wrap64 (offset + int (length d)))
               (chunks @ [chunk]) (hashed @ d) (drop cs data) readErr) w3 = (Inr res, w'))"
proof (cases "ReadFull cs data readErr")
  case ReadEOF
  then have "data = []" and "readErr = None" by (auto simp: ReadFull_def split: if_splits option.splits)
  moreover have "res = (chunks, offset, hashed)" and "wObj w' = wObj w"
    using assms(1) ReadEOF by (auto simp: receive_loop.simps [of S] ctx_Err_def split: if_splits)
  ultimately show thesis by (rule done_)
next
  case (ReadFailed e)
  then show thesis using assms(1) by (simp add: receive_loop.simps [of S])
next
  case (ReadBytes d short)
  then have d: "d = take cs data" "d \<noteq> []" "short \<longleftrightarrow> length data < cs" "short \<longrightarrow> readErr = None"
    using cs by (auto simp: ReadFull_def split: if_splits option.splits)
  define w1 where "w1 = (if short then tick w else w)"
  have w1: "wObj w1 = wObj w" by (simp add: w1_def)
  have run: "run_state (check (receive_chunk S sha svc req st i offset d) throw (\<lambda>chunk.
        check (UpdateUploadProgress (su_UploadSessionID st) (i + 1) (int (length (chunks @ [chunk])))
                 (wrap64 (offset + int (length d))))
          (\<lambda>e. throw (Wrapf (msg ''update progress: %w'') [] e)) (\<lambda>_.
        if short then ok (chunks @ [chunk], wrap64 (offset + int (length d)), hashed @ d)
        else receive_loop S sha svc req st cs (i + 1) (wrap64 (offset + int (length d)))
               (chunks @ [chunk]) (hashed @ d) (drop cs data) readErr))) w1 = (Inr res, w')"
    using assms(1) ReadBytes d(2) unfolding w1_def
    by (auto simp: receive_loop.simps [of S] ctx_Err_def Let_def split: if_splits)
  obtain chunk w2 where c: "run_state (receive_chunk S sha svc req st i offset d) w1 = (Inr chunk, w2)"
    and run2: "run_state (check (UpdateUploadProgress (su_UploadSessionID st) (i + 1)
        (int (length (chunks @ [chunk]))) (wrap64 (offset + int (length d))))
          (\<lambda>e. throw (Wrapf (msg ''update progress: %w'') [] e)) (\<lambda>_.
        if short then ok (chunks @ [chunk], wrap64 (offset + int (length d)), hashed @ d)
        else receive_loop S sha svc req st cs (i + 1) (wrap64 (offset + int (length d)))
               (chunks @ [chunk]) (hashed @ d) (drop cs data) readErr)) w2 = (Inr res, w')"
    using run by (rule run_check_throw_Inr)
  obtain u w3 where p: "run_state (UpdateUploadProgress (su_UploadSessionID st) (i + 1)
        (int (length (chunks @ [chunk]))) (wrap64 (offset + int (length d)))) w2 = (Inr u, w3)"
    and run3: "run_state (if short then ok (chunks @ [chunk], wrap64 (offset + int (length d)), hashed @ d)
        else receive_loop S sha svc req st cs (i + 1) (wrap64 (offset + int (length d)))
               (chunks @ [chunk]) (hashed @ d) (drop cs data) readErr) w3 = (Inr res, w')"
    using run2 by (rule run_check_throw_Inr)
  have w3: "wObj w3 = wObj w2" using frameD [OF UpdateUploadProgress_frames(2) p] .
  show thesis
  proof (rule more [OF d(1,2) w1 c])
    show "length data < cs \<longrightarrow> readErr = None \<and> wObj w' = wObj w2 \<and>
        res = (chunks @ [chunk], wrap64 (offset + int (length d)), hashed @ d)"
      using run3 w3 d by auto
    show "cs \<le> length data \<longrightarrow> (\<exists>w3. wObj w3 = wObj w2 \<and>
        run_state (receive_loop S sha svc req st cs (i + 1) (wrap64 (offset + int (length d)))
          (chunks @ [chunk]) (hashed @ d) (drop cs data) readErr) w3 = (Inr res, w'))"
      using run3 w3 d(3) by auto
  qed
qed

text \<open>What the pieces from position \<open>i\<close> on look like in the store.\<close>

definition holds_from ::
  "(string \<Rightarrow> bytes option) \<Rightarrow> (int \<Rightarrow> string) \<Rightarrow> int \<Rightarrow> bytes list \<Rightarrow> bool" where
  "holds_from content key i ds \<longleftrightarrow> (\<forall>k < length ds. content (key (i + int k)) = Some (ds ! k))"

lemma holds_from_Cons:
  "holds_from content key i (d # ds) \<longleftrightarrow> content (key i) = Some d \<and> holds_from content key (i + 1) ds"
  by (simp add: holds_from_def All_less_Suc2 add.assoc)

lemma holds_from_Nil [simp]: "holds_from content key i []"
  by (simp add: holds_from_def)

lemma entries_append1:
  "entries key sha i offset (d # ds) =
     entries key sha i offset [d] @ entries key sha (i + 1) (offset + int (length d)) ds"
  by simp

context object_store
begin

lemma run_receive_loop:
  assumes "run_state (receive_loop S sha svc req st cs i offset chunks hashed data readErr) w = (Inr res, w')"
    and "inv (wObj w)" and "0 < cs" and "0 \<le> i" and "0 \<le> offset" and "offset + int (length data) < 2 ^ 63"
  shows "res = (chunks @ entries (request_chunk_key svc req) sha i offset (slices cs data),
                offset + int (length data), hashed @ data) \<and> readErr = None \<and> inv (wObj w') \<and>
    holds_from (view (wObj w')) (request_chunk_key svc req) i (slices cs data) \<and>
    (\<forall>j. (\<forall>k \<ge> i. j \<noteq> request_chunk_key svc req k) \<longrightarrow> view (wObj w') j = view (wObj w) j)"
  using assms
proof (induction data arbitrary: i offset chunks hashed w rule: length_induct)
  case (1 data)
  note run = "1.prems"(1) and prems = "1.prems"(2-6)
  from run prems(2) show ?case
  proof (cases rule: run_receive_loop_step)
    case done_
    then show ?thesis using prems(1) by simp
  next
    case (more d w1 w2 chunk)
    have len: "length d \<le> length data" "0 < length d" using more(1,2) by auto
    have inv1: "inv (wObj w1)" using prems(1) more(3) by simp
    have small: "offset + int (length d) < 2 ^ 63" using prems(5) len by simp
    note c = run_receive_chunk [OF inv1 prems(4) small more(4)]
    have wrap: "wrap64 (offset + int (length d)) = offset + int (length d)"
      using prems(4) small by (simp add: in_int64_nonneg)
    show ?thesis
    proof (cases "length data < cs")
      case True
      then have "d = data" and "slices cs data = [data]" using more(1,2) prems(2) slices_short by auto
      then show ?thesis using more(3,5) True c wrap by (auto simp: holds_from_def)
    next
      case False
      then obtain w3 where w3: "wObj w3 = wObj w2"
        and rest: "run_state (receive_loop S sha svc req st cs (i + 1) (offset + int (length d))
          (chunks @ [chunk]) (hashed @ d) (drop cs data) readErr) w3 = (Inr res, w')"
        using more(6) wrap by auto
      have len': "length data = length d + length (drop cs data)" "length (drop cs data) < length data"
        using more(1) len False prems(2) by auto
      have inv3: "inv (wObj w3)" using c(2) w3 by simp
      have bounds: "0 \<le> i + 1" "0 \<le> offset + int (length d)"
        "offset + int (length d) + int (length (drop cs data)) < 2 ^ 63"
        using prems(3,4) prems(5) [unfolded len'(1)] by (simp_all only: of_nat_add)
      have IH: "res = ((chunks @ [chunk]) @ entries (request_chunk_key svc req) sha (i + 1)
            (offset + int (length d)) (slices cs (drop cs data)),
          offset + int (length d) + int (length (drop cs data)), (hashed @ d) @ drop cs data) \<and>
        readErr = None \<and> inv (wObj w') \<and>
        holds_from (view (wObj w')) (request_chunk_key svc req) (i + 1) (slices cs (drop cs data)) \<and>
        (\<forall>j. (\<forall>k \<ge> i + 1. j \<noteq> request_chunk_key svc req k) \<longrightarrow> view (wObj w') j = view (wObj w3) j)"
        by (rule "1.IH" [rule_format, OF len'(2) rest inv3 prems(2) bounds])
      have sl: "slices cs data = d # slices cs (drop cs data)"
        using slices_long [OF prems(2)] False more(1) by simp
      have "request_chunk_key svc req i \<noteq> request_chunk_key svc req k" if "i + 1 \<le> k" for k
        using request_chunk_key_inj [of i k svc req] that prems(3) by auto
      then have first: "view (wObj w') (request_chunk_key svc req i) = Some d" using IH c(3) w3 by auto
      have others: "view (wObj w') j = view (wObj w) j" if "\<forall>k \<ge> i. j \<noteq> request_chunk_key svc req k" for j
        using IH c(4) [of j] that w3 more(3) by auto
      have app: "hashed @ data = (hashed @ d) @ drop cs data" using more(1) by simp
      have tot: "offset + int (length data) = offset + int (length d) + int (length (drop cs data))"
        unfolding len'(1) of_nat_add by (rule add.assoc [symmetric])
      have ent: "chunks @ entries (request_chunk_key svc req) sha i offset (slices cs data) =
          (chunks @ [chunk]) @ entries (request_chunk_key svc req) sha (i + 1) (offset + int (length d))
            (slices cs (drop cs data))"
        unfolding sl entries_append1 [of _ _ i offset d "slices cs (drop cs data)"] c(1) by simp
      show ?thesis
        unfolding ent tot app using IH first others by (simp only: sl holds_from_Cons) blast
    qed
  qed
qed

end

section \<open>What reaches the catalog\<close>

text \<open>Between the start and the commit no statement touches the snapshot rows.\<close>

lemma upload_same_snapshots [frame_rules]:
  "stmt_same snapshots (q_CreateSnapshotChunk a1 a2 a3 i a4 n o1 o2 a5)"
  "stmt_same snapshots (q_UpdateUploadProgress st i n o1 a1)"
  "stmt_same snapshots (q_UpdateUploadStatus st a1)"
  "stmt_same snapshots (q_SetUploadManifestObjectKey m a1)"
  by (auto simp: stmt_same_def q_CreateSnapshotChunk_def q_UpdateUploadProgress_def
      q_UpdateUploadStatus_def q_SetUploadManifestObjectKey_def update_sessions_def split: if_splits)

lemma put_same_part [frame_rules]: "same_part part (putBytesWithRetry S svc key d)"
  by (rule same_part_cat) (rule putBytesWithRetry_frames(2))

lemma receive_chunk_same [frame_rules]: "same_part snapshots (receive_chunk x1 x2 x3 x4 x5 x6 x7 x8)"
  unfolding receive_chunk_def AddVerifiedChunk_def Let_def by (intro frame_rules)

lemma receive_loop_same [frame_rules]:
  "same_part snapshots (receive_loop x1 x2 x3 x4 x5 x6 x7 x8 x9 x10 x11 x12)"
proof (induction x1 x2 x3 x4 x5 x6 x7 x8 x9 x10 x11 x12 rule: receive_loop.induct)
  case (1 S sha svc req started chunkSize index offset chunks hashed data readErr)
  show ?case
    by (subst receive_loop.simps)
      (auto simp: Let_def UpdateUploadProgress_def split: read_result.split intro!: frame_rules 1)
qed

text \<open>A program whose failures leave a part of the catalog as they found it.\<close>

definition err_same :: "(catalog \<Rightarrow> 'x) \<Rightarrow> ('s world, 'a) prog \<Rightarrow> bool" where
  "err_same part m \<longleftrightarrow> (\<forall>w e w'. run_state m w = (Inl e, w') \<longrightarrow> part (wCat w') = part (wCat w))"

lemma err_same_throw: "err_same part (throw e)"
  by (simp add: err_same_def)

lemma err_same_check:
  assumes "same_part part m" and "\<And>e. same_part part (h e)" and "\<And>x. err_same part (k x)"
  shows "err_same part (check m h k)"
  unfolding err_same_def
proof (intro allI impI)
  fix w e w'
  assume run: "run_state (check m h k) w = (Inl e, w')"
  obtain r w1 where m: "run_state m w = (r, w1)" by fastforce
  then have "part (wCat w1) = part (wCat w)" using frameD [OF assms(1)] by blast
  moreover have "part (wCat w') = part (wCat w1)"
    using run m assms(3) frameD [OF assms(2)] by (cases r) (auto simp: err_same_def)
  ultimately show "part (wCat w') = part (wCat w)" by simp
qed

lemma err_same_withTx: "err_same part (withTx fn)"
  unfolding err_same_def by (auto elim: run_withTx_cases)

lemma err_same_last: "err_same part m \<Longrightarrow> err_same part (check m throw (\<lambda>_. ok x))"
  unfolding err_same_def by (auto simp: run_check split: prod.splits sum.splits)

lemma err_same_if: "(b \<Longrightarrow> err_same part m) \<Longrightarrow> (\<not> b \<Longrightarrow> err_same part n) \<Longrightarrow> err_same part (if b then m else n)"
  by simp

lemma receive_commit_err:
  "err_same snapshots (receive_commit S sha J svc req st cs received :: ('s world, Result) prog)"
proof -
  obtain chunks offset hashed where r: "received = (chunks, offset, hashed)" by (cases received)
  have last: "err_same snapshots (receive_finish a1 a2 a3 a4 a5 a6 :: ('s world, Result) prog)" for a1 a2 a3 a4 a5 a6
    unfolding receive_finish_def CommitUpload_def Let_def by (intro err_same_last err_same_withTx)
  show ?thesis
    unfolding receive_commit_def r UpdateUploadStatus_def SetUploadManifestObjectKey_def
    by (auto simp: Let_def split: sum.split option.split
        intro!: err_same_if err_same_check err_same_throw last frame_rules)
qed

lemma run_receive_commit_steps:
  assumes "run_state (receive_commit S sha J svc req st cs (chunks, offset, hashed)) w = (Inr res, w')"
  obtains mb info w1 w2 w3 where "chunks \<noteq> []"
    and "run_state (UpdateUploadStatus (su_UploadSessionID st) UpCommittingManifest) w = (Inr (), w1)"
    and "MarshalCanonical J (request_manifest req chunks offset (sha_hex sha hashed) cs) = Inr mb"
    and "run_state (putBytesWithRetry S svc (request_manifest_key svc req) mb) w1 = (Inr info, w2)"
    and "run_state (SetUploadManifestObjectKey (su_UploadSessionID st) (request_manifest_key svc req)) w2 = (Inr (), w3)"
    and "run_state (CommitUpload (su_SnapshotID st) (su_UploadSessionID st) (request_manifest_key svc req)
      offset offset (sha_hex sha hashed) (rq_FromGUID req) (rq_ToGUID req) (int (length chunks))
      (su_OperationID st)) w3 = (Inr (), w')"
    and "res = \<lparr>rs_SnapshotID = su_SnapshotID st, rs_UploadSessionID = su_UploadSessionID st,
      rs_OperationID = su_OperationID st, rs_ManifestKey = request_manifest_key svc req,
      rs_StreamSHA256 = sha_hex sha hashed, rs_BytesReceived = offset, rs_Chunks = chunks\<rparr>"
  using assms unfolding receive_commit_def receive_finish_def Let_def
  by (auto elim!: run_check_throw_Inr split: if_splits sum.splits option.splits)

lemma run_receive_commit_catalog:
  assumes "run_state (receive_commit S sha J svc req st cs received) w = (Inr res, w')"
  obtains chunks offset hashed wc where "snapshots (wCat wc) = snapshots (wCat w)"
    and "res = \<lparr>rs_SnapshotID = su_SnapshotID st, rs_UploadSessionID = su_UploadSessionID st,
      rs_OperationID = su_OperationID st, rs_ManifestKey = request_manifest_key svc req,
      rs_StreamSHA256 = sha_hex sha hashed, rs_BytesReceived = offset, rs_Chunks = chunks\<rparr>"
    and "run_state (CommitUpload (su_SnapshotID st) (su_UploadSessionID st) (request_manifest_key svc req)
      offset offset (sha_hex sha hashed) (rq_FromGUID req) (rq_ToGUID req) (int (length chunks))
      (su_OperationID st)) wc = (Inr (), w')"
proof -
  obtain chunks offset hashed where r: "received = (chunks, offset, hashed)" by (cases received)
  obtain mb info w1 w2 w3 where
    u: "run_state (UpdateUploadStatus (su_UploadSessionID st) UpCommittingManifest) w = (Inr (), w1)"
    and p: "run_state (putBytesWithRetry S svc (request_manifest_key svc req) mb) w1 = (Inr info, w2)"
    and k: "run_state (SetUploadManifestObjectKey (su_UploadSessionID st) (request_manifest_key svc req)) w2 = (Inr (), w3)"
    and rest: "run_state (CommitUpload (su_SnapshotID st) (su_UploadSessionID st) (request_manifest_key svc req)
      offset offset (sha_hex sha hashed) (rq_FromGUID req) (rq_ToGUID req) (int (length chunks))
      (su_OperationID st)) w3 = (Inr (), w')"
      "res = \<lparr>rs_SnapshotID = su_SnapshotID st, rs_UploadSessionID = su_UploadSessionID st,
      rs_OperationID = su_OperationID st, rs_ManifestKey = request_manifest_key svc req,
      rs_StreamSHA256 = sha_hex sha hashed, rs_BytesReceived = offset, rs_Chunks = chunks\<rparr>"
    using assms unfolding r by (rule run_receive_commit_steps)
  have "snapshots (wCat w1) = snapshots (wCat w)"
    using u unfolding UpdateUploadStatus_def by (rule frameD [rotated]) (intro frame_rules)
  moreover have "snapshots (wCat w2) = snapshots (wCat w1)"
    using p by (rule frameD [rotated]) (intro frame_rules)
  moreover have "snapshots (wCat w3) = snapshots (wCat w2)"
    using k unfolding SetUploadManifestObjectKey_def by (rule frameD [rotated]) (intro frame_rules)
  ultimately have "snapshots (wCat w3) = snapshots (wCat w)" by simp
  from that [OF this rest(2,1)] show thesis .
qed

context object_store
begin

lemma run_receive_commit:
  assumes "run_state (receive_commit S sha J svc req st cs (chunks, offset, hashed)) w = (Inr res, w')"
    and "inv (wObj w)"
  shows "\<exists>mb. MarshalCanonical J (request_manifest req chunks offset (sha_hex sha hashed) cs) = Inr mb \<and>
    view (wObj w') (request_manifest_key svc req) = Some mb \<and>
    (\<forall>j. j \<noteq> request_manifest_key svc req \<longrightarrow> view (wObj w') j = view (wObj w) j) \<and> inv (wObj w') \<and>
    res = \<lparr>rs_SnapshotID = su_SnapshotID st, rs_UploadSessionID = su_UploadSessionID st,
      rs_OperationID = su_OperationID st, rs_ManifestKey = request_manifest_key svc req,
      rs_StreamSHA256 = sha_hex sha hashed, rs_BytesReceived = offset, rs_Chunks = chunks\<rparr>"
  using assms(1)
proof (rule run_receive_commit_steps)
  fix mb info w1 w2 w3
  let ?key = "request_manifest_key svc req"
  assume u: "run_state (UpdateUploadStatus (su_UploadSessionID st) UpCommittingManifest) w = (Inr (), w1)"
    and m: "MarshalCanonical J (request_manifest req chunks offset (sha_hex sha hashed) cs) = Inr mb"
    and p: "run_state (putBytesWithRetry S svc ?key mb) w1 = (Inr info, w2)"
    and k: "run_state (SetUploadManifestObjectKey (su_UploadSessionID st) ?key) w2 = (Inr (), w3)"
    and c: "run_state (CommitUpload (su_SnapshotID st) (su_UploadSessionID st) ?key
      offset offset (sha_hex sha hashed) (rq_FromGUID req) (rq_ToGUID req) (int (length chunks))
      (su_OperationID st)) w3 = (Inr (), w')"
    and res: "res = \<lparr>rs_SnapshotID = su_SnapshotID st, rs_UploadSessionID = su_UploadSessionID st,
      rs_OperationID = su_OperationID st, rs_ManifestKey = ?key,
      rs_StreamSHA256 = sha_hex sha hashed, rs_BytesReceived = offset, rs_Chunks = chunks\<rparr>"
  have obj: "wObj w1 = wObj w" "wObj w3 = wObj w2" "wObj w' = wObj w3"
    using frameD [OF UpdateUploadStatus_frames(2) u] frameD [OF SetUploadManifestObjectKey_frames(2) k]
      frameD [OF CommitUpload_frames(2) c] by simp_all
  have "put_post ?key mb w1 (Inr info) w2"
    using wpD [OF putBytesWithRetry_post p] assms(2) obj(1) by simp
  then show ?thesis using m res obj by (auto simp: put_post_def)
qed

end

section \<open>Outcomes of a receive\<close>

lemma run_receive_fail:
  assumes "run_state (receive_fail st cause) w = (r, w')"
  shows "\<exists>e. r = Inl e"
    and "snapshots (wCat w') = snapshots (wCat w) \<or>
      snapshots (wCat w') = update_where (\<lambda>s. sn_ID s = su_SnapshotID st)
        (\<lambda>s. s\<lparr>sn_Status := SnapFailed, sn_FailureReason := Some (error_text cause)\<rparr>) (snapshots (wCat w))"
proof -
  obtain rf where f: "run_state (FailUpload (su_SnapshotID st) (su_UploadSessionID st) (su_OperationID st) cause) w = (rf, w')"
    and "\<exists>e. r = Inl e"
    using assms by (auto simp: receive_fail_def run_check split: prod.splits sum.splits)
  then show "\<exists>e. r = Inl e" by simp
  from f show "snapshots (wCat w') = snapshots (wCat w) \<or>
      snapshots (wCat w') = update_where (\<lambda>s. sn_ID s = su_SnapshotID st)
        (\<lambda>s. s\<lparr>sn_Status := SnapFailed, sn_FailureReason := Some (error_text cause)\<rparr>) (snapshots (wCat w))"
    unfolding FailUpload_def Let_def
  proof (cases rule: run_withTx_cases)
    case (committed x w1)
    have "wp (check (db_exec (q_FailSnapshot (Some (error_text cause)) (su_SnapshotID st)))
          (\<lambda>e. throw (Wrapf (msg ''fail snapshot: %w'') [] e)) (\<lambda>_.
        check (db_exec (q_FailUploadSession (Some (error_text cause)) (su_UploadSessionID st)))
          (\<lambda>e. throw (Wrapf (msg ''fail upload session: %w'') [] e)) (\<lambda>_.
        check (db_exec (q_UpdateOperationStatus OpFailed (Some (msg ''upload failed''))
                 (Some (error_text cause)) (su_OperationID st)))
          (\<lambda>e. throw (Wrapf (msg ''fail upload operation: %w'') [] e)) ok)))
      (\<lambda>r v. \<forall>u. r = Inr u \<longrightarrow> snapshots (wCat v) = update_where (\<lambda>s. sn_ID s = su_SnapshotID st)
        (\<lambda>s. s\<lparr>sn_Status := SnapFailed, sn_FailureReason := Some (error_text cause)\<rparr>)
        (snapshots (wCat w))) (tick w)"
      by (simp add: wp_rules q_FailSnapshot_def update_snapshots_def q_FailUploadSession_def
          update_sessions_def q_UpdateOperationStatus_def update_operations_def)
    from wpD [OF this committed(1)] show ?thesis using committed(3) by simp
  qed simp_all
qed

text \<open>The row of this upload is updated, all other rows stay.\<close>

lemma update_last_row:
  assumes "distinct (map sn_ID (rows @ [row]))"
  shows "update_where (\<lambda>s. sn_ID s = sn_ID row) f (rows @ [row]) = rows @ [f row]"
proof -
  have "sn_ID s \<noteq> sn_ID row" if "s \<in> set rows" for s
    using assms imageI [OF that, of sn_ID] by auto
  then show ?thesis by (simp add: update_where_def map_idI)
qed

lemma distinct_snapshots: "catalog_ok c \<Longrightarrow> distinct (map sn_ID (snapshots c))"
  by (simp add: catalog_ok_def unique_ok_def)

lemma run_Receive_Inr:
  assumes "run_state (Receive S sha J svc req data readErr) w = (Inr res, w')"
  obtains st received w1 w2 where
    "run_state (StartUpload (request_identity svc req) (effective_chunk_size svc)) w = (Inr st, w1)"
    and "run_state (receive_loop S sha svc req st (nat (effective_chunk_size svc)) 0 0 [] [] data readErr) w1 =
      (Inr received, w2)"
    and "run_state (receive_commit S sha J svc req st (effective_chunk_size svc) received) w2 = (Inr res, w')"
proof -
  obtain st w1 where st: "run_state (StartUpload (request_identity svc req) (effective_chunk_size svc)) w = (Inr st, w1)"
    and r1: "run_state (check (check (receive_loop S sha svc req st (nat (effective_chunk_size svc)) 0 0 [] [] data readErr)
        throw (receive_commit S sha J svc req st (effective_chunk_size svc))) (receive_fail st) ok) w1 = (Inr res, w')"
    using assms unfolding Receive_def Let_def
    by (auto elim!: run_check_throw_Inr split: if_splits)
  have "run_state (check (receive_loop S sha svc req st (nat (effective_chunk_size svc)) 0 0 [] [] data readErr)
        throw (receive_commit S sha J svc req st (effective_chunk_size svc))) w1 = (Inr res, w')"
    using r1 run_receive_fail(1) by (fastforce simp: run_check split: prod.splits sum.splits)
  then show thesis by (rule run_check_throw_Inr) (rule that [OF st])
qed

lemma run_Receive_Inl:
  assumes "run_state (Receive S sha J svc req data readErr) w = (Inl e, w')"
  obtains (early) "wCat w' = wCat w"
  | (late) st cause w1 w2 where
      "run_state (StartUpload (request_identity svc req) (effective_chunk_size svc)) w = (Inr st, w1)"
      and "snapshots (wCat w2) = snapshots (wCat w1)"
      and "run_state (receive_fail st cause) w2 = (Inl e, w')"
proof (cases "svc_Repo svc \<and> svc_Store svc")
  case False
  then have "w' = w" using assms by (auto simp: Receive_def split: if_splits)
  then show thesis using early by simp
next
  case True
  let ?cs = "effective_chunk_size svc"
  obtain r w1 where s: "run_state (StartUpload (request_identity svc req) ?cs) w = (r, w1)" by fastforce
  show thesis
  proof (cases r)
    case (Inl e')
    then have "w' = w1" using assms s True by (auto simp: Receive_def Let_def)
    moreover have "wCat w1 = wCat w"
      using s Inl err_same_withTx [of "\<lambda>c. c"] by (auto simp: StartUpload_def err_same_def)
    ultimately show ?thesis using early by simp
  next
    case (Inr st)
    let ?body = "check (receive_loop S sha svc req st (nat ?cs) 0 0 [] [] data readErr) throw
      (receive_commit S sha J svc req st ?cs)"
    have run: "run_state (check ?body (receive_fail st) ok) w1 = (Inl e, w')"
      using assms s Inr True by (simp add: Receive_def Let_def)
    obtain rb w2 where b: "run_state ?body w1 = (rb, w2)" by fastforce
    then obtain cause where cause: "rb = Inl cause" and f: "run_state (receive_fail st cause) w2 = (Inl e, w')"
      using run by (cases rb) auto
    have "err_same snapshots ?body"
      by (intro err_same_check frame_rules receive_commit_err)
    then have "snapshots (wCat w2) = snapshots (wCat w1)" using b cause by (auto simp: err_same_def)
    then show ?thesis using late s Inr f by blast
  qed
qed

section \<open>Properties\<close>

lemma run_Receive_failed:
  assumes ok: "cat_ok w" and run: "run_state (Receive S sha J svc req data readErr) w = (Inl e, w')"
  shows "{s \<in> set (snapshots (wCat w')). sn_Status s = SnapCommitted} =
    {s \<in> set (snapshots (wCat w)). sn_Status s = SnapCommitted}"
  using run
proof (cases rule: run_Receive_Inl)
  case early
  then show ?thesis by simp
next
  case (late st cause w1 w2)
  obtain v where v: "run_state (startUpload (request_identity svc req) (effective_chunk_size svc)) (tick w) = (Inr st, v)"
    and w1: "w1 = tick v" using late(1) by (rule run_StartUpload)
  obtain row P where snaps: "snapshots (wCat w1) = filter (\<lambda>s. \<not> P s) (snapshots (wCat w)) @ [row]"
    and row: "started_row (request_identity svc req) st row"
    and P: "\<forall>s \<in> set (snapshots (wCat w)). P s \<longrightarrow> \<not> protected s"
    using run_startUpload(1) [OF v] ok w1 by auto
  have "cat_ok w1" using frameD [OF StartUpload_frames(1) late(1)] ok by simp
  then have d: "distinct (map sn_ID (filter (\<lambda>s. \<not> P s) (snapshots (wCat w)) @ [row]))"
    using distinct_snapshots [of "wCat w1"] snaps by simp
  have id: "su_SnapshotID st = sn_ID row" using row by (simp add: started_row_def)
  have "snapshots (wCat w') = filter (\<lambda>s. \<not> P s) (snapshots (wCat w)) @ [row] \<or>
    snapshots (wCat w') = filter (\<lambda>s. \<not> P s) (snapshots (wCat w)) @
      [row\<lparr>sn_Status := SnapFailed, sn_FailureReason := Some (error_text cause)\<rparr>]"
    using run_receive_fail(2) [OF late(3)] unfolding late(2) snaps id update_last_row [OF d] .
  then show ?thesis using row P by (auto simp: started_row_def protected_def)
qed

text \<open>
  C13. A receive that fails, at any point and for any reason, creates no committed snapshot and
  takes none away: the committed rows of the catalog are the ones that were there before.
\<close>

theorem Receive_error_commits_nothing:
  assumes ok: "cat_ok w" and run: "run_state (Receive S sha J svc req data readErr) w = (Inl e, w')"
  shows "{s \<in> set (snapshots (wCat w')). sn_Status s = SnapCommitted} =
    {s \<in> set (snapshots (wCat w)). sn_Status s = SnapCommitted}"
  using ok run by (rule run_Receive_failed)

definition sample_service :: Service where
  "sample_service =
     \<lparr>svc_Repo = True, svc_Store = True, svc_Keys = \<lparr>RootPrefix = ''backups''\<rparr>, svc_ChunkSize = 4,
      svc_MaxIncrementalChainDepth = 5, svc_MaxIncrementalChainDepthFunc = None,
      svc_PutRetryMaxElapsed = 0, svc_PutRetryInitialBackoff = 0, svc_BeforeCatalogCommit = None\<rparr>"

definition sample_request :: Request where
  "sample_request =
     \<lparr>rq_Source = ''host'', rq_Pool = ''tank'', rq_Dataset = ''home'', rq_Snapshot = ''s4'',
      rq_BaseSnapshot = ''s2'', rq_Raw = True, rq_Compressed = False, rq_FromGUID = ''0x1'',
      rq_ToGUID = ''0x2'', rq_MaxIncrementalChainDepth = 0\<rparr>"

text \<open>A codec that writes the digest of a manifest's stream and reads nothing.\<close>

definition sample_json :: json where
  "sample_json =
     \<lparr>json_MarshalIndent = (\<lambda>m. Inr (go_bytes (st_SHA256 (m_Stream m)))),
      json_Unmarshal = (\<lambda>b. Inl (Errorf (msg ''unexpected end of JSON input'') []))\<rparr>"

lemma sample_receive_error:
  "fst (run_state (Receive (MemoryStore (\<lambda>d. d)) (\<lambda>d. d) sample_json sample_service sample_request
     [1, 2, 3, 4, 5] (Some ErrDriver)) sample_world) =
   Inl (Wrapf (msg ''read chunk %d: %w'') [''1''] ErrDriver)"
  by code_simp

theorem Receive_error_commits_nothing_witness:
  "\<exists>w'. run_state (Receive (MemoryStore (\<lambda>d. d)) (\<lambda>d. d) sample_json sample_service sample_request
      [1, 2, 3, 4, 5] (Some ErrDriver)) sample_world =
      (Inl (Wrapf (msg ''read chunk %d: %w'') [''1''] ErrDriver), w') \<and>
    {s \<in> set (snapshots (wCat w')). sn_Status s = SnapCommitted} =
    {s \<in> set (snapshots (wCat sample_world)). sn_Status s = SnapCommitted}"
  using Receive_error_commits_nothing [OF sample_world_ok run_fst [OF sample_receive_error]]
    run_fst [OF sample_receive_error] by blast

lemma effective_chunk_size_pos: "0 < effective_chunk_size svc"
  by (simp add: effective_chunk_size_def)

lemma run_Receive_stored:
  assumes "object_store S sha view I" and "I (wObj w)" and "int (length data) < 2 ^ 63"
    and "run_state (Receive S sha J svc req data readErr) w = (Inr res, w')"
  shows "I (wObj w') \<and> readErr = None \<and> rs_BytesReceived res = int (length data) \<and>
    rs_StreamSHA256 res = sha_hex sha data \<and>
    rs_Chunks res = entries (request_chunk_key svc req) sha 0 0 (slices (nat (effective_chunk_size svc)) data) \<and>
    holds_from (view (wObj w')) (request_chunk_key svc req) 0 (slices (nat (effective_chunk_size svc)) data) \<and>
    rs_ManifestKey res = request_manifest_key svc req \<and>
    (\<exists>mb. MarshalCanonical J (request_manifest req (rs_Chunks res) (int (length data))
        (sha_hex sha data) (effective_chunk_size svc)) = Inr mb \<and>
      view (wObj w') (rs_ManifestKey res) = Some mb)"
proof -
  let ?cs = "nat (effective_chunk_size svc)"
  obtain st received w1 w2 where
    st: "run_state (StartUpload (request_identity svc req) (effective_chunk_size svc)) w = (Inr st, w1)"
    and l: "run_state (receive_loop S sha svc req st ?cs 0 0 [] [] data readErr) w1 = (Inr received, w2)"
    and c: "run_state (receive_commit S sha J svc req st (effective_chunk_size svc) received) w2 = (Inr res, w')"
    using assms(4) by (rule run_Receive_Inr)
  have "I (wObj w1)" using frameD [OF StartUpload_frames(2) st] assms(2) by simp
  from object_store.run_receive_loop [OF assms(1) l this] effective_chunk_size_pos [of svc] assms(3)
  have rec: "received = (entries (request_chunk_key svc req) sha 0 0 (slices ?cs data), int (length data), data)"
    and "readErr = None" and I2: "I (wObj w2)"
    and held: "holds_from (view (wObj w2)) (request_chunk_key svc req) 0 (slices ?cs data)" by simp_all
  obtain mb where
    m: "MarshalCanonical J (request_manifest req (entries (request_chunk_key svc req) sha 0 0 (slices ?cs data))
      (int (length data)) (sha_hex sha data) (effective_chunk_size svc)) = Inr mb"
    and v: "view (wObj w') (request_manifest_key svc req) = Some mb"
    and other: "\<And>j. j \<noteq> request_manifest_key svc req \<Longrightarrow> view (wObj w') j = view (wObj w2) j" and I': "I (wObj w')"
    and res: "res = \<lparr>rs_SnapshotID = su_SnapshotID st, rs_UploadSessionID = su_UploadSessionID st,
      rs_OperationID = su_OperationID st, rs_ManifestKey = request_manifest_key svc req,
      rs_StreamSHA256 = sha_hex sha data, rs_BytesReceived = int (length data),
      rs_Chunks = entries (request_chunk_key svc req) sha 0 0 (slices ?cs data)\<rparr>"
    using object_store.run_receive_commit [OF assms(1) c [unfolded rec] I2] by blast
  have "holds_from (view (wObj w')) (request_chunk_key svc req) 0 (slices ?cs data)"
    using held other request_keys_differ [of svc req] by (simp add: holds_from_def)
  then show ?thesis using \<open>readErr = None\<close> m v res I' by simp
qed

text \<open>
  C11. A receive that succeeds has stored the stream: cut into pieces of the chunk size, piece
  \<open>k\<close> stands under the chunk key of index \<open>k\<close>; the result lists the pieces in order with
  their sizes, offsets and digests, counts every byte, and gives the digest of the whole stream;
  the manifest that says the same stands under the manifest key. The reader had ended cleanly.
\<close>

theorem Receive_stores_stream:
  assumes "object_store S sha view I" and "I (wObj w)" and "int (length data) < 2 ^ 63"
    and "run_state (Receive S sha J svc req data readErr) w = (Inr res, w')"
  shows "readErr = None \<and> rs_BytesReceived res = int (length data) \<and>
    rs_StreamSHA256 res = sha_hex sha data \<and>
    rs_Chunks res = entries (request_chunk_key svc req) sha 0 0 (slices (nat (effective_chunk_size svc)) data) \<and>
    holds_from (view (wObj w')) (request_chunk_key svc req) 0 (slices (nat (effective_chunk_size svc)) data) \<and>
    rs_ManifestKey res = request_manifest_key svc req \<and>
    (\<exists>mb. MarshalCanonical J (request_manifest req (rs_Chunks res) (int (length data))
        (sha_hex sha data) (effective_chunk_size svc)) = Inr mb \<and>
      view (wObj w') (rs_ManifestKey res) = Some mb)"
  using run_Receive_stored [OF assms] by (rule conjunct2)

lemma sample_receive:
  "run_state (Receive (MemoryStore (\<lambda>d. d)) (\<lambda>d. d) sample_json sample_service sample_request
     [1, 2, 3, 4, 5] None) sample_world =
   (Inr \<lparr>rs_SnapshotID = ''snap_0a'', rs_UploadSessionID = ''upload_0b'', rs_OperationID = ''op_0c'',
      rs_ManifestKey = request_manifest_key sample_service sample_request,
      rs_StreamSHA256 = ''0102030405'', rs_BytesReceived = 5,
      rs_Chunks = entries (request_chunk_key sample_service sample_request) (\<lambda>d. d) 0 0 [[1, 2, 3, 4], [5]]\<rparr>,
    snd (run_state (Receive (MemoryStore (\<lambda>d. d)) (\<lambda>d. d) sample_json sample_service sample_request
     [1, 2, 3, 4, 5] None) sample_world))"
  by (rule run_fst) code_simp

theorem Receive_stores_stream_witness:
  "\<exists>res w'. run_state (Receive (MemoryStore (\<lambda>d. d)) (\<lambda>d. d) sample_json sample_service sample_request
      [1, 2, 3, 4, 5] None) sample_world = (Inr res, w') \<and>
    rs_Chunks res = entries (request_chunk_key sample_service sample_request) (\<lambda>d. d) 0 0
      (slices (nat (effective_chunk_size sample_service)) [1, 2, 3, 4, 5])"
proof -
  have "int (length [1, 2, 3, 4, 5 :: byte]) < 2 ^ 63" by simp
  from Receive_stores_stream [OF memory.object_store_axioms TrueI this sample_receive] sample_receive
  show ?thesis by blast
qed

text \<open>The row a receive commits, from the row its start has added.\<close>

definition committed_row :: "Snapshot \<Rightarrow> Request \<Rightarrow> Result \<Rightarrow> int \<Rightarrow> Snapshot" where
  "committed_row row req res t =
     row\<lparr>sn_Status := SnapCommitted, sn_ManifestObjectKey := Some (rs_ManifestKey res),
        sn_LogicalBytes := Some (rs_BytesReceived res), sn_StoredBytes := rs_BytesReceived res,
        sn_StreamSha256 := Some (rs_StreamSHA256 res),
        sn_StreamFromGuid := rq_FromGUID req, sn_StreamToGuid := rq_ToGUID req,
        sn_ChunkCount := int (length (rs_Chunks res)), sn_UploadCompletedAt := Some t\<rparr>"

lemma run_receive_commit_row:
  assumes "run_state (receive_commit S sha J svc req st cs received) w = (Inr res, w')"
    and "snapshots (wCat w) = rows @ [row]" and "distinct (map sn_ID (rows @ [row]))"
    and "su_SnapshotID st = sn_ID row"
  shows "rs_SnapshotID res = sn_ID row \<and> (\<exists>t. snapshots (wCat w') = rows @ [committed_row row req res t])"
proof -
  obtain chunks offset hashed wc where
    wc: "snapshots (wCat wc) = snapshots (wCat w)"
    and res: "res = \<lparr>rs_SnapshotID = su_SnapshotID st, rs_UploadSessionID = su_UploadSessionID st,
      rs_OperationID = su_OperationID st, rs_ManifestKey = request_manifest_key svc req,
      rs_StreamSHA256 = sha_hex sha hashed, rs_BytesReceived = offset, rs_Chunks = chunks\<rparr>"
    and commit: "run_state (CommitUpload (su_SnapshotID st) (su_UploadSessionID st) (request_manifest_key svc req)
      offset offset (sha_hex sha hashed) (rq_FromGUID req) (rq_ToGUID req) (int (length chunks))
      (su_OperationID st)) wc = (Inr (), w')"
    using run_receive_commit_catalog [OF assms(1)] .
  obtain t1 t2 t3 where "wCat w' = commit_effect (su_SnapshotID st) (su_UploadSessionID st)
      (request_manifest_key svc req) offset offset (sha_hex sha hashed) (rq_FromGUID req) (rq_ToGUID req)
      (int (length chunks)) (su_OperationID st) t1 t2 t3 (wCat wc)"
    using run_CommitUpload [OF commit] by blast
  then have "snapshots (wCat w') = rows @ [committed_row row req res t1]"
    by (simp add: commit_effect_def wc assms(2,4) update_last_row [OF assms(3)] res committed_row_def
        del: map_append)
  then show ?thesis using res assms(4) by auto
qed

lemma run_Receive_committed:
  assumes ok: "cat_ok w" and run: "run_state (Receive S sha J svc req data readErr) w = (Inr res, w')"
  shows "\<exists>rows row st. snapshots (wCat w') = rows @ [row] \<and>
    set rows \<subseteq> set (snapshots (wCat w)) \<and> {s \<in> set (snapshots (wCat w)). protected s} \<subseteq> set rows \<and>
    started_row (request_identity svc req) st (row\<lparr>sn_Status := SnapUploading, sn_ManifestObjectKey := None\<rparr>) \<and>
    sn_ID row = rs_SnapshotID res \<and> sn_Status row = SnapCommitted \<and>
    sn_ManifestObjectKey row = Some (rs_ManifestKey res) \<and>
    sn_LogicalBytes row = Some (rs_BytesReceived res) \<and>
    sn_StreamSha256 row = Some (rs_StreamSHA256 res) \<and> sn_ChunkCount row = int (length (rs_Chunks res))"
proof -
  obtain st received w1 w2 where
    st: "run_state (StartUpload (request_identity svc req) (effective_chunk_size svc)) w = (Inr st, w1)"
    and l: "run_state (receive_loop S sha svc req st (nat (effective_chunk_size svc)) 0 0 [] [] data readErr) w1 =
      (Inr received, w2)"
    and c: "run_state (receive_commit S sha J svc req st (effective_chunk_size svc) received) w2 = (Inr res, w')"
    using run by (rule run_Receive_Inr)
  obtain v where v: "run_state (startUpload (request_identity svc req) (effective_chunk_size svc)) (tick w) = (Inr st, v)"
    and w1: "w1 = tick v" using st by (rule run_StartUpload)
  obtain row P where snaps: "snapshots (wCat w1) = filter (\<lambda>s. \<not> P s) (snapshots (wCat w)) @ [row]"
    and row: "started_row (request_identity svc req) st row"
    and P: "\<forall>s \<in> set (snapshots (wCat w)). P s \<longrightarrow> \<not> protected s"
    using run_startUpload(1) [OF v] ok w1 by auto
  have "cat_ok w1" using frameD [OF StartUpload_frames(1) st] ok by simp
  then have d: "distinct (map sn_ID (filter (\<lambda>s. \<not> P s) (snapshots (wCat w)) @ [row]))"
    using distinct_snapshots [of "wCat w1"] snaps by simp
  have w2: "snapshots (wCat w2) = filter (\<lambda>s. \<not> P s) (snapshots (wCat w)) @ [row]"
    using frameD [OF receive_loop_same l] snaps by simp
  have id: "su_SnapshotID st = sn_ID row" using row by (simp add: started_row_def)
  obtain t where "snapshots (wCat w') = filter (\<lambda>s. \<not> P s) (snapshots (wCat w)) @ [committed_row row req res t]"
    and "rs_SnapshotID res = sn_ID row" using run_receive_commit_row [OF c w2 d id] by blast
  then show ?thesis using row P
    by (intro exI [of _ "filter (\<lambda>s. \<not> P s) (snapshots (wCat w))"] exI [of _ "committed_row row req res t"]
        exI [of _ st]) (auto simp: started_row_def committed_row_def)
qed



section \<open>The retry loop ends\<close>

text \<open>What is left of the time allowed, read on the clock as it stands.\<close>

definition time_left :: "int \<Rightarrow> int \<Rightarrow> 's world \<Rightarrow> int" where
  "time_left maxElapsed started w = maxElapsed - (wNow w (wTick w) - started)"

lemma next_backoff_ge: "d \<le> backoff \<Longrightarrow> d \<le> maxPutRetryBackoff \<Longrightarrow> 0 < d \<Longrightarrow> d \<le> next_backoff backoff"
  by (auto simp: next_backoff_def Let_def)

lemma retry_delay_cases:
  assumes "d \<le> backoff" and "d \<le> maxPutRetryBackoff"
  shows "retry_delay backoff remaining = remaining \<or> d \<le> retry_delay backoff remaining"
  using assms by (auto simp: retry_delay_def Let_def)

lemma rounds_left:
  assumes "0 < d" and "0 < r'" and "r' \<le> r - d" and "nat (r div d) + 2 \<le> Suc n"
  shows "nat (r' div d) + 2 \<le> n"
proof -
  have "r' div d \<le> (r - d) div d" using assms(1,3) by (intro zdiv_mono1)
  also have "(r - d) div d = r div d - 1" using assms(1) div_add_self2 [of d "r - d"] by simp
  finally have "r' div d \<le> r div d - 1" .
  moreover have "0 \<le> r' div d" using assms by (simp add: pos_imp_zdiv_nonneg_iff)
  ultimately show ?thesis using assms(4) by simp
qed

lemma run_put_retry_ends:
  assumes "mono (wNow w)" and "0 < d" and "d \<le> maxPutRetryBackoff" and "d \<le> backoff"
    and "(if time_left maxElapsed started w \<le> 0 then 0 else nat (time_left maxElapsed started w div d) + 1) < n"
  shows "wp (put_retry n S maxElapsed key data started backoff attempt) (\<lambda>r w'. r \<noteq> Inl Diverges) w"
  using assms(1,4,5)
proof (induction n arbitrary: w backoff attempt)
  case (Suc n)
  obtain r s where put: "PutBytes S key data (wObj w) = (r, s)" by fastforce
  let ?now = "wNow w (Suc (wTick w))"
  let ?rem = "maxElapsed - (?now - started)"
  define v where "v = w\<lparr>wObj := s, wNow := (\<lambda>k. wNow w k + retry_delay backoff ?rem),
    wTick := Suc (Suc (Suc (Suc (wTick w))))\<rparr>"
  have now: "wNow w (wTick w) \<le> ?now" using Suc.prems(1) by (simp add: monoD)
  have go_on: "wp (put_retry n S maxElapsed key data started (next_backoff backoff) (attempt + 1))
      (\<lambda>r w'. r \<noteq> Inl Diverges) v" if pos: "0 < ?rem"
  proof (rule Suc.IH)
    show "mono (wNow v)" using Suc.prems(1) by (simp add: v_def mono_def)
    show "d \<le> next_backoff backoff" using next_backoff_ge assms(2,3) Suc.prems(2) by simp
    have later: "?now \<le> wNow w (wTick w + 4)" using Suc.prems(1) by (simp add: monoD)
    have left: "time_left maxElapsed started v \<le> ?rem - retry_delay backoff ?rem"
      using later by (simp add: v_def time_left_def tick_def eval_nat_numeral)
    have "\<not> time_left maxElapsed started w \<le> 0" using pos now by (simp add: time_left_def)
    then have fuel: "nat (time_left maxElapsed started w div d) + 2 \<le> Suc n" using Suc.prems(3) by simp
    show "(if time_left maxElapsed started v \<le> 0 then 0
        else nat (time_left maxElapsed started v div d) + 1) < n"
    proof (cases "time_left maxElapsed started v \<le> 0")
      case False
      then have "d \<le> retry_delay backoff ?rem"
        using retry_delay_cases [OF Suc.prems(2) assms(3), of ?rem] left by linarith
      then have "time_left maxElapsed started v \<le> time_left maxElapsed started w - d"
        using left now by (simp add: time_left_def)
      then show ?thesis using rounds_left [OF assms(2) _ _ fuel] False by force
    qed (use fuel in simp)
  qed
  show ?case
    using go_on put
    by (auto simp: wp_rules Let_def v_def tick_def split: sum.splits)
qed simp

text \<open>
  C21. On a clock that does not run backwards, and whatever the store answers, the put with
  retries ends: the loop never needs more rounds than the elapsed-time limit leaves waits for.
\<close>

theorem putBytesWithRetry_ends:
  assumes "mono (wNow w)"
  shows "fst (run_state (putBytesWithRetry S svc key data) w) \<noteq> Inl Diverges"
proof -
  define maxElapsed where "maxElapsed = (if svc_PutRetryMaxElapsed svc \<le> 0 then defaultPutRetryMaxElapsed
                        else svc_PutRetryMaxElapsed svc)"
  define backoff where "backoff = (if svc_PutRetryInitialBackoff svc \<le> 0 then defaultPutRetryInitialBackoff
                     else svc_PutRetryInitialBackoff svc)"
  have pos: "0 < min backoff maxPutRetryBackoff" "0 < maxElapsed"
    by (simp_all add: backoff_def maxElapsed_def defaultPutRetryInitialBackoff_def maxPutRetryBackoff_def
        defaultPutRetryMaxElapsed_def)
  let ?d = "min backoff maxPutRetryBackoff" and ?started = "wNow w (wTick w)"
  have "time_left maxElapsed ?started (tick w) \<le> maxElapsed"
    using monoD [OF assms, of "wTick w" "Suc (wTick w)"] by (simp add: time_left_def tick_def)
  then have "time_left maxElapsed ?started (tick w) div ?d \<le> maxElapsed div ?d"
    using pos by (intro zdiv_mono1)
  then have "wp (put_retry (retry_fuel maxElapsed backoff) S maxElapsed key data ?started backoff 1)
      (\<lambda>r w'. r \<noteq> Inl Diverges) (tick w)"
    using pos assms by (intro run_put_retry_ends [where d = ?d]) (auto simp: retry_fuel_def tick_def)
  then show ?thesis
    unfolding putBytesWithRetry_def Let_def maxElapsed_def [symmetric] backoff_def [symmetric]
    by (simp add: wp_def time_Now_def split: prod.splits)
qed

text \<open>A store whose every put fails: the retries run out and the last error is reported.\<close>

definition failing_store :: "unit Store" where
  "failing_store =
     \<lparr>PutBytes = (\<lambda>k d s. (Inl ErrDriver, s)), GetBytes = (\<lambda>k s. (Inl ErrDriver, s)),
      GetReader = (\<lambda>k s. (Inl ErrDriver, s)), Head = (\<lambda>k s. (Inl ErrDriver, s)),
      Delete = (\<lambda>k s. (Inl ErrDriver, s))\<rparr>"

theorem putBytesWithRetry_ends_witness:
  "mono (\<lambda>n. int n) \<and>
   fst (run_state (putBytesWithRetry failing_store sample_service ''k'' [1])
     \<lparr>wCat = empty_catalog, wObj = (), wTick = 0, wDbFault = (\<lambda>_. False), wCtxErr = (\<lambda>_. False),
      wNow = (\<lambda>n. int n), wRand = (\<lambda>n. [])\<rparr>) \<noteq> Inl Diverges"
  by (intro conjI putBytesWithRetry_ends) (simp_all add: mono_def)

end
