(* ===== verification/Restore.thy ===== *)
theory Restore
  imports Ingest
begin

text \<open>
  Restoring a snapshot (\<open>src/internal/restore/restore.go\<close>) and the plan that says what to
  restore before and after it (\<open>src/internal/restoreplan/plan.go\<close>).
\<close>

section \<open>Definitions\<close>

text \<open>
  The \<open>io.Writer\<close> the stream goes to is a parameter: from what it has taken so far and the
  next bytes it gives the number of bytes written and an error. The state of a restore is the
  store's state and what the writer has taken.
\<close>

type_synonym writer = "bytes \<Rightarrow> bytes \<Rightarrow> int \<times> error option"

definition writer_ok :: "writer \<Rightarrow> bool" where
  "writer_ok out \<longleftrightarrow> (\<forall>taken p. 0 \<le> fst (out taken p) \<and> fst (out taken p) \<le> int (length p) \<and>
     (snd (out taken p) = None \<longrightarrow> fst (out taken p) = int (length p)))"

definition on_store :: "('s \<Rightarrow> (error + 'a) \<times> 's) \<Rightarrow> ('s \<times> bytes, 'a) prog" where
  "on_store f = State (\<lambda>(s, taken). case f s of (r, t) \<Rightarrow> (r, (t, taken)))"

definition out_Write :: "writer \<Rightarrow> bytes \<Rightarrow> ('s \<times> bytes, int \<times> error option) state" where
  "out_Write out p = State (\<lambda>(s, taken).
     case out taken p of (n, e) \<Rightarrow> ((n, e), (s, taken @ take (nat n) p)))"

text \<open>
  One chunk: open, copy into a buffer and a hash, close, compare, then write. \<open>Write\<close> of a
  hash never returns an error.
\<close>

definition restore_chunk ::
  "'s Store \<Rightarrow> (bytes \<Rightarrow> bytes) \<Rightarrow> writer \<Rightarrow> Chunk \<Rightarrow> ('s \<times> bytes, bytes) prog" where
  "restore_chunk S sha out chunk =
     (let index = show_int (ch_Index chunk) in
      check (on_store (GetReader S (ch_ObjectKey chunk)))
        (\<lambda>e. throw (Wrapf (msg ''open chunk %d: %w'') [index] e)) (\<lambda>reader.
      let buf = rc_data reader; written = int (length buf) in
      case rc_err reader of
        Some e \<Rightarrow> throw (Wrapf (msg ''read chunk %d: %w'') [index] e)
      | None \<Rightarrow>
      (case rc_close reader of
        Some e \<Rightarrow> throw (Wrapf (msg ''close chunk %d: %w'') [index] e)
      | None \<Rightarrow>
      if written \<noteq> ch_SizeBytes chunk
      then throw (Errorf (msg ''chunk %d size mismatch: read %d want %d'')
             [index, show_int written, show_int (ch_SizeBytes chunk)])
      else let got = sha_hex sha buf in
      if got \<noteq> ch_SHA256 chunk
      then throw (Errorf (msg ''chunk %d sha256 mismatch: got %s want %s'') [index, got, ch_SHA256 chunk])
      else State_Monad.bind (out_Write out buf) (\<lambda>(outWritten, err).
      case err of
        Some e \<Rightarrow> throw (Wrapf (msg ''write chunk %d: %w'') [index] e)
      | None \<Rightarrow>
          if outWritten \<noteq> ch_SizeBytes chunk
          then throw (Errorf (msg ''write chunk %d: wrote %d want %d'')
                 [index, show_int outWritten, show_int (ch_SizeBytes chunk)])
          else ok buf))))"

text \<open>The loop: the byte count and the bytes hashed so far are its variables.\<close>

fun restore_chunks ::
  "'s Store \<Rightarrow> (bytes \<Rightarrow> bytes) \<Rightarrow> writer \<Rightarrow> Chunk list \<Rightarrow> int \<Rightarrow> bytes \<Rightarrow> ('s \<times> bytes, int \<times> bytes) prog" where
  "restore_chunks S sha out [] tot hashed = ok (tot, hashed)"
| "restore_chunks S sha out (chunk # chunks) tot hashed =
     check (restore_chunk S sha out chunk) throw (\<lambda>buf.
       restore_chunks S sha out chunks (wrap64 (tot + ch_SizeBytes chunk)) (hashed @ buf))"

definition StreamSnapshot ::
  "'s Store \<Rightarrow> (bytes \<Rightarrow> bytes) \<Rightarrow> json \<Rightarrow> string \<Rightarrow> writer \<Rightarrow> ('s \<times> bytes, unit) prog" where
  "StreamSnapshot S sha J manifestKey out =
     check (on_store (GetBytes S manifestKey)) (\<lambda>e. throw (Wrapf (msg ''read manifest: %w'') [] e))
       (\<lambda>manifestBytes.
     case manifest_Unmarshal J manifestBytes of
       Inl e \<Rightarrow> throw (Wrapf (msg ''parse manifest: %w'') [] e)
     | Inr mani \<Rightarrow>
         check (restore_chunks S sha out (m_Chunks mani) 0 []) throw (\<lambda>(tot, hashed).
         if tot \<noteq> st_SizeBytes (m_Stream mani)
         then throw (Errorf (msg ''stream size mismatch: read %d want %d'')
                [show_int tot, show_int (st_SizeBytes (m_Stream mani))])
         else let gotStreamSHA = sha_hex sha hashed in
         if gotStreamSHA \<noteq> st_SHA256 (m_Stream mani)
         then throw (Errorf (msg ''stream sha256 mismatch: got %s want %s'')
                [gotStreamSHA, st_SHA256 (m_Stream mani)])
         else ok ()))"

section \<open>What a restore writes\<close>

text \<open>The bytes that a manifest's chunk entry promises.\<close>

definition matches :: "(bytes \<Rightarrow> bytes) \<Rightarrow> Chunk \<Rightarrow> bytes \<Rightarrow> bool" where
  "matches sha chunk d \<longleftrightarrow> int (length d) = ch_SizeBytes chunk \<and> sha_hex sha d = ch_SHA256 chunk"

lemma wp_on_store [wp_rules]:
  "wp (on_store f) Q x \<longleftrightarrow> (case x of (s, taken) \<Rightarrow> case f s of (r, t) \<Rightarrow> Q r (t, taken))"
  by (simp add: wp_def on_store_def split: prod.splits)

lemma wp_out_Write [wp_rules]:
  "wp (out_Write out p) Q x \<longleftrightarrow>
     (case x of (s, taken) \<Rightarrow> case out taken p of (n, e) \<Rightarrow> Q (n, e) (s, taken @ take (nat n) p))"
  by (simp add: wp_def out_Write_def split: prod.splits)

context object_store
begin

definition promised :: "'s \<Rightarrow> Chunk \<Rightarrow> bytes \<Rightarrow> bool" where
  "promised s chunk d \<longleftrightarrow> matches sha chunk d \<and> view s (ch_ObjectKey chunk) = Some d"

text \<open>
  A chunk is written whole when the call succeeds, and in part or not at all when it fails; in
  every case what is written comes from the object under the chunk's key, whose size and digest
  were compared before.
\<close>

definition chunk_post :: "Chunk \<Rightarrow> 's \<times> bytes \<Rightarrow> error + bytes \<Rightarrow> 's \<times> bytes \<Rightarrow> bool" where
  "chunk_post chunk x r y \<longleftrightarrow>
     inv (fst y) \<and> view (fst y) = view (fst x) \<and>
     (case r of
        Inr d \<Rightarrow> snd y = snd x @ d \<and> promised (fst x) chunk d
      | Inl e \<Rightarrow> \<exists>n d. snd y = snd x @ take n d \<and> (n = 0 \<or> promised (fst x) chunk d))"

lemma wp_restore_chunk:
  assumes "inv (fst x)" and "writer_ok out"
  shows "wp (restore_chunk S sha out chunk) (chunk_post chunk x) x"
proof -
  obtain s taken where x: "x = (s, taken)" by fastforce
  obtain r t where g: "GetReader S (ch_ObjectKey chunk) s = (r, t)" by fastforce
  have I: "inv t" "view t = view s" using reader_view [OF _ g] assms(1) x by auto
  have stop: "\<exists>n d. taken = taken @ take n d \<and> (n = 0 \<or> P d)" for P :: "bytes \<Rightarrow> bool"
    by (intro exI [of _ 0] exI [of _ "[]"]) simp
  show ?thesis
  proof (cases r)
    case (Inl e)
    then show ?thesis using g I stop by (simp add: restore_chunk_def Let_def wp_rules x chunk_post_def)
  next
    case (Inr reader)
    obtain n e where out: "out taken (rc_data reader) = (n, e)" by fastforce
    have n: "0 \<le> n" "n \<le> int (length (rc_data reader))" "e = None \<Longrightarrow> n = int (length (rc_data reader))"
      using assms(2) out unfolding writer_ok_def by (metis fst_conv, metis fst_conv, metis fst_conv snd_conv)
    have v: "rc_err reader = None \<Longrightarrow> view s (ch_ObjectKey chunk) = Some (rc_data reader)"
      using reader_ok [of s] g Inr assms(1) x by simp
    show ?thesis
      using g I Inr out n v stop
      by (auto simp: restore_chunk_def Let_def wp_rules x chunk_post_def matches_def promised_def
          split: option.splits) (rule exI [of _ "length (rc_data reader)"], rule exI [of _ "rc_data reader"], simp)
  qed
qed

lemma promised_view: "view s = view t \<Longrightarrow> promised s = promised t"
  by (simp add: promised_def fun_eq_iff)

definition chunks_post ::
  "Chunk list \<Rightarrow> int \<Rightarrow> bytes \<Rightarrow> 's \<times> bytes \<Rightarrow> error + int \<times> bytes \<Rightarrow> 's \<times> bytes \<Rightarrow> bool" where
  "chunks_post chunks tot hashed x r y \<longleftrightarrow>
     inv (fst y) \<and> view (fst y) = view (fst x) \<and>
     (case r of
        Inr (tot', hashed') \<Rightarrow>
          tot' = wrap64 (tot + chunk_total chunks) \<and>
          (\<exists>ds. list_all2 (promised (fst x)) chunks ds \<and> snd y = snd x @ concat ds \<and> hashed' = hashed @ concat ds)
      | Inl e \<Rightarrow> \<exists>ds n. list_all2 (promised (fst x)) (take (length ds) chunks) ds \<and>
          snd y = snd x @ take n (concat ds))"

lemma chunks_post_stop:
  assumes "chunk_post chunk x (Inl e) y"
  shows "chunks_post (chunk # chunks) tot hashed x (Inl e) y"
proof -
  obtain n d where nd: "snd y = snd x @ take n d" "n = 0 \<or> promised (fst x) chunk d"
    using assms by (auto simp: chunk_post_def)
  have "\<exists>ds n. list_all2 (promised (fst x)) (take (length ds) (chunk # chunks)) ds \<and>
      snd y = snd x @ take n (concat ds)"
  proof (cases "n = 0")
    case True
    then show ?thesis using nd by (intro exI [of _ "[]"]) simp
  next
    case False
    then show ?thesis using nd by (intro exI [of _ "[d]"] exI [of _ n]) simp
  qed
  then show ?thesis using assms by (simp add: chunks_post_def chunk_post_def)
qed

lemma chunks_post_step:
  assumes one: "chunk_post chunk x (Inr d) y"
    and rest: "chunks_post chunks (wrap64 (tot + ch_SizeBytes chunk)) (hashed @ d) y r z"
  shows "chunks_post (chunk # chunks) tot hashed x r z"
proof -
  have p: "promised (fst y) = promised (fst x)"
    using one promised_view [of "fst y" "fst x"] by (simp add: chunk_post_def)
  have d: "promised (fst x) chunk d" "snd y = snd x @ d" using one by (simp_all add: chunk_post_def)
  have same: "inv (fst z)" "view (fst z) = view (fst x)"
    using one rest by (simp_all add: chunks_post_def chunk_post_def)
  show ?thesis
  proof (cases r)
    case (Inl e)
    then obtain ds n where ds: "list_all2 (promised (fst x)) (take (length ds) chunks) ds"
        "snd z = snd y @ take n (concat ds)"
      using rest p by (auto simp: chunks_post_def)
    then have "list_all2 (promised (fst x)) (take (length (d # ds)) (chunk # chunks)) (d # ds) \<and>
        snd z = snd x @ take (length d + n) (concat (d # ds))" using d by simp
    then show ?thesis using same unfolding Inl chunks_post_def sum.case by blast
  next
    case (Inr th)
    obtain tot' hashed' where th: "th = (tot', hashed')" by fastforce
    obtain ds where ds: "list_all2 (promised (fst x)) chunks ds" "snd z = snd y @ concat ds"
        "hashed' = (hashed @ d) @ concat ds" and tot': "tot' = wrap64 (tot + ch_SizeBytes chunk + chunk_total chunks)"
      using rest unfolding Inr th chunks_post_def wrap64_add_left p sum.case prod.case by blast
    then have "list_all2 (promised (fst x)) (chunk # chunks) (d # ds) \<and>
        snd z = snd x @ concat (d # ds) \<and> hashed' = hashed @ concat (d # ds)" using d by simp
    moreover have "tot' = wrap64 (tot + chunk_total (chunk # chunks))"
      using tot' by (simp add: chunk_total_def add.assoc)
    ultimately show ?thesis using same unfolding Inr th chunks_post_def sum.case prod.case by blast
  qed
qed

lemma wp_restore_chunks:
  assumes "inv (fst x)" and "writer_ok out" and "in_int64 tot"
  shows "wp (restore_chunks S sha out chunks tot hashed) (chunks_post chunks tot hashed x) x"
  using assms(1,3)
proof (induction chunks arbitrary: x tot hashed)
  case Nil
  then show ?case by (auto simp: wp_rules chunks_post_def chunk_total_def intro: exI [of _ "[]"])
next
  case (Cons chunk chunks)
  obtain r y where run: "run_state (restore_chunk S sha out chunk) x = (r, y)" by (rule prod.exhaust)
  have one: "chunk_post chunk x r y" using wpD [OF wp_restore_chunk [OF Cons.prems(1) assms(2)] run] .
  show ?case
  proof (cases r)
    case (Inl e)
    then show ?thesis using run one chunks_post_stop by (simp add: wp_def)
  next
    case (Inr d)
    have "inv (fst y)" using one by (simp add: chunk_post_def)
    then have "wp (restore_chunks S sha out chunks (wrap64 (tot + ch_SizeBytes chunk)) (hashed @ d))
        (chunks_post (chunk # chunks) tot hashed x) y"
      by (rule wp_mono [OF Cons.IH [OF _ in_int64_wrap64] chunks_post_step [OF one [unfolded Inr]]])
    then show ?thesis using run Inr by (simp add: wp_def)
  qed
qed

text \<open>The whole restore: the outcome, from the manifest that stands under the key.\<close>

definition stream_post :: "json \<Rightarrow> string \<Rightarrow> 's \<Rightarrow> error + unit \<Rightarrow> 's \<times> bytes \<Rightarrow> bool" where
  "stream_post J key s r y \<longleftrightarrow>
     inv (fst y) \<and> view (fst y) = view s \<and>
     (snd y \<noteq> [] \<or> r = Inr () \<longrightarrow>
       (\<exists>mb m ds n. view s key = Some mb \<and> manifest_Unmarshal J mb = Inr m \<and>
          list_all2 (promised s) (take (length ds) (m_Chunks m)) ds \<and> snd y = take n (concat ds) \<and>
          (r = Inr () \<longrightarrow> length ds = length (m_Chunks m) \<and> snd y = concat ds \<and>
             sha_hex sha (snd y) = st_SHA256 (m_Stream m))))"

lemma stream_postI:
  assumes "chunks_post (m_Chunks m) 0 [] (s, []) q y" and "view s key = Some mb"
    and "manifest_Unmarshal J mb = Inr m"
    and "r = Inr () \<Longrightarrow> \<exists>tot. q = Inr (tot, h) \<and> sha_hex sha h = st_SHA256 (m_Stream m)"
  shows "stream_post J key s r y"
proof -
  have same: "inv (fst y)" "view (fst y) = view s" using assms(1) by (simp_all add: chunks_post_def)
  have "\<exists>ds n. list_all2 (promised s) (take (length ds) (m_Chunks m)) ds \<and> snd y = take n (concat ds) \<and>
      (r = Inr () \<longrightarrow> length ds = length (m_Chunks m) \<and> snd y = concat ds \<and>
         sha_hex sha (snd y) = st_SHA256 (m_Stream m))"
  proof (cases q)
    case (Inl e)
    then show ?thesis using assms(1,4) by (auto simp: chunks_post_def)
  next
    case (Inr th)
    obtain tot' hashed' where th: "th = (tot', hashed')" by (rule prod.exhaust)
    obtain ds where ds: "list_all2 (promised s) (m_Chunks m) ds" "snd y = concat ds" "hashed' = concat ds"
      using assms(1) Inr th by (auto simp: chunks_post_def)
    moreover have "length ds = length (m_Chunks m)" using list_all2_lengthD [OF ds(1)] by simp
    ultimately show ?thesis using assms(4) Inr th
      by (intro exI [of _ ds] exI [of _ "length (concat ds)"]) auto
  qed
  then show ?thesis using same assms(2,3) unfolding stream_post_def by blast
qed

lemma wp_StreamSnapshot:
  assumes "inv s" and "writer_ok out"
  shows "wp (StreamSnapshot S sha J key out) (stream_post J key s) (s, [])"
proof -
  obtain r t where g: "GetBytes S key s = (r, t)" by (rule prod.exhaust)
  have I: "inv t" "view t = view s" using get_view [OF assms(1) g] by auto
  have early: "stream_post J key s (Inl e) (t, [])" for e using I by (simp add: stream_post_def)
  show ?thesis
  proof (cases r)
    case (Inl e)
    then show ?thesis using g early by (simp add: StreamSnapshot_def wp_rules)
  next
    case (Inr mb)
    then have mb: "view t key = Some mb" using get_ok [OF assms(1)] g I by simp
    have p: "stream_post J key t = stream_post J key s"
      by (intro ext) (simp only: stream_post_def I(2) promised_view [OF I(2)])
    show ?thesis
    proof (cases "manifest_Unmarshal J mb")
      case Inl
      then show ?thesis using g Inr early by (simp add: StreamSnapshot_def wp_rules)
    next
      case m: (Inr m)
      have "wp (restore_chunks S sha out (m_Chunks m) 0 []) (chunks_post (m_Chunks m) 0 [] (t, [])) (t, [])"
        using I assms(2) by (intro wp_restore_chunks) (simp_all add: in_int64_def)
      then show ?thesis
        using g Inr m
        by (auto simp: StreamSnapshot_def wp_rules Let_def p [symmetric] split: sum.splits
            elim!: wp_mono intro!: stream_postI [OF _ mb m])
    qed
  qed
qed

end

section \<open>Properties\<close>

text \<open>
  C10. Whatever the store and the writer do, every byte a restore writes comes from chunk objects
  that the manifest under the key lists, in its order, each compared with its recorded size and
  digest before the first byte of it is written. A restore that succeeds has written all of them,
  and the digest of what it wrote is the manifest's stream digest.
\<close>

theorem StreamSnapshot_verified:
  assumes "object_store S sha view I" and "I s" and "writer_ok out"
    and "run_state (StreamSnapshot S sha J key out) (s, []) = (r, (s', written))"
    and "written \<noteq> [] \<or> r = Inr ()"
  shows "\<exists>mb m ds n. view s key = Some mb \<and> manifest_Unmarshal J mb = Inr m \<and>
    list_all2 (\<lambda>chunk d. matches sha chunk d \<and> view s (ch_ObjectKey chunk) = Some d)
      (take (length ds) (m_Chunks m)) ds \<and>
    written = take n (concat ds) \<and>
    (r = Inr () \<longrightarrow> length ds = length (m_Chunks m) \<and> written = concat ds \<and>
       sha_hex sha written = st_SHA256 (m_Stream m))"
proof -
  have p: "object_store.promised sha view s =
      (\<lambda>chunk d. matches sha chunk d \<and> view s (ch_ObjectKey chunk) = Some d)"
    by (intro ext) (rule object_store.promised_def [OF assms(1)])
  have "object_store.stream_post sha view I J key s r (s', written)"
    using wpD [OF object_store.wp_StreamSnapshot [OF assms(1-3)] assms(4)] .
  then show ?thesis using assms(5)
    unfolding object_store.stream_post_def [OF assms(1)] p snd_conv by blast
qed

text \<open>A writer that takes everything.\<close>

definition full_writer :: writer where
  "full_writer taken p = (int (length p), None)"

lemma full_writer_ok: "writer_ok full_writer"
  by (simp add: writer_ok_def full_writer_def)

section \<open>A restore that finds everything\<close>

context reliable_store
begin

lemma run_restore_chunk:
  assumes "inv s" and "promised s chunk d"
  shows "\<exists>t. run_state (restore_chunk S sha full_writer chunk) (s, taken) = (Inr d, (t, taken @ d)) \<and>
    inv t \<and> view t = view s"
proof -
  have v: "view s (ch_ObjectKey chunk) = Some d" and m: "matches sha chunk d"
    using assms(2) by (simp_all add: promised_def)
  obtain t where g: "GetReader S (ch_ObjectKey chunk) s = (Inr (NopCloser d), t)"
    using reader_works [OF assms(1) v] by blast
  have size: "ch_SizeBytes chunk = int (length d)" using m by (simp add: matches_def)
  have "run_state (restore_chunk S sha full_writer chunk) (s, taken) = (Inr d, (t, taken @ d))"
    using g size m by (simp add: restore_chunk_def Let_def run_check on_store_def NopCloser_def matches_def
        out_Write_def full_writer_def)
  then show ?thesis using reader_view [OF assms(1) g] by blast
qed

lemma run_restore_chunks:
  assumes "inv s" and "list_all2 (promised s) chunks ds" and "in_int64 tot"
  shows "\<exists>t. run_state (restore_chunks S sha full_writer chunks tot hashed) (s, taken) =
    (Inr (wrap64 (tot + chunk_total chunks), hashed @ concat ds), (t, taken @ concat ds)) \<and>
    inv t \<and> view t = view s"
  using assms
proof (induction chunks arbitrary: s ds tot hashed taken)
  case Nil
  then show ?case by (simp add: chunk_total_def)
next
  case (Cons chunk chunks)
  obtain d ds' where ds: "ds = d # ds'" and d: "promised s chunk d" and rest: "list_all2 (promised s) chunks ds'"
    using Cons.prems(2) by (auto simp: list_all2_Cons1)
  obtain t where t: "run_state (restore_chunk S sha full_writer chunk) (s, taken) = (Inr d, (t, taken @ d))"
    "inv t" "view t = view s" using run_restore_chunk [OF Cons.prems(1) d] by blast
  have "list_all2 (promised t) chunks ds'" using rest promised_view [OF t(3)] by simp
  from Cons.IH [OF t(2) this in_int64_wrap64, of "tot + ch_SizeBytes chunk" "hashed @ d" "taken @ d"]
  show ?case using t ds by (auto simp: wrap64_add_left chunk_total_def add.assoc)
qed

lemma run_StreamSnapshot:
  assumes "inv s" and "view s key = Some mb" and "manifest_Unmarshal J mb = Inr m"
    and "list_all2 (promised s) (m_Chunks m) ds" and "sha_hex sha (concat ds) = st_SHA256 (m_Stream m)"
  shows "\<exists>t. run_state (StreamSnapshot S sha J key full_writer) (s, []) = (Inr (), (t, concat ds)) \<and>
    inv t \<and> view t = view s"
proof -
  obtain t where g: "GetBytes S key s = (Inr mb, t)" using get_works [OF assms(1,2)] by blast
  have t: "inv t" "view t = view s" using get_view [OF assms(1) g] by auto
  have "list_all2 (promised t) (m_Chunks m) ds" using assms(4) promised_view [OF t(2)] by simp
  then obtain u where u: "run_state (restore_chunks S sha full_writer (m_Chunks m) 0 []) (t, []) =
      (Inr (wrap64 (chunk_total (m_Chunks m)), concat ds), (u, concat ds))" "inv u" "view u = view t"
    using run_restore_chunks [OF t(1), of "m_Chunks m" ds 0 "[]" "[]"] by (auto simp: in_int64_def)
  have "st_SizeBytes (m_Stream m) = wrap64 (chunk_total (m_Chunks m))"
    using manifest_Unmarshal_valid [OF assms(3)] by (simp add: Validate_Inr)
  then have "run_state (StreamSnapshot S sha J key full_writer) (s, []) = (Inr (), (u, concat ds))"
    using g u assms(3,5) by (simp add: StreamSnapshot_def run_check on_store_def)
  then show ?thesis using u t by auto
qed

end

text \<open>A one-chunk snapshot in a memory store, and a codec that knows its manifest only.\<close>

definition one_chunk_manifest :: Manifest where
  "one_chunk_manifest =
     request_manifest sample_request (entries (\<lambda>_. ''c'') (\<lambda>d. d) 0 0 [[7, 8]]) 2 ''0708'' 4"

definition one_chunk_json :: json where
  "one_chunk_json =
     \<lparr>json_MarshalIndent = (\<lambda>m. Inr []), json_Unmarshal = (\<lambda>b. Inr one_chunk_manifest)\<rparr>"

lemma one_chunk_restore:
  "run_state (StreamSnapshot (MemoryStore (\<lambda>d. d)) (\<lambda>d. d) one_chunk_json ''m'' full_writer)
     (Map.empty(''m'' \<mapsto> [], ''c'' \<mapsto> [7, 8]), []) =
   (Inr (), (snd (run_state (StreamSnapshot (MemoryStore (\<lambda>d. d)) (\<lambda>d. d) one_chunk_json ''m'' full_writer)
     (Map.empty(''m'' \<mapsto> [], ''c'' \<mapsto> [7, 8]), []))))"
  by (rule run_fst) code_simp

lemma one_chunk_written:
  "snd (snd (run_state (StreamSnapshot (MemoryStore (\<lambda>d. d)) (\<lambda>d. d) one_chunk_json ''m'' full_writer)
     (Map.empty(''m'' \<mapsto> [], ''c'' \<mapsto> [7, 8]), []))) = [7, 8]"
  by code_simp

theorem StreamSnapshot_verified_witness:
  "\<exists>s' (m :: Manifest) ds. run_state (StreamSnapshot (MemoryStore (\<lambda>d. d)) (\<lambda>d. d) one_chunk_json ''m'' full_writer)
      (Map.empty(''m'' \<mapsto> [], ''c'' \<mapsto> [7, 8]), []) = (Inr (), (s', [7, 8])) \<and>
    length ds = length (m_Chunks m) \<and> [7, 8 :: byte] = concat ds \<and> sha_hex (\<lambda>d. d) [7, 8] = st_SHA256 (m_Stream m)"
proof -
  obtain s' where run: "run_state (StreamSnapshot (MemoryStore (\<lambda>d. d)) (\<lambda>d. d) one_chunk_json ''m'' full_writer)
      (Map.empty(''m'' \<mapsto> [], ''c'' \<mapsto> [7, 8]), []) = (Inr (), (s', [7, 8]))"
    using one_chunk_restore one_chunk_written by (metis prod.collapse)
  from run StreamSnapshot_verified [OF memory.object_store_axioms TrueI full_writer_ok run disjI2 [OF refl]]
  show ?thesis by blast
qed

end
