(* ===== verification/Zfs_Stream.thy ===== *)
theory Zfs_Stream
  imports Go_Encoding
begin

unbundle bit_operations_syntax

text \<open>
  The first record of a send stream (\<open>src/internal/zfsstream/parse.go\<close>): byte order
  detection by the magic number, the fixed offsets of \<open>dmu_replay_record_t\<close>, and the
  split of the target name into pool, dataset and snapshot.
\<close>

section \<open>Definitions\<close>

definition BeginRecordSize :: nat where
  "BeginRecordSize = 312"

definition drrBegin :: u32 where
  "drrBegin = 0"

definition dmuMagic :: u64 where
  "dmuMagic = 0x2f5bacbac"

definition maxNameLen :: nat where
  "maxNameLen = 256"

definition dmuBackupFeatureCompressed :: u64 where
  "dmuBackupFeatureCompressed = push_bit 22 1"

definition dmuBackupFeatureRaw :: u64 where
  "dmuBackupFeatureRaw = push_bit 24 1"

record Begin =
  Pool :: string
  Dataset :: string
  Snapshot :: string
  ToName :: string
  FromGUID :: string
  ToGUID :: string
  Raw :: bool
  Compressed :: bool
  FeatureBits :: u64

definition byteOrder :: "bytes \<Rightarrow> error + ByteOrder" where
  "byteOrder header =
     (if order_Uint64 LittleEndian (go_slice 8 16 header) = dmuMagic then Inr LittleEndian
      else if order_Uint64 BigEndian (go_slice 8 16 header) = dmuMagic then Inr BigEndian
      else Inl (Errorf (msg ''invalid zfs stream magic 0x%x'')
                  [show_base 16 (unat (order_Uint64 LittleEndian (go_slice 8 16 header)))]))"

definition cString :: "bytes \<Rightarrow> string" where
  "cString data = map char_of_byte (takeWhile (\<lambda>b. b \<noteq> 0) data)"

definition splitToName :: "string \<Rightarrow> error + string \<times> string \<times> string" where
  "splitToName toName =
     (let at = LastIndexChar (CHR ''@'') toName in
      if at \<le> 0 \<or> at = int (length toName) - 1
      then Inl (Errorf (msg ''invalid zfs stream toname %q'') [toName])
      else
        let fs = take (nat at) toName;
            snapshot = drop (nat at + 1) toName;
            slash = IndexChar (CHR ''/'') fs in
        if slash \<le> 0 \<or> slash = int (length fs) - 1
        then Inl (Errorf (msg ''zfs stream toname %q must include pool/dataset@snapshot'') [toName])
        else Inr (take (nat slash) fs, drop (nat slash + 1) fs, snapshot))"

definition formatGUID :: "u64 \<Rightarrow> string" where
  "formatGUID guid = (if guid = 0 then ''0'' else ''0x'' @ show_base 16 (unat guid))"

definition features_of :: "u64 \<Rightarrow> u64" where
  "features_of versionInfo = drop_bit 2 versionInfo AND (push_bit 62 1 - 1)"

definition ParseBegin :: "bytes \<Rightarrow> error + Begin" where
  "ParseBegin header =
     (if length header < BeginRecordSize
      then Inl (Errorf (msg ''zfs stream header too short: got %d want %d'')
                  [show_nat (length header), show_nat BeginRecordSize])
      else case byteOrder header of
        Inl e \<Rightarrow> Inl e
      | Inr order \<Rightarrow>
          let recordType = order_Uint32 order (go_slice 0 4 header) in
          if recordType \<noteq> drrBegin
          then Inl (Errorf (msg ''zfs stream starts with record type %d, not DRR_BEGIN'')
                      [show_nat (unat recordType)])
          else
            let versionInfo = order_Uint64 order (go_slice 16 24 header);
                features = features_of versionInfo;
                toGUID = order_Uint64 order (go_slice 40 48 header);
                fromGUID = order_Uint64 order (go_slice 48 56 header);
                toName = cString (go_slice 56 (56 + maxNameLen) header) in
            case splitToName toName of
              Inl e \<Rightarrow> Inl e
            | Inr (pool, dataset, snapshot) \<Rightarrow>
                Inr \<lparr>Pool = pool, Dataset = dataset, Snapshot = snapshot, ToName = toName,
                     FromGUID = formatGUID fromGUID, ToGUID = formatGUID toGUID,
                     Raw = features AND dmuBackupFeatureRaw \<noteq> 0,
                     Compressed = features AND dmuBackupFeatureCompressed \<noteq> 0,
                     FeatureBits = features\<rparr>)"

section \<open>Names\<close>

lemma splitToName_Inr:
  assumes "splitToName name = Inr (pool, dataset, snapshot)"
  shows "name = pool @ CHR ''/'' # dataset @ CHR ''@'' # snapshot \<and>
         pool \<noteq> [] \<and> CHR ''/'' \<notin> set pool \<and> dataset \<noteq> [] \<and>
         snapshot \<noteq> [] \<and> CHR ''@'' \<notin> set snapshot"
proof -
  define i where "i = LastIndexChar (CHR ''@'') name"
  define fs where "fs = take (nat i) name"
  define k where "k = IndexChar (CHR ''/'') fs"
  have i: "0 < i" "i \<noteq> int (length name) - 1" and k: "0 < k" "k \<noteq> int (length fs) - 1"
    and eqs: "pool = take (nat k) fs" "dataset = drop (nat k + 1) fs" "snapshot = drop (nat i + 1) name"
    using assms by (auto simp: splitToName_def Let_def i_def fs_def k_def split: if_splits)
  have n: "name = fs @ CHR ''@'' # snapshot" and sn: "CHR ''@'' \<notin> set snapshot"
    using LastIndexChar_split [of "CHR ''@''" name] i(1) by (auto simp: i_def fs_def eqs)
  have f: "fs = pool @ CHR ''/'' # dataset" and p: "CHR ''/'' \<notin> set pool"
    using IndexChar_split [of "CHR ''/''" fs] k(1) by (auto simp: k_def eqs)
  have ki: "k = int (length pool)" using IndexChar_append_sep [OF p, of dataset] f by (simp add: k_def)
  have ii: "i = int (length fs)" using LastIndexChar_append_sep [OF sn, of fs] n by (simp add: i_def)
  show ?thesis
  proof (intro conjI)
    show "name = pool @ CHR ''/'' # dataset @ CHR ''@'' # snapshot" using n f by simp
    show "pool \<noteq> []" using k(1) ki by auto
    show "dataset \<noteq> []" using k(2) ki f by auto
    show "snapshot \<noteq> []" using i(2) ii n by auto
  qed (fact p, fact sn)
qed

lemma splitToName_intro:
  assumes "pool \<noteq> []" "CHR ''/'' \<notin> set pool" "dataset \<noteq> []" "snapshot \<noteq> []" "CHR ''@'' \<notin> set snapshot"
  shows "splitToName (pool @ CHR ''/'' # dataset @ CHR ''@'' # snapshot) = Inr (pool, dataset, snapshot)"
proof -
  let ?fs = "pool @ CHR ''/'' # dataset"
  have at: "LastIndexChar (CHR ''@'') (?fs @ CHR ''@'' # snapshot) = int (length ?fs)"
    by (rule LastIndexChar_append_sep [OF assms(5)])
  have sl: "IndexChar (CHR ''/'') ?fs = int (length pool)"
    by (rule IndexChar_append_sep [OF assms(2)])
  have "splitToName (?fs @ CHR ''@'' # snapshot) = Inr (pool, dataset, snapshot)"
    unfolding splitToName_def Let_def at using assms sl by (simp add: nat_add_distrib)
  then show ?thesis by simp
qed

section \<open>The magic number\<close>

lemma big_magic_not_little: "order_Uint64 LittleEndian (order_bytes BigEndian 8 (unat dmuMagic)) \<noteq> dmuMagic"
proof -
  have "unat dmuMagic = 0x2f5bacbac" by (simp add: dmuMagic_def)
  then have "order_bytes BigEndian 8 (unat dmuMagic) = [0, 0, 0, 2, 0xf5, 0xba, 0xcb, 0xac]"
    by (simp add: order_bytes_def le_bytes_numeral)
  then show ?thesis by (simp add: order_Uint64_def order_nat_def dmuMagic_def)
qed

section \<open>Properties\<close>

text \<open>
  The layout of a \<open>DRR_BEGIN\<close> record: type, payload length, magic, version information,
  sixteen bytes of creation time, objset type and flags, the two GUIDs and the
  NUL-padded name.
\<close>

definition begin_record ::
  "ByteOrder \<Rightarrow> bytes \<Rightarrow> u64 \<Rightarrow> bytes \<Rightarrow> u64 \<Rightarrow> u64 \<Rightarrow> bytes \<Rightarrow> bytes" where
  "begin_record order payloadlen versionInfo mid toGUID fromGUID name =
     order_bytes order 4 (unat drrBegin) @ payloadlen @
     order_bytes order 8 (unat dmuMagic) @ order_bytes order 8 (unat versionInfo) @ mid @
     order_bytes order 8 (unat toGUID) @ order_bytes order 8 (unat fromGUID) @
     name @ replicate (maxNameLen - length name) 0"

lemma byte_of_char_0: "byte_of_char c = 0 \<longleftrightarrow> c = CHR 0x00"
proof
  assume "byte_of_char c = 0"
  then have "char_of_byte (byte_of_char c) = char_of_byte 0" by (rule arg_cong)
  moreover have "char_of_byte 0 = CHR 0x00" by code_simp
  ultimately show "c = CHR 0x00" by simp
next
  assume "c = CHR 0x00"
  then show "byte_of_char c = 0" by (simp add: byte_of_char_def)
qed

lemma cString_padded:
  assumes "CHR 0x00 \<notin> set s"
  shows "cString (map byte_of_char s @ replicate k 0) = s"
proof -
  have "takeWhile (\<lambda>b. b \<noteq> 0) (map byte_of_char s @ replicate k 0) = map byte_of_char s"
    using assms by (subst takeWhile_append2) (auto simp: byte_of_char_0)
  then show ?thesis by (simp add: cString_def comp_def)
qed

lemma feature_bit: "n < 62 \<Longrightarrow> features_of w AND push_bit n 1 \<noteq> 0 \<longleftrightarrow> bit w (n + 2)"
proof -
  assume n: "n < 62"
  have m: "push_bit 62 1 - 1 = (mask 62 :: u64)" by (simp add: mask_eq_exp_minus_1 push_bit_eq_mult)
  have "(v AND push_bit n 1 \<noteq> 0) = bit v n" for v :: u64
    using n by (simp add: push_bit_eq_mult and_exp_eq_0_iff_not_bit)
  then show ?thesis using n by (simp add: features_of_def m bit_simps del: push_bit_of_1)
qed

lemma feature_flags:
  "features_of w AND dmuBackupFeatureRaw \<noteq> 0 \<longleftrightarrow> bit w 26"
  "features_of w AND dmuBackupFeatureCompressed \<noteq> 0 \<longleftrightarrow> bit w 24"
  unfolding dmuBackupFeatureRaw_def dmuBackupFeatureCompressed_def
  by (subst feature_bit; simp)+

text \<open>C23. The parser reads exactly the record layout, in either byte order: a record built from a
  name \<open>pool/dataset@snapshot\<close> of at most 256 bytes and two GUIDs parses to those names, to
  the GUIDs in the catalog's format and to the feature flags of its version word.\<close>

theorem ParseBegin_begin_record:
  assumes "length payloadlen = 4" "length mid = 16"
    and "pool \<noteq> []" "CHR ''/'' \<notin> set pool" "dataset \<noteq> []" "snapshot \<noteq> []" "CHR ''@'' \<notin> set snapshot"
    and name: "name = pool @ CHR ''/'' # dataset @ CHR ''@'' # snapshot"
    and "CHR 0x00 \<notin> set name" "length name \<le> maxNameLen"
  shows "ParseBegin (begin_record order payloadlen versionInfo mid toGUID fromGUID (map byte_of_char name) @ rest) =
    (let features = features_of versionInfo in
     Inr \<lparr>Pool = pool, Dataset = dataset, Snapshot = snapshot, ToName = name,
          FromGUID = formatGUID fromGUID, ToGUID = formatGUID toGUID,
          Raw = features AND dmuBackupFeatureRaw \<noteq> 0,
          Compressed = features AND dmuBackupFeatureCompressed \<noteq> 0, FeatureBits = features\<rparr>)"
proof -
  define nm where "nm = map byte_of_char name @ replicate (maxNameLen - length name) 0"
  define header where "header = begin_record order payloadlen versionInfo mid toGUID fromGUID (map byte_of_char name) @ rest"
  have h: "header = order_bytes order 4 (unat drrBegin) @ payloadlen @
     order_bytes order 8 (unat dmuMagic) @ order_bytes order 8 (unat versionInfo) @ mid @
     order_bytes order 8 (unat toGUID) @ order_bytes order 8 (unat fromGUID) @ nm @ rest"
    by (simp add: header_def begin_record_def nm_def)
  have len_nm: "length nm = 256" using assms(10) by (simp add: nm_def maxNameLen_def)
  have len: "\<not> length header < BeginRecordSize"
    using assms(1,2) len_nm by (simp add: h BeginRecordSize_def)
  have sl: "go_slice 0 4 header = order_bytes order 4 (unat drrBegin)"
    "go_slice 8 16 header = order_bytes order 8 (unat dmuMagic)"
    "go_slice 16 24 header = order_bytes order 8 (unat versionInfo)"
    "go_slice 40 48 header = order_bytes order 8 (unat toGUID)"
    "go_slice 48 56 header = order_bytes order 8 (unat fromGUID)"
    "go_slice 56 (56 + maxNameLen) header = nm"
    using assms(1,2) len_nm by (simp_all add: h go_slice_def maxNameLen_def)
  have ord: "byteOrder header = Inr order"
    using big_magic_not_little by (cases order) (simp_all add: byteOrder_def sl)
  have nmc: "cString nm = name" unfolding nm_def by (rule cString_padded [OF assms(9)])
  have spl: "splitToName name = Inr (pool, dataset, snapshot)"
    unfolding name by (rule splitToName_intro [OF assms(3-7)])
  have "ParseBegin header =
    (let features = features_of versionInfo in
     Inr \<lparr>Pool = pool, Dataset = dataset, Snapshot = snapshot, ToName = name,
          FromGUID = formatGUID fromGUID, ToGUID = formatGUID toGUID,
          Raw = features AND dmuBackupFeatureRaw \<noteq> 0,
          Compressed = features AND dmuBackupFeatureCompressed \<noteq> 0, FeatureBits = features\<rparr>)"
    using len by (simp add: ParseBegin_def Let_def ord sl nmc spl)
  then show ?thesis by (simp add: header_def)
qed

theorem ParseBegin_begin_record_witness:
  "ParseBegin (begin_record BigEndian (replicate 4 0) (push_bit 26 1) (replicate 16 0) 0x1f 0
       (map byte_of_char ''tank/photos@s1'') @ [1, 2, 3]) =
   Inr \<lparr>Pool = ''tank'', Dataset = ''photos'', Snapshot = ''s1'', ToName = ''tank/photos@s1'',
        FromGUID = ''0'', ToGUID = ''0x1f'', Raw = True, Compressed = False,
        FeatureBits = push_bit 24 1\<rparr>"
proof -
  have f: "formatGUID 0 = ''0''" "formatGUID 0x1f = ''0x1f''" by code_simp+
  show ?thesis
    using ParseBegin_begin_record [of "replicate 4 0" "replicate 16 0" "''tank''" "''photos''" "''s1''"
        "''tank/photos@s1''" BigEndian "push_bit 26 1" "0x1f" 0 "[1, 2, 3]"]
    by (simp add: maxNameLen_def f feature_flags) (simp add: features_of_def)
qed

text \<open>What the parser accepts: a full-size header with the magic in the detected order and
  record type \<open>DRR_BEGIN\<close>, whose name is its pool, dataset and snapshot put together again;
  the raw and compressed flags are bits 26 and 24 of the version word.\<close>

theorem ParseBegin_accepts:
  assumes "ParseBegin header = Inr begin"
  shows "BeginRecordSize \<le> length header \<and>
    ToName begin = Pool begin @ CHR ''/'' # Dataset begin @ CHR ''@'' # Snapshot begin \<and>
    Pool begin \<noteq> [] \<and> CHR ''/'' \<notin> set (Pool begin) \<and> Dataset begin \<noteq> [] \<and>
    Snapshot begin \<noteq> [] \<and> CHR ''@'' \<notin> set (Snapshot begin) \<and>
    (\<exists>order. order_Uint64 order (go_slice 8 16 header) = dmuMagic \<and>
       order_Uint32 order (go_slice 0 4 header) = drrBegin \<and>
       ToGUID begin = formatGUID (order_Uint64 order (go_slice 40 48 header)) \<and>
       FromGUID begin = formatGUID (order_Uint64 order (go_slice 48 56 header)) \<and>
       Raw begin = bit (order_Uint64 order (go_slice 16 24 header)) 26 \<and>
       Compressed begin = bit (order_Uint64 order (go_slice 16 24 header)) 24)"
proof -
  obtain order where order: "byteOrder header = Inr order"
    using assms by (auto simp: ParseBegin_def split: if_splits sum.splits)
  define name where "name = cString (go_slice 56 (56 + maxNameLen) header)"
  obtain pool dataset snapshot where spl: "splitToName name = Inr (pool, dataset, snapshot)"
    using assms order by (auto simp: ParseBegin_def Let_def name_def split: if_splits sum.splits)
  have len: "BeginRecordSize \<le> length header"
    and rt: "order_Uint32 order (go_slice 0 4 header) = drrBegin"
    using assms order by (auto simp: ParseBegin_def Let_def split: if_splits)
  have b: "begin = \<lparr>Pool = pool, Dataset = dataset, Snapshot = snapshot, ToName = name,
      FromGUID = formatGUID (order_Uint64 order (go_slice 48 56 header)),
      ToGUID = formatGUID (order_Uint64 order (go_slice 40 48 header)),
      Raw = bit (order_Uint64 order (go_slice 16 24 header)) 26,
      Compressed = bit (order_Uint64 order (go_slice 16 24 header)) 24,
      FeatureBits = features_of (order_Uint64 order (go_slice 16 24 header))\<rparr>"
    using assms order spl len rt by (simp add: ParseBegin_def Let_def name_def feature_flags)
  have mg: "order_Uint64 order (go_slice 8 16 header) = dmuMagic"
    using order by (auto simp: byteOrder_def split: if_splits)
  show ?thesis using splitToName_Inr [OF spl] len rt mg by (auto simp: b)
qed

theorem ParseBegin_accepts_witness:
  "\<exists>header begin. ParseBegin header = Inr begin \<and> Pool begin = ''tank'' \<and>
     ToName begin = Pool begin @ CHR ''/'' # Dataset begin @ CHR ''@'' # Snapshot begin"
proof -
  let ?h = "begin_record LittleEndian (replicate 4 0) 0 (replicate 16 0) 1 0 (map byte_of_char ''tank/a@s'')"
  have "\<exists>begin. ParseBegin ?h = Inr begin \<and> Pool begin = ''tank''"
    using ParseBegin_begin_record [of "replicate 4 0" "replicate 16 0" "''tank''" "''a''" "''s''"
        "''tank/a@s''" LittleEndian 0 1 0 "[]"]
    by (simp add: maxNameLen_def Let_def)
  then obtain b where b: "ParseBegin ?h = Inr b" "Pool b = ''tank''" by blast
  then show ?thesis using ParseBegin_accepts [OF b(1)] by blast
qed

end
