(* ===== verification/Stream_Check.thy ===== *)
theory Stream_Check
  imports Object_Store Zfs_Stream
begin

text \<open>
  The stream checker of the validation (\<open>src/internal/validation/validation.go\<close>):
  \<open>ZstreamdumpChecker\<close>, the parsing of its output and the canonical form of GUIDs. The
  \<open>zstreamdump\<close> executable is a parameter.
\<close>

section \<open>Definitions\<close>

record StreamGUIDs =
  sg_FromGUID :: string
  sg_ToGUID :: string

text \<open>
  A \<open>StreamChecker\<close> reads from a pipe the bytes of a stream and then its end, which is end of file
  or the error the writing side closed with. It gives the number of bytes it took from the pipe and
  its result.
\<close>

type_synonym checker = "string \<Rightarrow> bytes \<Rightarrow> error option \<Rightarrow> nat \<times> (error + StreamGUIDs)"

text \<open>
  Running a program with the stream as its standard input: the bytes it took, its combined output,
  and the error of \<open>CombinedOutput\<close>.
\<close>

type_synonym command_runner = "string \<Rightarrow> bytes \<Rightarrow> error option \<Rightarrow> nat \<times> string \<times> error option"

subsection \<open>GUIDs\<close>

definition canonicalGUID :: "string \<Rightarrow> string" where
  "canonicalGUID val =
     (let v = ToLower (TrimSpace val); hexDigits = TrimPrefix v ''0x'' in
      case ParseUint16 hexDigits of
        None \<Rightarrow> v
      | Some guid \<Rightarrow> if guid = 0 then ''0'' else ''0x'' @ show_base 16 guid)"

subsection \<open>The regular expressions\<close>

text \<open>Character classes of the expressions: \<open>\w\<close> for the word boundary, \<open>\s\<close>, digits and GUID characters.\<close>

definition re_word :: "char \<Rightarrow> bool" where
  "re_word c \<longleftrightarrow> is_alnum c \<or> c = CHR ''_''"

definition re_space :: "char \<Rightarrow> bool" where
  "re_space c \<longleftrightarrow> of_char c \<in> {9, 10, 12, 13, 32 :: nat}"

definition re_digit :: "char \<Rightarrow> bool" where
  "re_digit c \<longleftrightarrow> (let n = of_char c :: nat in 48 \<le> n \<and> n \<le> 57)"

definition re_guid :: "char \<Rightarrow> bool" where
  "re_guid c \<longleftrightarrow> (let n = of_char (to_lower_char c) :: nat in 48 \<le> n \<and> n \<le> 57 \<or> 97 \<le> n \<and> n \<le> 102 \<or> n = 120)"

text \<open>
  \<open>(?i)\b(fromguid|toguid)\b\s*=\s*([0-9a-fx]+)\<close> tried at the start of a text, where \<open>prev\<close> is the
  character before it: the lower-case name, the digits and what follows the match.
\<close>

definition match_value :: "string \<Rightarrow> (string \<times> string) option" where
  "match_value s =
     (case dropWhile re_space s of
        [] \<Rightarrow> None
      | c # r \<Rightarrow>
          if c \<noteq> CHR ''='' then None
          else let v = dropWhile re_space r; g = takeWhile re_guid v in
               if g = [] then None else Some (g, dropWhile re_guid v))"

definition match_word :: "string \<Rightarrow> string \<Rightarrow> (string \<times> string) option" where
  "match_word word s =
     (if ToLower (take (length word) s) \<noteq> word then None
      else let r = drop (length word) s in
           if r \<noteq> [] \<and> re_word (hd r) then None else match_value r)"

definition match_guid :: "char option \<Rightarrow> string \<Rightarrow> (string \<times> string \<times> string) option" where
  "match_guid prev s =
     (if (case prev of None \<Rightarrow> False | Some c \<Rightarrow> re_word c) then None
      else case match_word ''fromguid'' s of
        Some (g, r) \<Rightarrow> Some (''fromguid'', g, r)
      | None \<Rightarrow> (case match_word ''toguid'' s of
          Some (g, r) \<Rightarrow> Some (''toguid'', g, r)
        | None \<Rightarrow> None))"

lemma length_match_value: "match_value s = Some (g, r) \<Longrightarrow> length r < length s"
proof -
  assume "match_value s = Some (g, r)"
  then obtain c cs where cs: "dropWhile re_space s = c # cs" and r: "r = dropWhile re_guid (dropWhile re_space cs)"
    by (auto simp: match_value_def Let_def split: list.splits if_splits)
  have "length r \<le> length (dropWhile re_space cs)" unfolding r by (rule length_dropWhile_le)
  also have "\<dots> \<le> length cs" by (rule length_dropWhile_le)
  also have "\<dots> < length (dropWhile re_space s)" by (simp add: cs)
  also have "\<dots> \<le> length s" by (rule length_dropWhile_le)
  finally show ?thesis .
qed

lemma length_match_word: "match_word w s = Some (g, r) \<Longrightarrow> length r < length s"
  by (auto simp: match_word_def Let_def split: if_splits dest!: length_match_value)

lemma length_match_guid: "match_guid p s = Some (k, g, r) \<Longrightarrow> length r < length s"
  by (auto simp: match_guid_def split: option.splits if_splits dest: length_match_word)

text \<open>
  \<open>FindAllStringSubmatch\<close>: the leftmost match, then on from its end. The last character of a match
  is a GUID character, which is a word character.
\<close>

function find_guids :: "char option \<Rightarrow> string \<Rightarrow> (string \<times> string) list" where
  "find_guids prev s =
     (case s of
        [] \<Rightarrow> []
      | c # cs \<Rightarrow>
          (case match_guid prev s of
             Some (kind, g, r) \<Rightarrow> (kind, g) # find_guids (Some (last g)) r
           | None \<Rightarrow> find_guids (Some c) cs))"
  by pat_completeness auto

termination
  by (relation "measure (\<lambda>(prev, s). length s)") (auto dest: length_match_guid)

declare find_guids.simps [simp del]

definition set_guid :: "StreamGUIDs \<Rightarrow> string \<times> string \<Rightarrow> StreamGUIDs" where
  "set_guid guids m =
     (if fst m = ''fromguid'' then guids\<lparr>sg_FromGUID := canonicalGUID (snd m)\<rparr>
      else if fst m = ''toguid'' then guids\<lparr>sg_ToGUID := canonicalGUID (snd m)\<rparr>
      else guids)"

definition ParseZstreamdumpGUIDs :: "string \<Rightarrow> StreamGUIDs" where
  "ParseZstreamdumpGUIDs output =
     foldl set_guid \<lparr>sg_FromGUID = [], sg_ToGUID = []\<rparr> (find_guids None output)"

text \<open>
  \<open>Total DRR_BEGIN records = ([0-9]+)\<close>, first match. \<open>ParseInt\<close> gives the largest value when the
  number is out of range, and its error is dropped.
\<close>

fun zstreamdumpBeginRecords :: "string \<Rightarrow> int" where
  "zstreamdumpBeginRecords [] = 0"
| "zstreamdumpBeginRecords (c # cs) =
     (let label = ''Total DRR_BEGIN records = '';
          digits = takeWhile re_digit (drop (length label) (c # cs)) in
      if HasPrefix (c # cs) label \<and> digits \<noteq> []
      then (case parse_base 10 digits of None \<Rightarrow> 0 | Some n \<Rightarrow> min (int n) (2 ^ 63 - 1))
      else zstreamdumpBeginRecords cs)"

definition ZstreamdumpChecker_Check :: "command_runner \<Rightarrow> string \<Rightarrow> checker" where
  "ZstreamdumpChecker_Check exec Path manifestKey stream streamErr =
     (case exec (if Path = [] then ''zstreamdump'' else Path) stream streamErr of
        (n, output, Some err) \<Rightarrow>
          (n, Inl (Wrapf (msg ''zstreamdump %s: %w: %s'') [manifestKey, TrimSpace output] err))
      | (n, output, None) \<Rightarrow>
          if zstreamdumpBeginRecords output = 0
          then (n, Inl (Errorf (msg ''zstreamdump %s found no DRR_BEGIN records'') [manifestKey]))
          else (n, Inr (ParseZstreamdumpGUIDs output)))"

section \<open>GUIDs in print\<close>

lemma hex_digit:
  assumes "c \<in> set (show_base 16 n)"
  shows "re_guid c" "re_word c" "to_lower_char c = c" "\<not> is_space c" "\<not> re_space c" "c \<noteq> CHR ''x''"
proof -
  obtain d where d: "d < 16" "c = digit_char d" using show_base_digits [of 16 c n] assms by auto
  have n: "of_char c = (if d < 10 then 48 + d else 87 + d)"
    unfolding d(2) digit_char_def using d(1) by (simp add: of_char_of)
  show "re_guid c" "re_word c" "to_lower_char c = c" "\<not> is_space c" "\<not> re_space c"
    using n d(1) by (auto simp: re_guid_def re_word_def is_alnum_def to_lower_char_def is_space_def re_space_def Let_def
        split: if_splits)
  have "of_char c \<noteq> (of_char CHR ''x'' :: nat)" using n d(1) by (simp split: if_splits)
  then show "c \<noteq> CHR ''x''" by metis
qed

lemma hex_lower: "ToLower (show_base 16 n) = show_base 16 n"
  unfolding ToLower_def by (rule map_idI) (rule hex_digit)

lemma TrimSpace_none: "(\<And>c. c \<in> set s \<Longrightarrow> \<not> is_space c) \<Longrightarrow> TrimSpace s = s"
proof -
  assume "\<And>c. c \<in> set s \<Longrightarrow> \<not> is_space c"
  then have "dropWhile is_space s = s" "dropWhile is_space (rev s) = rev s" 
    by (auto simp: dropWhile_eq_self_iff hd_rev)
  then show ?thesis by (simp add: TrimSpace_def)
qed

lemma hex_no_prefix: "\<not> HasPrefix (show_base 16 n) ''0x''"
proof
  assume "HasPrefix (show_base 16 n) ''0x''"
  then have "CHR ''x'' \<in> set (take 2 (show_base 16 n))" by (simp add: HasPrefix_def numeral_2_eq_2)
  then show False using hex_digit(6) in_set_takeD by fastforce
qed

lemma ParseUint16_hex: "ParseUint16 (show_base 16 (unat g)) = Some (unat g)" for g :: u64
  using unsigned_less [of g] by (simp add: ParseUint16_def)

lemma canonicalGUID_hex: "canonicalGUID (show_base 16 (unat g)) = formatGUID g"
  using TrimSpace_none [of "show_base 16 (unat g)"] hex_digit(4)
  by (auto simp: canonicalGUID_def Let_def hex_lower TrimPrefix_def hex_no_prefix ParseUint16_hex formatGUID_def
      unat_eq_0)

lemma canonicalGUID_0x: "canonicalGUID (''0x'' @ show_base 16 (unat g)) = formatGUID g"
proof -
  have "TrimSpace (''0x'' @ show_base 16 (unat g)) = ''0x'' @ show_base 16 (unat g)"
    by (rule TrimSpace_none) (auto simp: is_space_def dest: hex_digit(4))
  moreover have "ToLower (''0x'' @ show_base 16 (unat g)) = ''0x'' @ show_base 16 (unat g)"
    using hex_lower by (simp add: ToLower_def) code_simp
  ultimately show ?thesis
    by (simp add: canonicalGUID_def Let_def TrimPrefix_def HasPrefix_def ParseUint16_hex formatGUID_def unat_eq_0)
qed

text \<open>A line of the program's output, as it prints a GUID of a begin record.\<close>

definition guid_line :: "string \<Rightarrow> u64 \<Rightarrow> string" where
  "guid_line word g = CHR 0x09 # word @ '' = '' @ show_base 16 (unat g) @ [CHR 0x0A]"

lemma match_value_hex:
  "match_value ('' = '' @ show_base 16 n @ CHR 0x0A # r) = Some (show_base 16 n, CHR 0x0A # r)"
proof -
  have sp: "re_space CHR '' ''" "\<not> re_space CHR ''=''" "\<not> re_guid CHR 0x0A" by code_simp+
  have "dropWhile re_space (show_base 16 n @ CHR 0x0A # r) = show_base 16 n @ CHR 0x0A # r"
    using hex_digit(5) [of "hd (show_base 16 n)" n] by (simp add: dropWhile_eq_self_iff)
  moreover have "takeWhile re_guid (show_base 16 n @ CHR 0x0A # r) = show_base 16 n"
    and "dropWhile re_guid (show_base 16 n @ CHR 0x0A # r) = CHR 0x0A # r"
    using hex_digit(1) [of _ n] sp(3) by (auto simp: takeWhile_append2 dropWhile_append2)
  ultimately show ?thesis using sp by (simp add: match_value_def Let_def)
qed

lemma find_guids_line:
  assumes "word = ''fromguid'' \<or> word = ''toguid''"
  shows "find_guids prev (guid_line word g @ r) = (word, show_base 16 (unat g)) # find_guids (Some CHR 0x0A) r"
proof -
  let ?h = "show_base 16 (unat g)"
  have tab: "match_guid prev (CHR 0x09 # s) = None" for prev s
    by (simp add: match_guid_def match_word_def ToLower_def to_lower_char_def split: option.splits)
  have nl: "match_guid (Some (last ?h)) s = None" for s
    using hex_digit(2) [of "last ?h" "unat g"] by (simp add: match_guid_def)
  have w: "\<not> re_word CHR 0x09" "\<not> re_word CHR '' ''" by code_simp+
  have "match_guid (Some CHR 0x09) (word @ '' = '' @ ?h @ CHR 0x0A # r) = Some (word, ?h, CHR 0x0A # r)"
    using assms w match_value_hex [of "unat g" r]
    by (auto simp: match_guid_def match_word_def ToLower_def to_lower_char_def)
  moreover have "word @ '' = '' @ ?h @ CHR 0x0A # r \<noteq> []" by simp
  moreover have "find_guids p s = (k, d) # find_guids (Some (last d)) t"
    if "match_guid p s = Some (k, d, t)" "s \<noteq> []" for p s k d t
    using that by (subst find_guids.simps) (cases s, simp_all)
  ultimately have "find_guids (Some CHR 0x09) (word @ '' = '' @ ?h @ CHR 0x0A # r) =
      (word, ?h) # find_guids (Some (last ?h)) (CHR 0x0A # r)"
    by blast
  moreover have "find_guids (Some (last ?h)) (CHR 0x0A # r) = find_guids (Some CHR 0x0A) r"
    by (subst find_guids.simps) (simp add: nl)
  moreover have "find_guids prev (CHR 0x09 # s) = find_guids (Some CHR 0x09) s" for s
    by (subst find_guids.simps) (simp add: tab)
  ultimately show ?thesis by (simp add: guid_line_def)
qed

lemma formatGUID_inject: "formatGUID g = formatGUID h \<longleftrightarrow> g = h"
proof
  assume "formatGUID g = formatGUID h"
  moreover have "parse_base 16 (TrimPrefix (formatGUID g) ''0x'') = Some (unat g)" for g
    by (auto simp: formatGUID_def TrimPrefix_def HasPrefix_def parse_base_def digit_val_def
        parse_digits_show_base)
  ultimately show "g = h" by (metis option.inject unsigned_word_eqI)
qed simp

text \<open>
  The GUIDs read back from the program's output are those of the begin record, in the form
  \<open>ParseBegin\<close> gives them; two of them are the same string exactly when the 64-bit numbers are
  equal, so the comparisons of the validation compare GUIDs.
\<close>

theorem ParseZstreamdumpGUIDs_printed:
  "ParseZstreamdumpGUIDs (guid_line ''toguid'' to @ guid_line ''fromguid'' from) =
     \<lparr>sg_FromGUID = formatGUID from, sg_ToGUID = formatGUID to\<rparr> \<and>
   canonicalGUID (formatGUID to) = formatGUID to \<and> (formatGUID from = formatGUID to \<longleftrightarrow> from = to)"
proof (intro conjI formatGUID_inject)
  have "find_guids None (guid_line ''toguid'' to @ guid_line ''fromguid'' from @ []) =
      [(''toguid'', show_base 16 (unat to)), (''fromguid'', show_base 16 (unat from))]"
    by (simp only: find_guids_line simp_thms) (simp add: find_guids.simps)
  then show "ParseZstreamdumpGUIDs (guid_line ''toguid'' to @ guid_line ''fromguid'' from) =
     \<lparr>sg_FromGUID = formatGUID from, sg_ToGUID = formatGUID to\<rparr>"
    by (simp add: ParseZstreamdumpGUIDs_def set_guid_def canonicalGUID_hex)
  show "canonicalGUID (formatGUID to) = formatGUID to"
  proof (cases "to = 0")
    case True
    moreover have "show_base 16 0 = ''0''" by code_simp
    ultimately show ?thesis using canonicalGUID_hex [of 0] by (simp add: formatGUID_def)
  next
    case False
    then show ?thesis using canonicalGUID_0x [of to] by (simp add: formatGUID_def)
  qed
qed

end
