(* ===== verification/Validation.thy ===== *)
theory Validation
  imports Restore Stream_Check
begin

text \<open>
  Checking that committed snapshots can be restored (\<open>src/internal/validation/validation.go\<close>): the
  validator of one snapshot and of a whole chain, the runner that records jobs, operations and
  statuses, and the reconciliation of stale jobs.
\<close>

section \<open>The validator\<close>

text \<open>\<open>v_DB\<close> and \<open>v_Store\<close> say whether the fields are set; a nil checker is \<open>None\<close>.\<close>

record Validator =
  v_DB :: bool
  v_Store :: bool
  v_Checker :: "checker option"

subsection \<open>Manifest and objects\<close>

definition verifyChunkMetadata :: "'s Store \<Rightarrow> string \<Rightarrow> Chunk \<Rightarrow> ('s world, unit) prog" where
  "verifyChunkMetadata S snapshotName chunk =
     check (store_call (Head S (ch_ObjectKey chunk)))
       (\<lambda>e. throw (Wrapf (msg ''snapshot %s chunk %d head %s: %w'')
          [snapshotName, show_int (ch_Index chunk), ch_ObjectKey chunk] e)) (\<lambda>info.
     if oi_Size info \<noteq> ch_SizeBytes chunk
     then throw (Errorf (msg ''snapshot %s chunk %d size mismatch: got %d want %d'')
            [snapshotName, show_int (ch_Index chunk), show_int (oi_Size info), show_int (ch_SizeBytes chunk)])
     else if oi_SHA256 info \<noteq> [] \<and> oi_SHA256 info \<noteq> ch_SHA256 chunk
     then throw (Errorf (msg ''snapshot %s chunk %d sha256 metadata mismatch: got %s want %s'')
            [snapshotName, show_int (ch_Index chunk), oi_SHA256 info, ch_SHA256 chunk])
     else ok ())"

text \<open>The loop over the manifest's chunks with the catalog's rows beside them.\<close>

fun verify_chunks :: "'s Store \<Rightarrow> string \<Rightarrow> (SnapshotChunk \<times> Chunk) list \<Rightarrow> ('s world, unit) prog" where
  "verify_chunks S snapshotName [] = ok ()"
| "verify_chunks S snapshotName ((row, chunk) # rest) =
     (if ck_ChunkIndex row \<noteq> ch_Index chunk \<or> ck_ObjectKey row \<noteq> ch_ObjectKey chunk \<or>
         ck_SizeBytes row \<noteq> ch_SizeBytes chunk \<or> ck_Sha256 row \<noteq> ch_SHA256 chunk
      then throw (Errorf (msg ''snapshot %s catalog chunk %d does not match manifest'')
             [snapshotName, show_int (ch_Index chunk)])
      else check (verifyChunkMetadata S snapshotName chunk) throw (\<lambda>_. verify_chunks S snapshotName rest))"

definition verifyManifestAndObjects ::
  "'s Store \<Rightarrow> json \<Rightarrow> string \<Rightarrow> string \<Rightarrow> string \<Rightarrow> ('s world, Manifest) prog" where
  "verifyManifestAndObjects S J snapshotID snapshotName manifestKey =
     check (store_call (GetBytes S manifestKey))
       (\<lambda>e. throw (Wrapf (msg ''read manifest for snapshot %s: %w'') [snapshotName] e)) (\<lambda>manifestBytes.
     case manifest_Unmarshal J manifestBytes of
       Inl e \<Rightarrow> throw (Wrapf (msg ''parse manifest for snapshot %s: %w'') [snapshotName] e)
     | Inr mani \<Rightarrow>
         check (db_query (q_ListSnapshotChunks snapshotID))
           (\<lambda>e. throw (Wrapf (msg ''list catalog chunks for snapshot %s: %w'') [snapshotName] e)) (\<lambda>chunks.
         if length chunks \<noteq> length (m_Chunks mani)
         then throw (Errorf (msg ''snapshot %s chunk count mismatch: catalog has %d manifest has %d'')
                [snapshotName, show_nat (length chunks), show_nat (length (m_Chunks mani))])
         else check (verify_chunks S snapshotName (zip chunks (m_Chunks mani))) throw (\<lambda>_. ok mani)))"

subsection \<open>The stream\<close>

definition ErrClosedPipe :: error where
  "ErrClosedPipe = Errorf (msg ''io: read/write on closed pipe'') []"

text \<open>
  The writing side of the pipe: it has written \<open>out\<close>, and the reading side takes \<open>lim\<close> bytes in all
  before it closes (\<open>None\<close>: it never does). The result is what was written and the error the writer
  returns, with which it has also closed the pipe.
\<close>

fun write_chunks ::
  "'s Store \<Rightarrow> (bytes \<Rightarrow> bytes) \<Rightarrow> nat option \<Rightarrow> Chunk list \<Rightarrow> int \<Rightarrow> bytes \<Rightarrow>
   ('s world, (int \<times> bytes) \<times> error option) state" where
  "write_chunks S sha lim [] tot out = ret ((tot, out), None)"
| "write_chunks S sha lim (chunk # chunks) tot out =
     check (store_call (GetReader S (ch_ObjectKey chunk))) (\<lambda>e. ret ((tot, out), Some e)) (\<lambda>reader.
     let data = rc_data reader; written = int (length data) in
     if (case lim of None \<Rightarrow> False | Some n \<Rightarrow> n < length out + length data)
     then ret ((tot, take (the lim) (out @ data)), Some ErrClosedPipe)
     else case rc_err reader of
       Some e \<Rightarrow> ret ((tot, out @ data), Some e)
     | None \<Rightarrow>
     (case rc_close reader of
       Some e \<Rightarrow> ret ((tot, out @ data), Some e)
     | None \<Rightarrow>
         if written \<noteq> ch_SizeBytes chunk
         then ret ((tot, out @ data), Some (Errorf (msg ''chunk %d streamed size mismatch: got %d want %d'')
                [show_int (ch_Index chunk), show_int written, show_int (ch_SizeBytes chunk)]))
         else if sha_hex sha data \<noteq> ch_SHA256 chunk
         then ret ((tot, out @ data), Some (Errorf (msg ''chunk %d sha256 mismatch: got %s want %s'')
                [show_int (ch_Index chunk), sha_hex sha data, ch_SHA256 chunk]))
         else write_chunks S sha lim chunks (wrap64 (tot + written)) (out @ data)))"

definition writeManifestStream ::
  "'s Store \<Rightarrow> (bytes \<Rightarrow> bytes) \<Rightarrow> nat option \<Rightarrow> Manifest \<Rightarrow> ('s world, bytes \<times> error option) state" where
  "writeManifestStream S sha lim mani =
     State_Monad.bind (write_chunks S sha lim (m_Chunks mani) 0 []) (\<lambda>(sofar, err). case sofar of (tot, out) \<Rightarrow>
     case err of
       Some e \<Rightarrow> ret (out, Some e)
     | None \<Rightarrow>
         if tot \<noteq> st_SizeBytes (m_Stream mani)
         then ret (out, Some (Errorf (msg ''stream size mismatch: got %d want %d'')
                [show_int tot, show_int (st_SizeBytes (m_Stream mani))]))
         else if sha_hex sha out \<noteq> st_SHA256 (m_Stream mani)
         then ret (out, Some (Errorf (msg ''stream sha256 mismatch: got %s want %s'')
                [sha_hex sha out, st_SHA256 (m_Stream mani)]))
         else ret (out, None))"

text \<open>
  The two goroutines of \<open>checkStream\<close>. A checker that takes the whole stream lets the writer finish;
  one that returns earlier closes the pipe under it.
\<close>

definition checkStream ::
  "'s Store \<Rightarrow> (bytes \<Rightarrow> bytes) \<Rightarrow> checker \<Rightarrow> string \<Rightarrow> Manifest \<Rightarrow> ('s world, StreamGUIDs) prog" where
  "checkStream S sha checker manifestKey mani = State (\<lambda>w.
     let whole = run_state (writeManifestStream S sha None mani) w;
         (n, res) = checker manifestKey (fst (fst whole)) (snd (fst whole));
         ((out, writeErr), w') =
           (if n < length (fst (fst whole)) then run_state (writeManifestStream S sha (Some n) mani) w else whole)
     in (case res of
           Inl checkErr \<Rightarrow> Inl checkErr
         | Inr guids \<Rightarrow> (case writeErr of Some e \<Rightarrow> Inl e | None \<Rightarrow> Inr guids), w'))"

subsection \<open>ValidateChain\<close>

text \<open>The checks of a row against its predecessor, before and after the manifest is read.\<close>

definition check_row :: "ListSnapshotRestoreChainRow option \<Rightarrow> ListSnapshotRestoreChainRow \<Rightarrow> error + string" where
  "check_row previous row =
     (if rc_Status row \<noteq> SnapCommitted
      then Inl (Errorf (msg ''snapshot %s is %s, not committed'') [rc_Name row, show_snapshot_status (rc_Status row)])
      else case rc_ManifestObjectKey row of
        None \<Rightarrow> Inl (Errorf (msg ''snapshot %s has no manifest'') [rc_Name row])
      | Some key \<Rightarrow>
          if key = [] then Inl (Errorf (msg ''snapshot %s has no manifest'') [rc_Name row])
          else case previous of
            None \<Rightarrow>
              (case rc_ParentSnapshotID row of
                 Some p \<Rightarrow> Inl (Errorf (msg ''snapshot %s references missing ancestor %s'') [rc_Name row, p])
               | None \<Rightarrow> Inr key)
          | Some prev \<Rightarrow>
              (case rc_ParentSnapshotID row of
                 None \<Rightarrow> Inl (Errorf (msg ''snapshot %s is incremental in chain but has no parent'') [rc_Name row])
               | Some p \<Rightarrow>
                   if p \<noteq> rc_ID prev
                   then Inl (Errorf (msg ''snapshot %s parent %s does not match previous snapshot %s'')
                          [rc_Name row, p, rc_ID prev])
                   else Inr key))"

definition check_lineage ::
  "ListSnapshotRestoreChainRow option \<Rightarrow> ListSnapshotRestoreChainRow \<Rightarrow> Manifest \<Rightarrow> error + unit" where
  "check_lineage previous row mani =
     (if id_Snapshot (m_Identity mani) \<noteq> rc_Name row
      then Inl (Errorf (msg ''snapshot %s manifest identity snapshot is %s'')
             [rc_Name row, id_Snapshot (m_Identity mani)])
      else case previous of
        None \<Rightarrow>
          if ln_BaseSnapshot (m_Lineage mani) \<noteq> []
          then Inl (Errorf (msg ''full snapshot %s manifest unexpectedly has base %s'')
                 [rc_Name row, ln_BaseSnapshot (m_Lineage mani)])
          else Inr ()
      | Some prev \<Rightarrow>
          if ln_BaseSnapshot (m_Lineage mani) \<noteq> rc_Name prev
          then Inl (Errorf (msg ''snapshot %s manifest base %s does not match previous snapshot %s'')
                 [rc_Name row, ln_BaseSnapshot (m_Lineage mani), rc_Name prev])
          else Inr ())"

type_synonym chainItem = "ListSnapshotRestoreChainRow \<times> Manifest \<times> StreamGUIDs"

fun chain_items ::
  "'s Store \<Rightarrow> (bytes \<Rightarrow> bytes) \<Rightarrow> json \<Rightarrow> checker \<Rightarrow> ListSnapshotRestoreChainRow option \<Rightarrow>
   ListSnapshotRestoreChainRow list \<Rightarrow> ('s world, chainItem list) prog" where
  "chain_items S sha J checker previous [] = ok []"
| "chain_items S sha J checker previous (row # rows) =
     (case check_row previous row of
        Inl e \<Rightarrow> throw e
      | Inr key \<Rightarrow>
          check (verifyManifestAndObjects S J (rc_ID row) (rc_Name row) key) throw (\<lambda>mani.
          case check_lineage previous row mani of
            Inl e \<Rightarrow> throw e
          | Inr _ \<Rightarrow>
              check (checkStream S sha checker key mani)
                (\<lambda>e. throw (Wrapf (msg ''stream check %s: %w'') [rc_Name row] e)) (\<lambda>guids.
              check (chain_items S sha J checker (Some row) rows) throw (\<lambda>items.
              ok ((row, mani, guids) # items)))))"

fun check_guids :: "chainItem list \<Rightarrow> error + unit" where
  "check_guids ((r1, m1, previous) # (r2, m2, current) # items) =
     (if sg_ToGUID previous = [] \<and> sg_FromGUID current = [] then check_guids ((r2, m2, current) # items)
      else if sg_ToGUID previous = []
      then Inl (Errorf (msg ''snapshot %s fromguid %s cannot be verified because previous snapshot %s has no toguid'')
             [rc_Name r2, sg_FromGUID current, rc_Name r1])
      else if sg_FromGUID current = []
      then Inl (Errorf (msg ''incremental snapshot %s has no fromguid to compare with previous snapshot %s'')
             [rc_Name r2, rc_Name r1])
      else if sg_FromGUID current \<noteq> sg_ToGUID previous
      then Inl (Errorf (msg ''incremental snapshot %s fromguid %s does not match previous toguid %s'')
             [rc_Name r2, sg_FromGUID current, sg_ToGUID previous])
      else check_guids ((r2, m2, current) # items))"
| "check_guids items = Inr ()"

definition validator_ready :: "Validator \<Rightarrow> error + checker" where
  "validator_ready v =
     (if \<not> v_DB v then Inl (Errorf (msg ''db is required'') [])
      else if \<not> v_Store v then Inl (Errorf (msg ''store is required'') [])
      else case v_Checker v of
        None \<Rightarrow> Inl (Errorf (msg ''stream checker is required'') [])
      | Some checker \<Rightarrow> Inr checker)"

definition ValidateChain ::
  "'s Store \<Rightarrow> (bytes \<Rightarrow> bytes) \<Rightarrow> json \<Rightarrow> Validator \<Rightarrow> string \<Rightarrow> ('s world, unit) prog" where
  "ValidateChain S sha J v snapshotID =
     (case validator_ready v of
        Inl e \<Rightarrow> throw e
      | Inr checker \<Rightarrow>
          check (db_query (q_ListSnapshotRestoreChain snapshotID))
            (\<lambda>e. throw (Wrapf (msg ''list restore chain: %w'') [] e)) (\<lambda>rows.
          if rows = [] then throw (Errorf (msg ''snapshot %s not found'') [snapshotID])
          else if rc_ID (last rows) \<noteq> snapshotID
          then throw (Errorf (msg ''restore chain does not end at target snapshot %s'') [snapshotID])
          else check (chain_items S sha J checker None rows) throw (\<lambda>items.
            case check_guids items of Inl e \<Rightarrow> throw e | Inr _ \<Rightarrow> ok ())))"

subsection \<open>ValidateSnapshot\<close>

text \<open>The checks on the stream's GUIDs against the catalog row.\<close>

definition check_own_guids :: "Snapshot \<Rightarrow> StreamGUIDs \<Rightarrow> error + unit" where
  "check_own_guids s guids =
     (if sn_StreamFromGuid s \<noteq> [] \<and> sg_FromGUID guids \<noteq> [] \<and> sn_StreamFromGuid s \<noteq> sg_FromGUID guids
      then Inl (Errorf (msg ''snapshot %s catalog fromguid %s does not match stream fromguid %s'')
             [sn_Name s, sn_StreamFromGuid s, sg_FromGUID guids])
      else if sn_StreamToGuid s \<noteq> [] \<and> sg_ToGUID guids \<noteq> [] \<and> sn_StreamToGuid s \<noteq> sg_ToGUID guids
      then Inl (Errorf (msg ''snapshot %s catalog toguid %s does not match stream toguid %s'')
             [sn_Name s, sn_StreamToGuid s, sg_ToGUID guids])
      else Inr ())"

definition check_parent :: "Snapshot \<Rightarrow> Snapshot \<Rightarrow> Manifest \<Rightarrow> StreamGUIDs \<Rightarrow> error + unit" where
  "check_parent s parent mani guids =
     (if sn_Status parent \<noteq> SnapCommitted
      then Inl (Errorf (msg ''parent snapshot %s is %s, not committed'')
             [sn_Name parent, show_snapshot_status (sn_Status parent)])
      else if ln_BaseSnapshot (m_Lineage mani) \<noteq> sn_Name parent
      then Inl (Errorf (msg ''snapshot %s manifest base %s does not match parent snapshot %s'')
             [sn_Name s, ln_BaseSnapshot (m_Lineage mani), sn_Name parent])
      else if sn_StreamToGuid parent = [] \<and> sg_FromGUID guids \<noteq> []
      then Inl (Errorf (msg ''snapshot %s fromguid %s cannot be verified because parent snapshot %s has no toguid'')
             [sn_Name s, sg_FromGUID guids, sn_Name parent])
      else if sg_FromGUID guids = [] \<and> sn_StreamToGuid parent \<noteq> []
      then Inl (Errorf (msg ''incremental snapshot %s has no fromguid to compare with parent snapshot %s'')
             [sn_Name s, sn_Name parent])
      else if sn_StreamToGuid parent \<noteq> [] \<and> sg_FromGUID guids \<noteq> [] \<and> sg_FromGUID guids \<noteq> sn_StreamToGuid parent
      then Inl (Errorf (msg ''incremental snapshot %s fromguid %s does not match parent toguid %s'')
             [sn_Name s, sg_FromGUID guids, sn_StreamToGuid parent])
      else Inr ())"

definition validate_row ::
  "'s Store \<Rightarrow> (bytes \<Rightarrow> bytes) \<Rightarrow> json \<Rightarrow> checker \<Rightarrow> GetSnapshotDetailRow \<Rightarrow> string \<Rightarrow> ('s world, unit) prog" where
  "validate_row S sha J checker d key =
     (let s = gsd_Snapshot d in
      check (verifyManifestAndObjects S J (sn_ID s) (sn_Name s) key) throw (\<lambda>mani.
      if id_Source (m_Identity mani) \<noteq> gsd_SourceName d \<or> id_Pool (m_Identity mani) \<noteq> gsd_PoolName d \<or>
         id_Dataset (m_Identity mani) \<noteq> gsd_DatasetPath d \<or> id_Snapshot (m_Identity mani) \<noteq> sn_Name s
      then throw (Errorf (msg ''snapshot %s manifest identity mismatch'') [sn_Name s])
      else
      check (checkStream S sha checker key mani)
        (\<lambda>e. throw (Wrapf (msg ''stream check %s: %w'') [sn_Name s] e)) (\<lambda>guids.
      case check_own_guids s guids of
        Inl e \<Rightarrow> throw e
      | Inr _ \<Rightarrow>
          (case sn_ParentSnapshotID s of
             None \<Rightarrow>
               if ln_BaseSnapshot (m_Lineage mani) \<noteq> []
               then throw (Errorf (msg ''full snapshot %s manifest unexpectedly has base %s'')
                      [sn_Name s, ln_BaseSnapshot (m_Lineage mani)])
               else ok ()
           | Some p \<Rightarrow>
               check (db_query (q_GetSnapshotDetail p))
                 (\<lambda>e. throw (Wrapf (msg ''get parent snapshot: %w'') [] e)) (\<lambda>parent.
               case check_parent s (gsd_Snapshot parent) mani guids of Inl e \<Rightarrow> throw e | Inr _ \<Rightarrow> ok ())))))"

definition ValidateSnapshot ::
  "'s Store \<Rightarrow> (bytes \<Rightarrow> bytes) \<Rightarrow> json \<Rightarrow> Validator \<Rightarrow> string \<Rightarrow> ('s world, unit) prog" where
  "ValidateSnapshot S sha J v snapshotID =
     (case validator_ready v of
        Inl e \<Rightarrow> throw e
      | Inr checker \<Rightarrow>
          check (db_query (q_GetSnapshotDetail snapshotID))
            (\<lambda>e. throw (Wrapf (msg ''get snapshot: %w'') [] e)) (\<lambda>d.
          let s = gsd_Snapshot d in
          if sn_Status s \<noteq> SnapCommitted
          then throw (Errorf (msg ''snapshot %s is %s, not committed'')
                 [sn_Name s, show_snapshot_status (sn_Status s)])
          else case sn_ManifestObjectKey s of
            None \<Rightarrow> throw (Errorf (msg ''snapshot %s has no manifest'') [sn_Name s])
          | Some key \<Rightarrow>
              if key = [] then throw (Errorf (msg ''snapshot %s has no manifest'') [sn_Name s])
              else validate_row S sha J checker d key))"

section \<open>The runner\<close>

record Runner =
  rn_Store :: bool
  rn_Checker :: "checker option"
  rn_Executor :: string

record RunDueResult =
  Checked :: int
  Succeeded :: int
  Failed :: int

definition updateSnapshotValidationModeStatus ::
  "string \<Rightarrow> bool \<Rightarrow> validation_status \<Rightarrow> ('s world, unit) prog" where
  "updateSnapshotValidationModeStatus snapshotID fullChain status =
     (if fullChain then db_exec (q_UpdateSnapshotChainValidationStatus status snapshotID)
      else db_exec (q_UpdateSnapshotStreamValidationStatus status snapshotID))"

text \<open>The three transactions of \<open>runOneMode\<close>; \<open>withQueriesTx\<close> is \<open>withTx\<close> of the repository.\<close>

definition begin_validation :: "string \<Rightarrow> string \<Rightarrow> string \<Rightarrow> string \<Rightarrow> bool \<Rightarrow> ('s world, unit) prog" where
  "begin_validation jobID operationID executor snapshotID fullChain =
     withTx (
       check (db_exec (q_CreateValidationJob jobID (Some snapshotID) (if fullChain then RestoreCheck else StreamCheck)
                executor (Some (msg ''validation running''))))
         (\<lambda>e. throw (Wrapf (msg ''create validation job: %w'') [] e)) (\<lambda>_.
       check (db_exec (q_CreateValidationOperation operationID (Some snapshotID) (Some jobID)
                (Some (msg ''validation running''))))
         (\<lambda>e. throw (Wrapf (msg ''create validation operation: %w'') [] e)) (\<lambda>_.
       check (updateSnapshotValidationModeStatus snapshotID fullChain ValRunning)
         (\<lambda>e. throw (Wrapf (msg ''mark snapshot validation running: %w'') [] e)) ok)))"

definition fail_validation :: "string \<Rightarrow> string \<Rightarrow> string \<Rightarrow> bool \<Rightarrow> string \<Rightarrow> ('s world, unit) prog" where
  "fail_validation jobID operationID snapshotID fullChain summary =
     withTx (
       check (db_exec (q_FailValidationJob (Some summary) jobID)) throw (\<lambda>_.
       check (updateSnapshotValidationModeStatus snapshotID fullChain ValFailed) throw (\<lambda>_.
       db_exec (q_UpdateOperationStatus OpFailed (Some (msg ''validation failed'')) (Some summary) operationID))))"

definition complete_validation :: "string \<Rightarrow> string \<Rightarrow> string \<Rightarrow> bool \<Rightarrow> ('s world, unit) prog" where
  "complete_validation jobID operationID snapshotID fullChain =
     (let summary = (if fullChain then msg ''restore chain validation succeeded''
                     else msg ''snapshot stream validation succeeded'') in
      withTx (
       check (db_exec (q_CompleteValidationJob (Some summary) jobID))
         (\<lambda>e. throw (Wrapf (msg ''complete validation job: %w'') [] e)) (\<lambda>_.
       check (updateSnapshotValidationModeStatus snapshotID fullChain ValSucceeded)
         (\<lambda>e. throw (Wrapf (msg ''mark snapshot validation succeeded: %w'') [] e)) (\<lambda>_.
       check (db_exec (q_UpdateOperationStatus OpSucceeded (Some summary) None operationID))
         (\<lambda>e. throw (Wrapf (msg ''complete validation operation: %w'') [] e)) ok))))"

text \<open>The deferred branch: the error of the recording transaction is dropped.\<close>

definition runOneMode ::
  "'s Store \<Rightarrow> (bytes \<Rightarrow> bytes) \<Rightarrow> json \<Rightarrow> Runner \<Rightarrow> string \<Rightarrow> bool \<Rightarrow> ('s world, unit) prog" where
  "runOneMode S sha J r snapshotID fullChain =
     State_Monad.bind (NewID ''val'') (\<lambda>jobID. State_Monad.bind (NewID ''op'') (\<lambda>operationID.
     check (begin_validation jobID operationID (rn_Executor r) snapshotID fullChain) throw (\<lambda>_.
     let v = \<lparr>v_DB = True, v_Store = rn_Store r, v_Checker = rn_Checker r\<rparr> in
     check (if fullChain then ValidateChain S sha J v snapshotID else ValidateSnapshot S sha J v snapshotID)
       (\<lambda>e. State_Monad.bind (fail_validation jobID operationID snapshotID fullChain (error_text e)) (\<lambda>_. throw e))
       (\<lambda>_. complete_validation jobID operationID snapshotID fullChain))))"

definition with_defaults :: "checker \<Rightarrow> Runner \<Rightarrow> Runner" where
  "with_defaults zstreamdump r =
     r\<lparr>rn_Executor := (if rn_Executor r = [] then ''local'' else rn_Executor r),
       rn_Checker := (case rn_Checker r of None \<Rightarrow> Some zstreamdump | Some c \<Rightarrow> Some c)\<rparr>"

definition runSnapshotMode ::
  "'s Store \<Rightarrow> (bytes \<Rightarrow> bytes) \<Rightarrow> json \<Rightarrow> checker \<Rightarrow> Runner \<Rightarrow> string \<Rightarrow> bool \<Rightarrow> ('s world, unit) prog" where
  "runSnapshotMode S sha J zstreamdump r snapshotID fullChain =
     runOneMode S sha J (with_defaults zstreamdump r) snapshotID fullChain"

definition RunSnapshot ::
  "'s Store \<Rightarrow> (bytes \<Rightarrow> bytes) \<Rightarrow> json \<Rightarrow> checker \<Rightarrow> Runner \<Rightarrow> string \<Rightarrow> ('s world, unit) prog" where
  "RunSnapshot S sha J zstreamdump r snapshotID = runSnapshotMode S sha J zstreamdump r snapshotID False"

definition RunChain ::
  "'s Store \<Rightarrow> (bytes \<Rightarrow> bytes) \<Rightarrow> json \<Rightarrow> checker \<Rightarrow> Runner \<Rightarrow> string \<Rightarrow> ('s world, unit) prog" where
  "RunChain S sha J zstreamdump r snapshotID = runSnapshotMode S sha J zstreamdump r snapshotID True"

fun run_due_loop ::
  "'s Store \<Rightarrow> (bytes \<Rightarrow> bytes) \<Rightarrow> json \<Rightarrow> Runner \<Rightarrow> string list \<Rightarrow> RunDueResult \<Rightarrow> ('s world, RunDueResult) state" where
  "run_due_loop S sha J r [] res = ret res"
| "run_due_loop S sha J r (i # is) res =
     State_Monad.bind (runOneMode S sha J r i True) (\<lambda>out.
       case out of
         Inl e \<Rightarrow> run_due_loop S sha J r is (res\<lparr>Checked := Checked res + 1, Failed := Failed res + 1\<rparr>)
       | Inr _ \<Rightarrow> run_due_loop S sha J r is (res\<lparr>Checked := Checked res + 1, Succeeded := Succeeded res + 1\<rparr>))"

definition RunDue ::
  "'s Store \<Rightarrow> (bytes \<Rightarrow> bytes) \<Rightarrow> json \<Rightarrow> checker \<Rightarrow> Runner \<Rightarrow> int \<Rightarrow> ('s world, RunDueResult) prog" where
  "RunDue S sha J zstreamdump r lim =
     check (db_query (q_ListSnapshotsDueForValidation (if lim \<le> 0 then 25 else lim)))
       (\<lambda>e. throw (Wrapf (msg ''list snapshots due for validation: %w'') [] e)) (\<lambda>ids.
     State_Monad.bind (run_due_loop S sha J (with_defaults zstreamdump r) ids
       \<lparr>Checked = 0, Succeeded = 0, Failed = 0\<rparr>) ok)"

section \<open>Stale jobs\<close>

definition stale_job :: "int \<Rightarrow> ValidationJob \<Rightarrow> bool" where
  "stale_job cutoff v \<longleftrightarrow>
     vj_Status v = JobRunning \<and> (case vj_StartedAt v of None \<Rightarrow> False | Some t \<Rightarrow> t < cutoff)"

definition stale_snapshot :: "validation_type \<Rightarrow> int \<Rightarrow> catalog \<Rightarrow> Snapshot \<Rightarrow> bool" where
  "stale_snapshot typ cutoff c s \<longleftrightarrow>
     (\<exists>v \<in> set (validation_jobs c). vj_Type v = typ \<and> stale_job cutoff v \<and> vj_SnapshotID v = Some (sn_ID s))"

definition q_fail_stale_streams :: "int \<Rightarrow> statement" where
  "q_fail_stale_streams cutoff now c =
     update_snapshots (\<lambda>s. sn_StreamValidationStatus s = ValRunning \<and> stale_snapshot StreamCheck cutoff c s)
       (\<lambda>s. s\<lparr>sn_StreamValidationStatus := ValFailed\<rparr>) c"

definition q_fail_stale_chains :: "int \<Rightarrow> statement" where
  "q_fail_stale_chains cutoff now c =
     update_snapshots (\<lambda>s. sn_ChainValidationStatus s = ValRunning \<and> stale_snapshot RestoreCheck cutoff c s)
       (\<lambda>s. s\<lparr>sn_ChainValidationStatus := ValFailed\<rparr>) c"

definition q_fail_stale_jobs :: "int \<Rightarrow> statement" where
  "q_fail_stale_jobs cutoff now c =
     Inr (c\<lparr>validation_jobs := update_where (stale_job cutoff)
       (\<lambda>v. v\<lparr>vj_Status := JobFailed, vj_CompletedAt := Some now,
              vj_ResultSummary := Some (msg ''validation job failed by startup reconciliation'')\<rparr>)
       (validation_jobs c)\<rparr>)"

definition q_fail_stale_operations :: "int \<Rightarrow> statement" where
  "q_fail_stale_operations cutoff now =
     update_operations (\<lambda>p. op_Type p = OpValidation \<and> op_Status p = OpRunning \<and> op_StartedAt p < cutoff)
       (\<lambda>p. p\<lparr>op_Status := OpFailed, op_Summary := Some (msg ''validation failed by startup reconciliation''),
              op_FailureReason := Some (msg ''stale validation job''), op_UpdatedAt := now,
              op_CompletedAt := Some now\<rparr>)"

text \<open>The number of rows an update affects is the number that satisfied its condition before it.\<close>

definition ReconcileStaleJobs :: "int \<Rightarrow> ('s world, int) prog" where
  "ReconcileStaleJobs cutoff =
     check (db_exec (q_fail_stale_streams cutoff))
       (\<lambda>e. throw (Wrapf (msg ''mark stale stream validations failed: %w'') [] e)) (\<lambda>_.
     check (db_exec (q_fail_stale_chains cutoff))
       (\<lambda>e. throw (Wrapf (msg ''mark stale chain validations failed: %w'') [] e)) (\<lambda>_.
     State_Monad.bind the_catalog (\<lambda>c.
     let failed = int (length (filter (stale_job cutoff) (validation_jobs c))) in
     check (db_exec (q_fail_stale_jobs cutoff))
       (\<lambda>e. throw (Wrapf (msg ''fail stale validation jobs: %w'') [] e)) (\<lambda>_.
     check (db_exec (q_fail_stale_operations cutoff))
       (\<lambda>e. throw (Wrapf (msg ''fail stale validation operations: %w'') [] e)) (\<lambda>_.
     ok failed)))))"

section \<open>What a successful validation has seen\<close>

text \<open>A snapshot whose stream can be put together from the objects: \<open>content\<close> is what the store holds.\<close>

definition restorable ::
  "(bytes \<Rightarrow> bytes) \<Rightarrow> json \<Rightarrow> (string \<Rightarrow> bytes option) \<Rightarrow> string \<Rightarrow> Manifest \<Rightarrow> bool" where
  "restorable sha J content key m \<longleftrightarrow>
     (\<exists>mb ds. content key = Some mb \<and> manifest_Unmarshal J mb = Inr m \<and>
        list_all2 (\<lambda>chunk d. matches sha chunk d \<and> content (ch_ObjectKey chunk) = Some d) (m_Chunks m) ds \<and>
        sha_hex sha (concat ds) = st_SHA256 (m_Stream m))"

context reliable_store
begin

lemma restorable_streams:
  assumes "inv s" and "restorable sha J (view s) key m"
  shows "\<exists>t out. run_state (StreamSnapshot S sha J key full_writer) (s, []) = (Inr (), (t, out))"
proof -
  obtain mb ds where d: "view s key = Some mb" "manifest_Unmarshal J mb = Inr m"
    "list_all2 (\<lambda>chunk d. matches sha chunk d \<and> view s (ch_ObjectKey chunk) = Some d) (m_Chunks m) ds"
    "sha_hex sha (concat ds) = st_SHA256 (m_Stream m)" using assms(2) by (auto simp: restorable_def)
  have "promised s = (\<lambda>chunk d. matches sha chunk d \<and> view s (ch_ObjectKey chunk) = Some d)"
    by (intro ext) (rule promised_def)
  then show ?thesis using run_StreamSnapshot [OF assms(1) d(1,2) _ d(4)] d(3) by auto
qed

end

context object_store
begin

text \<open>Reading calls change neither the content of the store nor the catalog.\<close>

definition reading :: "(string \<Rightarrow> bytes option) \<Rightarrow> catalog \<Rightarrow> 's world \<Rightarrow> bool" where
  "reading V C w \<longleftrightarrow> inv (wObj w) \<and> view (wObj w) = V \<and> wCat w = C"

lemma reading_calls [frame_rules]:
  "keeps (reading V C) (store_call (Head S k))" "keeps (reading V C) (store_call (GetBytes S k))"
  "keeps (reading V C) (store_call (GetReader S k))" "keeps (reading V C) (db_query q)"
proof -
  show "keeps (reading V C) (store_call (Head S k))"
    by (auto simp: frame_def store_call_def reading_def split: prod.splits dest: head_any)
  show "keeps (reading V C) (store_call (GetBytes S k))"
    by (auto simp: frame_def store_call_def reading_def split: prod.splits dest: get_view)
  show "keeps (reading V C) (store_call (GetReader S k))"
    by (auto simp: frame_def store_call_def reading_def split: prod.splits dest: reader_view)
  show "keeps (reading V C) (db_query q)" by (simp add: frame_def db_query_def reading_def)
qed

lemma verify_reading [frame_rules]:
  "keeps (reading V C) (verify_chunks S name rows)"
  "keeps (reading V C) (verifyManifestAndObjects S J i name key)"
proof -
  show chunks: "keeps (reading V C) (verify_chunks S name rows)" for rows
  proof (induction rows)
    case (Cons p rows)
    then show ?case by (cases p) (auto simp: verifyChunkMetadata_def intro!: frame_rules)
  qed (auto intro!: frame_rules)
  show "keeps (reading V C) (verifyManifestAndObjects S J i name key)"
    unfolding verifyManifestAndObjects_def by (intro frame_rules chunks)
qed

lemma run_verifyManifest:
  assumes "run_state (verifyManifestAndObjects S J i name key) w = (Inr m, w')" and "reading V C w"
  shows "\<exists>mb. V key = Some mb \<and> manifest_Unmarshal J mb = Inr m"
proof -
  obtain mb w1 where g: "run_state (store_call (GetBytes S key)) w = (Inr mb, w1)"
    and rest: "run_state (case manifest_Unmarshal J mb of
       Inl e \<Rightarrow> throw (Wrapf (msg ''parse manifest for snapshot %s: %w'') [name] e)
     | Inr mani \<Rightarrow>
         check (db_query (q_ListSnapshotChunks i))
           (\<lambda>e. throw (Wrapf (msg ''list catalog chunks for snapshot %s: %w'') [name] e)) (\<lambda>chunks.
         if length chunks \<noteq> length (m_Chunks mani)
         then throw (Errorf (msg ''snapshot %s chunk count mismatch: catalog has %d manifest has %d'')
                [name, show_nat (length chunks), show_nat (length (m_Chunks mani))])
         else check (verify_chunks S name (zip chunks (m_Chunks mani))) throw (\<lambda>_. ok mani))) w1 = (Inr m, w')"
    using assms(1) unfolding verifyManifestAndObjects_def by (rule run_check_throw_Inr)
  have "V key = Some mb"
    using g assms(2) get_ok [of "wObj w" key mb] by (auto simp: store_call_def reading_def split: prod.splits)
  moreover have "manifest_Unmarshal J mb = Inr m"
    using rest by (auto split: sum.splits if_splits elim!: run_check_throw_Inr)
  ultimately show ?thesis by blast
qed

definition written_post ::
  "(string \<Rightarrow> bytes option) \<Rightarrow> Chunk list \<Rightarrow> bytes \<Rightarrow> (int \<times> bytes) \<times> error option \<Rightarrow> bool" where
  "written_post V chunks out r \<longleftrightarrow>
     (snd r = None \<longrightarrow> (\<exists>ds. list_all2 (\<lambda>chunk d. matches sha chunk d \<and> V (ch_ObjectKey chunk) = Some d) chunks ds \<and>
        snd (fst r) = out @ concat ds))"

lemma written_post_Cons:
  assumes "matches sha chunk d" and "V (ch_ObjectKey chunk) = Some d" and "written_post V chunks (out @ d) r"
  shows "written_post V (chunk # chunks) out r"
  unfolding written_post_def
proof
  assume "snd r = None"
  then obtain ds where "list_all2 (\<lambda>chunk d. matches sha chunk d \<and> V (ch_ObjectKey chunk) = Some d) chunks ds"
    "snd (fst r) = (out @ d) @ concat ds" using assms(3) by (auto simp: written_post_def)
  then show "\<exists>ds. list_all2 (\<lambda>chunk d. matches sha chunk d \<and> V (ch_ObjectKey chunk) = Some d) (chunk # chunks) ds \<and>
      snd (fst r) = out @ concat ds" using assms(1,2) by (intro exI [of _ "d # ds"]) simp
qed

lemma wp_write_chunks:
  assumes "reading V C w"
  shows "wp (write_chunks S sha lim chunks tot out) (\<lambda>r w'. reading V C w' \<and> written_post V chunks out r) w"
  using assms
proof (induction chunks arbitrary: tot out w)
  case Nil
  then show ?case by (simp add: wp_rules written_post_def)
next
  case (Cons chunk chunks)
  obtain r t where g: "GetReader S (ch_ObjectKey chunk) (wObj w) = (r, t)" by (rule prod.exhaust)
  have t: "reading V C (w\<lparr>wObj := t\<rparr>)" using Cons.prems reader_view [OF _ g] by (simp add: reading_def)
  show ?case
  proof (cases r)
    case (Inl e)
    then show ?thesis using g t by (simp add: wp_rules written_post_def)
  next
    case (Inr reader)
    have v: "rc_err reader = None \<Longrightarrow> V (ch_ObjectKey chunk) = Some (rc_data reader)"
      using reader_ok [of "wObj w"] g Inr Cons.prems by (simp add: reading_def)
    have "wp (write_chunks S sha lim chunks tot' (out @ rc_data reader))
        (\<lambda>r w'. reading V C w' \<and> written_post V (chunk # chunks) out r) (w\<lparr>wObj := t\<rparr>)"
      if "matches sha chunk (rc_data reader)" "rc_err reader = None" for tot'
      using that v by (intro wp_mono [OF Cons.IH [OF t]])
        (auto intro: written_post_Cons)
    then show ?thesis using g Inr t
      by (auto simp: wp_rules Let_def written_post_def matches_def split: option.splits)
  qed
qed

end

context object_store
begin

lemma run_writeManifestStream:
  assumes "run_state (writeManifestStream S sha lim m) w = ((out, err), w')" and "reading V C w"
  shows "reading V C w' \<and> (err = None \<longrightarrow> sha_hex sha out = st_SHA256 (m_Stream m) \<and>
    (\<exists>ds. list_all2 (\<lambda>chunk d. matches sha chunk d \<and> V (ch_ObjectKey chunk) = Some d) (m_Chunks m) ds \<and> out = concat ds))"
proof -
  obtain tot out1 err1 w1 where r: "run_state (write_chunks S sha lim (m_Chunks m) 0 []) w = (((tot, out1), err1), w1)"
    by (metis prod.exhaust)
  have post: "reading V C w1" "written_post V (m_Chunks m) [] ((tot, out1), err1)"
    using wpD [OF wp_write_chunks [OF assms(2)] r] by auto
  have "w' = w1" and "err = None \<Longrightarrow> err1 = None \<and> out = out1 \<and> sha_hex sha out = st_SHA256 (m_Stream m)"
    using assms(1) r by (auto simp: writeManifestStream_def split: option.splits if_splits)
  then show ?thesis using post by (auto simp: written_post_def)
qed

lemma run_checkStream:
  assumes "run_state (checkStream S sha checker key m) w = (r, w')" and "reading V C w"
    and "V key = Some mb" and "manifest_Unmarshal J mb = Inr m"
  shows "reading V C w' \<and> (\<forall>guids. r = Inr guids \<longrightarrow> restorable sha J V key m)"
proof -
  define whole where "whole = run_state (writeManifestStream S sha None m) w"
  define n where "n = fst (checker key (fst (fst whole)) (snd (fst whole)))"
  define fin where "fin = (if n < length (fst (fst whole))
    then run_state (writeManifestStream S sha (Some n) m) w else whole)"
  obtain out err wf where fin': "fin = ((out, err), wf)" by (metis prod.exhaust)
  have run: "run_state (writeManifestStream S sha (if n < length (fst (fst whole)) then Some n else None) m) w = ((out, err), wf)"
    using fin' unfolding fin_def by (cases "n < length (fst (fst whole))") (simp_all add: whole_def)
  have "w' = wf" and "\<And>guids. r = Inr guids \<Longrightarrow> err = None"
    using assms(1) fin'
    by (auto simp: checkStream_def fin_def whole_def n_def Let_def split: prod.splits sum.splits option.splits if_splits)
  then show ?thesis using run_writeManifestStream [OF run assms(2)] assms(3,4)
    unfolding restorable_def by blast
qed

end

text \<open>The rows of a chain, each linked to the one before it and restorable.\<close>

fun chain_valid ::
  "(bytes \<Rightarrow> bytes) \<Rightarrow> json \<Rightarrow> (string \<Rightarrow> bytes option) \<Rightarrow> ListSnapshotRestoreChainRow option \<Rightarrow>
   ListSnapshotRestoreChainRow list \<Rightarrow> bool" where
  "chain_valid sha J V previous [] \<longleftrightarrow> True"
| "chain_valid sha J V previous (row # rows) \<longleftrightarrow>
     (\<exists>key m. check_row previous row = Inr key \<and> restorable sha J V key m \<and> check_lineage previous row m = Inr ()) \<and>
     chain_valid sha J V (Some row) rows"

lemma check_row_Inr:
  "check_row previous row = Inr key \<Longrightarrow> rc_Status row = SnapCommitted \<and> rc_ManifestObjectKey row = Some key \<and>
     rc_ParentSnapshotID row = map_option rc_ID previous"
  by (auto simp: check_row_def split: if_splits option.splits)

lemma chain_valid_nth:
  assumes "chain_valid sha J V previous rows" and "i < length rows"
  shows "rc_Status (rows ! i) = SnapCommitted \<and>
    rc_ParentSnapshotID (rows ! i) = (if i = 0 then map_option rc_ID previous else Some (rc_ID (rows ! (i - 1)))) \<and>
    (\<exists>key m. rc_ManifestObjectKey (rows ! i) = Some key \<and> restorable sha J V key m)"
  using assms
proof (induction rows arbitrary: previous i)
  case (Cons row rows)
  obtain key m where row: "check_row previous row = Inr key" "restorable sha J V key m"
    and rest: "chain_valid sha J V (Some row) rows" using Cons.prems(1) by auto
  show ?case
  proof (cases i)
    case 0
    then show ?thesis using check_row_Inr [OF row(1)] row(2) by auto
  next
    case (Suc j)
    then show ?thesis using Cons.IH [OF rest, of j] Cons.prems(2) by (cases j) auto
  qed
qed simp

context object_store
begin

lemma run_chain_items:
  assumes "run_state (chain_items S sha J checker previous rows) w = (r, w')" and "reading V C w"
  shows "reading V C w' \<and> (\<forall>items. r = Inr items \<longrightarrow> chain_valid sha J V previous rows)"
  using assms
proof (induction rows arbitrary: previous w r w')
  case Nil
  then show ?case by auto
next
  case (Cons row rows)
  note run = Cons.prems(1)
  show ?case
  proof (cases "check_row previous row")
    case (Inl e)
    then show ?thesis using run Cons.prems(2) by auto
  next
    case key: (Inr key)
    obtain rv w1 where v: "run_state (verifyManifestAndObjects S J (rc_ID row) (rc_Name row) key) w = (rv, w1)"
      by (rule prod.exhaust)
    have w1: "reading V C w1" using frameD [OF verify_reading(2) v] Cons.prems(2) by simp
    show ?thesis
    proof (cases rv)
      case (Inl e)
      then show ?thesis using run key v w1 by auto
    next
      case m: (Inr m)
      obtain mb where mb: "V key = Some mb" "manifest_Unmarshal J mb = Inr m"
        using run_verifyManifest v m Cons.prems(2) by blast
      show ?thesis
      proof (cases "check_lineage previous row m")
        case (Inl e)
        then show ?thesis using run key v m w1 by auto
      next
        case l: (Inr u)
        obtain rs w2 where s: "run_state (checkStream S sha checker key m) w1 = (rs, w2)" by (rule prod.exhaust)
        note chk = run_checkStream [OF s w1 mb]
        show ?thesis
        proof (cases rs)
          case (Inl e)
          then show ?thesis using run key v m l s chk by auto
        next
          case g: (Inr guids)
          obtain ri w3 where i: "run_state (chain_items S sha J checker (Some row) rows) w2 = (ri, w3)" by (rule prod.exhaust)
          have IH: "reading V C w3 \<and> (\<forall>items. ri = Inr items \<longrightarrow> chain_valid sha J V (Some row) rows)"
            using Cons.IH [OF i] chk by simp
          show ?thesis using run key v m l s g i IH chk by (cases ri) auto
        qed
      qed
    qed
  qed
qed

lemma run_ValidateChain:
  assumes "run_state (ValidateChain S sha J v i) w = (r, w')" and "reading V C w"
  shows "reading V C w' \<and> (r = Inr () \<longrightarrow> (\<exists>rows now. q_ListSnapshotRestoreChain i now C = Inr rows \<and>
    rows \<noteq> [] \<and> rc_ID (last rows) = i \<and> chain_valid sha J V None rows))"
proof (cases "validator_ready v")
  case (Inl e)
  then show ?thesis using assms by (auto simp: ValidateChain_def)
next
  case (Inr checker)
  obtain rq w1 where q: "run_state (db_query (q_ListSnapshotRestoreChain i)) w = (rq, w1)" by (rule prod.exhaust)
  have w1: "reading V C w1" using frameD [OF reading_calls(4) q] assms(2) by simp
  show ?thesis
  proof (cases rq)
    case (Inl e)
    then show ?thesis using assms(1) Inr q w1 by (auto simp: ValidateChain_def)
  next
    case rows: (Inr rows)
    obtain ri w2 where c: "run_state (chain_items S sha J checker None rows) w1 = (ri, w2)" by (rule prod.exhaust)
    note items = run_chain_items [OF c w1]
    have qr: "q_ListSnapshotRestoreChain i (db_now w) C = Inr rows"
      using run_db_query_Inr [of "q_ListSnapshotRestoreChain i" w rows w1] q rows assms(2) by (simp add: reading_def)
    show ?thesis
    proof (cases "rows = [] \<or> rc_ID (last rows) \<noteq> i")
      case True
      then show ?thesis using assms(1) Inr q rows w1 by (auto simp: ValidateChain_def split: if_splits)
    next
      case False
      have "reading V C w'" and "r = Inr () \<Longrightarrow> \<exists>its. ri = Inr its"
        using assms(1) Inr q rows False c items
        by (auto simp: ValidateChain_def run_check split: sum.splits)
      then show ?thesis using qr False items by blast
    qed
  qed
qed

end

section \<open>Properties\<close>

text \<open>
  C26. A chain that validates can be restored: when \<open>ValidateChain\<close> reports success, every snapshot
  from the full one to the target is committed and hangs on the one before it, and restoring each of
  them from the store as validation left it succeeds. Validation itself has changed neither the
  catalog nor the objects.
\<close>

theorem ValidateChain_sound:
  assumes "reliable_store S sha view I" and "I (wObj w)"
    and "run_state (ValidateChain S sha J v snapshotID) w = (Inr (), w')"
  shows "wCat w' = wCat w \<and> view (wObj w') = view (wObj w) \<and>
    (\<exists>rows now. q_ListSnapshotRestoreChain snapshotID now (wCat w) = Inr rows \<and> rows \<noteq> [] \<and>
       rc_ID (last rows) = snapshotID \<and>
       (\<forall>i < length rows. rc_Status (rows ! i) = SnapCommitted \<and>
          rc_ParentSnapshotID (rows ! i) = (if i = 0 then None else Some (rc_ID (rows ! (i - 1)))) \<and>
          (\<exists>key t out. rc_ManifestObjectKey (rows ! i) = Some key \<and>
             run_state (StreamSnapshot S sha J key full_writer) (wObj w', []) = (Inr (), (t, out)))))"
proof -
  note os = reliable_store.axioms(1) [OF assms(1)]
  have "object_store.reading view I (view (wObj w)) (wCat w) w"
    using assms(2) by (simp add: object_store.reading_def [OF os])
  from object_store.run_ValidateChain [OF os assms(3) this]
  obtain rows now where w': "I (wObj w')" "view (wObj w') = view (wObj w)" "wCat w' = wCat w"
    and q: "q_ListSnapshotRestoreChain snapshotID now (wCat w) = Inr rows" "rows \<noteq> []" "rc_ID (last rows) = snapshotID"
    and valid: "chain_valid sha J (view (wObj w)) None rows"
    by (auto simp: object_store.reading_def [OF os])
  have "rc_Status (rows ! i) = SnapCommitted \<and>
      rc_ParentSnapshotID (rows ! i) = (if i = 0 then None else Some (rc_ID (rows ! (i - 1)))) \<and>
      (\<exists>key t out. rc_ManifestObjectKey (rows ! i) = Some key \<and>
         run_state (StreamSnapshot S sha J key full_writer) (wObj w', []) = (Inr (), (t, out)))"
    if "i < length rows" for i
    using chain_valid_nth [OF valid that] reliable_store.restorable_streams [OF assms(1) w'(1)] w'(2)
    by (metis option.map_disc_iff)
  then show ?thesis using w' q by blast
qed

text \<open>The snapshot's row and its status in the mode of a run.\<close>

definition mode_status :: "bool \<Rightarrow> Snapshot \<Rightarrow> validation_status" where
  "mode_status fullChain s = (if fullChain then sn_ChainValidationStatus s else sn_StreamValidationStatus s)"

definition set_mode_status :: "bool \<Rightarrow> validation_status \<Rightarrow> Snapshot \<Rightarrow> Snapshot" where
  "set_mode_status fullChain v s =
     (if fullChain then s\<lparr>sn_ChainValidationStatus := v\<rparr> else s\<lparr>sn_StreamValidationStatus := v\<rparr>)"

lemma run_set_status:
  assumes "run_state (updateSnapshotValidationModeStatus i b v) w = (Inr u, w')"
  shows "snapshots (wCat w') = update_where (\<lambda>s. sn_ID s = i) (set_mode_status b v) (snapshots (wCat w))"
  using assms
  by (cases b) (auto simp: updateSnapshotValidationModeStatus_def q_UpdateSnapshotChainValidationStatus_def
      q_UpdateSnapshotStreamValidationStatus_def update_snapshots_def set_mode_status_def update_where_def
      dest!: run_db_exec_Inr)

lemma validation_same_snapshots [frame_rules]:
  "stmt_same snapshots (q_CreateValidationJob a1 a2 a3 a4 a5)" "stmt_same snapshots (q_CreateValidationOperation b1 b2 b3 b4)"
  "stmt_same snapshots (q_FailValidationJob c1 c2)" "stmt_same snapshots (q_CompleteValidationJob c1 c2)"
  "stmt_same snapshots (q_UpdateOperationStatus d1 d2 d3 d4)"
  by (auto simp: stmt_same_def q_CreateValidationJob_def q_CreateValidationOperation_def q_FailValidationJob_def
      q_CompleteValidationJob_def finish_job_def q_UpdateOperationStatus_def update_operations_def split: if_splits)

lemma same_snapshots_exec:
  "stmt_same snapshots f \<Longrightarrow> run_state (db_exec f) w = (r, w') \<Longrightarrow> snapshots (wCat w') = snapshots (wCat w)"
  by (rule frameD [OF same_part_db_exec])

text \<open>What a transaction leaves of the snapshots: all as they were, or the target's status set.\<close>

definition status_tx :: "string \<Rightarrow> bool \<Rightarrow> validation_status \<Rightarrow> error + unit \<Rightarrow> 's world \<Rightarrow> 's world \<Rightarrow> bool" where
  "status_tx i b v r w w' \<longleftrightarrow>
     snapshots (wCat w') = (case r of
       Inl e \<Rightarrow> snapshots (wCat w)
     | Inr _ \<Rightarrow> update_where (\<lambda>s. sn_ID s = i) (set_mode_status b v) (snapshots (wCat w)))"

lemma status_tx_begin:
  assumes "run_state (begin_validation a c d i b) w = (r, w')"
  shows "status_tx i b ValRunning r w w'"
  using assms unfolding begin_validation_def
proof (cases rule: run_withTx_cases)
  case (committed x w1)
  obtain u1 u2 u3 w2 w3 where
    a: "run_state (db_exec (q_CreateValidationJob a (Some i) (if b then RestoreCheck else StreamCheck) d
          (Some (msg ''validation running'')))) (tick w) = (Inr u1, w2)"
    and b: "run_state (db_exec (q_CreateValidationOperation c (Some i) (Some a)
          (Some (msg ''validation running'')))) w2 = (Inr u2, w3)"
    and u: "run_state (updateSnapshotValidationModeStatus i b ValRunning) w3 = (Inr u3, w1)"
    using committed(1) by (elim run_check_throw_Inr) auto
  show ?thesis
    using same_snapshots_exec [OF validation_same_snapshots(1) a] same_snapshots_exec [OF validation_same_snapshots(2) b]
      run_set_status [OF u] by (simp add: committed status_tx_def)
qed (auto simp: status_tx_def)

lemma status_tx_fail:
  assumes "run_state (fail_validation a c i b summary) w = (r, w')"
  shows "status_tx i b ValFailed r w w'"
  using assms unfolding fail_validation_def
proof (cases rule: run_withTx_cases)
  case (committed x w1)
  obtain u1 u2 w2 w3 where
    a: "run_state (db_exec (q_FailValidationJob (Some summary) a)) (tick w) = (Inr u1, w2)"
    and u: "run_state (updateSnapshotValidationModeStatus i b ValFailed) w2 = (Inr u2, w3)"
    and c: "run_state (db_exec (q_UpdateOperationStatus OpFailed (Some (msg ''validation failed''))
          (Some summary) c)) w3 = (Inr x, w1)"
    using committed(1) by (elim run_check_throw_Inr) auto
  show ?thesis
    using same_snapshots_exec [OF validation_same_snapshots(3) a] same_snapshots_exec [OF validation_same_snapshots(5) c]
      run_set_status [OF u] by (simp add: committed status_tx_def)
qed (auto simp: status_tx_def)

lemma status_tx_complete:
  assumes "run_state (complete_validation a c i b) w = (r, w')"
  shows "status_tx i b ValSucceeded r w w'"
  using assms unfolding complete_validation_def Let_def
proof (cases rule: run_withTx_cases)
  case (committed x w1)
  obtain sum u1 u2 u3 w2 w3 where
    a: "run_state (db_exec (q_CompleteValidationJob sum a)) (tick w) = (Inr u1, w2)"
    and u: "run_state (updateSnapshotValidationModeStatus i b ValSucceeded) w2 = (Inr u2, w3)"
    and c: "run_state (db_exec (q_UpdateOperationStatus OpSucceeded sum None c)) w3 = (Inr u3, w1)"
    using committed(1) by (elim run_check_throw_Inr) auto
  show ?thesis
    using same_snapshots_exec [OF validation_same_snapshots(4) a] same_snapshots_exec [OF validation_same_snapshots(5) c]
      run_set_status [OF u] by (simp add: committed status_tx_def)
qed (auto simp: status_tx_def)

lemma update_set_mode_status:
  "update_where (\<lambda>s. sn_ID s = i) (set_mode_status b v) (update_where (\<lambda>s. sn_ID s = i) (set_mode_status b u) rows) =
   update_where (\<lambda>s. sn_ID s = i) (set_mode_status b v) rows"
  by (auto simp: update_where_def set_mode_status_def)

text \<open>The validation itself leaves the catalog alone.\<close>

lemma validation_reads [frame_rules]:
  "frame (\<lambda>w w'. wCat w' = wCat w) (verify_chunks S name rows)"
  "frame (\<lambda>w w'. wCat w' = wCat w) (verifyManifestAndObjects S J i name key)"
  "frame (\<lambda>w w'. wCat w' = wCat w) (write_chunks S sha lim chunks tot out)"
  "frame (\<lambda>w w'. wCat w' = wCat w) (writeManifestStream S sha lim m)"
proof -
  show chunks: "frame (\<lambda>w w'. wCat w' = wCat w) (verify_chunks S name rows)" for rows
  proof (induction rows)
    case (Cons p rows)
    then show ?case by (cases p) (auto simp: verifyChunkMetadata_def intro!: frame_rules)
  qed (auto intro!: frame_rules)
  show "frame (\<lambda>w w'. wCat w' = wCat w) (verifyManifestAndObjects S J i name key)"
    unfolding verifyManifestAndObjects_def by (intro frame_rules chunks)
  show writes: "frame (\<lambda>w w'. wCat w' = wCat w) (write_chunks S sha lim chunks tot out)" for lim chunks tot out
    by (induction chunks arbitrary: tot out) (auto simp only: write_chunks.simps intro!: frame_rules)
  show "frame (\<lambda>w w'. wCat w' = wCat w) (writeManifestStream S sha lim m)"
    unfolding writeManifestStream_def by (intro frame_rules writes)
qed

lemma checkStream_cat [frame_rules]: "frame (\<lambda>w w'. wCat w' = wCat w) (checkStream S sha checker key m)"
proof (rule frameI)
  fix w r w'
  assume "run_state (checkStream S sha checker key m) w = (r, w')"
  then obtain lim out where "run_state (writeManifestStream S sha lim m) w = (out, w')"
    by (auto simp: checkStream_def Let_def split: prod.splits if_splits)
  then show "wCat w' = wCat w" by (rule frameD [OF validation_reads(4)])
qed

lemma validate_cat [frame_rules]:
  "frame (\<lambda>w w'. wCat w' = wCat w) (chain_items S sha J checker previous rows)"
  "frame (\<lambda>w w'. wCat w' = wCat w) (ValidateChain S sha J v i)"
  "frame (\<lambda>w w'. wCat w' = wCat w) (ValidateSnapshot S sha J v i)"
proof -
  show items: "frame (\<lambda>w w'. wCat w' = wCat w) (chain_items S sha J checker previous rows)" for checker previous rows
    by (induction rows arbitrary: previous) (auto simp only: chain_items.simps intro!: frame_rules)
  show "frame (\<lambda>w w'. wCat w' = wCat w) (ValidateChain S sha J v i)"
    unfolding ValidateChain_def by (intro frame_rules items)
  show "frame (\<lambda>w w'. wCat w' = wCat w) (ValidateSnapshot S sha J v i)"
    unfolding ValidateSnapshot_def validate_row_def by (intro frame_rules)
qed

text \<open>C27. Whatever happens during a run, it touches the target's status in its own mode only: a run
  that reports success has had its validator return without error, and has recorded it; after a run
  that reports an error no status has become \<open>succeeded\<close>, it is what it was, running (until the
  reconciliation) or failed.\<close>

theorem runOneMode_status:
  assumes "run_state (runOneMode S sha J r snapshotID fullChain) w = (res, w')"
  shows "case res of
     Inr _ \<Rightarrow>
       snapshots (wCat w') = update_where (\<lambda>s. sn_ID s = snapshotID) (set_mode_status fullChain ValSucceeded) (snapshots (wCat w)) \<and>
       (\<exists>w1 w2. wCat w2 = wCat w1 \<and>
          snapshots (wCat w1) = update_where (\<lambda>s. sn_ID s = snapshotID) (set_mode_status fullChain ValRunning) (snapshots (wCat w)) \<and>
          run_state ((if fullChain then ValidateChain else ValidateSnapshot) S sha J
            \<lparr>v_DB = True, v_Store = rn_Store r, v_Checker = rn_Checker r\<rparr> snapshotID) w1 = (Inr (), w2))
   | Inl e \<Rightarrow>
       snapshots (wCat w') = snapshots (wCat w) \<or>
       (\<exists>st \<in> {ValRunning, ValFailed}.
          snapshots (wCat w') = update_where (\<lambda>s. sn_ID s = snapshotID) (set_mode_status fullChain st) (snapshots (wCat w)))"
proof -
  let ?set = "\<lambda>st. update_where (\<lambda>s. sn_ID s = snapshotID) (set_mode_status fullChain st)"
  let ?v = "(if fullChain then ValidateChain else ValidateSnapshot) S sha J
      \<lparr>v_DB = True, v_Store = rn_Store r, v_Checker = rn_Checker r\<rparr> snapshotID"
  obtain jobID w0 where n1: "run_state (NewID ''val'') w = (jobID, w0)" by (rule prod.exhaust)
  obtain operationID w1 where n2: "run_state (NewID ''op'') w0 = (operationID, w1)" by (rule prod.exhaust)
  have c1: "wCat w1 = wCat w" using frameD [OF cat_NewID n1] frameD [OF cat_NewID n2] by simp
  obtain rb w2 where b: "run_state (begin_validation jobID operationID (rn_Executor r) snapshotID fullChain) w1 = (rb, w2)"
    by (rule prod.exhaust)
  have run: "run_state (check (begin_validation jobID operationID (rn_Executor r) snapshotID fullChain) throw (\<lambda>_.
      check ?v (\<lambda>e. State_Monad.bind (fail_validation jobID operationID snapshotID fullChain (error_text e)) (\<lambda>_. throw e))
        (\<lambda>_. complete_validation jobID operationID snapshotID fullChain))) w1 = (res, w')"
    using assms n1 n2 by (cases fullChain) (simp_all add: runOneMode_def)
  show ?thesis
  proof (cases rb)
    case (Inl e)
    then show ?thesis using run b status_tx_begin [OF b] c1 by (auto simp: run_check status_tx_def)
  next
    case (Inr u)
    have c2: "snapshots (wCat w2) = ?set ValRunning (snapshots (wCat w))"
      using status_tx_begin [OF b] c1 Inr by (simp add: status_tx_def)
    obtain rv w3 where val: "run_state ?v w2 = (rv, w3)" by (rule prod.exhaust)
    have "frame (\<lambda>w w'. wCat w' = wCat w) ?v" by (cases fullChain) (simp_all add: validate_cat)
    then have c3: "wCat w3 = wCat w2" using val by (rule frameD)
    show ?thesis
    proof (cases rv)
      case fails: (Inl e)
      obtain rf w4 where f: "run_state (fail_validation jobID operationID snapshotID fullChain (error_text e)) w3 = (rf, w4)"
        by (rule prod.exhaust)
      have "res = Inl e \<and> w' = w4" using run b val f Inr fails by (simp add: run_check)
      then show ?thesis
        using status_tx_fail [OF f] c2 c3 update_set_mode_status by (cases rf) (auto simp: status_tx_def)
    next
      case passes: (Inr u)
      have "run_state (complete_validation jobID operationID snapshotID fullChain) w3 = (res, w')"
        using run b val Inr passes by (simp add: run_check)
      note fin = status_tx_complete [OF this]
      have "run_state ?v w2 = (Inr (), w3)" using val passes by simp
      with c2 c3 have "\<exists>w1 w2. wCat w2 = wCat w1 \<and> snapshots (wCat w1) = ?set ValRunning (snapshots (wCat w)) \<and>
          run_state ?v w1 = (Inr (), w2)" by blast
      then show ?thesis
        using fin c2 c3 by (cases res) (simp_all add: status_tx_def update_set_mode_status)
    qed
  qed
qed

text \<open>
  C28. A reconciliation that reports success has left no validation job running that was started
  before the cutoff, counts the jobs it failed, and no snapshot with such a job of a mode still says
  that a validation of that mode is running.
\<close>

theorem ReconcileStaleJobs_result:
  assumes "run_state (ReconcileStaleJobs cutoff) w = (Inr n, w')"
  shows "n = int (length (filter (stale_job cutoff) (validation_jobs (wCat w)))) \<and>
    (\<forall>v \<in> set (validation_jobs (wCat w')). \<not> stale_job cutoff v) \<and>
    (\<forall>s \<in> set (snapshots (wCat w')).
       (stale_snapshot StreamCheck cutoff (wCat w) s \<longrightarrow> sn_StreamValidationStatus s \<noteq> ValRunning) \<and>
       (stale_snapshot RestoreCheck cutoff (wCat w) s \<longrightarrow> sn_ChainValidationStatus s \<noteq> ValRunning))"
proof -
  obtain u1 u2 u3 u4 w1 w2 w3 where
    a: "run_state (db_exec (q_fail_stale_streams cutoff)) w = (Inr u1, w1)"
    and b: "run_state (db_exec (q_fail_stale_chains cutoff)) w1 = (Inr u2, w2)"
    and c: "run_state (db_exec (q_fail_stale_jobs cutoff)) w2 = (Inr u3, w3)"
    and d: "run_state (db_exec (q_fail_stale_operations cutoff)) w3 = (Inr u4, w')"
    and n: "n = int (length (filter (stale_job cutoff) (validation_jobs (wCat w2))))"
    using assms unfolding ReconcileStaleJobs_def
    by (elim run_check_throw_Inr) (auto simp: the_catalog_def Let_def elim!: run_check_throw_Inr)
  have c1: "wCat w1 = (wCat w)\<lparr>snapshots := update_where
      (\<lambda>s. sn_StreamValidationStatus s = ValRunning \<and> stale_snapshot StreamCheck cutoff (wCat w) s)
      (\<lambda>s. s\<lparr>sn_StreamValidationStatus := ValFailed\<rparr>) (snapshots (wCat w))\<rparr>"
    using run_db_exec_Inr [OF a] by (auto simp: q_fail_stale_streams_def update_snapshots_def)
  have c2: "wCat w2 = (wCat w1)\<lparr>snapshots := update_where
      (\<lambda>s. sn_ChainValidationStatus s = ValRunning \<and> stale_snapshot RestoreCheck cutoff (wCat w1) s)
      (\<lambda>s. s\<lparr>sn_ChainValidationStatus := ValFailed\<rparr>) (snapshots (wCat w1))\<rparr>"
    using run_db_exec_Inr [OF b] by (auto simp: q_fail_stale_chains_def update_snapshots_def)
  obtain now where c3: "wCat w3 = (wCat w2)\<lparr>validation_jobs := update_where (stale_job cutoff)
       (\<lambda>v. v\<lparr>vj_Status := JobFailed, vj_CompletedAt := Some now,
              vj_ResultSummary := Some (msg ''validation job failed by startup reconciliation'')\<rparr>)
       (validation_jobs (wCat w2))\<rparr>"
    using run_db_exec_Inr [OF c] by (auto simp: q_fail_stale_jobs_def)
  have c4: "snapshots (wCat w') = snapshots (wCat w3)" "validation_jobs (wCat w') = validation_jobs (wCat w3)"
    using run_db_exec_Inr [OF d] by (auto simp: q_fail_stale_operations_def update_operations_def)
  have "\<not> stale_job cutoff v" if "v \<in> set (validation_jobs (wCat w'))" for v
    using that unfolding c4 c3 by (auto simp: update_where_def stale_job_def)
  moreover have "(stale_snapshot StreamCheck cutoff (wCat w) s \<longrightarrow> sn_StreamValidationStatus s \<noteq> ValRunning) \<and>
       (stale_snapshot RestoreCheck cutoff (wCat w) s \<longrightarrow> sn_ChainValidationStatus s \<noteq> ValRunning)"
    if mem: "s \<in> set (snapshots (wCat w'))" for s
  proof -
    define f where "f = (\<lambda>s. if sn_StreamValidationStatus s = ValRunning \<and> stale_snapshot StreamCheck cutoff (wCat w) s
        then s\<lparr>sn_StreamValidationStatus := ValFailed\<rparr> else s)"
    define g where "g = (\<lambda>s. if sn_ChainValidationStatus s = ValRunning \<and> stale_snapshot RestoreCheck cutoff (wCat w1) s
        then s\<lparr>sn_ChainValidationStatus := ValFailed\<rparr> else s)"
    have "snapshots (wCat w') = map g (map f (snapshots (wCat w)))"
      by (simp add: c4 c3 c2 c1 update_where_def f_def g_def)
    then obtain s0 where s: "s = g (f s0)" using mem by auto
    have jobs: "stale_snapshot m cutoff (wCat w1) t = stale_snapshot m cutoff (wCat w) t" for m t
      by (simp add: c1 stale_snapshot_def)
    have same: "stale_snapshot m cutoff (wCat w) (f t) = stale_snapshot m cutoff (wCat w) t"
      "stale_snapshot m cutoff (wCat w) (g t) = stale_snapshot m cutoff (wCat w) t" for m t
      by (simp_all add: stale_snapshot_def f_def g_def)
    have "stale_snapshot m cutoff (wCat w) (t\<lparr>sn_StreamValidationStatus := v\<rparr>) = stale_snapshot m cutoff (wCat w) t"
      for m t v by (simp add: stale_snapshot_def)
    then show ?thesis unfolding s same by (simp add: jobs f_def g_def) blast
  qed
  ultimately show ?thesis using n c1 c2 by simp
qed

section \<open>The catalog invariant\<close>

lemma stale_statements_ok [statement_rules]:
  "stmt_ok (q_fail_stale_jobs cutoff)" "stmt_ok (q_fail_stale_operations cutoff)"
  "stmt_ok (q_fail_stale_streams cutoff)" "stmt_ok (q_fail_stale_chains cutoff)"
proof -
  show "stmt_ok (q_fail_stale_jobs cutoff)"
    by (auto simp: stmt_ok_def q_fail_stale_jobs_def invariant_defs update_where_simps)
  show "stmt_ok (q_fail_stale_operations cutoff)"
    unfolding q_fail_stale_operations_def [abs_def] by (rule update_operations_ok) simp_all
  have streams: "stmt_ok (\<lambda>now. update_snapshots p (\<lambda>s. s\<lparr>sn_StreamValidationStatus := ValFailed\<rparr>))" for p
    by (rule update_snapshots_ok) (simp_all add: for_deletion_def)
  have chains: "stmt_ok (\<lambda>now. update_snapshots p (\<lambda>s. s\<lparr>sn_ChainValidationStatus := ValFailed\<rparr>))" for p
    by (rule update_snapshots_ok) (simp_all add: for_deletion_def)
  show "stmt_ok (q_fail_stale_streams cutoff)"
    using streams unfolding stmt_ok_def q_fail_stale_streams_def by blast
  show "stmt_ok (q_fail_stale_chains cutoff)"
    using chains unfolding stmt_ok_def q_fail_stale_chains_def by blast
qed

lemma keeps_validation [frame_rules]:
  "keeps cat_ok (ValidateChain S sha J v i)" "keeps cat_ok (ValidateSnapshot S sha J v i)"
  using validate_cat(2) [of S sha J v i] validate_cat(3) [of S sha J v i] by (simp_all add: frame_def)

lemma keeps_status_update [frame_rules]: "keeps cat_ok (updateSnapshotValidationModeStatus i b v)"
  unfolding updateSnapshotValidationModeStatus_def by (intro frame_rules statement_rules)

lemma keeps_runs [frame_rules]: "keeps cat_ok (runOneMode S sha J r i b)" "keeps cat_ok (run_due_loop S sha J r is res)"
proof -
  show run: "keeps cat_ok (runOneMode S sha J r i b)" for i b
    unfolding runOneMode_def begin_validation_def fail_validation_def complete_validation_def
    by (intro frame_rules statement_rules)
  show "keeps cat_ok (run_due_loop S sha J r is res)"
    by (induction "is" arbitrary: res) (auto simp only: run_due_loop.simps intro!: frame_rules run)
qed

lemma keeps_RunDue [frame_rules]: "keeps cat_ok (RunDue S sha J z r lim)"
  unfolding RunDue_def by (intro frame_rules)

lemma keeps_ReconcileStaleJobs [frame_rules]: "keeps cat_ok (ReconcileStaleJobs cutoff)"
  unfolding ReconcileStaleJobs_def the_catalog_def by (intro frame_rules statement_rules) (simp add: frame_def)

section \<open>Witnesses\<close>

text \<open>One committed full snapshot of one chunk, and a checker that reads the whole stream.\<close>

definition checked_manifest :: Manifest where
  "checked_manifest =
     request_manifest (sample_request\<lparr>rq_Snapshot := ''s1'', rq_BaseSnapshot := []\<rparr>)
       (entries (\<lambda>_. ''c'') (\<lambda>d. d) 0 0 [[7, 8]]) 2 ''0708'' 4"

definition checked_json :: json where
  "checked_json = \<lparr>json_MarshalIndent = (\<lambda>m. Inr []), json_Unmarshal = (\<lambda>b. Inr checked_manifest)\<rparr>"

definition whole_checker :: checker where
  "whole_checker key data err =
     (length data, case err of Some e \<Rightarrow> Inl e | None \<Rightarrow> Inr \<lparr>sg_FromGUID = [], sg_ToGUID = ''0x2''\<rparr>)"

definition checked_world :: "memory world" where
  "checked_world = sample_world
     \<lparr>wCat := sample_catalog\<lparr>snapshot_chunks :=
        [\<lparr>ck_ID = ''k'', ck_SnapshotID = ''a'', ck_UploadSessionID = ''u'', ck_ChunkIndex = 0, ck_ObjectKey = ''c'',
          ck_SizeBytes = 2, ck_ZfsOffsetStart = 0, ck_ZfsOffsetEnd = 2, ck_Sha256 = ''0708'',
          ck_Status = ChunkVerified, ck_CreatedAt = 0, ck_CompletedAt = None\<rparr>]\<rparr>,
      wObj := Map.empty(''ms1'' \<mapsto> [], ''c'' \<mapsto> [7, 8])\<rparr>"

definition checked_runner :: Runner where
  "checked_runner = \<lparr>rn_Store = True, rn_Checker = Some whole_checker, rn_Executor = ''local''\<rparr>"

lemma checked_validation:
  "fst (run_state (ValidateChain (MemoryStore (\<lambda>d. d)) (\<lambda>d. d) checked_json
     \<lparr>v_DB = True, v_Store = True, v_Checker = Some whole_checker\<rparr> ''a'') checked_world) = Inr ()"
  by code_simp

lemma checked_run:
  "fst (run_state (runOneMode (MemoryStore (\<lambda>d. d)) (\<lambda>d. d) checked_json checked_runner ''a'' True) checked_world) = Inr ()"
  by code_simp

theorem ValidateChain_sound_witness:
  "\<exists>w' rows now key t out. run_state (ValidateChain (MemoryStore (\<lambda>d. d)) (\<lambda>d. d) checked_json
      \<lparr>v_DB = True, v_Store = True, v_Checker = Some whole_checker\<rparr> ''a'') checked_world = (Inr (), w') \<and>
    q_ListSnapshotRestoreChain ''a'' now (wCat checked_world) = Inr rows \<and> rc_ManifestObjectKey (rows ! 0) = Some key \<and>
    run_state (StreamSnapshot (MemoryStore (\<lambda>d. d)) (\<lambda>d. d) checked_json key full_writer) (wObj w', []) = (Inr (), (t, out))"
  using ValidateChain_sound [OF memory.reliable_store_axioms TrueI run_fst [OF checked_validation]]
    run_fst [OF checked_validation] by (metis length_greater_0_conv)

theorem runOneMode_status_witness:
  "\<exists>w'. run_state (runOneMode (MemoryStore (\<lambda>d. d)) (\<lambda>d. d) checked_json checked_runner ''a'' True) checked_world =
      (Inr (), w') \<and>
    snapshots (wCat w') = update_where (\<lambda>s. sn_ID s = ''a'') (set_mode_status True ValSucceeded) (snapshots (wCat checked_world))"
  using runOneMode_status [OF run_fst [OF checked_run]] run_fst [OF checked_run] by auto

text \<open>A job left running since time 1.\<close>

definition stale_world :: "memory world" where
  "stale_world = sample_world\<lparr>wCat := sample_catalog\<lparr>
     snapshots := [set_mode_status True ValRunning (sample_snapshot ''a'' ''s1'' None SnapCommitted)],
     validation_jobs := [\<lparr>vj_ID = ''v'', vj_SnapshotID = Some ''a'', vj_Type = RestoreCheck, vj_Executor = ''local'',
       vj_Status = JobRunning, vj_LogsObjectKey = None, vj_StartedAt = Some 1, vj_CompletedAt = None, vj_ResultSummary = None\<rparr>]\<rparr>\<rparr>"

lemma stale_reconcile: "fst (run_state (ReconcileStaleJobs 5) stale_world) = Inr 1"
  by code_simp

theorem ReconcileStaleJobs_result_witness:
  "\<exists>w'. run_state (ReconcileStaleJobs 5) stale_world = (Inr 1, w') \<and>
    (\<forall>v \<in> set (validation_jobs (wCat w')). \<not> stale_job 5 v)"
  using ReconcileStaleJobs_result [OF run_fst [OF stale_reconcile]] run_fst [OF stale_reconcile] by blast

end
