(* ===== verification/Commands.thy ===== *)
theory Commands
  imports Config Encrypted_Store Restore_Plan Catalog_Backup Validation
begin

text \<open>
  The command line (\<open>src/cmd/zfs-s3nd/main.go\<close>): the store every command works on, restoring to standard output and to
  \<open>zfs recv\<close>, the backup and the validation commands, and the choice of the command. \<open>serve\<close> is in \<open>Service\<close>.

  Parameters: the S3 client that \<open>LoadDefaultConfig\<close> and \<open>NewFromConfig\<close> make of a configuration, the cryptography, the
  random source, the \<open>zfs\<close> process, and the results of opening and migrating the database file.
\<close>

section \<open>The store\<close>

record S3Config =
  s3_Endpoint :: string
  s3_Region :: string
  s3_Bucket :: string
  s3_AccessKeyID :: string
  s3_SecretAccessKey :: string
  s3_ForcePathStyle :: bool

definition NewS3Store ::
  "(bytes \<Rightarrow> bytes) \<Rightarrow> (S3Config \<Rightarrow> error + 'c s3_client) \<Rightarrow> S3Config \<Rightarrow> error + 'c Store" where
  "NewS3Store sha connect cfg =
     (if s3_Bucket cfg = [] then Inl (Errorf (msg ''s3 bucket is required'') [])
      else let cfg = (if s3_Region cfg = [] then cfg\<lparr>s3_Region := ''us-east-1''\<rparr> else cfg) in
        case connect cfg of
          Inl e \<Rightarrow> Inl (Wrapf (msg ''load aws config: %w'') [] e)
        | Inr client \<Rightarrow> Inr (S3Store sha client (s3_Bucket cfg)))"

text \<open>
  The \<open>zfs recv\<close> process: what it answers may depend on what its predecessors received, so that the model does not
  have to know the target. \<open>zf_Wait\<close> is given the bytes the process got.
\<close>

type_synonym recv_log = "(string list \<times> bytes) list"

record zfs_env =
  zf_uid :: int
  zf_StdinPipe :: "error option"
  zf_Start :: "recv_log \<Rightarrow> string list \<Rightarrow> error option"
  zf_stdin :: "recv_log \<Rightarrow> writer"
  zf_Close :: "error option"
  zf_Wait :: "recv_log \<Rightarrow> string list \<Rightarrow> bytes \<Rightarrow> error option"

record 'c host =
  ho_crypto :: crypto
  ho_sha :: "bytes \<Rightarrow> bytes"
  ho_json :: json
  ho_connect :: "S3Config \<Rightarrow> error + 'c s3_client"
  ho_rand :: "nat \<Rightarrow> error + bytes"
  ho_zfs :: zfs_env
  ho_stdout :: writer
  ho_checker :: checker
  ho_encode :: "backup_Result \<Rightarrow> error + bytes"
  ho_backup :: backup_env
  ho_unrep :: "float64 \<Rightarrow> int"
  ho_Open :: "string \<Rightarrow> error option"
  ho_Migrate :: "error option"

definition configuredStore :: "'c host \<Rightarrow> Config \<Rightarrow> 'c \<Rightarrow> error + 'c EncryptedStore Store \<times> 'c EncryptedStore" where
  "configuredStore H cfg bucket =
     (if cf_S3Bucket cfg = []
      then Inl (Errorf (msg ''S3_BUCKET is required; durable object storage must be configured'') [])
      else case NewS3Store (ho_sha H) (ho_connect H)
          \<lparr>s3_Endpoint = S3Endpoint cfg, s3_Region = S3Region cfg, s3_Bucket = cf_S3Bucket cfg,
           s3_AccessKeyID = S3AccessKeyID cfg, s3_SecretAccessKey = S3SecretAccessKey cfg,
           s3_ForcePathStyle = S3ForcePathStyle cfg\<rparr> of
        Inl e \<Rightarrow> Inl e
      | Inr base \<Rightarrow>
          if StorageEncryptionPassphrase cfg = [] then Inl (Errorf (msg ''STORAGE_ENCRYPTION_KEY is required'') [])
          else case NewEncryptedStore (Some bucket) (StorageEncryptionPassphrase cfg) (ho_rand H) of
            Inl e \<Rightarrow> Inl e
          | Inr st \<Rightarrow> Inr (EncryptedStore (ho_crypto H) (ho_sha H) base, st))"

section \<open>A process\<close>

text \<open>
  The world of a process with its standard streams and what \<open>zfs recv\<close> was sent. Before the store is configured and
  after the process the objects are the bucket; while it runs they are the encrypting store around it.
\<close>

record 's process =
  pr_world :: "'s world"
  pr_stdout :: bytes
  pr_stderr :: string
  pr_received :: recv_log

definition move_process :: "'t \<Rightarrow> 's process \<Rightarrow> 't process" where
  "move_process objects p = (let w = pr_world p in
     \<lparr>pr_world = \<lparr>wCat = wCat w, wObj = objects, wTick = wTick w, wDbFault = wDbFault w, wCtxErr = wCtxErr w, wNow = wNow w,
        wRand = wRand w\<rparr>,
      pr_stdout = pr_stdout p, pr_stderr = pr_stderr p, pr_received = pr_received p\<rparr>)"

definition with_store ::
  "'c host \<Rightarrow> Config \<Rightarrow> ('c EncryptedStore Store \<Rightarrow> ('c EncryptedStore process, 'a) prog) \<Rightarrow> ('c process, 'a) prog" where
  "with_store H cfg k = State (\<lambda>p.
     case configuredStore H cfg (wObj (pr_world p)) of
       Inl e \<Rightarrow> (Inl e, p)
     | Inr (S, st) \<Rightarrow>
         (case run_state (k S) (move_process st p) of (r, q) \<Rightarrow> (r, move_process (es_base (wObj (pr_world q))) q)))"

definition in_process :: "('s world, 'a) state \<Rightarrow> ('s process, 'a) state" where
  "in_process m = State (\<lambda>p. case run_state m (pr_world p) of (r, w) \<Rightarrow> (r, p\<lparr>pr_world := w\<rparr>))"

definition os_Stderr :: "string \<Rightarrow> ('s process, unit) state" where
  "os_Stderr text = State (\<lambda>p. ((), p\<lparr>pr_stderr := pr_stderr p @ text\<rparr>))"

definition stream_to_stdout :: "'s Store \<Rightarrow> 'c host \<Rightarrow> string \<Rightarrow> ('s process, unit) prog" where
  "stream_to_stdout S H key = State (\<lambda>p.
     case run_state (StreamSnapshot S (ho_sha H) (ho_json H) key (ho_stdout H)) (wObj (pr_world p), pr_stdout p) of
       (r, (t, taken)) \<Rightarrow> (r, p\<lparr>pr_world := (pr_world p)\<lparr>wObj := t\<rparr>, pr_stdout := taken\<rparr>))"

section \<open>Restoring\<close>

definition restoreStream :: "'c host \<Rightarrow> Config \<Rightarrow> string \<Rightarrow> ('c process, unit) prog" where
  "restoreStream H cfg manifestKey = with_store H cfg (\<lambda>S. stream_to_stdout S H manifestKey)"

definition restore_planned :: "'s Store \<Rightarrow> 'c host \<Rightarrow> string \<Rightarrow> ('s process, unit) prog" where
  "restore_planned S H snapshotID =
     check (in_process (Build snapshotID)) throw (\<lambda>plan.
     case ValidateStreamable plan of
       Inl e \<Rightarrow> throw e
     | Inr _ \<Rightarrow>
         State_Monad.bind (os_Stderr (ParentRequirement plan)) (\<lambda>_.
         check (stream_to_stdout S H (plan_ManifestKey plan)) throw (\<lambda>_.
         State_Monad.bind (os_Stderr (CLINextRestore plan)) (\<lambda>_. ok ()))))"

definition restoreSnapshot :: "'c host \<Rightarrow> Config \<Rightarrow> string \<Rightarrow> ('c process, unit) prog" where
  "restoreSnapshot H cfg snapshotID = with_store H cfg (\<lambda>S. restore_planned S H snapshotID)"

definition recv_command :: "zfs_env \<Rightarrow> string \<Rightarrow> string list" where
  "recv_command z target =
     (if zf_uid z \<noteq> 0 then [''sudo'', ''-n'', ''zfs'', ''recv'', ''-F'', target] else [''zfs'', ''recv'', ''-F'', target])"

text \<open>The errors in the order of their precedence: of the stream, of closing the pipe, of the process.\<close>

definition receiveManifestToZFS :: "'s Store \<Rightarrow> 'c host \<Rightarrow> string \<Rightarrow> string \<Rightarrow> ('s process, unit) prog" where
  "receiveManifestToZFS S H manifestKey target = State (\<lambda>p.
     let z = ho_zfs H; recvd = pr_received p; command = recv_command z target in
     case zf_StdinPipe z of
       Some e \<Rightarrow> (Inl e, p)
     | None \<Rightarrow>
     (case zf_Start z recvd command of
       Some e \<Rightarrow> (Inl e, p)
     | None \<Rightarrow>
     (case run_state (StreamSnapshot S (ho_sha H) (ho_json H) manifestKey (zf_stdin z recvd)) (wObj (pr_world p), []) of
       (streamErr, (t, taken)) \<Rightarrow>
         (case streamErr of
            Inl e \<Rightarrow> Inl e
          | Inr _ \<Rightarrow> (case zf_Close z of
              Some e \<Rightarrow> Inl e
            | None \<Rightarrow> (case zf_Wait z recvd command taken of Some e \<Rightarrow> Inl e | None \<Rightarrow> Inr ())),
          p\<lparr>pr_world := (pr_world p)\<lparr>wObj := t\<rparr>, pr_received := recvd @ [(command, taken)]\<rparr>))))"

fun receive_chain :: "'s Store \<Rightarrow> 'c host \<Rightarrow> string \<Rightarrow> ListSnapshotRestoreChainRow list \<Rightarrow> ('s process, unit) prog" where
  "receive_chain S H target [] = ok ()"
| "receive_chain S H target (item # items) =
     (case rc_ManifestObjectKey item of
        Some key \<Rightarrow>
          if rc_Status item \<noteq> SnapCommitted \<or> key = []
          then throw (Errorf (msg ''snapshot %s is not committed or has no manifest'') [rc_Name item])
          else check (receiveManifestToZFS S H key target) throw (\<lambda>_. receive_chain S H target items)
      | None \<Rightarrow> throw (Errorf (msg ''snapshot %s is not committed or has no manifest'') [rc_Name item]))"

definition restore_chain_to :: "'s Store \<Rightarrow> 'c host \<Rightarrow> string \<Rightarrow> string \<Rightarrow> ('s process, unit) prog" where
  "restore_chain_to S H snapshotID target =
     check (in_process (db_query (q_ListSnapshotRestoreChain snapshotID))) throw (\<lambda>chain.
     if chain = [] then throw (Errorf (msg ''snapshot %s not found'') [snapshotID])
     else receive_chain S H target chain)"

definition restoreSnapshotChainTo :: "'c host \<Rightarrow> Config \<Rightarrow> string \<Rightarrow> string \<Rightarrow> ('c process, unit) prog" where
  "restoreSnapshotChainTo H cfg snapshotID target = with_store H cfg (\<lambda>S. restore_chain_to S H snapshotID target)"

section \<open>The other commands\<close>

definition the_runner :: "'c host \<Rightarrow> Runner" where
  "the_runner H = \<lparr>rn_Store = True, rn_Checker = Some (ho_checker H), rn_Executor = ''local''\<rparr>"

definition the_backup :: "Config \<Rightarrow> BackupRunner" where
  "the_backup cfg =
     \<lparr>br_Catalog = True, br_Repo = True, br_Store = True, br_Keys = \<lparr>RootPrefix = StorageRootPrefix cfg\<rparr>, br_TempDir = [],
      br_Retention = 0\<rparr>"

definition backupSQLite :: "'c host \<Rightarrow> Config \<Rightarrow> ('c process, unit) prog" where
  "backupSQLite H cfg = with_store H cfg (\<lambda>S.
     check (in_process (backup_Run S (ho_sha H) (ho_encode H) (ho_backup H) (the_backup cfg))) throw (\<lambda>_. ok ()))"

definition validateChain :: "'c host \<Rightarrow> Config \<Rightarrow> string \<Rightarrow> ('c process, unit) prog" where
  "validateChain H cfg snapshotID = with_store H cfg (\<lambda>S.
     in_process (ValidateChain S (ho_sha H) (ho_json H) \<lparr>v_DB = True, v_Store = True, v_Checker = Some (ho_checker H)\<rparr> snapshotID))"

definition validateDue :: "'c host \<Rightarrow> Config \<Rightarrow> ('c process, unit) prog" where
  "validateDue H cfg = with_store H cfg (\<lambda>S.
     check (in_process (RunDue S (ho_sha H) (ho_json H) (ho_checker H) (the_runner H) (ValidationLimit cfg))) throw (\<lambda>_. ok ()))"

section \<open>The choice of the command\<close>

definition with_catalog :: "'c host \<Rightarrow> Config \<Rightarrow> ('s, unit) prog \<Rightarrow> ('s, unit) prog" where
  "with_catalog H cfg k =
     (case ho_Open H (DatabasePath cfg) of
        Some e \<Rightarrow> throw e
      | None \<Rightarrow> (case ho_Migrate H of Some e \<Rightarrow> throw e | None \<Rightarrow> k))"

text \<open>\<open>serve\<close> is what the server does once its store is configured.\<close>

definition main_run ::
  "'c host \<Rightarrow> (Config \<Rightarrow> 'c EncryptedStore Store \<Rightarrow> ('c EncryptedStore process, unit) prog) \<Rightarrow> environment \<Rightarrow> string list \<Rightarrow>
   ('c process, unit) prog" where
  "main_run H serve env args =
     (case config_Load (ho_unrep H) env of
        Inl e \<Rightarrow> throw e
      | Inr cfg \<Rightarrow>
          (case args of
             [] \<Rightarrow> with_catalog H cfg (with_store H cfg (serve cfg))
           | command # rest \<Rightarrow>
               if command = ''restore-stream'' then
                 (if length args \<noteq> 2 then throw (Errorf (msg ''usage: zfs-s3nd restore-stream <manifest-key|snapshot-id>'') [])
                  else if HasPrefix (args ! 1) ''snap_'' then with_catalog H cfg (restoreSnapshot H cfg (args ! 1))
                  else restoreStream H cfg (args ! 1))
               else if command = ''restore-chain-to'' then
                 (if length args \<noteq> 3 then throw (Errorf (msg ''usage: zfs-s3nd restore-chain-to <snapshot-id> <zfs-target>'') [])
                  else with_catalog H cfg (restoreSnapshotChainTo H cfg (args ! 1) (args ! 2)))
               else with_catalog H cfg
                 (if command = ''serve'' then with_store H cfg (serve cfg)
                  else if command = ''backup-sqlite'' then backupSQLite H cfg
                  else if command = ''validate-due'' then validateDue H cfg
                  else if command = ''validate-chain'' then
                    (if length args \<noteq> 2 then throw (Errorf (msg ''usage: zfs-s3nd validate-chain <snapshot-id>'') [])
                     else validateChain H cfg (args ! 1))
                  else throw (Errorf (msg ''unknown command %q'') [command]))))"

section \<open>What the target receives\<close>

text \<open>A stream is verified when it is the concatenation of chunks that match the manifest and has the hash the manifest has.\<close>

definition verified_stream :: "(bytes \<Rightarrow> bytes) \<Rightarrow> json \<Rightarrow> (string \<Rightarrow> bytes option) \<Rightarrow> string \<Rightarrow> bytes \<Rightarrow> bool" where
  "verified_stream sha J objs key d \<longleftrightarrow>
     (\<exists>mb m ds. objs key = Some mb \<and> manifest_Unmarshal J mb = Inr m \<and>
        list_all2 (\<lambda>chunk b. matches sha chunk b \<and> objs (ch_ObjectKey chunk) = Some b) (m_Chunks m) ds \<and>
        d = concat ds \<and> sha_hex sha d = st_SHA256 (m_Stream m))"

definition row_stream ::
  "(bytes \<Rightarrow> bytes) \<Rightarrow> json \<Rightarrow> (string \<Rightarrow> bytes option) \<Rightarrow> ListSnapshotRestoreChainRow \<Rightarrow> bytes \<Rightarrow> bool" where
  "row_stream sha J objs row d \<longleftrightarrow>
     rc_Status row = SnapCommitted \<and> (\<exists>key. rc_ManifestObjectKey row = Some key \<and> verified_stream sha J objs key d)"

definition recv_accepted :: "zfs_env \<Rightarrow> recv_log \<Rightarrow> string list \<times> bytes \<Rightarrow> bool" where
  "recv_accepted z recvd e \<longleftrightarrow> zf_Start z recvd (fst e) = None \<and> zf_Close z = None \<and> zf_Wait z recvd (fst e) (snd e) = None"

context object_store
begin

lemma StreamSnapshot_complete:
  assumes "inv s" and "writer_ok out" and "run_state (StreamSnapshot S sha J key out) (s, []) = (r, (t, d))"
  shows "inv t \<and> view t = view s \<and> (r = Inr () \<longrightarrow> verified_stream sha J (view s) key d)"
proof -
  have "stream_post J key s r (t, d)" using wpD [OF wp_StreamSnapshot [OF assms(1,2)] assms(3)] .
  then show ?thesis
    unfolding stream_post_def verified_stream_def promised_def [abs_def] by auto
qed

definition same_process :: "'s process \<Rightarrow> 's process \<Rightarrow> bool" where
  "same_process p q \<longleftrightarrow> inv (wObj (pr_world q)) \<and> view (wObj (pr_world q)) = view (wObj (pr_world p)) \<and>
     wCat (pr_world q) = wCat (pr_world p)"

text \<open>One receive: what it adds to the log, and when it succeeds.\<close>

lemma receive_one:
  assumes "inv (wObj (pr_world p))" and "\<And>recvd. writer_ok (zf_stdin (ho_zfs H) recvd)" and "ho_sha H = sha"
    and "run_state (receiveManifestToZFS S H key target) p = (r, q)"
  shows "same_process p q \<and> (\<exists>d. pr_received q = pr_received p @ [(recv_command (ho_zfs H) target, d)] \<or> r \<noteq> Inr () \<and> pr_received q = pr_received p) \<and>
    (r = Inr () \<longrightarrow> (\<exists>d. pr_received q = pr_received p @ [(recv_command (ho_zfs H) target, d)] \<and>
      verified_stream sha (ho_json H) (view (wObj (pr_world p))) key d \<and>
      recv_accepted (ho_zfs H) (pr_received p) (recv_command (ho_zfs H) target, d)))"
proof -
  obtain x t d where str: "run_state (StreamSnapshot S sha (ho_json H) key (zf_stdin (ho_zfs H) (pr_received p)))
      (wObj (pr_world p), []) = (x, (t, d))" by (metis prod.exhaust)
  have post: "inv t \<and> view t = view (wObj (pr_world p)) \<and>
      (x = Inr () \<longrightarrow> verified_stream sha (ho_json H) (view (wObj (pr_world p))) key d)"
    by (rule StreamSnapshot_complete [OF assms(1,2) str])
  show ?thesis
    using assms(1,3,4) str post
    by (auto simp: receiveManifestToZFS_def Let_def same_process_def recv_accepted_def
        split: option.split_asm sum.split_asm)
qed

text \<open>
  The loop. Whatever the outcome, only a prefix of the chain is sent, in its order, and all streams but the last of them
  were verified and accepted; if it succeeds, all were.
\<close>

definition chain_sent ::
  "json \<Rightarrow> zfs_env \<Rightarrow> string list \<Rightarrow> ListSnapshotRestoreChainRow list \<Rightarrow> 's process \<Rightarrow> error + unit \<Rightarrow> 's process \<Rightarrow> bool" where
  "chain_sent J z command rows p r q \<longleftrightarrow> same_process p q \<and>
     (\<exists>ds. pr_received q = pr_received p @ map (Pair command) ds \<and> length ds \<le> length rows \<and>
        (r = Inr () \<longrightarrow> length ds = length rows) \<and>
        (\<forall>k < (if r = Inr () then length ds else length ds - 1). row_stream sha J (view (wObj (pr_world p))) (rows ! k) (ds ! k) \<and>
           recv_accepted z (pr_received p @ map (Pair command) (take k ds)) (command, ds ! k)))"

lemma chain_sent_stop:
  assumes "same_process p q" and "r \<noteq> Inr ()" and "pr_received q = pr_received p \<or> (\<exists>d. pr_received q = pr_received p @ [(command, d)])"
  shows "chain_sent J z command (row # rows) p r q"
proof -
  consider "pr_received q = pr_received p" | d where "pr_received q = pr_received p @ [(command, d)]" using assms(3) by blast
  then show ?thesis
  proof cases
    case 1
    then show ?thesis using assms(1,2) unfolding chain_sent_def by (intro conjI exI [of _ "[]"]) auto
  next
    case 2
    then show ?thesis using assms(1,2) unfolding chain_sent_def by (intro conjI exI [of _ "[d]"]) auto
  qed
qed

lemma chain_sent_step:
  assumes "same_process p q" and "pr_received q = pr_received p @ [(command, d)]"
    and "row_stream sha J (view (wObj (pr_world p))) row d" and "recv_accepted z (pr_received p) (command, d)"
    and "chain_sent J z command rows q r q'"
  shows "chain_sent J z command (row # rows) p r q'"
proof -
  from assms(5) obtain ds where same: "same_process q q'"
    and ds: "pr_received q' = pr_received q @ map (Pair command) ds" "length ds \<le> length rows" "r = Inr () \<longrightarrow> length ds = length rows"
    and each: "\<And>k. k < (if r = Inr () then length ds else length ds - 1) \<Longrightarrow>
      row_stream sha J (view (wObj (pr_world q))) (rows ! k) (ds ! k) \<and>
      recv_accepted z (pr_received q @ map (Pair command) (take k ds)) (command, ds ! k)"
    unfolding chain_sent_def by blast
  have "row_stream sha J (view (wObj (pr_world p))) ((row # rows) ! k) ((d # ds) ! k) \<and>
      recv_accepted z (pr_received p @ map (Pair command) (take k (d # ds))) (command, (d # ds) ! k)"
    if "k < (if r = Inr () then length (d # ds) else length (d # ds) - 1)" for k
  proof (cases k)
    case (Suc j)
    then have "j < (if r = Inr () then length ds else length ds - 1)" using that by (auto split: if_splits)
    from each [OF this] show ?thesis using Suc assms(1,2) by (simp add: same_process_def)
  qed (use assms(3,4) in simp)
  moreover have "same_process p q'" using assms(1) same by (simp add: same_process_def)
  ultimately show ?thesis
    unfolding chain_sent_def using ds assms(2) by (intro conjI exI [of _ "d # ds"]) auto
qed

lemma receive_chain_sent:
  assumes "inv (wObj (pr_world p))" and "\<And>recvd. writer_ok (zf_stdin (ho_zfs H) recvd)" and "ho_sha H = sha"
    and "run_state (receive_chain S H target rows) p = (r, q)"
  shows "chain_sent (ho_json H) (ho_zfs H) (recv_command (ho_zfs H) target) rows p r q"
  using assms(1,4)
proof (induction rows arbitrary: p)
  case Nil
  then show ?case by (auto simp: chain_sent_def same_process_def)
next
  case (Cons row rows)
  let ?bad = "\<lambda>key. rc_Status row \<noteq> SnapCommitted \<or> key = []"
  show ?case
  proof (cases "\<exists>key. rc_ManifestObjectKey row = Some key \<and> \<not> ?bad key")
    case False
    then have "q = p \<and> r \<noteq> Inr ()" using Cons.prems(2) by (auto split: option.splits if_splits)
    then show ?thesis using Cons.prems(1) by (intro chain_sent_stop) (auto simp: same_process_def)
  next
    case True
    then obtain key where key: "rc_ManifestObjectKey row = Some key" "\<not> ?bad key" by blast
    obtain x q1 where one: "run_state (receiveManifestToZFS S H key target) p = (x, q1)" by fastforce
    note post = receive_one [OF Cons.prems(1) assms(2,3) one]
    show ?thesis
    proof (cases x)
      case (Inl e)
      then have "q = q1 \<and> r = Inl e" using Cons.prems(2) key one by (simp add: run_check)
      then show ?thesis using post Inl by (intro chain_sent_stop) auto
    next
      case (Inr u)
      then have rest: "run_state (receive_chain S H target rows) q1 = (r, q)" using Cons.prems(2) key one by (simp add: run_check)
      have "inv (wObj (pr_world q1))" using post by (simp add: same_process_def)
      from Cons.IH [OF this rest] post Inr key show ?thesis
        by (auto simp: row_stream_def intro: chain_sent_step)
    qed
  qed
qed

end

lemma restore_chain_linked:
  assumes "catalog_ok c" and "q_ListSnapshotRestoreChain i now c = Inr chain" and "chain \<noteq> []"
  shows "rc_ParentSnapshotID (hd chain) = None \<and> rc_ID (last chain) = i \<and>
    (\<forall>k. Suc k < length chain \<longrightarrow> rc_ParentSnapshotID (chain ! Suc k) = Some (rc_ID (chain ! k)))"
proof -
  obtain s where s: "s \<in> set (snapshots c)" "sn_ID s = i"
    using assms(2,3) by (auto simp: q_ListSnapshotRestoreChain_def split: option.splits dest: find_SomeD)
  show ?thesis using restore_chain_rows [OF assms(1) s(1), of now] assms(2) s(2) by (auto simp: chain_row_def)
qed

text \<open>
  C4. Restoring a chain to a target: whatever the outcome, what is sent to \<open>zfs recv\<close> is a prefix of the chain of the snapshot, from the full
  snapshot on along the parent links, one process per snapshot. Before the next stream is sent, the one before was verified against its manifest and the receiving process
  has ended without an error; and if the command succeeds, this holds for all streams of the chain.
\<close>

theorem restore_chain_to_ordered:
  assumes "object_store S sha view I" and "I (wObj (pr_world p))" and "cat_ok (pr_world p)"
    and "\<forall>recvd. writer_ok (zf_stdin (ho_zfs H) recvd)" and "ho_sha H = sha"
    and "run_state (restore_chain_to S H snapshotID target) p = (r, q)" and "r = Inr () \<or> pr_received q \<noteq> pr_received p"
  shows "\<exists>chain ds. let command = recv_command (ho_zfs H) target in
    q_ListSnapshotRestoreChain snapshotID (db_now (pr_world p)) (wCat (pr_world p)) = Inr chain \<and>
    rc_ParentSnapshotID (hd chain) = None \<and> rc_ID (last chain) = snapshotID \<and>
    (\<forall>k. Suc k < length chain \<longrightarrow> rc_ParentSnapshotID (chain ! Suc k) = Some (rc_ID (chain ! k))) \<and>
    pr_received q = pr_received p @ map (Pair command) ds \<and> length ds \<le> length chain \<and> (r = Inr () \<longrightarrow> length ds = length chain) \<and>
    (\<forall>k < (if r = Inr () then length ds else length ds - 1).
       row_stream sha (ho_json H) (view (wObj (pr_world p))) (chain ! k) (ds ! k) \<and>
       recv_accepted (ho_zfs H) (pr_received p @ map (Pair command) (take k ds)) (command, ds ! k))"
proof -
  let ?w = "pr_world p"
  obtain chain where chain: "q_ListSnapshotRestoreChain snapshotID (db_now ?w) (wCat ?w) = Inr chain" "chain \<noteq> []"
    and rest: "run_state (receive_chain S H target chain) (p\<lparr>pr_world := tick ?w\<rparr>) = (r, q)"
    using assms(6,7)
    by (auto simp: restore_chain_to_def run_check in_process_def db_query_def split: if_splits sum.splits)
  have "I (wObj (pr_world (p\<lparr>pr_world := tick ?w\<rparr>)))" using assms(2) by simp
  from object_store.receive_chain_sent [OF assms(1) this assms(4) [rule_format] assms(5) rest]
  have "object_store.chain_sent sha view I (ho_json H) (ho_zfs H) (recv_command (ho_zfs H) target) chain (p\<lparr>pr_world := tick ?w\<rparr>) r q" .
  then show ?thesis
    unfolding object_store.chain_sent_def [OF assms(1)]
    using chain restore_chain_linked [OF assms(3) chain] by (auto simp: Let_def)
qed

section \<open>Nothing without encryption\<close>

lemma config_Load_store:
  assumes "config_Load unrep env = Inr c"
  shows "StorageEncryptionPassphrase c = TrimSpace (env ''STORAGE_ENCRYPTION_KEY'')" and "cf_S3Bucket c = env ''S3_BUCKET''"
proof -
  have "StorageEncryptionPassphrase c = TrimSpace (env_or env ''STORAGE_ENCRYPTION_KEY'' [])" "cf_S3Bucket c = env_or env ''S3_BUCKET'' []"
    using assms unfolding config_Load_def Let_def parseStorageEncryptionPassphrase_def
    by (clarsimp split: if_split_asm)+
  then show "StorageEncryptionPassphrase c = TrimSpace (env ''STORAGE_ENCRYPTION_KEY'')" and "cf_S3Bucket c = env ''S3_BUCKET''"
    by (simp_all add: env_or_def)
qed

definition refused :: "('s, 'a) prog \<Rightarrow> bool" where
  "refused m \<longleftrightarrow> (\<forall>s. \<exists>e. run_state m s = (Inl e, s))"

lemma refused_throw: "refused (throw e)"
  by (simp add: refused_def throw_def)

lemma refused_with_store:
  assumes "StorageEncryptionPassphrase cfg = [] \<or> cf_S3Bucket cfg = []"
  shows "refused (with_store H cfg k)"
  using assms by (auto simp: refused_def with_store_def configuredStore_def split: sum.splits)

lemma refused_with_catalog: "refused k \<Longrightarrow> refused (with_catalog H cfg k)"
  by (auto simp: with_catalog_def refused_throw split: option.splits)

lemma refused_if: "refused m \<Longrightarrow> refused n \<Longrightarrow> refused (if b then m else n)"
  by simp

text \<open>
  C8. No command works on objects that are not encrypted: without a bucket or with a blank passphrase every command line, also the one that starts
  the server, ends with an error and has changed nothing.
\<close>

theorem unencrypted_refused:
  assumes "TrimSpace (env ''STORAGE_ENCRYPTION_KEY'') = [] \<or> env ''S3_BUCKET'' = []"
  shows "\<exists>e. run_state (main_run H serve env args) p = (Inl e, p)"
proof (cases "config_Load (ho_unrep H) env")
  case (Inl e)
  then show ?thesis by (simp add: main_run_def)
next
  case (Inr cfg)
  have none: "refused (with_store H cfg k)" for k :: "'a EncryptedStore Store \<Rightarrow> ('a EncryptedStore process, unit) prog"
    using assms config_Load_store [OF Inr] by (intro refused_with_store) simp
  note cmds = restoreStream_def restoreSnapshot_def restoreSnapshotChainTo_def backupSQLite_def validateDue_def validateChain_def
  have "refused (main_run H serve env args)"
    unfolding main_run_def Inr sum.case cmds
    by (cases args) (simp_all only: list.case, (intro refused_if refused_throw refused_with_catalog none)+)
  then show ?thesis by (simp add: refused_def)
qed

section \<open>Witnesses\<close>

definition sample_host :: "memory host" where
  "sample_host =
     \<lparr>ho_crypto = sample_crypto,
      ho_sha = (\<lambda>d. d), ho_json = one_chunk_json, ho_connect = (\<lambda>_. Inl ErrContext), ho_rand = (\<lambda>_. Inl ErrContext),
      ho_zfs = \<lparr>zf_uid = 0, zf_StdinPipe = None, zf_Start = (\<lambda>_ _. None), zf_stdin = (\<lambda>_. full_writer), zf_Close = None,
        zf_Wait = (\<lambda>_ _ _. None)\<rparr>,
      ho_stdout = full_writer, ho_checker = (\<lambda>_ _ _. (0, Inl ErrContext)), ho_encode = (\<lambda>_. Inl ErrContext),
      ho_backup = \<lparr>be_MkdirAll = (\<lambda>_. None), be_TempDir = [], be_vacuum = (\<lambda>_. []), be_ReadFile = Inr\<rparr>,
      ho_unrep = (\<lambda>_. 0), ho_Open = (\<lambda>_. None), ho_Migrate = None\<rparr>"

definition sample_process :: "memory process" where
  "sample_process =
     \<lparr>pr_world = sample_world\<lparr>wObj := Map.empty(''ms1'' \<mapsto> [], ''ms2'' \<mapsto> [], ''c'' \<mapsto> [7, 8])\<rparr>,
      pr_stdout = [], pr_stderr = [], pr_received = []\<rparr>"

lemma sample_chain_restored:
  "fst (run_state (restore_chain_to (MemoryStore (\<lambda>d. d)) sample_host ''b'' ''tank/copy'') sample_process) = Inr ()"
  by code_simp

theorem restore_chain_to_ordered_witness:
  "\<exists>q ds. run_state (restore_chain_to (MemoryStore (\<lambda>d. d)) sample_host ''b'' ''tank/copy'') sample_process = (Inr (), q) \<and>
     pr_received q = map (Pair [''zfs'', ''recv'', ''-F'', ''tank/copy'']) ds"
proof -
  obtain q where run: "run_state (restore_chain_to (MemoryStore (\<lambda>d. d)) sample_host ''b'' ''tank/copy'') sample_process = (Inr (), q)"
    using run_fst [OF sample_chain_restored] by blast
  have ok: "cat_ok (pr_world sample_process)" using sample_world_ok by (simp add: sample_process_def)
  have out: "\<forall>recvd. writer_ok (zf_stdin (ho_zfs sample_host) recvd)" by (simp add: sample_host_def full_writer_ok)
  have sha: "ho_sha sample_host = (\<lambda>d. d)" by (simp add: sample_host_def)
  have "recv_command (ho_zfs sample_host) ''tank/copy'' = [''zfs'', ''recv'', ''-F'', ''tank/copy'']"
    by (simp add: recv_command_def sample_host_def)
  then show ?thesis
    using run restore_chain_to_ordered [OF memory.object_store_axioms TrueI ok out sha run disjI1 [OF refl]]
    by (auto simp: Let_def sample_process_def)
qed

theorem unencrypted_refused_witness:
  "\<exists>e. run_state (main_run sample_host (\<lambda>_ _. ok ()) (\<lambda>_. []) [''serve'']) sample_process = (Inl e, sample_process)"
proof -
  have "TrimSpace ((\<lambda>_. []) ''STORAGE_ENCRYPTION_KEY'') = [] \<or> (\<lambda>_. []) ''S3_BUCKET'' = []" by simp
  then show ?thesis by (rule unencrypted_refused)
qed

end
