(* ===== verification/Throttle.thy ===== *)
theory Throttle
  imports Prelude
begin

text \<open>
  The contract of the failed-attempt counters of the SSH server and the web server: five failures in
  a row, none more than a quarter of an hour after the one before, block a key for a minute, and each
  further failure for a minute longer. Times and durations are in nanoseconds.
\<close>

definition time_Minute :: int where
  "time_Minute = 60000000000"

text \<open>The counter after a failure at time \<open>t\<close>, from the counter and the time of the failure before.\<close>

definition next_failures :: "int \<Rightarrow> int option \<Rightarrow> int \<Rightarrow> int" where
  "next_failures n before t =
     (case before of None \<Rightarrow> 0 | Some l \<Rightarrow> if t - l > 15 * time_Minute then 0 else n) + 1"

definition block_end :: "int \<Rightarrow> int \<Rightarrow> int" where
  "block_end n t = t + wrap64 ((n - 4) * time_Minute)"

text \<open>Times of which each is at most a quarter of an hour after the one before.\<close>

fun close_together :: "int \<Rightarrow> int list \<Rightarrow> bool" where
  "close_together l [] \<longleftrightarrow> True"
| "close_together l (t # ts) \<longleftrightarrow> t - l \<le> 15 * time_Minute \<and> close_together t ts"

locale throttle =
  fixes allow :: "'m \<Rightarrow> string \<Rightarrow> int \<Rightarrow> bool"
    and failure :: "'m \<Rightarrow> string \<Rightarrow> int \<Rightarrow> 'm"
    and success :: "'m \<Rightarrow> string \<Rightarrow> 'm"
    and failures :: "'m \<Rightarrow> string \<Rightarrow> int"
    and seen :: "'m \<Rightarrow> string \<Rightarrow> int option"
    and blocked :: "'m \<Rightarrow> string \<Rightarrow> int option"
  assumes allow_law: "allow m k t \<longleftrightarrow> (case blocked m k of None \<Rightarrow> True | Some b \<Rightarrow> b < t)"
    and failures_law: "failures (failure m k t) j = (if j = k then next_failures (failures m k) (seen m k) t else failures m j)"
    and seen_law: "seen (failure m k t) j = (if j = k then Some t else seen m j)"
    and blocked_law: "blocked (failure m k t) j =
      (if j = k \<and> next_failures (failures m k) (seen m k) t \<ge> 5
       then Some (block_end (next_failures (failures m k) (seen m k) t) t) else blocked m j)"
    and success_law: "failures (success m k) j = (if j = k then 0 else failures m j)"
      "seen (success m k) j = (if j = k then None else seen m j)"
      "blocked (success m k) j = (if j = k then None else blocked m j)"
begin

text \<open>Failures of one key at the times of a list.\<close>

abbreviation fail_at :: "string \<Rightarrow> int list \<Rightarrow> 'm \<Rightarrow> 'm" where
  "fail_at k ts m \<equiv> fold (\<lambda>t m. failure m k t) ts m"

lemma fail_at_counts:
  "close_together l ts \<Longrightarrow> seen m k = Some l \<Longrightarrow>
   failures (fail_at k ts m) k = failures m k + int (length ts) \<and> seen (fail_at k ts m) k = Some (last (l # ts))"
  by (induction ts arbitrary: l m) (auto simp: failures_law seen_law next_failures_def)

lemma fail_at_blocked:
  assumes "close_together l ts" and "seen m k = Some l" and "ts \<noteq> []" and "5 \<le> failures m k + int (length ts)"
  shows "blocked (fail_at k ts m) k = Some (block_end (failures m k + int (length ts)) (last ts))"
proof -
  obtain us t where ts: "ts = us @ [t]" using assms(3) by (cases ts rule: rev_cases) auto
  have split: "close_together l (us @ [t]) \<longleftrightarrow> close_together l us \<and> t - last (l # us) \<le> 15 * time_Minute" for l us t
    by (induction us arbitrary: l) auto
  have c: "failures (fail_at k us m) k = failures m k + int (length us)" "seen (fail_at k us m) k = Some (last (l # us))"
    using fail_at_counts [of l us m k] assms(1,2) split unfolding ts by simp_all
  have "next_failures (failures (fail_at k us m) k) (seen (fail_at k us m) k) t = failures m k + int (length ts)"
    using assms(1) split unfolding c ts by (simp add: next_failures_def)
  then show ?thesis using assms(4) unfolding ts by (simp add: blocked_law)
qed

text \<open>A key is blocked after five or more failures that come close together.\<close>

lemma lockout:
  assumes "close_together (hd ts) (tl ts)" and "5 \<le> length ts" and "length ts < 100000000"
    and "seen m k = None" and "now \<le> last ts + (int (length ts) - 4) * time_Minute"
  shows "\<not> allow (fail_at k ts m) k now"
proof -
  obtain t us where ts: "ts = t # us" "us \<noteq> []" using assms(2) by (cases ts; cases "tl ts") auto
  let ?m = "failure m k t"
  have m: "seen ?m k = Some t" "failures ?m k = 1" using assms(4) by (simp_all add: seen_law failures_law next_failures_def)
  have "blocked (fail_at k us ?m) k = Some (block_end (1 + int (length us)) (last us))"
    using fail_at_blocked [OF _ m(1) ts(2)] assms(1,2) ts m(2) by simp
  moreover have "wrap64 ((int (length ts) - 4) * time_Minute) = (int (length ts) - 4) * time_Minute"
    using assms(2,3) by (intro wrap64_id) (auto simp: in_int64_def time_Minute_def)
  ultimately show ?thesis
    using assms(5) ts by (simp add: allow_law block_end_def)
qed

lemma other_keys: "j \<noteq> k \<Longrightarrow> allow (fail_at k ts m) j now = allow m j now"
  by (induction ts arbitrary: m) (simp_all add: allow_law blocked_law)

lemma success_allows: "allow (success m k) k now"
  by (simp add: allow_law success_law)

end

end
