(* ===== verification/Web_Auth.thy ===== *)
theory Web_Auth
  imports Throttle Catalog_Repository Go_Encoding
begin

unbundle bit_operations_syntax

text \<open>
  Who may use the web interface (\<open>src/internal/web/auth.go\<close> and the tokens of
  \<open>src/internal/web/api_tokens.go\<close>): the middleware in front of every page, session cookies with their
  message authentication code and the token against cross-site requests, API tokens, the admin password and
  the counters of failed attempts. A request is what the handlers read of it. \<open>sha\<close> is SHA-256;
  bcrypt is a parameter. Pages are rendered from templates, which are not modelled: a page stands for the data
  it shows.
\<close>

section \<open>Requests and answers\<close>

text \<open>A header that is absent reads as the empty string, and so does a missing form or query value.\<close>

record http_request =
  hr_Method :: string
  hr_Path :: string
  hr_RemoteAddr :: string
  hr_TLS :: bool
  hr_Header :: "string \<Rightarrow> string"
  hr_Cookie :: "string option"
  hr_ParseForm :: "error option"
  hr_FormValue :: "string \<Rightarrow> string"
  hr_Query :: "string \<Rightarrow> string"
  hr_PathValue :: "string \<Rightarrow> string"
  hr_Body :: string

datatype 'b response = HttpError nat string | SeeOther string | MovedPermanently string | NotFound | Html 'b | Json 'b

record http_cookie =
  co_Value :: string
  co_Expires :: int
  co_MaxAge :: int
  co_Secure :: bool

record loginAttempt =
  la_Failures :: int
  la_Last :: "int option"
  la_BlockedUntil :: "int option"

text \<open>
  The fields of the server. Whether a validation runner and a store are set is a flag; the handlers that use
  them take them as arguments.
\<close>

record 's web =
  wb_world :: "'s world"
  wb_loginAttempts :: "string \<rightharpoonup> loginAttempt"

record WebServer =
  ws_adminPassword :: string
  ws_sessionKey :: bytes
  ws_disableAuth :: bool
  ws_validationRunner :: bool
  ws_store :: bool
  ws_restoreSSHCommandPrefix :: string

record bcrypt =
  bc_CompareHashAndPassword :: "string \<Rightarrow> string \<Rightarrow> bool"
  bc_GenerateFromPassword :: "string \<Rightarrow> error + string"

definition in_world :: "('s world, 'a) state \<Rightarrow> ('s web, 'a) state" where
  "in_world m = State (\<lambda>s. case run_state m (wb_world s) of (r, w) \<Rightarrow> (r, s\<lparr>wb_world := w\<rparr>))"

section \<open>Texts and codes\<close>

text \<open>
  \<open>strings.EqualFold\<close> against a lower-case ASCII text: letters fold to lower case, and so do the two
  other characters that fold to an ASCII letter, the long s and the Kelvin sign.
\<close>

fun fold_ascii :: "string \<Rightarrow> string" where
  "fold_ascii [] = []"
| "fold_ascii (c # s) =
     (if c = CHR 0xC5 \<and> take 1 s = [CHR 0xBF] then CHR ''s'' # fold_ascii (drop 1 s)
      else if c = CHR 0xE2 \<and> take 2 s = [CHR 0x84, CHR 0xAA] then CHR ''k'' # fold_ascii (drop 2 s)
      else to_lower_char c # fold_ascii s)"

text \<open>\<open>base64.RawURLEncoding\<close>: the other alphabet, and no padding.\<close>

definition RawURL_EncodeToString :: "bytes \<Rightarrow> string" where
  "RawURL_EncodeToString bs =
     map (\<lambda>c. if c = CHR ''+'' then CHR ''-'' else if c = CHR ''/'' then CHR ''_'' else c)
       (filter (\<lambda>c. c \<noteq> CHR ''='') (base64_EncodeToString bs))"

text \<open>HMAC over a hash with blocks of 64 bytes.\<close>

definition hmac_Sum :: "(bytes \<Rightarrow> bytes) \<Rightarrow> bytes \<Rightarrow> bytes \<Rightarrow> bytes" where
  "hmac_Sum sha key m =
     (let k0 = (if length key > 64 then sha key else key); k = k0 @ replicate (64 - length k0) 0 in
      sha (map (\<lambda>b. b XOR 0x5c) k @ sha (map (\<lambda>b. b XOR 0x36) k @ m)))"

definition url_query_safe :: "char \<Rightarrow> bool" where
  "url_query_safe c \<longleftrightarrow> is_alnum c \<or> c \<in> set ''-_.~''"

definition urlQueryEscape :: "string \<Rightarrow> string" where
  "urlQueryEscape s =
     concat (map (\<lambda>c. if url_query_safe c then [c] else if c = CHR '' '' then ''+'' else percent_byte c) s)"

section \<open>Attempts\<close>

definition zero_loginAttempt :: loginAttempt where
  "zero_loginAttempt = \<lparr>la_Failures = 0, la_Last = None, la_BlockedUntil = None\<rparr>"

definition login_entry :: "(string \<rightharpoonup> loginAttempt) \<Rightarrow> string \<Rightarrow> loginAttempt" where
  "login_entry m key = (case m key of None \<Rightarrow> zero_loginAttempt | Some a \<Rightarrow> a)"

definition allowLoginAttempt :: "(string \<rightharpoonup> loginAttempt) \<Rightarrow> string \<Rightarrow> int \<Rightarrow> bool" where
  "allowLoginAttempt m key now =
     (case la_BlockedUntil (login_entry m key) of None \<Rightarrow> True | Some b \<Rightarrow> now > b)"

definition recordLoginFailure :: "(string \<rightharpoonup> loginAttempt) \<Rightarrow> string \<Rightarrow> int \<Rightarrow> (string \<rightharpoonup> loginAttempt)" where
  "recordLoginFailure m key now =
     (let attempt = login_entry m key;
          stale = (case la_Last attempt of None \<Rightarrow> True | Some l \<Rightarrow> now - l > 15 * time_Minute);
          attempt = (if stale then attempt\<lparr>la_Failures := 0\<rparr> else attempt);
          attempt = attempt\<lparr>la_Failures := la_Failures attempt + 1, la_Last := Some now\<rparr>;
          attempt = (if la_Failures attempt \<ge> 5
            then attempt\<lparr>la_BlockedUntil := Some (now + wrap64 ((la_Failures attempt - 4) * time_Minute))\<rparr>
            else attempt)
      in m(key \<mapsto> attempt))"

definition recordLoginSuccess :: "(string \<rightharpoonup> loginAttempt) \<Rightarrow> string \<Rightarrow> (string \<rightharpoonup> loginAttempt)" where
  "recordLoginSuccess m key = m(key := None)"

definition loginRateKey :: "http_request \<Rightarrow> string" where
  "loginRateKey r =
     (let forwarded = TrimSpace (hr_Header r ''X-Forwarded-For'') in
      if forwarded \<noteq> [] then TrimSpace (hd (split_on (CHR '','') forwarded)) else hr_RemoteAddr r)"

definition allow_attempt :: "string \<Rightarrow> ('s web, bool) state" where
  "allow_attempt key =
     State_Monad.bind (in_world time_Now) (\<lambda>now. State (\<lambda>s. (allowLoginAttempt (wb_loginAttempts s) key now, s)))"

definition fail_attempt :: "string \<Rightarrow> ('s web, unit) state" where
  "fail_attempt key =
     State_Monad.bind (in_world time_Now) (\<lambda>now.
     State (\<lambda>s. ((), s\<lparr>wb_loginAttempts := recordLoginFailure (wb_loginAttempts s) key now\<rparr>)))"

definition clear_attempts :: "string \<Rightarrow> ('s web, unit) state" where
  "clear_attempts key = State (\<lambda>s. ((), s\<lparr>wb_loginAttempts := recordLoginSuccess (wb_loginAttempts s) key\<rparr>))"

section \<open>Sessions\<close>

definition session_mac :: "(bytes \<Rightarrow> bytes) \<Rightarrow> WebServer \<Rightarrow> string \<Rightarrow> string" where
  "session_mac sha sv text = RawURL_EncodeToString (hmac_Sum sha (ws_sessionKey sv) (go_bytes text))"

definition requestIsHTTPS :: "http_request \<Rightarrow> bool" where
  "requestIsHTTPS r \<longleftrightarrow> hr_TLS r \<or> fold_ascii (hr_Header r ''X-Forwarded-Proto'') = ''https''"

definition session_value :: "(bytes \<Rightarrow> bytes) \<Rightarrow> WebServer \<Rightarrow> int \<Rightarrow> string" where
  "session_value sha sv expires =
     (let payload = ''admin:'' @ show_int (expires div 1000000000) in payload @ '':'' @ session_mac sha sv payload)"

definition setSessionCookie ::
  "(bytes \<Rightarrow> bytes) \<Rightarrow> WebServer \<Rightarrow> http_request \<Rightarrow> bool \<Rightarrow> ('s web, http_cookie) state" where
  "setSessionCookie sha sv r remember =
     (let duration = (if remember then 30 * 24 * 60 * time_Minute else 24 * 60 * time_Minute) in
      State_Monad.bind (in_world time_Now) (\<lambda>now.
      let expires = now + duration in
      ret \<lparr>co_Value = session_value sha sv expires, co_Expires = expires, co_MaxAge = duration div 1000000000,
           co_Secure = requestIsHTTPS r\<rparr>))"

definition verifySessionCookie :: "(bytes \<Rightarrow> bytes) \<Rightarrow> WebServer \<Rightarrow> string \<Rightarrow> int \<Rightarrow> bool" where
  "verifySessionCookie sha sv val now =
     (case split_on (CHR '':'') val of
        [a, b, mac] \<Rightarrow>
          a = ''admin'' \<and>
          (case ParseInt10 b of
             None \<Rightarrow> False
           | Some expiry \<Rightarrow> \<not> now div 1000000000 > expiry \<and> mac = session_mac sha sv (a @ '':'' @ b))
      | _ \<Rightarrow> False)"

definition csrfTokenForSession :: "(bytes \<Rightarrow> bytes) \<Rightarrow> WebServer \<Rightarrow> string \<Rightarrow> string" where
  "csrfTokenForSession sha sv sessionValue = session_mac sha sv (''csrf:'' @ sessionValue)"

definition csrfToken :: "(bytes \<Rightarrow> bytes) \<Rightarrow> WebServer \<Rightarrow> http_request \<Rightarrow> int \<Rightarrow> string" where
  "csrfToken sha sv r now =
     (case hr_Cookie r of
        None \<Rightarrow> []
      | Some c \<Rightarrow> if verifySessionCookie sha sv c now then csrfTokenForSession sha sv c else [])"

definition verifyCSRFToken :: "(bytes \<Rightarrow> bytes) \<Rightarrow> WebServer \<Rightarrow> http_request \<Rightarrow> string \<Rightarrow> bool" where
  "verifyCSRFToken sha sv r sessionValue =
     (let header = TrimSpace (hr_Header r ''X-CSRF-Token'');
          token = (if header = [] then TrimSpace (hr_FormValue r ''csrf_token'') else header) in
      token \<noteq> [] \<and> token = csrfTokenForSession sha sv sessionValue)"

definition isUnsafeMethod :: "string \<Rightarrow> bool" where
  "isUnsafeMethod m \<longleftrightarrow> m \<notin> {''GET'', ''HEAD'', ''OPTIONS'', ''TRACE''}"

definition isBrowserRequest :: "http_request \<Rightarrow> bool" where
  "isBrowserRequest r =
     (if HasPrefix (hr_Path r) ''/api/'' then False
      else let accept = hr_Header r ''Accept'' in accept = [] \<or> sublist ''text/html'' accept)"

section \<open>Tokens\<close>

definition hashAPIToken :: "(bytes \<Rightarrow> bytes) \<Rightarrow> string \<Rightarrow> string" where
  "hashAPIToken sha token = RawURL_EncodeToString (sha (go_bytes token))"

definition apiTokenPrefix :: "string \<Rightarrow> string" where
  "apiTokenPrefix token = (if length token \<le> 12 then token else take 12 token)"

definition bearerToken :: "http_request \<Rightarrow> string" where
  "bearerToken r =
     (let header = TrimSpace (hr_Header r ''Authorization'') in
      if length header > 7 \<and> fold_ascii (take 7 header) = ''bearer '' then TrimSpace (drop 7 header) else [])"

definition verifyAPIToken :: "(bytes \<Rightarrow> bytes) \<Rightarrow> string \<Rightarrow> ('s world, bool) state" where
  "verifyAPIToken sha token =
     check (db_query (q_GetActiveAPITokenByHash (hashAPIToken sha token))) (\<lambda>e. ret False) (\<lambda>row.
     State_Monad.bind (db_exec (q_TouchAPIToken (atr_ID row))) (\<lambda>_. ret True))"

section \<open>The admin password\<close>

definition adminConfigured :: "WebServer \<Rightarrow> ('s world, bool) prog" where
  "adminConfigured sv =
     (if ws_adminPassword sv \<noteq> [] then ok True
      else check (db_query q_GetAdminCredentials)
        (\<lambda>e. if e = ErrNoRows then ok False else throw e)
        (\<lambda>credentials. ok (ac_PasswordHash credentials \<noteq> None \<and> ac_PasswordHash credentials \<noteq> Some [])))"

definition verifyAdminPassword :: "bcrypt \<Rightarrow> WebServer \<Rightarrow> string \<Rightarrow> ('s world, bool) state" where
  "verifyAdminPassword B sv password =
     (if ws_adminPassword sv \<noteq> [] then ret (password = ws_adminPassword sv)
      else check (db_query q_GetAdminCredentials) (\<lambda>e. ret False) (\<lambda>credentials.
        case ac_PasswordHash credentials of
          None \<Rightarrow> ret False
        | Some h \<Rightarrow> ret (h \<noteq> [] \<and> bc_CompareHashAndPassword B h password)))"

section \<open>The middleware\<close>

text \<open>
  What the middleware decides: \<open>None\<close> to pass the request on, or the answer it gives itself. The
  clock is read once for a session cookie, also when the cookie is malformed.
\<close>

definition token_attempt ::
  "(bytes \<Rightarrow> bytes) \<Rightarrow> http_request \<Rightarrow> string \<Rightarrow> ('s web, 'b response option) state \<Rightarrow> ('s web, 'b response option) state" where
  "token_attempt sha r token otherwise =
     (let key = ''api:'' @ loginRateKey r in
      State_Monad.bind (allow_attempt key) (\<lambda>allowed.
      if \<not> allowed then ret (Some (HttpError 429 ''too many authentication attempts''))
      else State_Monad.bind (if token \<noteq> [] then in_world (verifyAPIToken sha token) else ret False) (\<lambda>good.
        if good then State_Monad.bind (clear_attempts key) (\<lambda>_. ret None)
        else State_Monad.bind (fail_attempt key) (\<lambda>_. otherwise))))"

definition session_decision :: "(bytes \<Rightarrow> bytes) \<Rightarrow> WebServer \<Rightarrow> http_request \<Rightarrow> ('s web, 'b response option) state" where
  "session_decision sha sv r =
     (let refused = (if isBrowserRequest r then SeeOther ''/login'' else HttpError 401 ''unauthorized'') in
      case hr_Cookie r of
        None \<Rightarrow> ret (Some refused)
      | Some c \<Rightarrow>
          State_Monad.bind (in_world time_Now) (\<lambda>now.
          if verifySessionCookie sha sv c now
          then if isUnsafeMethod (hr_Method r) \<and> \<not> verifyCSRFToken sha sv r c
               then ret (Some (HttpError 403 ''invalid csrf token'')) else ret None
          else ret (Some refused)))"

definition auth_decision :: "(bytes \<Rightarrow> bytes) \<Rightarrow> WebServer \<Rightarrow> http_request \<Rightarrow> ('s web, 'b response option) state" where
  "auth_decision sha sv r =
     (if ws_disableAuth sv then ret None
      else if hr_Path r \<in> {''/healthz'', ''/readyz''} then ret None
      else check (in_world (adminConfigured sv))
        (\<lambda>e. ret (Some (HttpError 500 (''check admin setup: '' @ error_text e)))) (\<lambda>configured.
        if \<not> configured
        then if hr_Path r = ''/setup'' then ret None else ret (Some (SeeOther ''/setup''))
        else if hr_Path r \<in> {''/login'', ''/setup''} then ret None
        else if hr_Path r = ''/metrics''
        then token_attempt sha r (bearerToken r) (ret (Some (HttpError 401 ''unauthorized'')))
        else if bearerToken r \<noteq> []
        then token_attempt sha r (bearerToken r) (session_decision sha sv r)
        else session_decision sha sv r))"

definition authMiddleware ::
  "(bytes \<Rightarrow> bytes) \<Rightarrow> WebServer \<Rightarrow> (http_request \<Rightarrow> ('s web, 'b response) state) \<Rightarrow> http_request \<Rightarrow> ('s web, 'b response) state" where
  "authMiddleware sha sv handler r =
     State_Monad.bind (auth_decision sha sv r) (\<lambda>d. case d of None \<Rightarrow> handler r | Some answer \<Rightarrow> ret answer)"

section \<open>Pages\<close>

definition login ::
  "(bytes \<Rightarrow> bytes) \<Rightarrow> bcrypt \<Rightarrow> WebServer \<Rightarrow> http_request \<Rightarrow> ('s web, 'b response \<times> http_cookie option) state" where
  "login sha B sv r =
     (case hr_ParseForm r of
        Some e \<Rightarrow> ret (HttpError 400 (error_text e), None)
      | None \<Rightarrow>
          let key = loginRateKey r in
          State_Monad.bind (allow_attempt key) (\<lambda>allowed.
          if \<not> allowed then ret (HttpError 429 ''too many login attempts'', None)
          else State_Monad.bind (in_world (verifyAdminPassword B sv (hr_FormValue r ''password''))) (\<lambda>good.
            if \<not> good
            then State_Monad.bind (fail_attempt key) (\<lambda>_.
              ret (SeeOther (''/login?error='' @ urlQueryEscape ''invalid password''), None))
            else State_Monad.bind (clear_attempts key) (\<lambda>_.
              State_Monad.bind (setSessionCookie sha sv r (hr_FormValue r ''remember'' \<noteq> [])) (\<lambda>cookie.
              ret (SeeOther ''/'', Some cookie))))))"

definition logout :: "http_request \<Rightarrow> ('s web, 'b response \<times> http_cookie option) state" where
  "logout r =
     ret (SeeOther ''/login'', Some \<lparr>co_Value = [], co_Expires = 0, co_MaxAge = - 1, co_Secure = requestIsHTTPS r\<rparr>)"

definition loginPage :: "http_request \<Rightarrow> ('s web, string response) state" where
  "loginPage r = ret (Html (hr_Query r ''error''))"

definition setup_guard :: "WebServer \<Rightarrow> ('s web, 'b response) state \<Rightarrow> ('s web, 'b response) state" where
  "setup_guard sv page =
     check (in_world (adminConfigured sv))
       (\<lambda>e. ret (HttpError 500 (''check admin setup: '' @ error_text e)))
       (\<lambda>configured. if configured then ret (SeeOther ''/login'') else page)"

definition setupPage :: "WebServer \<Rightarrow> http_request \<Rightarrow> ('s web, string response) state" where
  "setupPage sv r = setup_guard sv (ret (Html (hr_Query r ''error'')))"

definition store_password ::
  "(bytes \<Rightarrow> bytes) \<Rightarrow> bcrypt \<Rightarrow> WebServer \<Rightarrow> http_request \<Rightarrow> string \<Rightarrow> ('s web, 'b response \<times> http_cookie option) state" where
  "store_password sha B sv r password =
     (case bc_GenerateFromPassword B password of
        Inl e \<Rightarrow> ret (HttpError 500 (''hash password: '' @ error_text e), None)
      | Inr h \<Rightarrow>
          check (in_world (db_exec (q_UpdateAdminPasswordHash (Some h))))
            (\<lambda>e. ret (HttpError 500 (''store admin password: '' @ error_text e), None)) (\<lambda>_.
          State_Monad.bind (setSessionCookie sha sv r False) (\<lambda>cookie.
          ret (SeeOther (''/?message='' @ urlQueryEscape
            ''Admin password saved. Authorize an SSH key, then send your first snapshot.''), Some cookie))))"

definition setup_submit ::
  "(bytes \<Rightarrow> bytes) \<Rightarrow> bcrypt \<Rightarrow> WebServer \<Rightarrow> http_request \<Rightarrow> ('s web, 'b response \<times> http_cookie option) state" where
  "setup_submit sha B sv r =
     check (in_world (adminConfigured sv))
       (\<lambda>e. ret (HttpError 500 (''check admin setup: '' @ error_text e), None)) (\<lambda>configured.
     if configured then ret (SeeOther ''/login'', None)
     else case hr_ParseForm r of
       Some e \<Rightarrow> ret (HttpError 400 (error_text e), None)
     | None \<Rightarrow>
         let password = hr_FormValue r ''password'' in
         if length password < 12
         then ret (SeeOther (''/setup?error='' @ urlQueryEscape ''password must be at least 12 characters''), None)
         else if password \<noteq> hr_FormValue r ''confirm_password''
         then ret (SeeOther (''/setup?error='' @ urlQueryEscape ''passwords do not match''), None)
         else store_password sha B sv r password)"

section \<open>The attempt counters\<close>

interpretation web_throttle: throttle allowLoginAttempt recordLoginFailure recordLoginSuccess
  "\<lambda>m k. la_Failures (login_entry m k)" "\<lambda>m k. la_Last (login_entry m k)" "\<lambda>m k. la_BlockedUntil (login_entry m k)"
  by unfold_locales
    (auto simp: allowLoginAttempt_def recordLoginFailure_def recordLoginSuccess_def login_entry_def zero_loginAttempt_def
      next_failures_def block_end_def Let_def split: option.splits)

section \<open>Session values\<close>

lemma b64_char_not_colon: "n < 64 \<Longrightarrow> b64_char n \<noteq> CHR '':''"
proof -
  have "CHR '':'' \<notin> set b64_alphabet" by code_simp
  moreover have "length b64_alphabet = 64" by code_simp
  ultimately show "n < 64 \<Longrightarrow> b64_char n \<noteq> CHR '':''" unfolding b64_char_def by (metis nth_mem)
qed

lemma base64_groups_no_colon: "\<forall>n \<in> set ns. n < 256 \<Longrightarrow> CHR '':'' \<notin> set (base64_groups ns)"
proof (induction ns rule: base64_groups.induct)
  case (1 a b c r)
  have "a div 4 < 64" "a mod 4 * 16 + b div 16 < 64" "b mod 16 * 4 + c div 64 < 64" "c mod 64 < 64"
    using 1(2) by auto
  then show ?case using 1 b64_char_not_colon [THEN not_sym] by auto
next
  case (2 a b)
  have "a div 4 < 64" "a mod 4 * 16 + b div 16 < 64" "b mod 16 * 4 < 64" using 2 by auto
  then show ?case using b64_char_not_colon [THEN not_sym] by auto
next
  case (3 a)
  have "a div 4 < 64" "a mod 4 * 16 < 64" using 3 by auto
  then show ?case using b64_char_not_colon [THEN not_sym] by auto
qed simp

lemma session_mac_no_colon: "CHR '':'' \<notin> set (session_mac sha sv t)"
proof -
  have "CHR '':'' \<notin> set (base64_EncodeToString bs)" for bs
    unfolding base64_EncodeToString_def
    by (rule base64_groups_no_colon) (auto intro: order_less_le_trans [OF unsigned_less])
  then show ?thesis by (auto simp: session_mac_def RawURL_EncodeToString_def)
qed

lemma show_int_no_colon: "CHR '':'' \<notin> set (show_int n)"
proof -
  have "\<not> digit_val CHR '':'' < 10" by code_simp
  then show ?thesis using notin_show_nat by (auto simp: show_int_def)
qed

lemma split_three:
  "split_on c s = [p, q, r] \<longleftrightarrow> s = p @ c # q @ c # r \<and> c \<notin> set p \<and> c \<notin> set q \<and> c \<notin> set r"
proof
  assume split: "split_on c s = [p, q, r]"
  have "join_with c (split_on c s) = s" by (rule join_split)
  moreover have "\<forall>x \<in> set (split_on c s). c \<notin> set x" using split_on_parts_no_sep by blast
  ultimately show "s = p @ c # q @ c # r \<and> c \<notin> set p \<and> c \<notin> set q \<and> c \<notin> set r" using split by auto
next
  assume "s = p @ c # q @ c # r \<and> c \<notin> set p \<and> c \<notin> set q \<and> c \<notin> set r"
  then show "split_on c s = [p, q, r]" by (simp add: split_on_append_sep split_on_no_sep)
qed

lemma verifySessionCookie_iff:
  "verifySessionCookie sha sv val now \<longleftrightarrow>
     (\<exists>b expiry. val = ''admin:'' @ b @ '':'' @ session_mac sha sv (''admin:'' @ b) \<and> CHR '':'' \<notin> set b \<and>
        ParseInt10 b = Some expiry \<and> now div 1000000000 \<le> expiry)"
proof -
  have "verifySessionCookie sha sv val now \<longleftrightarrow>
      (\<exists>b mac expiry. split_on (CHR '':'') val = [''admin'', b, mac] \<and> ParseInt10 b = Some expiry \<and>
        now div 1000000000 \<le> expiry \<and> mac = session_mac sha sv (''admin:'' @ b))"
    by (auto simp: verifySessionCookie_def split: list.splits option.splits)
  moreover have "split_on (CHR '':'') val = [''admin'', b, session_mac sha sv (''admin:'' @ b)] \<longleftrightarrow>
      val = ''admin:'' @ b @ '':'' @ session_mac sha sv (''admin:'' @ b) \<and> CHR '':'' \<notin> set b" for b
    using session_mac_no_colon [of sha sv "''admin:'' @ b"] unfolding split_three by simp
  ultimately show ?thesis by blast
qed

lemma ParseInt10_show_int: "in_int64 v \<Longrightarrow> ParseInt10 (show_int v) = Some v"
proof -
  have "\<not> digit_val CHR ''-'' < 10" "\<not> digit_val CHR ''+'' < 10" by code_simp+
  then have "\<not> HasPrefix (show_nat n) ''-''" "\<not> HasPrefix (show_nat n) ''+''" for n
    using notin_show_nat [of "CHR ''-''" n] notin_show_nat [of "CHR ''+''" n] by (cases "show_nat n"; auto simp: HasPrefix_def)+
  then show "in_int64 v \<Longrightarrow> ParseInt10 (show_int v) = Some v"
    by (auto simp: ParseInt10_def show_int_def HasPrefix_def Let_def)
qed

text \<open>
  Sessions: a cookie is accepted exactly when it says until when it is valid, that time has not
  passed, and it ends with the server's authentication code for that very text; the value the server
  sets is accepted until the second it expires and not after.
\<close>

theorem session_cookies:
  assumes fit: "in_int64 (expires div 1000000000)"
  shows "(verifySessionCookie sha sv val now \<longleftrightarrow>
      (\<exists>b expiry. val = ''admin:'' @ b @ '':'' @ session_mac sha sv (''admin:'' @ b) \<and> CHR '':'' \<notin> set b \<and>
         ParseInt10 b = Some expiry \<and> now div 1000000000 \<le> expiry)) \<and>
    (verifySessionCookie sha sv (session_value sha sv expires) now \<longleftrightarrow> now div 1000000000 \<le> expires div 1000000000)"
proof
  show "verifySessionCookie sha sv val now \<longleftrightarrow>
      (\<exists>b expiry. val = ''admin:'' @ b @ '':'' @ session_mac sha sv (''admin:'' @ b) \<and> CHR '':'' \<notin> set b \<and>
         ParseInt10 b = Some expiry \<and> now div 1000000000 \<le> expiry)"
    by (rule verifySessionCookie_iff)
  let ?b = "show_int (expires div 1000000000)"
  have "split_on (CHR '':'') (''admin'' @ CHR '':'' # ?b @ CHR '':'' # session_mac sha sv (''admin:'' @ ?b)) =
      [''admin'', ?b, session_mac sha sv (''admin:'' @ ?b)]"
    unfolding split_three using session_mac_no_colon show_int_no_colon by simp
  then have "split_on (CHR '':'') (session_value sha sv expires) = [''admin'', ?b, session_mac sha sv (''admin:'' @ ?b)]"
    by (simp add: session_value_def Let_def)
  then show "verifySessionCookie sha sv (session_value sha sv expires) now \<longleftrightarrow> now div 1000000000 \<le> expires div 1000000000"
    using fit by (auto simp: verifySessionCookie_def ParseInt10_show_int)
qed

section \<open>What the middleware lets through\<close>

text \<open>The proofs of identity a request can carry, against the catalog as it stands.\<close>

definition token_proof :: "(bytes \<Rightarrow> bytes) \<Rightarrow> http_request \<Rightarrow> catalog \<Rightarrow> bool" where
  "token_proof sha r c \<longleftrightarrow> bearerToken r \<noteq> [] \<and>
     (\<exists>t \<in> set (api_tokens c). at_TokenHash t = hashAPIToken sha (bearerToken r) \<and> at_RevokedAt t = None)"

definition session_proof :: "(bytes \<Rightarrow> bytes) \<Rightarrow> WebServer \<Rightarrow> http_request \<Rightarrow> bool" where
  "session_proof sha sv r \<longleftrightarrow>
     (\<exists>val now. hr_Cookie r = Some val \<and> verifySessionCookie sha sv val now \<and>
        (isUnsafeMethod (hr_Method r) \<longrightarrow> verifyCSRFToken sha sv r val))"

definition public_path :: "string \<Rightarrow> bool" where
  "public_path p \<longleftrightarrow> p \<in> {''/healthz'', ''/readyz'', ''/login'', ''/setup''}"

lemma wp_in_world [wp_rules]:
  "wp (in_world m) Q s \<longleftrightarrow> wp m (\<lambda>r w. Q r (s\<lparr>wb_world := w\<rparr>)) (wb_world s)"
  by (simp add: wp_def in_world_def split: prod.splits)

lemma wp_attempts [wp_rules]:
  "wp (allow_attempt key) Q s \<longleftrightarrow>
     Q (allowLoginAttempt (wb_loginAttempts s) key (wNow (wb_world s) (wTick (wb_world s)))) (s\<lparr>wb_world := tick (wb_world s)\<rparr>)"
  "wp (fail_attempt key) R s \<longleftrightarrow>
     R () (s\<lparr>wb_world := tick (wb_world s), wb_loginAttempts :=
       recordLoginFailure (wb_loginAttempts s) key (wNow (wb_world s) (wTick (wb_world s)))\<rparr>)"
  "wp (clear_attempts key) R s \<longleftrightarrow> R () (s\<lparr>wb_loginAttempts := recordLoginSuccess (wb_loginAttempts s) key\<rparr>)"
  by (simp_all add: wp_def allow_attempt_def fail_attempt_def clear_attempts_def in_world_def time_Now_def)

lemma wp_verifyAPIToken:
  assumes "token \<noteq> []" and "token = bearerToken r"
  shows "wp (verifyAPIToken sha token) (\<lambda>good w'. good \<longrightarrow> token_proof sha r (wCat w)) w"
  using assms
  by (auto simp: verifyAPIToken_def wp_rules q_GetActiveAPITokenByHash_def one_row_def token_proof_def find_Some_iff
      split: option.splits sum.splits intro: nth_mem)

lemma wp_session_decision: "wp (session_decision sha sv r) (\<lambda>d s'. d = None \<longrightarrow> session_proof sha sv r) s"
  by (auto simp: session_decision_def Let_def wp_rules session_proof_def split: option.splits)

lemma wp_token_attempt:
  assumes "token = bearerToken r" and "\<And>s. wp other (\<lambda>d s'. d = None \<longrightarrow> P) s" and "\<And>c. c = wCat (wb_world s) \<Longrightarrow> token_proof sha r c \<Longrightarrow> P"
  shows "wp (token_attempt sha r token other) (\<lambda>d s'. d = None \<longrightarrow> P) s"
proof -
  have tok: "wp (verifyAPIToken sha token) (\<lambda>good w'. good \<longrightarrow> P) (tick (wb_world s))" if "token \<noteq> []"
    by (rule wp_mono [OF wp_verifyAPIToken [OF that assms(1)]]) (use assms(3) in simp)
  show ?thesis
    unfolding token_attempt_def Let_def
    by (cases "token = []") (simp_all add: wp_rules assms(2) wp_mono [OF tok])
qed

definition entitled :: "(bytes \<Rightarrow> bytes) \<Rightarrow> WebServer \<Rightarrow> http_request \<Rightarrow> catalog \<Rightarrow> bool" where
  "entitled sha sv r c \<longleftrightarrow> ws_disableAuth sv \<or> public_path (hr_Path r) \<or> token_proof sha r c \<or>
     hr_Path r \<noteq> ''/metrics'' \<and> session_proof sha sv r"

abbreviation admits :: "bool \<Rightarrow> ('s web, 'b response option) state \<Rightarrow> 's web \<Rightarrow> bool" where
  "admits P m t \<equiv> wp m (\<lambda>d s'. d = None \<longrightarrow> P) t"

lemma wp_auth_decision: "admits (entitled sha sv r (wCat (wb_world s))) (auth_decision sha sv r :: ('a web, 'b response option) state) s"
proof -
  have admin: "wp (adminConfigured sv) (\<lambda>_ w'. wCat w' = wCat w) w" for w :: "'a world"
    by (auto simp: adminConfigured_def wp_rules split: sum.splits)
  let ?P = "entitled sha sv r (wCat (wb_world s))"
  have sess: "admits ?P (session_decision sha sv r) t" if "hr_Path r \<noteq> ''/metrics''" for t :: "'a web"
    by (rule wp_mono [OF wp_session_decision]) (use that in \<open>simp add: entitled_def\<close>)
  have tok: "admits ?P (token_attempt sha r token other) t"
    if "token = bearerToken r" "wCat (wb_world t) = wCat (wb_world s)" "\<And>u. admits ?P other u"
    for t :: "'a web" and other :: "('a web, 'b response option) state" and token
    by (rule wp_token_attempt) (use that in \<open>simp_all add: entitled_def\<close>)
  have deny: "admits ?P (ret (Some x)) t" for x :: "'b response" and t :: "'a web"
    by (simp add: wp_rules)
  show ?thesis
  proof (cases "ws_disableAuth sv \<or> public_path (hr_Path r)")
    case True
    then have "?P" by (auto simp: entitled_def)
    then show ?thesis by (intro wpI) simp
  next
    case False
    then have path: "hr_Path r \<notin> {''/healthz'', ''/readyz''}" "hr_Path r \<noteq> ''/setup''" "hr_Path r \<notin> {''/login'', ''/setup''}"
      by (simp_all add: public_path_def)
    let ?k = "\<lambda>configured. if \<not> configured then ret (Some (SeeOther ''/setup'' :: 'b response))
        else if hr_Path r = ''/metrics''
        then token_attempt sha r (bearerToken r) (ret (Some (HttpError 401 ''unauthorized'')))
        else if bearerToken r \<noteq> []
        then token_attempt sha r (bearerToken r) (session_decision sha sv r)
        else session_decision sha sv r"
    have k: "admits ?P (?k configured) t" if "wCat (wb_world t) = wCat (wb_world s)" for configured and t :: "'a web"
      using that by (auto intro!: deny tok sess)
    have k2: "admits ?P (?k configured) (s\<lparr>wb_world := w\<rparr>)" if "wCat w = wCat (wb_world s)" for configured and w :: "'a world"
      by (rule k) (use that in simp)
    have decision: "auth_decision sha sv r = check (in_world (adminConfigured sv))
        (\<lambda>e. ret (Some (HttpError 500 (''check admin setup: '' @ error_text e)))) ?k"
      using False path unfolding auth_decision_def by simp
    show ?thesis
      unfolding decision wp_check wp_in_world
      by (rule wp_mono [OF admin]) (auto simp only: deny split: sum.split intro!: k2)
  qed
qed


text \<open>
  The address the counters go by is the first entry of \<open>X-Forwarded-For\<close>, which the client writes: for every client there
  is a header with which it is not blocked.
\<close>

theorem login_throttle_evaded:
  assumes "finite (dom m)"
  shows "\<exists>h. allowLoginAttempt m (loginRateKey (r\<lparr>hr_Header := (hr_Header r)(''X-Forwarded-For'' := h)\<rparr>)) now"
proof -
  have plain: "TrimSpace (replicate n (CHR ''a'')) = replicate n (CHR ''a'')" for n
    by (simp add: TrimSpace_def is_space_def)
  have "infinite (range (\<lambda>n. replicate (Suc n) (CHR ''a'')))"
    by (subst finite_image_iff) (auto simp: inj_def replicate_eq_replicate)
  then obtain n where "replicate (Suc n) (CHR ''a'') \<notin> dom m"
    using assms by (meson finite_subset image_subsetI)
  then have "m (replicate (Suc n) (CHR ''a'')) = None" by (simp add: domIff)
  moreover have "loginRateKey (r\<lparr>hr_Header := (hr_Header r)(''X-Forwarded-For'' := replicate (Suc n) (CHR ''a''))\<rparr>) =
      replicate (Suc n) (CHR ''a'')"
    using plain [of "Suc n"] split_on_no_sep [of "CHR '',''" "replicate (Suc n) (CHR ''a'')"]
    by (simp add: loginRateKey_def Let_def del: replicate_Suc split_on.simps)
  ultimately show ?thesis
    by (intro exI [of _ "replicate (Suc n) (CHR ''a'')"])
      (simp add: allowLoginAttempt_def login_entry_def zero_loginAttempt_def del: replicate_Suc)
qed

section \<open>Witnesses\<close>

definition sample_web :: WebServer where
  "sample_web = \<lparr>ws_adminPassword = ''secret'', ws_sessionKey = [1], ws_disableAuth = False, ws_validationRunner = False,
     ws_store = False, ws_restoreSSHCommandPrefix = []\<rparr>"

definition sample_get :: "string \<Rightarrow> http_request" where
  "sample_get path = \<lparr>hr_Method = ''GET'', hr_Path = path, hr_RemoteAddr = ''10.0.0.1:5'', hr_TLS = False, hr_Header = (\<lambda>_. []),
     hr_Cookie = None, hr_ParseForm = None, hr_FormValue = (\<lambda>_. []), hr_Query = (\<lambda>_. []), hr_PathValue = (\<lambda>_. []),
     hr_Body = []\<rparr>"

theorem session_cookies_witness:
  "verifySessionCookie (\<lambda>d. d) sample_web (session_value (\<lambda>d. d) sample_web 5000000000) 5999999999 \<and>
   \<not> verifySessionCookie (\<lambda>d. d) sample_web (session_value (\<lambda>d. d) sample_web 5000000000) 6000000000"
proof -
  have "in_int64 (5000000000 div 1000000000)" by (simp add: in_int64_def)
  from session_cookies [OF this, of "\<lambda>d. d" sample_web "[]" 5999999999] session_cookies [OF this, of "\<lambda>d. d" sample_web "[]" 6000000000]
  show ?thesis by simp
qed

definition sample_session :: "memory web" where
  "sample_session = \<lparr>wb_world = sample_world, wb_loginAttempts = Map.empty\<rparr>"


end
