(* ===== verification/Catalog_Overview.thy ===== *)
theory Catalog_Overview
  imports Catalog_Reads "HOL-Library.Multiset" "HOL-Library.List_Lexorder" "HOL-Library.Char_ord"
begin

text \<open>
  The listings of the dashboard (\<open>src/internal/catalog/db/catalog.sql.go\<close>): datasets with their totals,
  the snapshots of a dataset, uploads under way, the latest operations and validation jobs. Names are ordered
  byte by byte, as SQLite does. An empty \<open>latest_upload_at\<close> is the value \<open>None\<close>.
\<close>

section \<open>Queries\<close>

record ListActiveUploadsRow =
  lau_UploadSessionID :: string
  lau_SourceName :: string
  lau_PoolName :: string
  lau_DatasetPath :: string
  lau_TargetSnapshotName :: string
  lau_Status :: upload_status
  lau_BytesReceived :: int
  lau_ChunksCompleted :: int
  lau_StartedAt :: int
  lau_LastHeartbeatAt :: int

definition active_upload_row :: "UploadSession \<Rightarrow> dataset_names \<Rightarrow> ListActiveUploadsRow" where
  "active_upload_row u j =
     \<lparr>lau_UploadSessionID = up_ID u, lau_SourceName = dn_source j, lau_PoolName = dn_pool j,
      lau_DatasetPath = ds_Path (dn_dataset j), lau_TargetSnapshotName = up_TargetSnapshotName u,
      lau_Status = up_Status u, lau_BytesReceived = up_BytesReceived u, lau_ChunksCompleted = up_ChunksCompleted u,
      lau_StartedAt = up_StartedAt u, lau_LastHeartbeatAt = up_LastHeartbeatAt u\<rparr>"

definition q_ListActiveUploads :: "ListActiveUploadsRow list query" where
  "q_ListActiveUploads now c =
     Inr (List.map_filter (\<lambda>u. map_option (active_upload_row u) (join_dataset c (up_DatasetID u)))
       (sort_desc up_LastHeartbeatAt (filter (\<lambda>u. active_status (up_Status u)) (upload_sessions c))))"

record ListDatasetSnapshotsRow =
  lds_ID :: string
  lds_Name :: string
  lds_ParentSnapshotID :: "string option"
  lds_ManifestObjectKey :: "string option"
  lds_Status :: snapshot_status
  lds_StreamValidationStatus :: validation_status
  lds_ChainValidationStatus :: validation_status
  lds_StoredBytes :: int
  lds_StreamSha256 :: "string option"
  lds_StreamFromGuid :: string
  lds_StreamToGuid :: string
  lds_ChunkCount :: int
  lds_UploadStartedAt :: "int option"
  lds_UploadCompletedAt :: "int option"
  lds_FailureReason :: "string option"

definition dataset_snapshot_row :: "Snapshot \<Rightarrow> ListDatasetSnapshotsRow" where
  "dataset_snapshot_row s =
     \<lparr>lds_ID = sn_ID s, lds_Name = sn_Name s, lds_ParentSnapshotID = sn_ParentSnapshotID s,
      lds_ManifestObjectKey = sn_ManifestObjectKey s, lds_Status = sn_Status s,
      lds_StreamValidationStatus = sn_StreamValidationStatus s,
      lds_ChainValidationStatus = sn_ChainValidationStatus s, lds_StoredBytes = sn_StoredBytes s,
      lds_StreamSha256 = sn_StreamSha256 s, lds_StreamFromGuid = sn_StreamFromGuid s,
      lds_StreamToGuid = sn_StreamToGuid s, lds_ChunkCount = sn_ChunkCount s,
      lds_UploadStartedAt = sn_UploadStartedAt s, lds_UploadCompletedAt = sn_UploadCompletedAt s,
      lds_FailureReason = sn_FailureReason s\<rparr>"

definition q_ListDatasetSnapshots :: "string \<Rightarrow> ListDatasetSnapshotsRow list query" where
  "q_ListDatasetSnapshots datasetID now c =
     Inr (map dataset_snapshot_row
       (sort_desc sn_CreatedAt (filter (\<lambda>s. sn_DatasetID s = datasetID) (snapshots c))))"

record GetLatestOperationsRow =
  glo_ID :: string
  glo_Type :: operation_type
  glo_Status :: operation_status
  glo_StartedAt :: int
  glo_UpdatedAt :: int
  glo_CompletedAt :: "int option"
  glo_Summary :: "string option"
  glo_FailureReason :: "string option"

definition operation_row :: "Operation \<Rightarrow> GetLatestOperationsRow" where
  "operation_row p =
     \<lparr>glo_ID = op_ID p, glo_Type = op_Type p, glo_Status = op_Status p, glo_StartedAt = op_StartedAt p,
      glo_UpdatedAt = op_UpdatedAt p, glo_CompletedAt = op_CompletedAt p, glo_Summary = op_Summary p,
      glo_FailureReason = op_FailureReason p\<rparr>"

definition q_GetLatestOperations :: "int \<Rightarrow> GetLatestOperationsRow list query" where
  "q_GetLatestOperations lim now c =
     Inr (map operation_row (limit_rows lim (sort_desc op_StartedAt
       (filter (\<lambda>p. op_Type p \<noteq> OpCatalogBackup) (operations c)))))"

record ListLatestValidationJobsRow =
  lvj_ID :: string
  lvj_SnapshotID :: "string option"
  lvj_Type :: validation_type
  lvj_Executor :: string
  lvj_Status :: job_status
  lvj_StartedAt :: "int option"
  lvj_CompletedAt :: "int option"
  lvj_ResultSummary :: "string option"
  lvj_SnapshotName :: string
  lvj_DatasetPath :: string
  lvj_SourceName :: string
  lvj_PoolName :: string

definition validation_job_row :: "ValidationJob \<Rightarrow> Snapshot \<Rightarrow> dataset_names \<Rightarrow> ListLatestValidationJobsRow" where
  "validation_job_row v s j =
     \<lparr>lvj_ID = vj_ID v, lvj_SnapshotID = vj_SnapshotID v, lvj_Type = vj_Type v, lvj_Executor = vj_Executor v,
      lvj_Status = vj_Status v, lvj_StartedAt = vj_StartedAt v, lvj_CompletedAt = vj_CompletedAt v,
      lvj_ResultSummary = vj_ResultSummary v, lvj_SnapshotName = sn_Name s,
      lvj_DatasetPath = ds_Path (dn_dataset j), lvj_SourceName = dn_source j, lvj_PoolName = dn_pool j\<rparr>"

text \<open>The joins drop a job whose snapshot column is NULL.\<close>

definition join_job :: "catalog \<Rightarrow> ValidationJob \<Rightarrow> ListLatestValidationJobsRow option" where
  "join_job c v =
     (case vj_SnapshotID v of
        None \<Rightarrow> None
      | Some i \<Rightarrow>
          (case find (\<lambda>s. sn_ID s = i) (snapshots c) of
             None \<Rightarrow> None
           | Some s \<Rightarrow> map_option (validation_job_row v s) (join_dataset c (sn_DatasetID s))))"

text \<open>A descending sort on a nullable time, \<open>None\<close> (the empty text) last.\<close>

definition sort_latest :: "('r \<Rightarrow> int option) \<Rightarrow> 'r list \<Rightarrow> 'r list" where
  "sort_latest key rows =
     sort_desc (\<lambda>r. the (key r)) (filter (\<lambda>r. key r \<noteq> None) rows) @ filter (\<lambda>r. key r = None) rows"

definition job_time :: "ListLatestValidationJobsRow \<Rightarrow> int option" where
  "job_time v = (case lvj_CompletedAt v of None \<Rightarrow> lvj_StartedAt v | t \<Rightarrow> t)"

definition q_ListLatestValidationJobs :: "int \<Rightarrow> ListLatestValidationJobsRow list query" where
  "q_ListLatestValidationJobs lim now c =
     Inr (limit_rows lim (sort_latest job_time (List.map_filter (join_job c) (validation_jobs c))))"

record ListDatasetSummariesRow =
  lsu_DatasetID :: string
  lsu_SourceName :: string
  lsu_PoolName :: string
  lsu_DatasetPath :: string
  lsu_SnapshotCount :: int
  lsu_LatestSnapshotName :: string
  lsu_LatestChainValidSnapshotName :: string
  lsu_FailedValidationCount :: int
  lsu_StoredBytes :: int
  lsu_LatestUploadAt :: "int option"

definition completed_or_created :: "Snapshot \<Rightarrow> int" where
  "completed_or_created s = (case sn_UploadCompletedAt s of Some t \<Rightarrow> t | None \<Rightarrow> sn_CreatedAt s)"

definition latest_name :: "Snapshot list \<Rightarrow> string" where
  "latest_name rows = (case sort_desc completed_or_created rows of [] \<Rightarrow> [] | s # _ \<Rightarrow> sn_Name s)"

definition is_committed :: "Snapshot \<Rightarrow> bool" where
  "is_committed s \<longleftrightarrow> sn_Status s = SnapCommitted"

definition committed_bytes :: "Snapshot list \<Rightarrow> int" where
  "committed_bytes rows = sum_list (map sn_StoredBytes (filter is_committed rows))"

definition latest_upload :: "Snapshot list \<Rightarrow> int option" where
  "latest_upload rows = foldr (\<lambda>t acc. case acc of None \<Rightarrow> Some t | Some a \<Rightarrow> Some (max t a))
     (List.map_filter sn_UploadCompletedAt rows) None"

definition summary_row :: "catalog \<Rightarrow> dataset_names \<Rightarrow> ListDatasetSummariesRow" where
  "summary_row c j =
     (let rows = filter (\<lambda>s. sn_DatasetID s = ds_ID (dn_dataset j)) (snapshots c) in
      \<lparr>lsu_DatasetID = ds_ID (dn_dataset j), lsu_SourceName = dn_source j, lsu_PoolName = dn_pool j,
       lsu_DatasetPath = ds_Path (dn_dataset j), lsu_SnapshotCount = count_where is_committed rows,
       lsu_LatestSnapshotName = latest_name rows,
       lsu_LatestChainValidSnapshotName =
         latest_name (filter (\<lambda>s. is_committed s \<and> sn_ChainValidationStatus s = ValSucceeded) rows),
       lsu_FailedValidationCount =
         count_where (\<lambda>s. is_committed s \<and> sn_ChainValidationStatus s = ValFailed) rows,
       lsu_StoredBytes = committed_bytes rows, lsu_LatestUploadAt = latest_upload rows\<rparr>)"

definition summary_rows :: "catalog \<Rightarrow> ListDatasetSummariesRow list" where
  "summary_rows c = List.map_filter (\<lambda>d. map_option (summary_row c) (join_dataset c (ds_ID d))) (datasets c)"

text \<open>\<open>ORDER BY\<close> on four columns: the last one is sorted first.\<close>

definition order_summaries :: "ListDatasetSummariesRow list \<Rightarrow> ListDatasetSummariesRow list" where
  "order_summaries rows =
     sort_latest lsu_LatestUploadAt (sort_key lsu_SourceName (sort_key lsu_PoolName (sort_key lsu_DatasetPath rows)))"

definition q_ListDatasetSummaries :: "ListDatasetSummariesRow list query" where
  "q_ListDatasetSummaries now c =
     (let rows = summary_rows c in
      if list_all (\<lambda>r. in_int64 (lsu_StoredBytes r)) rows then Inr (order_summaries rows)
      else Inl (Errorf (msg ''integer overflow'') []))"

section \<open>Totals\<close>

lemma sort_desc_mset [simp]: "mset (sort_desc key rows) = mset rows"
  by (simp add: sort_desc_def)

lemma sort_latest_mset [simp]: "mset (sort_latest key rows) = mset rows"
  unfolding sort_latest_def mset_append sort_desc_mset by (induction rows) auto

lemma order_summaries_mset [simp]: "mset (order_summaries rows) = mset rows"
  by (simp add: order_summaries_def)

lemma sum_list_delta:
  fixes x :: int
  assumes "distinct ks" and "i \<in> set ks"
  shows "sum_list (map (\<lambda>d. if i = d then x + g d else g d) ks) = x + sum_list (map g ks)"
  using assms
proof (induction ks)
  case (Cons d ks)
  show ?case
  proof (cases "i = d")
    case True
    then have "map (\<lambda>d. if i = d then x + g d else g d) ks = map g ks" using Cons.prems by auto
    with True show ?thesis by (simp only: list.map sum_list.Cons if_True add.assoc refl)
  qed (use Cons in simp)
qed simp

text \<open>Rows summed by a key, and the sums summed.\<close>

lemma sum_list_by_key:
  fixes f :: "'r \<Rightarrow> int"
  assumes "distinct ks" and "k ` set rows \<subseteq> set ks"
  shows "sum_list (map (\<lambda>d. sum_list (map f (filter (\<lambda>r. k r = d) rows))) ks) = sum_list (map f rows)"
  using assms(2)
proof (induction rows)
  case (Cons r rows)
  let ?g = "\<lambda>d. sum_list (map f (filter (\<lambda>r. k r = d) rows))"
  have "map (\<lambda>d. sum_list (map f (filter (\<lambda>r. k r = d) (r # rows)))) ks = map (\<lambda>d. if k r = d then f r + ?g d else ?g d) ks"
    by simp
  moreover have "sum_list (map ?g ks) = sum_list (map f rows)" "k r \<in> set ks" using Cons by simp_all
  ultimately show ?case using sum_list_delta [OF assms(1), of "k r" "f r" ?g] by (simp only: list.map sum_list.Cons)
qed simp

lemma count_where_sum: "count_where P rows = sum_list (map (\<lambda>r. if P r then 1 else 0) rows)"
  by (induction rows) (auto simp: count_where_def)

lemma committed_bytes_sum: "committed_bytes rows = sum_list (map (\<lambda>s. if is_committed s then sn_StoredBytes s else 0) rows)"
  by (induction rows) (auto simp: committed_bytes_def)

lemma find_some_row: "i \<in> key ` set rows \<Longrightarrow> \<exists>r. find (\<lambda>x. key x = i) rows = Some r"
  by (induction rows) auto

text \<open>Each dataset of a sound catalog has its names.\<close>

lemma join_own_dataset:
  assumes "catalog_ok c" and "d \<in> set (datasets c)"
  shows "\<exists>j. join_dataset c (ds_ID d) = Some j \<and> dn_dataset j = d"
proof -
  have ok: "distinct (map ds_ID (datasets c))" "ds_SourceID d \<in> src_ID ` set (sources c)" "ds_PoolID d \<in> pl_ID ` set (pools c)"
    using assms by (auto simp: catalog_ok_def unique_ok_def references_ok_def)
  show ?thesis
    using find_Some_iff_mem [OF ok(1) assms(2)] find_some_row [OF ok(2)] find_some_row [OF ok(3)]
    by (auto simp: join_dataset_def)
qed

lemma map_filter_total:
  assumes "\<And>x. x \<in> set xs \<Longrightarrow> f x = Some (g x)"
  shows "List.map_filter f xs = map g xs"
  using assms by (induction xs) (auto simp: List.map_filter_def)

text \<open>One row per dataset, computed from the snapshots of the dataset.\<close>

definition dataset_summary :: "catalog \<Rightarrow> Dataset \<Rightarrow> ListDatasetSummariesRow" where
  "dataset_summary c d = summary_row c (the (join_dataset c (ds_ID d)))"

lemma summary_rows_total:
  assumes "catalog_ok c"
  shows "summary_rows c = map (dataset_summary c) (datasets c)"
  unfolding summary_rows_def
proof (rule map_filter_total)
  fix d
  assume "d \<in> set (datasets c)"
  then obtain j where "join_dataset c (ds_ID d) = Some j" using join_own_dataset [OF assms] by blast
  then show "map_option (summary_row c) (join_dataset c (ds_ID d)) = Some (dataset_summary c d)"
    by (simp add: dataset_summary_def)
qed

lemma dataset_summary_fields:
  assumes "catalog_ok c" and "d \<in> set (datasets c)"
  defines "rows \<equiv> filter (\<lambda>s. sn_DatasetID s = ds_ID d) (snapshots c)"
  shows "lsu_DatasetID (dataset_summary c d) = ds_ID d"
    and "lsu_SnapshotCount (dataset_summary c d) = count_where is_committed rows"
    and "lsu_StoredBytes (dataset_summary c d) = committed_bytes rows"
    and "lsu_FailedValidationCount (dataset_summary c d) =
      count_where (\<lambda>s. is_committed s \<and> sn_ChainValidationStatus s = ValFailed) rows"
    and "lsu_LatestSnapshotName (dataset_summary c d) = latest_name rows"
    and "lsu_LatestUploadAt (dataset_summary c d) = latest_upload rows"
  using join_own_dataset [OF assms(1,2)] by (auto simp: dataset_summary_def summary_row_def rows_def Let_def)

lemma sum_over_datasets:
  fixes f :: "Snapshot \<Rightarrow> int"
  assumes ok: "catalog_ok c" and F: "\<And>d. d \<in> set (datasets c) \<Longrightarrow>
    F (dataset_summary c d) = sum_list (map f (filter (\<lambda>s. sn_DatasetID s = ds_ID d) (snapshots c)))"
  shows "sum_list (map F (summary_rows c)) = sum_list (map f (snapshots c))"
proof -
  have "map F (summary_rows c) =
      map (\<lambda>i. sum_list (map f (filter (\<lambda>s. sn_DatasetID s = i) (snapshots c)))) (map ds_ID (datasets c))"
    using F by (simp add: summary_rows_total [OF ok])
  moreover have "distinct (map ds_ID (datasets c))" "sn_DatasetID ` set (snapshots c) \<subseteq> set (map ds_ID (datasets c))"
    using ok by (auto simp: catalog_ok_def unique_ok_def references_ok_def)
  ultimately show ?thesis using sum_list_by_key by metis
qed

lemma sum_list_mset_eq: "mset xs = mset ys \<Longrightarrow> sum_list (map F xs) = sum_list (map F ys :: int list)"
  by (metis mset_map sum_mset_sum_list)

lemma summaries_totals:
  assumes ok: "catalog_ok c" and rows: "q_ListDatasetSummaries now c = Inr rows"
  shows "mset (map lsu_DatasetID rows) = mset (map ds_ID (datasets c))"
    and "sum_list (map lsu_SnapshotCount rows) = count_where is_committed (snapshots c)"
    and "sum_list (map lsu_StoredBytes rows) = committed_bytes (snapshots c)"
    and "sum_list (map lsu_FailedValidationCount rows) =
      count_where (\<lambda>s. is_committed s \<and> sn_ChainValidationStatus s = ValFailed) (snapshots c)"
proof -
  have m: "mset rows = mset (summary_rows c)"
    using rows by (auto simp: q_ListDatasetSummaries_def Let_def split: if_splits)
  note field = dataset_summary_fields [OF ok]
  have "map lsu_DatasetID (summary_rows c) = map ds_ID (datasets c)"
    by (simp add: summary_rows_total [OF ok] field)
  then show "mset (map lsu_DatasetID rows) = mset (map ds_ID (datasets c))" using m by (metis mset_map)
  show "sum_list (map lsu_SnapshotCount rows) = count_where is_committed (snapshots c)"
    unfolding sum_list_mset_eq [OF m] count_where_sum by (rule sum_over_datasets [OF ok]) (simp add: field count_where_sum)
  show "sum_list (map lsu_StoredBytes rows) = committed_bytes (snapshots c)"
    unfolding sum_list_mset_eq [OF m] committed_bytes_sum
    by (rule sum_over_datasets [OF ok]) (simp add: field committed_bytes_sum)
  show "sum_list (map lsu_FailedValidationCount rows) =
      count_where (\<lambda>s. is_committed s \<and> sn_ChainValidationStatus s = ValFailed) (snapshots c)"
    unfolding sum_list_mset_eq [OF m] count_where_sum by (rule sum_over_datasets [OF ok]) (simp add: field count_where_sum)
qed

text \<open>
  C20. The dashboard agrees with itself: the list of datasets has each dataset once, and its columns add up to
  the totals the other queries count, snapshots, failed validations and stored bytes.
\<close>

theorem summaries_agree:
  assumes "catalog_ok c" and "q_ListDatasetSummaries now c = Inr rows"
  shows "mset (map lsu_DatasetID rows) = mset (map ds_ID (datasets c)) \<and>
    q_CountDatasets now c = Inr (int (length rows)) \<and>
    q_CountCommittedSnapshots now c = Inr (sum_list (map lsu_SnapshotCount rows)) \<and>
    q_CountFailedValidations now c = Inr (sum_list (map lsu_FailedValidationCount rows)) \<and>
    q_SumStoredBytes now c =
      (let total = sum_list (map lsu_StoredBytes rows) in
       if in_int64 total then Inr total else Inl (Errorf (msg ''integer overflow'') []))"
proof -
  note t = summaries_totals [OF assms]
  have "length rows = length (datasets c)" using t(1) by (metis length_map size_mset)
  then show ?thesis using t
    by (simp add: q_CountDatasets_def q_CountCommittedSnapshots_def q_CountFailedValidations_def q_SumStoredBytes_def
        count_where_def is_committed_def [abs_def] committed_bytes_def Let_def)
qed

lemma sample_summaries: "\<exists>rows. q_ListDatasetSummaries 0 sample_catalog = Inr rows \<and> length rows = 1 \<and> sum_list (map lsu_SnapshotCount rows) = 2"
  by (simp add: q_ListDatasetSummaries_def summary_rows_def List.map_filter_def join_dataset_def sample_catalog_def empty_catalog_def
    summary_row_def count_where_def is_committed_def sample_snapshot_def committed_bytes_def Let_def in_int64_def
    order_summaries_def sort_latest_def latest_upload_def sort_desc_def)

theorem summaries_agree_witness:
  "\<exists>rows. q_ListDatasetSummaries 0 sample_catalog = Inr rows \<and> length rows = 1 \<and>
    q_CountCommittedSnapshots 0 sample_catalog = Inr 2"
proof -
  obtain rows where r: "q_ListDatasetSummaries 0 sample_catalog = Inr rows" "length rows = 1" "sum_list (map lsu_SnapshotCount rows) = 2"
    using sample_summaries by blast
  then show ?thesis using summaries_agree [OF sample_catalog_ok r(1)] by simp
qed

end
