(* ===== verification/Rate_Limit.thy ===== *)
theory Rate_Limit
  imports Go_Float
begin

text \<open>
  The token bucket in front of an upload (\<open>src/internal/sshserver/rate_limit.go\<close>). Times and
  durations are in nanoseconds. What a read sees of the clock and the context is a schedule: the
  times at which the loop looks at the clock, and whether the context ends during the wait after it.
\<close>

section \<open>Definitions\<close>

record sessionOptions =
  so_requestedUploadRateBytesPerSecond :: int
  so_hasRequestedUploadRate :: bool
  so_err :: "error option"

definition effectiveUploadRate :: "int \<Rightarrow> sessionOptions \<Rightarrow> int" where
  "effectiveUploadRate configured options =
     (let requested = so_requestedUploadRateBytesPerSecond options in
      if configured \<le> 0 then requested
      else if \<not> so_hasRequestedUploadRate options \<or> requested \<le> 0 \<or> requested \<ge> configured then configured
      else requested)"

definition minUploadBurstBytes :: int where "minUploadBurstBytes = 32 * 1024"

definition maxUploadBurstBytes :: int where "maxUploadBurstBytes = 1024 * 1024"

record rateLimitedReader =
  rl_bytesPerSecond :: int
  rl_burstBytes :: int
  rl_tokens :: float64
  rl_lastRefill :: int

text \<open>\<open>None\<close>: the reader is returned as it is.\<close>

definition newRateLimitedReader :: "int \<Rightarrow> int \<Rightarrow> rateLimitedReader option" where
  "newRateLimitedReader now bytesPerSecond =
     (if bytesPerSecond \<le> 0 then None
      else
        let burst = bytesPerSecond div 4;
            burst = (if burst < minUploadBurstBytes then minUploadBurstBytes else burst);
            burst = (if burst > maxUploadBurstBytes then maxUploadBurstBytes else burst)
        in Some \<lparr>rl_bytesPerSecond = bytesPerSecond, rl_burstBytes = burst, rl_tokens = f_of_int burst,
                 rl_lastRefill = now\<rparr>)"

definition duration_Seconds :: "int \<Rightarrow> float64" where
  "duration_Seconds d = f_add (f_of_int (d div 1000000000)) (f_div (f_of_int (d mod 1000000000)) (f_of_int 1000000000))"

definition refill :: "rateLimitedReader \<Rightarrow> int \<Rightarrow> rateLimitedReader" where
  "refill r now =
     (if now < rl_lastRefill r then r\<lparr>rl_lastRefill := now\<rparr>
      else r\<lparr>rl_tokens := math_Min (f_of_int (rl_burstBytes r))
               (f_add (rl_tokens r) (f_mul (duration_Seconds (now - rl_lastRefill r)) (f_of_int (rl_bytesPerSecond r)))),
             rl_lastRefill := now\<rparr>)"

text \<open>
  \<open>Read\<close> of a buffer of \<open>len\<close> bytes: \<open>src n s\<close> is a read of up to \<open>n\<close> bytes from the reader below.
  The result is \<open>None\<close> when the schedule ends while the loop still waits.
\<close>

fun limited_Read ::
  "(nat \<Rightarrow> 'r \<Rightarrow> (bytes \<times> error option) \<times> 'r) \<Rightarrow> (int \<times> error option) list \<Rightarrow> nat \<Rightarrow> rateLimitedReader \<Rightarrow> 'r \<Rightarrow>
   ((bytes \<times> error option) \<times> rateLimitedReader \<times> 'r) option" where
  "limited_Read src sched 0 r s = (case src 0 s of (res, s') \<Rightarrow> Some (res, r, s'))"
| "limited_Read src [] (Suc n) r s = None"
| "limited_Read src ((now, ended) # sched) (Suc n) r s =
     (let r = refill r now in
      if f_le (Fin 1) (rl_tokens r) then
        let allowed = min (int (Suc n)) (float_to_int64 (\<lambda>_. 0) (rl_tokens r));
            tokens = f_sub (rl_tokens r) (f_of_int allowed) in
        case src (nat allowed) s of ((data, err), s') \<Rightarrow>
          let got = int (length data);
              tokens = (if got < allowed
                        then math_Min (f_of_int (rl_burstBytes r)) (f_add tokens (f_of_int (allowed - got)))
                        else tokens)
          in Some ((data, err), r\<lparr>rl_tokens := tokens\<rparr>, s')
      else case ended of
        Some e \<Rightarrow> Some (([], Some e), r, s)
      | None \<Rightarrow> limited_Read src sched (Suc n) r s)"

section \<open>The bucket\<close>

text \<open>The tokens are a finite number between zero and the burst, which is at most a mebibyte.\<close>

definition bucket_ok :: "rateLimitedReader \<Rightarrow> bool" where
  "bucket_ok r \<longleftrightarrow> 0 < rl_bytesPerSecond r \<and> rl_bytesPerSecond r < 2 ^ 63 \<and> minUploadBurstBytes \<le> rl_burstBytes r \<and> rl_burstBytes r \<le> maxUploadBurstBytes \<and>
     (\<exists>x. rl_tokens r = Fin x \<and> 0 \<le> x \<and> x \<le> of_int (rl_burstBytes r))"

definition nonneg :: "float64 \<Rightarrow> bool" where
  "nonneg f \<longleftrightarrow> f = Inf False \<or> (\<exists>x. f = Fin x \<and> 0 \<le> x)"

lemma nonneg_round: "0 \<le> x \<Longrightarrow> nonneg (round64 x)"
  by (rule round64_nonneg [of x]) (auto simp: nonneg_def)

lemma f_of_int_small: "\<bar>n\<bar> \<le> 2 ^ 53 \<Longrightarrow> f_of_int n = Fin (of_int n)"
  unfolding f_of_int_def
proof (rule round64_small)
  assume n: "\<bar>n\<bar> \<le> 2 ^ 53"
  then show "round_rat (of_int n) = of_int n" by simp
  have "\<bar>of_int n :: rat\<bar> \<le> of_int (2 ^ 53)" using n by (metis of_int_abs of_int_le_iff)
  also have "\<dots> \<le> 2 ^ 100" by simp
  finally show "\<bar>of_int n :: rat\<bar> \<le> 2 ^ 100" .
qed

lemma nonneg_add: "nonneg a \<Longrightarrow> nonneg b \<Longrightarrow> nonneg (f_add a b)"
  by (auto simp: nonneg_def) (metis add_nonneg_nonneg nonneg_def nonneg_round)

lemma nonneg_of_int: "0 \<le> n \<Longrightarrow> nonneg (f_of_int n)"
  by (simp add: f_of_int_def nonneg_round)

lemma math_Min_nonneg:
  assumes "nonneg f" and "0 \<le> b"
  shows "\<exists>x. math_Min (Fin b) f = Fin x \<and> 0 \<le> x \<and> x \<le> b"
  using assms by (auto simp: nonneg_def math_Min_def)

lemma f_of_rate:
  assumes "0 < n" and "n < 2 ^ 63"
  shows "\<exists>y. f_of_int n = Fin y \<and> 1 \<le> y"
proof -
  have "(of_int n :: rat) \<le> of_int (2 ^ 63)" using assms(2) by (simp only: of_int_le_iff)
  also have "\<dots> = of_int (2 ^ 53) * pow2 10" by (simp add: pow2_def)
  finally have "round_rat (of_int n) \<le> round_rat (of_int (2 ^ 53) * pow2 10)" by (rule round_rat_mono)
  also have "\<dots> = 2 ^ 63" using round_pos_representable [of "2 ^ 53" 10] by (simp add: round_rat_def pow2_def)
  finally have "round_rat (of_int n) \<le> 2 ^ 63" .
  moreover have "round_rat (of_int 1) \<le> round_rat (of_int n)" by (rule round_rat_mono) (use assms(1) in simp)
  then have "1 \<le> round_rat (of_int n)" using round_rat_int [of 1] by simp
  ultimately have "f_of_int n = Fin (round_rat (of_int n))"
    unfolding f_of_int_def by (intro round64_small) simp_all
  then show ?thesis using \<open>1 \<le> round_rat (of_int n)\<close> by blast
qed

lemma nonneg_Seconds: "0 \<le> d \<Longrightarrow> nonneg (duration_Seconds d)"
proof -
  assume d: "0 \<le> d"
  have m: "0 \<le> d mod 1000000000" "d mod 1000000000 < 1000000000" by simp_all
  have "f_of_int (d mod 1000000000) = Fin (of_int (d mod 1000000000))" "f_of_int 1000000000 = Fin (of_int 1000000000)"
    using m by (simp_all add: f_of_int_small)
  then have "nonneg (f_div (f_of_int (d mod 1000000000)) (f_of_int 1000000000))" using m by (simp add: nonneg_round)
  moreover have "nonneg (f_of_int (d div 1000000000))" using d by (intro nonneg_of_int) (simp add: pos_imp_zdiv_nonneg_iff)
  ultimately show ?thesis by (simp add: duration_Seconds_def nonneg_add)
qed

lemma nonneg_mul: "nonneg a \<Longrightarrow> 1 \<le> y \<Longrightarrow> nonneg (f_mul a (Fin y))"
  by (auto simp: nonneg_def) (metis mult_nonneg_nonneg nonneg_def nonneg_round order_trans zero_le_one)

lemma bucket_burst: "bucket_ok r \<Longrightarrow> f_of_int (rl_burstBytes r) = Fin (of_int (rl_burstBytes r)) \<and> 0 < rl_burstBytes r"
  by (auto simp: bucket_ok_def minUploadBurstBytes_def maxUploadBurstBytes_def intro!: f_of_int_small)

lemma bucket_ok_refill: "bucket_ok r \<Longrightarrow> bucket_ok (refill r now)"
proof -
  assume r: "bucket_ok r"
  let ?more = "f_add (rl_tokens r) (f_mul (duration_Seconds (now - rl_lastRefill r)) (f_of_int (rl_bytesPerSecond r)))"
  obtain y where y: "f_of_int (rl_bytesPerSecond r) = Fin y" "1 \<le> y" using f_of_rate r by (auto simp: bucket_ok_def)
  have "nonneg (rl_tokens r)" using r by (auto simp: bucket_ok_def nonneg_def)
  then have "rl_lastRefill r \<le> now \<Longrightarrow> nonneg ?more" using nonneg_Seconds [of "now - rl_lastRefill r"] y
    by (simp add: nonneg_add nonneg_mul)
  then have "rl_lastRefill r \<le> now \<Longrightarrow> \<exists>x. math_Min (f_of_int (rl_burstBytes r)) ?more = Fin x \<and> 0 \<le> x \<and> x \<le> of_int (rl_burstBytes r)"
    using math_Min_nonneg bucket_burst [OF r] by simp
  then show ?thesis using r by (auto simp: bucket_ok_def refill_def)
qed

text \<open>Taking whole tokens out of the bucket, and putting some of them back.\<close>

lemma take_tokens:
  assumes "bucket_ok r" and "rl_tokens r = Fin x" and "0 \<le> a" and "of_int a \<le> x"
  shows "\<exists>y. f_sub (rl_tokens r) (f_of_int a) = Fin y \<and> 0 \<le> y \<and> y \<le> of_int (rl_burstBytes r)"
proof -
  let ?b = "rl_burstBytes r"
  have x: "x \<le> of_int ?b" and b: "0 < ?b" "?b \<le> 2 ^ 20"
    using assms(1,2) by (auto simp: bucket_ok_def minUploadBurstBytes_def maxUploadBurstBytes_def)
  have "(of_int a :: rat) \<le> of_int ?b" using assms(4) x by linarith
  then have "a \<le> ?b" by simp
  then have a: "f_of_int a = Fin (of_int a)" using assms(3) b by (intro f_of_int_small) simp
  have "round_rat (of_int 0) \<le> round_rat (x - of_int a)" "round_rat (x - of_int a) \<le> round_rat (of_int ?b)"
    using assms(3,4) x by (auto intro!: round_rat_mono)
  then have y: "0 \<le> round_rat (x - of_int a)" "round_rat (x - of_int a) \<le> of_int ?b"
    using round_rat_int [of 0] round_rat_int [of ?b] b by simp_all
  have "(of_int ?b :: rat) \<le> of_int (2 ^ 20)" using b(2) by (simp only: of_int_le_iff)
  also have "(of_int (2 ^ 20) :: rat) \<le> 2 ^ 100" by simp
  finally have "\<bar>round_rat (x - of_int a)\<bar> \<le> 2 ^ 100" using y by simp
  then have "f_sub (rl_tokens r) (f_of_int a) = Fin (round_rat (x - of_int a))"
    unfolding a assms(2) f_sub_def by (simp add: round64_small)
  then show ?thesis using y by blast
qed

section \<open>Properties\<close>

lemma bucket_allowance:
  assumes "bucket_ok r" and "f_le (Fin 1) (rl_tokens r)"
  obtains x a where "rl_tokens r = Fin x" and "float_to_int64 (\<lambda>_. 0) (rl_tokens r) = a" and "1 \<le> a"
    and "of_int a \<le> x" and "a \<le> rl_burstBytes r"
proof -
  obtain x where x: "rl_tokens r = Fin x" "x \<le> of_int (rl_burstBytes r)" "rl_burstBytes r \<le> maxUploadBurstBytes"
    using assms(1) by (auto simp: bucket_ok_def)
  have one: "1 \<le> x" using assms(2) x(1) by (auto simp: f_le_def)
  have fl: "1 \<le> floor x" "of_int (floor x) \<le> x" "floor x \<le> rl_burstBytes r"
    using one x(2) by (simp_all add: le_floor_iff) linarith
  have "in_int64 k" if "1 \<le> k" "k \<le> maxUploadBurstBytes" for k
    using that by (simp add: in_int64_def maxUploadBurstBytes_def)
  then have "in_int64 (floor x)" using fl x(3) order_trans by blast
  then have "float_to_int64 (\<lambda>_. 0) (rl_tokens r) = floor x" using x(1) one by (simp add: rat_trunc_def)
  with x(1) fl that show thesis by blast
qed

lemma limited_Read_step:
  assumes "bucket_ok r" and "\<forall>n t. length (fst (fst (src n t))) \<le> n" and "0 < len"
    and "limited_Read src sched len r s = Some ((data, err), r', s')"
  shows "bucket_ok r' \<and> rl_burstBytes r' = rl_burstBytes r \<and> length data \<le> len \<and> int (length data) \<le> rl_burstBytes r \<and>
    ((\<exists>n \<ge> 1. src n s = ((data, err), s')) \<or> data = [] \<and> s' = s \<and> (\<exists>now e. err = Some e \<and> (now, Some e) \<in> set sched))"
  using assms
proof (induction src sched len r s rule: limited_Read.induct)
  case (3 src now ended sched n r s)
  let ?r = "refill r now"
  have ok: "bucket_ok ?r" using "3.prems"(1) by (rule bucket_ok_refill)
  have same: "rl_burstBytes ?r = rl_burstBytes r" by (simp add: refill_def)
  show ?case
  proof (cases "f_le (Fin 1) (rl_tokens ?r)")
    case True
    obtain x a where a: "rl_tokens ?r = Fin x" "float_to_int64 (\<lambda>_. 0) (rl_tokens ?r) = a" "1 \<le> a" "of_int a \<le> x"
        "a \<le> rl_burstBytes ?r" using bucket_allowance [OF ok True] .
    let ?al = "min (int (Suc n)) a"
    obtain d e t where src: "src (nat ?al) s = ((d, e), t)" by (metis prod.exhaust)
    have len: "length d \<le> nat ?al" using "3.prems"(2) src by (metis fst_conv)
    have "of_int ?al \<le> x" using a(4) by linarith
    then obtain y where y: "f_sub (rl_tokens ?r) (f_of_int ?al) = Fin y" "0 \<le> y" "y \<le> of_int (rl_burstBytes ?r)"
      using take_tokens [OF ok a(1), of ?al] a(3) by auto
    let ?returned = "math_Min (f_of_int (rl_burstBytes ?r)) (f_add (Fin y) (f_of_int (?al - int (length d))))"
    have "nonneg (f_add (Fin y) (f_of_int (?al - int (length d))))" if "int (length d) < ?al"
      using that y(2) by (intro nonneg_add nonneg_of_int) (simp_all add: nonneg_def)
    then have putback: "\<exists>z. ?returned = Fin z \<and> 0 \<le> z \<and> z \<le> of_int (rl_burstBytes ?r)" if "int (length d) < ?al"
      using math_Min_nonneg that bucket_burst [OF ok] by (metis less_imp_le of_int_0_le_iff)
    have res: "data = d" "err = e" "s' = t"
      "r' = ?r\<lparr>rl_tokens := if int (length d) < ?al then ?returned else Fin y\<rparr>"
      using "3.prems"(4) True a(2) src y(1) by (auto simp: Let_def)
    have "bucket_ok r'" using ok y putback unfolding res(4) by (auto simp: bucket_ok_def)
    moreover have "1 \<le> nat ?al" using a(3) by simp
    ultimately show ?thesis using res src len a(3,5) same by (auto simp: le_nat_iff)
  next
    case False
    then show ?thesis
      using 3 ok same bucket_burst [OF ok] by (cases "ended") (auto simp: Let_def)
  qed
qed simp_all

text \<open>
  C32. One read through the limiter: over a reader that keeps to its contract it hands on what a single
  read of at most the requested size gave, or nothing when the context has ended; never more than the
  burst, which is between 32 KiB and 1 MiB; and the bucket stays between empty and full, rounding of
  the floating-point arithmetic included.
\<close>

theorem limited_Read_bounded:
  assumes "bucket_ok r" and "\<forall>n t. length (fst (fst (src n t))) \<le> n" and "0 < len"
    and "limited_Read src sched len r s = Some ((data, err), r', s')"
  shows "bucket_ok r' \<and> rl_burstBytes r' = rl_burstBytes r \<and> length data \<le> len \<and> int (length data) \<le> rl_burstBytes r \<and>
    ((\<exists>n \<ge> 1. src n s = ((data, err), s')) \<or> data = [] \<and> s' = s \<and> (\<exists>now e. err = Some e \<and> (now, Some e) \<in> set sched))"
  using assms by (rule limited_Read_step)

text \<open>\<open>io.EOF\<close> and \<open>io.ErrUnexpectedEOF\<close>.\<close>

definition ErrEOF :: error where
  "ErrEOF = Errorf (msg ''EOF'') []"

definition ErrUnexpectedEOF :: error where
  "ErrUnexpectedEOF = Errorf (msg ''unexpected EOF'') []"

text \<open>
  A byte stream as a reader: it hands out its bytes and then its error, \<open>io.EOF\<close> when it has none.
\<close>

definition stream_Read :: "nat \<Rightarrow> bytes \<times> error option \<Rightarrow> (bytes \<times> error option) \<times> bytes \<times> error option" where
  "stream_Read n s =
     (case s of (data, err) \<Rightarrow>
      if n = 0 then (([], None), s)
      else if data = [] then (([], Some (case err of None \<Rightarrow> ErrEOF | Some e \<Rightarrow> e)), s)
      else ((take n data, None), (drop n data, err)))"

text \<open>Reads one after the other until an error: what they gave, and the error.\<close>

fun limited_reads ::
  "((int \<times> error option) list \<times> nat) list \<Rightarrow> rateLimitedReader \<Rightarrow> bytes \<times> error option \<Rightarrow> bytes \<times> error option" where
  "limited_reads [] r s = ([], None)"
| "limited_reads ((sched, len) # calls) r s =
     (case limited_Read stream_Read sched len r s of
        None \<Rightarrow> ([], None)
      | Some ((data, Some e), r', s') \<Rightarrow> (data, Some e)
      | Some ((data, None), r', s') \<Rightarrow> (case limited_reads calls r' s' of (rest, err) \<Rightarrow> (data @ rest, err)))"

lemma stream_Read_contract: "\<forall>n t. length (fst (fst (stream_Read n t))) \<le> n"
  by (auto simp: stream_Read_def split: prod.splits)

lemma limited_reads_stream:
  assumes "bucket_ok r" and "\<forall>(sched, len) \<in> set calls. 0 < len"
    and "limited_reads calls r (data, err) = (out, res)"
  shows "\<exists>rest. data = out @ rest \<and>
    (res = None \<or> res = Some (case err of None \<Rightarrow> ErrEOF | Some e \<Rightarrow> e) \<and> rest = [] \<or>
     (\<exists>sched len now. (sched, len) \<in> set calls \<and> (now, res) \<in> set sched))"
  using assms
proof (induction calls arbitrary: r data out)
  case (Cons call calls)
  obtain sched len where call: "call = (sched, len)" by (rule prod.exhaust)
  have len: "0 < len" using Cons.prems(2) call by simp
  show ?case
  proof (cases "limited_Read stream_Read sched len r (data, err)")
    case None
    then show ?thesis using Cons.prems(3) call by auto
  next
    case (Some res1)
    obtain d e r' d' err' where res1: "res1 = ((d, e), r', (d', err'))" by (metis prod.exhaust)
    note one = limited_Read_step [OF Cons.prems(1) stream_Read_contract len Some [unfolded res1]]
    have from_stream: "data = d @ d' \<and> err' = err \<and> (e = None \<or> d = [] \<and> data = [] \<and> e = Some (case err of None \<Rightarrow> ErrEOF | Some e \<Rightarrow> e))
        \<or> d = [] \<and> (\<exists>now. e \<noteq> None \<and> (now, e) \<in> set sched)"
      using one by (auto simp: stream_Read_def split: if_splits)
    show ?thesis
    proof (cases e)
      case None
      obtain rest where "limited_reads calls r' (d', err) = (rest, res)" and out: "out = d @ rest"
        using Cons.prems(3) Some res1 None call from_stream by (auto split: prod.splits)
      from Cons.IH [OF _ _ this(1)] one Cons.prems(2) from_stream None show ?thesis unfolding out call by fastforce
    next
      case e: (Some x)
      then show ?thesis using Cons.prems(3) Some res1 call from_stream by auto
    qed
  qed
qed simp

text \<open>
  The limiter changes nothing but the pace: whatever the schedule and the sizes of the reads, what
  comes through is the beginning of the stream, and when the reads end with an error that is not the
  context's, it is the whole stream and the error is the stream's own.
\<close>

theorem limited_reads_unchanged:
  assumes "bucket_ok r" and "\<forall>(sched, len) \<in> set calls. 0 < len"
    and "limited_reads calls r (data, err) = (out, res)"
  shows "\<exists>rest. data = out @ rest \<and>
    (res = None \<or> res = Some (case err of None \<Rightarrow> ErrEOF | Some e \<Rightarrow> e) \<and> rest = [] \<or>
     (\<exists>sched len now. (sched, len) \<in> set calls \<and> (now, res) \<in> set sched))"
  using assms by (rule limited_reads_stream)

text \<open>
  A whole stream through the limiter, as its receiver sees it: the bytes and the error at their end,
  \<open>None\<close> for end of file. Reads that are never made leave it unfinished.
\<close>

definition limiter_pace :: "((int \<times> error option) list \<times> nat) list \<Rightarrow> rateLimitedReader \<Rightarrow> bytes \<times> error option \<Rightarrow>
    bytes \<times> error option" where
  "limiter_pace calls r stream =
     (case limited_reads calls r stream of (out, res) \<Rightarrow>
        (out, case res of None \<Rightarrow> Some ErrUnexpectedEOF | Some e \<Rightarrow> if e = ErrEOF then None else Some e))"

definition paces :: "(bytes \<times> error option \<Rightarrow> bytes \<times> error option) \<Rightarrow> bool" where
  "paces pace \<longleftrightarrow> (\<forall>stream. (\<exists>rest. fst stream = fst (pace stream) @ rest) \<and>
     (snd (pace stream) = None \<longrightarrow> fst (pace stream) = fst stream))"

lemma paces_length: "paces pace \<Longrightarrow> length (fst (pace stream)) \<le> length (fst stream)"
  by (metis paces_def length_append le_add1)

lemma limiter_paces:
  assumes "bucket_ok r" and "\<forall>(sched, len) \<in> set calls. 0 < len \<and> (\<forall>(now, e) \<in> set sched. e \<noteq> Some ErrEOF)"
  shows "paces (limiter_pace calls r)"
  unfolding paces_def
proof
  fix stream :: "bytes \<times> error option"
  obtain data err where stream: "stream = (data, err)" by (rule prod.exhaust)
  obtain out res where run: "limited_reads calls r (data, err) = (out, res)" by (rule prod.exhaust)
  have pos: "\<forall>(sched, len) \<in> set calls. 0 < len" using assms(2) by auto
  obtain rest where rest: "data = out @ rest" and "res = Some ErrEOF \<longrightarrow> rest = []"
    using limited_reads_stream [OF assms(1) pos run] assms(2) by fastforce
  then show "(\<exists>rest. fst stream = fst (limiter_pace calls r stream) @ rest) \<and>
      (snd (limiter_pace calls r stream) = None \<longrightarrow> fst (limiter_pace calls r stream) = fst stream)"
    using stream run by (auto simp: limiter_pace_def split: option.splits if_splits)
qed

section \<open>Witnesses\<close>

definition fast_bucket :: rateLimitedReader where
  "fast_bucket = \<lparr>rl_bytesPerSecond = 1000000, rl_burstBytes = 250000, rl_tokens = Fin 250000, rl_lastRefill = 0\<rparr>"

lemma fast_bucket_ok: "bucket_ok fast_bucket"
  by (simp add: bucket_ok_def fast_bucket_def minUploadBurstBytes_def maxUploadBurstBytes_def)

lemma fast_refill: "refill fast_bucket 0 = fast_bucket"
proof -
  have "duration_Seconds 0 = Fin 0" by (simp add: duration_Seconds_def f_of_int_small round64_small round_rat_def round_pos_def)
  moreover have "round64 0 = Fin 0" "round64 250000 = Fin 250000"
    using round_rat_int [of 0] round_rat_int [of 250000] by (simp_all add: round64_small)
  ultimately show ?thesis by (simp add: refill_def fast_bucket_def f_of_int_small math_Min_def)
qed

lemma fast_read:
  "\<exists>r'. limited_Read stream_Read [(0, None)] 4 fast_bucket ([1, 2, 3], None) = Some (([1, 2, 3], None), r', ([], None))"
proof -
  have "float_to_int64 (\<lambda>_. 0) (Fin 250000) = 250000" by (simp add: rat_trunc_def in_int64_def)
  moreover have "f_le (Fin 1) (rl_tokens fast_bucket)" "rl_tokens fast_bucket = Fin 250000"
    by (simp_all add: f_le_def fast_bucket_def)
  ultimately show ?thesis
    using limited_Read.simps(3) [of stream_Read 0 None "[]" 3 fast_bucket "([1, 2, 3], None)"]
    by (simp add: fast_refill stream_Read_def Let_def del: limited_Read.simps)
qed

theorem limited_Read_bounded_witness:
  "\<exists>r'. limited_Read stream_Read [(0, None)] 4 fast_bucket ([1, 2, 3], None) = Some (([1, 2, 3], None), r', ([], None)) \<and>
    bucket_ok r'"
proof -
  obtain r' where run: "limited_Read stream_Read [(0, None)] 4 fast_bucket ([1, 2, 3], None) =
      Some (([1, 2, 3], None), r', ([], None))" using fast_read by blast
  have "(0 :: nat) < 4" by simp
  from run limited_Read_bounded [OF fast_bucket_ok stream_Read_contract this run] show ?thesis by blast
qed

theorem limited_reads_unchanged_witness:
  "\<exists>out res rest. limited_reads [([(0, None)], 4)] fast_bucket ([1, 2, 3], None) = (out, res) \<and> [1, 2, 3] = out @ rest"
proof -
  obtain out res where run: "limited_reads [([(0, None)], 4)] fast_bucket ([1, 2, 3], None) = (out, res)" by (rule prod.exhaust)
  have "\<forall>(sched, len) \<in> set [([(0, None)], 4)]. (0 :: nat) < len" by simp
  from run limited_reads_unchanged [OF fast_bucket_ok this run] show ?thesis by blast
qed

end
