(* ===== verification/Web_Format.thy ===== *)
theory Web_Format
  imports Web_Auth Catalog_Overview Rate_Limit
begin

text \<open>
  Texts of the web interface: redirects with their messages, sizes, rates and times
  (\<open>src/internal/web/format.go\<close>), and the shell commands it offers for a restore or a first upload
  (\<open>src/internal/web/commands.go\<close>). Times of catalog rows are milliseconds here, so parsing them back
  from their text is multiplication. Labels are ASCII.
\<close>

section \<open>Redirects\<close>

definition redirectDashboard :: "string \<Rightarrow> string \<Rightarrow> 'b response" where
  "redirectDashboard message errorMessage =
     (let vals = (if message \<noteq> [] then [''message='' @ urlQueryEscape message] else []) @
                 (if errorMessage \<noteq> [] then [''error='' @ urlQueryEscape errorMessage] else []) in
      SeeOther (''/'' @ (if vals \<noteq> [] then ''?'' @ join_with (CHR ''&'') vals else [])))"

text \<open>\<open>url.Values.Encode\<close> orders the parameters by name.\<close>

definition redirectSettings :: "string \<Rightarrow> string \<Rightarrow> 'b response" where
  "redirectSettings message errorMessage =
     (let encoded = join_with (CHR ''&'')
            ((if errorMessage \<noteq> [] then [''error='' @ urlQueryEscape errorMessage] else []) @
             (if message \<noteq> [] then [''message='' @ urlQueryEscape message] else [])) in
      SeeOther (''/settings'' @ (if encoded \<noteq> [] then ''?'' @ encoded else [])))"

section \<open>Numbers and times\<close>

definition formatBytes :: "int \<Rightarrow> string" where
  "formatBytes b =
     (let bytes = (if b < 0 then 0 else b) in
      case scale_units 5 (f_of_int bytes) 0 of (val, unit) \<Rightarrow>
        if unit = 0 then show_int bytes @ '' B''
        else TrimSuffix (float_text fmt_f1 val) ''.0'' @ '' '' @ [''B'', ''KB'', ''MB'', ''GB'', ''TB'', ''PB''] ! unit)"

definition formatNullBytes :: "int option \<Rightarrow> string" where
  "formatNullBytes b = (case b of None \<Rightarrow> [] | Some n \<Rightarrow> formatBytes n)"

definition formatBitrate :: "int \<Rightarrow> int \<Rightarrow> string" where
  "formatBitrate bytes elapsed =
     (if bytes \<le> 0 \<or> elapsed \<le> 0 then ''0 Mbps''
      else case scale_units 4 (f_div (f_mul (f_of_int bytes) (Fin 8)) (duration_Seconds elapsed)) 0 of (bps, unit) \<Rightarrow>
        let name = [''bps'', ''Kbps'', ''Mbps'', ''Gbps'', ''Tbps''] ! unit in
        if unit = 0 then float_text fmt_f0 bps @ '' '' @ name
        else TrimSuffix (float_text fmt_f1 bps) ''.0'' @ '' '' @ name)"

text \<open>\<open>time.Sub\<close> saturates.\<close>

definition time_Sub :: "int \<Rightarrow> int \<Rightarrow> int" where
  "time_Sub a b = max (- (2 ^ 63)) (min (2 ^ 63 - 1) (a - b))"

definition nanoseconds :: "int \<Rightarrow> int" where
  "nanoseconds ms = ms * 1000000"

record activeUploadView =
  au_SourceName :: string
  au_PoolName :: string
  au_DatasetPath :: string
  au_TargetSnapshotName :: string
  au_Status :: upload_status
  au_BytesReceived :: int
  au_ChunksCompleted :: int
  au_StartedAt :: int
  au_LastHeartbeatAt :: int
  au_Throughput :: string

definition activeUploadViews :: "ListActiveUploadsRow list \<Rightarrow> int \<Rightarrow> activeUploadView list" where
  "activeUploadViews rows now =
     map (\<lambda>row. \<lparr>au_SourceName = lau_SourceName row, au_PoolName = lau_PoolName row,
        au_DatasetPath = lau_DatasetPath row, au_TargetSnapshotName = lau_TargetSnapshotName row,
        au_Status = lau_Status row, au_BytesReceived = lau_BytesReceived row,
        au_ChunksCompleted = lau_ChunksCompleted row, au_StartedAt = lau_StartedAt row,
        au_LastHeartbeatAt = lau_LastHeartbeatAt row,
        au_Throughput = formatBitrate (lau_BytesReceived row) (time_Sub now (nanoseconds (lau_StartedAt row)))\<rparr>) rows"

definition formatDisplayTime :: "int option \<Rightarrow> string" where
  "formatDisplayTime t = (case t of None \<Rightarrow> [] | Some ms \<Rightarrow> format_display (nanoseconds ms))"

section \<open>Labels\<close>

definition to_upper_char :: "char \<Rightarrow> char" where
  "to_upper_char c = (let n = of_char c :: nat in if 97 \<le> n \<and> n \<le> 122 then char_of (n - 32) else c)"

definition humanLabel :: "string \<Rightarrow> string" where
  "humanLabel v =
     (case ReplaceChar (CHR ''_'') '' '' (TrimSpace v) of [] \<Rightarrow> [] | c # cs \<Rightarrow> to_upper_char c # cs)"

definition statusBadgeClass :: "string \<Rightarrow> string" where
  "statusBadgeClass status =
     (let v = ToLower (TrimSpace status) in
      if v \<in> {''succeeded'', ''healthy'', ''chain-valid'', ''committed'', ''0''} then ''badge-green''
      else if v \<in> {''failed'', ''error'', ''missing''} then ''badge-red''
      else ''badge-yellow'')"

definition countBadgeClass :: "int \<Rightarrow> string" where
  "countBadgeClass n = (if n > 0 then ''badge-red'' else ''badge-green'')"

section \<open>Commands\<close>

text \<open>
  \<open>sshUserAtDestinationRE\<close>: the last word of a command, when it is \<open>user@host\<close>. The white space of a
  regular expression does not include the vertical tab.
\<close>

definition blank_char :: "char \<Rightarrow> bool" where
  "blank_char c \<longleftrightarrow> of_char c \<in> {9, 10, 12, 13, 32 :: nat}"

definition replace_user :: "string \<Rightarrow> string" where
  "replace_user s =
     (let tok = rev (takeWhile (\<lambda>c. \<not> blank_char c) (rev s));
          pre = take (length s - length tok) s;
          user = takeWhile (\<lambda>c. c \<noteq> CHR ''@'') tok;
          rest = drop (length user) tok in
      if user \<noteq> [] \<and> length rest \<ge> 2 then pre @ ''restore@'' @ tl rest else s)"

definition restorable_row :: "ListSnapshotRestoreChainRow \<Rightarrow> bool" where
  "restorable_row item \<longleftrightarrow>
     rc_Status item = SnapCommitted \<and> rc_ManifestObjectKey item \<noteq> None \<and> rc_ManifestObjectKey item \<noteq> Some []"

text \<open>One command per row; a row that cannot be restored leaves none.\<close>

definition restoreCommandsFor :: "string \<Rightarrow> string \<Rightarrow> ListSnapshotRestoreChainRow list \<Rightarrow> string \<Rightarrow> string list" where
  "restoreCommandsFor poolName datasetPath chain sshCommandPrefix =
     (let command = replace_user (TrimSpace sshCommandPrefix);
          target = poolName @ ''/restored-'' @ ReplaceChar (CHR ''/'') ''-'' datasetPath in
      if list_all restorable_row chain
      then map (\<lambda>item. command @ '' restore-stream '' @ Quote (rc_ID item) @ '' | zfs recv -F '' @ Quote target) chain
      else [])"

definition restoreCommands :: "GetSnapshotDetailRow \<Rightarrow> ListSnapshotRestoreChainRow list \<Rightarrow> string \<Rightarrow> string list" where
  "restoreCommands snapshot chain sshCommandPrefix =
     restoreCommandsFor (gsd_PoolName snapshot) (gsd_DatasetPath snapshot) chain sshCommandPrefix"

definition nasKeygenScript :: string where
  "nasKeygenScript =
     ''mkdir -p ~/.ssh'' @ [CHR 0x0A] @
     ''ssh-keygen -t ed25519 -f ~/.ssh/zfs-s3nd -N '' @ [CHR 0x27, CHR 0x27] @ '' -C zfs-s3nd'' @ [CHR 0x0A] @
     ''cat ~/.ssh/zfs-s3nd.pub''"

definition uploadSSHCommandPrefix :: "WebServer \<Rightarrow> string" where
  "uploadSSHCommandPrefix sv =
     (let given = TrimSpace (ws_restoreSSHCommandPrefix sv);
          pre = (if given = [] then ''ssh [named_source]@<ssh-host>'' else given) in
      if pre = ''ssh'' then ''ssh''
      else if HasPrefix pre ''ssh '' then ''ssh '' @ TrimSpace (TrimPrefix pre ''ssh '')
      else pre)"

definition firstUploadScript :: "string \<Rightarrow> string" where
  "firstUploadScript sshCommand =
     TrimSpace (''zfs snapshot tank/photos@zs3-first'' @ [CHR 0x0A] @
       ''zfs send tank/photos@zs3-first | '' @ sshCommand)"

definition SetRestoreSSHCommandPrefix :: "WebServer \<Rightarrow> string \<Rightarrow> WebServer" where
  "SetRestoreSSHCommandPrefix sv p =
     (let pre = TrimSpace p in if pre = [] then sv else sv\<lparr>ws_restoreSSHCommandPrefix := pre\<rparr>)"

end
