(* ===== verification/Web_Pages.thy ===== *)
theory Web_Pages
  imports Web_Format App_Settings Validation
begin

text \<open>
  The handlers behind the middleware (\<open>datasets.go\<close>, \<open>dashboard.go\<close>, \<open>api.go\<close>, \<open>ssh_keys.go\<close>,
  \<open>api_tokens.go\<close>, \<open>settings.go\<close>, \<open>health.go\<close>, \<open>metrics.go\<close> under \<open>src/internal/web\<close>). A page is the data
  its template is given, with the message, the error and the token against cross-site requests beside it. A handler that starts a
  goroutine returns the job it starts; \<open>run_job\<close> is what the goroutine does. The clock is
  read once for the token of a page, also when there is no cookie.

  Parameters: \<open>ssh_lib\<close> for the keys of \<open>golang.org/x/crypto/ssh\<close>, the answer of GitHub to a request, the decoded
  JSON body of a request, and whether the program \<open>zstreamdump\<close> is found. The random source does not fail.
\<close>

section \<open>Pages\<close>

record 'd page =
  pg_Data :: 'd
  pg_Message :: string
  pg_Error :: string
  pg_CSRFToken :: string

definition render :: "(bytes \<Rightarrow> bytes) \<Rightarrow> WebServer \<Rightarrow> http_request \<Rightarrow> 'd \<Rightarrow> ('s world, 'd page response) state" where
  "render sha sv r d =
     State_Monad.bind time_Now (\<lambda>now.
     ret (Html \<lparr>pg_Data = d, pg_Message = hr_Query r ''message'', pg_Error = hr_Query r ''error'',
                pg_CSRFToken = csrfToken sha sv r now\<rparr>))"

text \<open>The idiom \<open>return data, fmt.Errorf("what: %w", err)\<close> around a query.\<close>

definition load_rows :: "string \<Rightarrow> 'a query \<Rightarrow> ('s world, 'a) prog" where
  "load_rows what q = wrapped (Wrapf (what @ msg '': %w'') []) (db_query q)"

definition server_error :: "error \<Rightarrow> ('s world, 'b response) state" where
  "server_error e = ret (HttpError 500 (error_text e))"

text \<open>The idiom \<open>http.Error(w, fmt.Sprintf("what: %v", err), 500)\<close>.\<close>

definition failed_to :: "string \<Rightarrow> error \<Rightarrow> ('s world, 'b response) state" where
  "failed_to what e = ret (HttpError 500 (what @ '': '' @ error_text e))"

definition not_found_or :: "string \<Rightarrow> error \<Rightarrow> ('s world, 'b response) state" where
  "not_found_or what e = (if e = ErrNoRows then ret NotFound else failed_to what e)"

section \<open>Dashboard and activity\<close>

record dashboardData =
  dd_SourceCount :: int
  dd_DatasetCount :: int
  dd_SnapshotCount :: int
  dd_FailedUploads :: int
  dd_FailedValidations :: int
  dd_StoredBytes :: int
  dd_ActiveUploads :: "activeUploadView list"
  dd_Operations :: "GetLatestOperationsRow list"
  dd_ValidationJobs :: "ListLatestValidationJobsRow list"
  dd_SSHKeys :: "SshKey list"
  dd_APITokens :: "ApiTokenRow list"
  dd_LatestBackup :: "CatalogBackup option"
  dd_Datasets :: "ListDatasetSummariesRow list"
  dd_NASKeygenScript :: string
  dd_FirstUploadScript :: string

definition load_latest_backup :: "('s world, CatalogBackup option) prog" where
  "load_latest_backup =
     check (db_query q_GetLatestCatalogBackup)
       (\<lambda>e. if e = ErrNoRows then ok None else throw (Wrapf (msg ''latest catalog backup: %w'') [] e))
       (\<lambda>b. ok (Some b))"

definition load_active_uploads :: "('s world, activeUploadView list) prog" where
  "load_active_uploads =
     check (load_rows ''active uploads'' q_ListActiveUploads) throw (\<lambda>rows.
     State_Monad.bind time_Now (\<lambda>now. ok (activeUploadViews rows now)))"

definition loadDashboard :: "('s world, dashboardData) prog" where
  "loadDashboard =
     check (load_rows ''count sources'' q_CountSources) throw (\<lambda>sourceCount.
     check (load_rows ''count datasets'' q_CountDatasets) throw (\<lambda>datasetCount.
     check (load_rows ''count snapshots'' q_CountCommittedSnapshots) throw (\<lambda>snapshotCount.
     check (load_rows ''count failed uploads'' q_CountFailedUploads) throw (\<lambda>failedUploads.
     check (load_rows ''count failed validations'' q_CountFailedValidations) throw (\<lambda>failedValidations.
     check (load_rows ''sum stored bytes'' q_SumStoredBytes) throw (\<lambda>stored.
     check load_active_uploads throw (\<lambda>activeUploads.
     check (load_rows ''latest operations'' (q_GetLatestOperations 20)) throw (\<lambda>latestOperations.
     check (load_rows ''latest validation jobs'' (q_ListLatestValidationJobs 10)) throw (\<lambda>jobs.
     check (load_rows ''list ssh keys'' q_ListSSHKeys) throw (\<lambda>keys.
     check (load_rows ''list api tokens'' q_ListAPITokens) throw (\<lambda>tokens.
     check (load_rows ''list datasets'' q_ListDatasetSummaries) throw (\<lambda>summaries.
     check load_latest_backup throw (\<lambda>latestBackup.
     ok \<lparr>dd_SourceCount = sourceCount, dd_DatasetCount = datasetCount, dd_SnapshotCount = snapshotCount,
         dd_FailedUploads = failedUploads, dd_FailedValidations = failedValidations, dd_StoredBytes = stored,
         dd_ActiveUploads = activeUploads, dd_Operations = latestOperations, dd_ValidationJobs = jobs,
         dd_SSHKeys = keys, dd_APITokens = tokens, dd_LatestBackup = latestBackup,
         dd_Datasets = take 5 summaries, dd_NASKeygenScript = [], dd_FirstUploadScript = []\<rparr>)))))))))))))"

definition dashboard ::
  "(bytes \<Rightarrow> bytes) \<Rightarrow> WebServer \<Rightarrow> http_request \<Rightarrow> ('s world, dashboardData page response) state" where
  "dashboard sha sv r =
     check loadDashboard server_error (\<lambda>data.
     render sha sv r (data\<lparr>dd_NASKeygenScript := nasKeygenScript,
                           dd_FirstUploadScript := firstUploadScript (uploadSSHCommandPrefix sv)\<rparr>))"

record activityData =
  ad_ActiveUploads :: "activeUploadView list"
  ad_Operations :: "GetLatestOperationsRow list"
  ad_ValidationJobs :: "ListLatestValidationJobsRow list"
  ad_LatestBackup :: "CatalogBackup option"

definition loadActivity :: "('s world, activityData) prog" where
  "loadActivity =
     check load_active_uploads throw (\<lambda>activeUploads.
     check (load_rows ''latest operations'' (q_GetLatestOperations 50)) throw (\<lambda>latestOperations.
     check (load_rows ''latest validation jobs'' (q_ListLatestValidationJobs 50)) throw (\<lambda>jobs.
     check load_latest_backup throw (\<lambda>latestBackup.
     ok \<lparr>ad_ActiveUploads = activeUploads, ad_Operations = latestOperations, ad_ValidationJobs = jobs,
         ad_LatestBackup = latestBackup\<rparr>))))"

definition activity ::
  "(bytes \<Rightarrow> bytes) \<Rightarrow> WebServer \<Rightarrow> http_request \<Rightarrow> ('s world, activityData page response) state" where
  "activity sha sv r = check loadActivity server_error (render sha sv r)"

section \<open>Datasets and snapshots\<close>

record datasetDetailData =
  dt_Dataset :: GetDatasetDetailRow
  dt_Snapshots :: "ListDatasetSnapshotsRow list"
  dt_RestoreSnapshot :: string
  dt_RestoreCommands :: "string list"

record snapshotDetailData =
  sd_Snapshot :: GetSnapshotDetailRow
  sd_RestoreCommands :: "string list"

definition datasets_page ::
  "(bytes \<Rightarrow> bytes) \<Rightarrow> WebServer \<Rightarrow> http_request \<Rightarrow> ('s world, ListDatasetSummariesRow list page response) state" where
  "datasets_page sha sv r = check (db_query q_ListDatasetSummaries) (failed_to ''list datasets'') (render sha sv r)"

text \<open>The loop takes the first snapshot that is committed and has a valid chain.\<close>

definition row_chain_valid :: "ListDatasetSnapshotsRow \<Rightarrow> bool" where
  "row_chain_valid s \<longleftrightarrow> lds_Status s = SnapCommitted \<and> lds_ChainValidationStatus s = ValSucceeded"

definition restore_choice ::
  "WebServer \<Rightarrow> GetDatasetDetailRow \<Rightarrow> ListDatasetSnapshotsRow list \<Rightarrow> ('s world, string \<times> string list) prog" where
  "restore_choice sv dataset rows =
     (case find row_chain_valid rows of
        None \<Rightarrow> ok ([], [])
      | Some s \<Rightarrow>
          check (db_query (q_ListSnapshotRestoreChain (lds_ID s))) throw (\<lambda>chain.
          ok (lds_Name s, restoreCommandsFor (gdd_PoolName dataset) (gdd_DatasetPath dataset) chain
                            (ws_restoreSSHCommandPrefix sv))))"

definition datasetDetail ::
  "(bytes \<Rightarrow> bytes) \<Rightarrow> WebServer \<Rightarrow> http_request \<Rightarrow> ('s world, datasetDetailData page response) state" where
  "datasetDetail sha sv r =
     (let rid = hr_PathValue r ''id'' in
      check (db_query (q_GetDatasetDetail rid)) (not_found_or ''get dataset'') (\<lambda>dataset.
      check (db_query (q_ListDatasetSnapshots rid)) (failed_to ''list snapshots'') (\<lambda>rows.
      check (restore_choice sv dataset rows) (failed_to ''build restore chain'') (\<lambda>choice.
      render sha sv r \<lparr>dt_Dataset = dataset, dt_Snapshots = rows, dt_RestoreSnapshot = fst choice,
                       dt_RestoreCommands = snd choice\<rparr>))))"

definition load_snapshot :: "WebServer \<Rightarrow> string \<Rightarrow> (snapshotDetailData \<Rightarrow> ('s world, 'b response) state) \<Rightarrow>
    ('s world, 'b response) state" where
  "load_snapshot sv rid answer =
     check (db_query (q_GetSnapshotDetail rid)) (not_found_or ''get snapshot'') (\<lambda>snapshot.
     check (db_query (q_ListSnapshotRestoreChain rid)) (failed_to ''build restore chain'') (\<lambda>chain.
     answer \<lparr>sd_Snapshot = snapshot,
             sd_RestoreCommands = restoreCommands snapshot chain (ws_restoreSSHCommandPrefix sv)\<rparr>))"

definition snapshotDetail ::
  "(bytes \<Rightarrow> bytes) \<Rightarrow> WebServer \<Rightarrow> http_request \<Rightarrow> ('s world, snapshotDetailData page response) state" where
  "snapshotDetail sha sv r = load_snapshot sv (hr_PathValue r ''id'') (render sha sv r)"

subsection \<open>Validation jobs\<close>

datatype job = ChainJob "string list" | SnapshotJob string

definition validateDataset_handler :: "WebServer \<Rightarrow> http_request \<Rightarrow> ('s world, 'b response \<times> job option) state" where
  "validateDataset_handler sv r =
     (let rid = hr_PathValue r ''id''; to = (\<lambda>answer. State_Monad.bind answer (\<lambda>a. ret (a, None))) in
      if \<not> ws_validationRunner sv
      then ret (SeeOther (''/datasets/'' @ rid @ ''?error='' @ urlQueryEscape ''validation runner is not configured''), None)
      else if rid = [] then ret (NotFound, None)
      else check (db_query (q_GetDatasetDetail rid)) (\<lambda>e. to (not_found_or ''get dataset'' e)) (\<lambda>_.
        check (db_query (q_ListDatasetSnapshots rid)) (\<lambda>e. to (failed_to ''list snapshots'' e)) (\<lambda>rows.
        let ids = map lds_ID (filter (\<lambda>s. lds_Status s = SnapCommitted) rows) in
        if ids = []
        then ret (SeeOther (''/datasets/'' @ rid @ ''?error='' @ urlQueryEscape ''no committed snapshots to validate''), None)
        else ret (SeeOther (''/activity?message='' @ urlQueryEscape
               (Sprintf (msg ''chain validation started for %d snapshot(s)'') [show_nat (length ids)])),
             Some (ChainJob ids)))))"

definition mode_job :: "string \<Rightarrow> string \<Rightarrow> job" where
  "mode_job mode rid = (if mode = ''chain'' then ChainJob [rid] else SnapshotJob rid)"

definition validateSnapshot :: "WebServer \<Rightarrow> http_request \<Rightarrow> ('s world, 'b response \<times> job option) state" where
  "validateSnapshot sv r =
     (let rid = hr_PathValue r ''id''; to = (\<lambda>answer. State_Monad.bind answer (\<lambda>a. ret (a, None))) in
      if \<not> ws_validationRunner sv then ret (HttpError 503 ''validation runner is not configured'', None)
      else if rid = [] then ret (NotFound, None)
      else check (db_query (q_GetSnapshotDetail rid)) (\<lambda>e. to (not_found_or ''get snapshot'' e)) (\<lambda>_.
        let given = hr_FormValue r ''mode''; mode = (if given = [] then ''stream'' else given) in
        if mode \<noteq> ''stream'' \<and> mode \<noteq> ''chain''
        then ret (SeeOther (''/snapshots/'' @ rid @ ''?error='' @
               urlQueryEscape ''validation mode must be stream or chain''), None)
        else ret (SeeOther (''/activity?message='' @ urlQueryEscape (mode @ '' validation started'')),
             Some (mode_job mode rid))))"

definition apiValidateSnapshot ::
  "WebServer \<Rightarrow> http_request \<Rightarrow> ('s world, (string \<times> string) list response \<times> job option) state" where
  "apiValidateSnapshot sv r =
     (if \<not> ws_validationRunner sv then ret (HttpError 503 ''validation runner is not configured'', None)
      else let rid = hr_PathValue r ''id''; given = hr_Query r ''mode'';
               mode = (if given = [] then ''stream'' else given) in
        ret (Json [(''status'', ''queued''), (''snapshot_id'', rid), (''mode'', mode)], Some (mode_job mode rid)))"

text \<open>The goroutine: a chain that does not validate does not stop the others.\<close>

fun run_chains ::
  "'s Store \<Rightarrow> (bytes \<Rightarrow> bytes) \<Rightarrow> json \<Rightarrow> checker \<Rightarrow> Runner \<Rightarrow> string list \<Rightarrow> ('s world, unit) state" where
  "run_chains S sha J z rn [] = ret ()"
| "run_chains S sha J z rn (i # is) = State_Monad.bind (RunChain S sha J z rn i) (\<lambda>_. run_chains S sha J z rn is)"

definition run_job ::
  "'s Store \<Rightarrow> (bytes \<Rightarrow> bytes) \<Rightarrow> json \<Rightarrow> checker \<Rightarrow> Runner \<Rightarrow> job \<Rightarrow> ('s world, unit) state" where
  "run_job S sha J z rn j =
     (case j of
        ChainJob ids \<Rightarrow> run_chains S sha J z rn ids
      | SnapshotJob i \<Rightarrow> State_Monad.bind (RunSnapshot S sha J z rn i) (\<lambda>_. ret ()))"

definition runValidation ::
  "'s Store \<Rightarrow> (bytes \<Rightarrow> bytes) \<Rightarrow> json \<Rightarrow> checker \<Rightarrow> Runner \<Rightarrow> WebServer \<Rightarrow> http_request \<Rightarrow>
   ('s world, RunDueResult response) state" where
  "runValidation S sha J z rn sv r =
     (if \<not> ws_validationRunner sv then ret (HttpError 503 ''validation runner is not configured'')
      else let raw = hr_Query r ''limit'' in
        case (if raw = [] then Some 25 else ParseInt10 raw) of
          None \<Rightarrow> ret (HttpError 400 ''invalid limit'')
        | Some parsed \<Rightarrow>
            if raw \<noteq> [] \<and> parsed \<le> 0 then ret (HttpError 400 ''invalid limit'')
            else check (RunDue S sha J z rn parsed) (failed_to ''run validation'') (\<lambda>result. ret (Json result)))"

subsection \<open>Deletions\<close>

definition queueSnapshotDeletion :: "WebServer \<Rightarrow> string \<Rightarrow> ('s world, string) prog" where
  "queueSnapshotDeletion sv rid =
     (if \<not> ws_store sv then throw (Errorf (msg ''object store is not configured'') [])
      else check (db_query (q_GetSnapshotDetail rid)) (\<lambda>e. throw (Wrapf (msg ''get snapshot: %w'') [] e)) (\<lambda>snapshot.
        check (db_query (q_CountCommittedDescendants (Some rid)))
          (\<lambda>e. throw (Wrapf (msg ''count committed snapshot descendants: %w'') [] e)) (\<lambda>descendants.
        if descendants > 0
        then throw (Errorf (msg ''snapshot has %d committed descendant(s); delete the dependent chain or dataset instead'')
               [show_int descendants])
        else State_Monad.bind (NewID ''op'') (\<lambda>opID.
          check (db_exec (q_CreateOperation opID OpCleanup OpQueued None None (Some (gsd_DatasetID snapshot)) (Some rid) None
                   (Some (msg ''snapshot deletion queued''))))
            (\<lambda>e. throw (Wrapf (msg ''create deletion operation: %w'') [] e)) (\<lambda>_. ok opID)))))"

definition queueDatasetDeletion :: "WebServer \<Rightarrow> string \<Rightarrow> ('s world, string) prog" where
  "queueDatasetDeletion sv rid =
     (if \<not> ws_store sv then throw (Errorf (msg ''object store is not configured'') [])
      else check (db_query (q_GetDatasetDetail rid)) (\<lambda>e. throw (Wrapf (msg ''get dataset: %w'') [] e)) (\<lambda>_.
        State_Monad.bind (NewID ''op'') (\<lambda>opID.
        check (db_exec (q_CreateOperation opID OpCleanup OpQueued None None (Some rid) None None
                 (Some (msg ''dataset deletion queued''))))
          (\<lambda>e. throw (Wrapf (msg ''create deletion operation: %w'') [] e)) (\<lambda>_. ok opID))))"

definition deleteSnapshot :: "WebServer \<Rightarrow> http_request \<Rightarrow> ('s world, 'b response) state" where
  "deleteSnapshot sv r =
     (let rid = hr_PathValue r ''id'' in
      if \<not> ws_store sv then ret (redirectDashboard [] ''object store is not configured'')
      else if rid = [] then ret NotFound
      else check (db_query (q_GetSnapshotDetail rid)) (not_found_or ''get snapshot'') (\<lambda>snapshot.
        check (queueSnapshotDeletion sv rid) server_error (\<lambda>_.
        ret (SeeOther (''/datasets/'' @ gsd_DatasetID snapshot @ ''?message='' @ urlQueryEscape
          ''snapshot deletion queued; objects and catalog rows will be removed by the cleanup worker'')))))"

definition deleteDataset :: "WebServer \<Rightarrow> http_request \<Rightarrow> ('s world, 'b response) state" where
  "deleteDataset sv r =
     (let rid = hr_PathValue r ''id'' in
      if \<not> ws_store sv then ret (redirectDashboard [] ''object store is not configured'')
      else if rid = [] then ret NotFound
      else check (queueDatasetDeletion sv rid) server_error (\<lambda>_.
        ret (redirectDashboard ''dataset deletion queued; objects and catalog rows will be removed by the cleanup worker'' [])))"

definition queued :: "string \<Rightarrow> (string \<times> string) list response" where
  "queued opID = Json [(''status'', ''queued''), (''operation_id'', opID)]"

definition apiDeleteSnapshot :: "WebServer \<Rightarrow> http_request \<Rightarrow> ('s world, (string \<times> string) list response) state" where
  "apiDeleteSnapshot sv r = check (queueSnapshotDeletion sv (hr_PathValue r ''id'')) server_error (\<lambda>opID. ret (queued opID))"

definition apiDeleteDataset :: "WebServer \<Rightarrow> http_request \<Rightarrow> ('s world, (string \<times> string) list response) state" where
  "apiDeleteDataset sv r = check (queueDatasetDeletion sv (hr_PathValue r ''id'')) server_error (\<lambda>opID. ret (queued opID))"

subsection \<open>The same as JSON\<close>

definition apiDashboard :: "('s world, dashboardData response) state" where
  "apiDashboard = check loadDashboard server_error (\<lambda>data. ret (Json data))"

definition apiDatasets :: "('s world, ListDatasetSummariesRow list response) state" where
  "apiDatasets = check (db_query q_ListDatasetSummaries) (failed_to ''list datasets'') (\<lambda>rows. ret (Json rows))"

definition apiDatasetDetail :: "http_request \<Rightarrow> ('s world, datasetDetailData response) state" where
  "apiDatasetDetail r =
     (let rid = hr_PathValue r ''id'' in
      check (db_query (q_GetDatasetDetail rid)) (not_found_or ''get dataset'') (\<lambda>dataset.
      check (db_query (q_ListDatasetSnapshots rid)) (failed_to ''list snapshots'') (\<lambda>rows.
      ret (Json \<lparr>dt_Dataset = dataset, dt_Snapshots = rows, dt_RestoreSnapshot = [], dt_RestoreCommands = []\<rparr>))))"

definition apiSnapshotDetail :: "WebServer \<Rightarrow> http_request \<Rightarrow> ('s world, snapshotDetailData response) state" where
  "apiSnapshotDetail sv r = load_snapshot sv (hr_PathValue r ''id'') (\<lambda>data. ret (Json data))"

section \<open>Frames\<close>

text \<open>
  What a handler leaves alone. The pages read; a queued deletion is a row of the catalog; only the jobs of the
  validation reach the store.
\<close>

abbreviation same_cat :: "('s world, 'a) state \<Rightarrow> bool" where
  "same_cat m \<equiv> frame (\<lambda>w w'. wCat w' = wCat w) m"

abbreviation same_obj :: "('s world, 'a) state \<Rightarrow> bool" where
  "same_obj m \<equiv> frame (\<lambda>w w'. wObj w' = wObj w) m"

lemma render_frames [frame_rules]: "same_cat (render sha sv r d)" "same_obj (render sha sv r d)"
  unfolding render_def by (intro frame_rules)+

lemma load_rows_frames [frame_rules]: "same_cat (load_rows what q)" "same_obj (load_rows what q)"
  unfolding load_rows_def by (intro frame_rules)+

lemma error_frames [frame_rules]:
  "same_cat (server_error e)" "same_obj (server_error e)" "same_cat (failed_to what e)" "same_obj (failed_to what e)"
  "same_cat (not_found_or what e)" "same_obj (not_found_or what e)"
  unfolding server_error_def failed_to_def not_found_or_def by (intro frame_rules)+

lemma load_frames [frame_rules]:
  "same_cat load_latest_backup" "same_obj load_latest_backup" "same_cat load_active_uploads" "same_obj load_active_uploads"
  unfolding load_latest_backup_def load_active_uploads_def by (intro frame_rules)+

lemma dashboard_frames [frame_rules]:
  "same_cat loadDashboard" "same_obj loadDashboard" "same_cat (dashboard sha sv r)" "same_obj (dashboard sha sv r)"
  "same_cat loadActivity" "same_obj loadActivity" "same_cat (activity sha sv r)" "same_obj (activity sha sv r)"
  unfolding dashboard_def loadDashboard_def activity_def loadActivity_def by (intro frame_rules)+

lemma detail_frames [frame_rules]:
  "same_cat (datasets_page sha sv r)" "same_obj (datasets_page sha sv r)"
  "same_cat (datasetDetail sha sv r)" "same_obj (datasetDetail sha sv r)"
  "same_cat (snapshotDetail sha sv r)" "same_obj (snapshotDetail sha sv r)"
  unfolding datasets_page_def datasetDetail_def restore_choice_def snapshotDetail_def load_snapshot_def Let_def
  by (intro frame_rules)+

lemma api_frames [frame_rules]:
  "same_cat apiDashboard" "same_obj apiDashboard" "same_cat apiDatasets" "same_obj apiDatasets"
  "same_cat (apiDatasetDetail r)" "same_obj (apiDatasetDetail r)"
  "same_cat (apiSnapshotDetail sv r)" "same_obj (apiSnapshotDetail sv r)"
  unfolding apiDashboard_def apiDatasets_def apiDatasetDetail_def apiSnapshotDetail_def load_snapshot_def Let_def
  by (intro frame_rules)+

lemma validate_request_frames [frame_rules]:
  "same_cat (validateDataset_handler sv r)" "same_obj (validateDataset_handler sv r)"
  "same_cat (validateSnapshot sv r)" "same_obj (validateSnapshot sv r)"
  "same_cat (apiValidateSnapshot sv r)" "same_obj (apiValidateSnapshot sv r)"
  unfolding validateDataset_handler_def validateSnapshot_def apiValidateSnapshot_def Let_def by (intro frame_rules)+

lemma same_cat_keeps: "same_cat m \<Longrightarrow> keeps cat_ok m"
  by (simp add: frame_def)

lemma queue_deletion_frames [frame_rules]:
  "keeps cat_ok (queueSnapshotDeletion sv i)" "same_obj (queueSnapshotDeletion sv i)"
  "keeps cat_ok (queueDatasetDeletion sv i)" "same_obj (queueDatasetDeletion sv i)"
  unfolding queueSnapshotDeletion_def queueDatasetDeletion_def by (intro frame_rules statement_rules)+

lemma error_keeps [frame_rules]:
  "keeps cat_ok (server_error e)" "keeps cat_ok (failed_to what e)" "keeps cat_ok (not_found_or what e)"
  by (intro same_cat_keeps frame_rules)+

lemma delete_request_frames [frame_rules]:
  "keeps cat_ok (deleteSnapshot sv r)" "same_obj (deleteSnapshot sv r)"
  "keeps cat_ok (deleteDataset sv r)" "same_obj (deleteDataset sv r)"
  "keeps cat_ok (apiDeleteSnapshot sv r)" "same_obj (apiDeleteSnapshot sv r)"
  "keeps cat_ok (apiDeleteDataset sv r)" "same_obj (apiDeleteDataset sv r)"
  unfolding deleteSnapshot_def deleteDataset_def apiDeleteSnapshot_def apiDeleteDataset_def Let_def
  by (intro frame_rules)+

lemma job_keeps [frame_rules]:
  "keeps cat_ok (run_chains S sha J z rn is)" "keeps cat_ok (run_job S sha J z rn j)"
  "keeps cat_ok (runValidation S sha J z rn sv r)"
proof -
  show chains: "keeps cat_ok (run_chains S sha J z rn is)" for "is"
    by (induction "is") (auto simp: RunChain_def runSnapshotMode_def intro!: frame_rules)
  show "keeps cat_ok (run_job S sha J z rn j)"
    by (cases j) (auto simp: run_job_def RunSnapshot_def runSnapshotMode_def intro!: frame_rules chains)
  show "keeps cat_ok (runValidation S sha J z rn sv r)"
    unfolding runValidation_def Let_def by (intro frame_rules)
qed

end
