(* ===== verification/Web_Admin.thy ===== *)
theory Web_Admin
  imports Web_Pages
begin

text \<open>
  The administrative handlers: SSH keys with the import from GitHub (\<open>src/internal/web/ssh_keys.go\<close>), API tokens
  (\<open>api_tokens.go\<close>), runtime settings (\<open>settings.go\<close>), the health and readiness checks (\<open>health.go\<close>) and
  the metrics (\<open>metrics.go\<close>). The settings manager is passed and returned.
\<close>

section \<open>SSH keys\<close>

record ssh_lib =
  sl_ParseAuthorizedKey :: "string \<Rightarrow> bytes option"
  sl_MarshalAuthorizedKey :: "bytes \<Rightarrow> string"
  sl_FingerprintSHA256 :: "bytes \<Rightarrow> string"

definition createSSHKey :: "ssh_lib \<Rightarrow> string \<Rightarrow> string \<Rightarrow> ('s world, string) prog" where
  "createSSHKey L name publicKeyText =
     (if name = [] \<or> publicKeyText = [] then throw (Errorf (msg ''name and public key are required'') [])
      else case sl_ParseAuthorizedKey L publicKeyText of
        None \<Rightarrow> throw (Errorf (msg ''invalid SSH public key'') [])
      | Some pub \<Rightarrow>
          State_Monad.bind (NewID ''key'') (\<lambda>rid.
          check (db_exec (q_CreateSSHKey rid name (TrimSpace (sl_MarshalAuthorizedKey L pub)) (sl_FingerprintSHA256 L pub)))
            (\<lambda>e. throw (Errorf (msg ''could not add SSH key; it may already exist'') [])) (\<lambda>_. ok rid)))"

definition addSSHKey :: "ssh_lib \<Rightarrow> http_request \<Rightarrow> ('s world, 'b response) state" where
  "addSSHKey L r =
     (case hr_ParseForm r of
        Some e \<Rightarrow> ret (HttpError 400 (error_text e))
      | None \<Rightarrow>
          check (createSSHKey L (TrimSpace (hr_FormValue r ''name'')) (TrimSpace (hr_FormValue r ''public_key'')))
            (\<lambda>e. ret (redirectDashboard [] (error_text e))) (\<lambda>_. ret (redirectDashboard ''ssh key added'' [])))"

definition isSafeGitHubUsername :: "string \<Rightarrow> bool" where
  "isSafeGitHubUsername v \<longleftrightarrow>
     \<not> (v = [] \<or> length v > 39 \<or> HasPrefix v ''-'' \<or> HasSuffix v ''-'') \<and>
     list_all (\<lambda>c. is_alnum c \<or> c = CHR ''-'') v"

definition githubKeysBaseURL :: string where
  "githubKeysBaseURL = ''https://github.com''"

text \<open>What the request for the keys gives: a failure, or the status and the body with the error that ended it.\<close>

record github_response =
  gh_StatusCode :: nat
  gh_Status :: string
  gh_Body :: string
  gh_BodyErr :: "error option"

definition key_lines :: "string \<Rightarrow> string list" where
  "key_lines body = filter (\<lambda>l. l \<noteq> []) (map TrimSpace (split_on (CHR 0x0A) body))"

fun parse_keys :: "ssh_lib \<Rightarrow> string list \<Rightarrow> error + string list" where
  "parse_keys L [] = Inr []"
| "parse_keys L (l # ls) =
     (case sl_ParseAuthorizedKey L l of
        None \<Rightarrow> Inl (Errorf (msg ''GitHub returned an invalid SSH key'') [])
      | Some pub \<Rightarrow>
          (case parse_keys L ls of
             Inl e \<Rightarrow> Inl e
           | Inr keys \<Rightarrow> Inr (TrimSpace (sl_MarshalAuthorizedKey L pub) # keys)))"

definition fetchGitHubKeys :: "ssh_lib \<Rightarrow> (string \<Rightarrow> error + github_response) \<Rightarrow> string \<Rightarrow> error + string list" where
  "fetchGitHubKeys L get username =
     (case get (githubKeysBaseURL @ ''/'' @ username @ ''.keys'') of
        Inl e \<Rightarrow> Inl (Wrapf (msg ''fetch GitHub keys: %w'') [] e)
      | Inr resp \<Rightarrow>
          if gh_StatusCode resp = 404
          then Inl (Errorf (msg ''GitHub user %q not found or has no public SSH keys'') [username])
          else if gh_StatusCode resp < 200 \<or> gh_StatusCode resp \<ge> 300
          then Inl (Errorf (msg ''fetch GitHub keys: %s'') [gh_Status resp])
          else case (if length (gh_Body resp) \<ge> 64 * 1024 then None else gh_BodyErr resp) of
            Some e \<Rightarrow> Inl (Wrapf (msg ''read GitHub keys: %w'') [] e)
          | None \<Rightarrow> parse_keys L (key_lines (take (64 * 1024) (gh_Body resp))))"

fun import_keys ::
  "ssh_lib \<Rightarrow> string \<Rightarrow> nat \<Rightarrow> string list \<Rightarrow> nat \<Rightarrow> nat \<Rightarrow> ('s world, nat \<times> nat \<times> error option) state" where
  "import_keys L username i [] added skipped = ret (added, skipped, None)"
| "import_keys L username i (key # ks) added skipped =
     check (createSSHKey L (''github:'' @ username @ '':'' @ show_nat (i + 1)) key)
       (\<lambda>e. if sublist ''already exist'' (error_text e) then import_keys L username (i + 1) ks added (skipped + 1)
            else ret (added, skipped, Some e))
       (\<lambda>_. import_keys L username (i + 1) ks (added + 1) skipped)"

definition importGitHubSSHKeys ::
  "ssh_lib \<Rightarrow> (string \<Rightarrow> error + github_response) \<Rightarrow> string \<Rightarrow> ('s world, nat \<times> nat \<times> error option) state" where
  "importGitHubSSHKeys L get username =
     (if \<not> isSafeGitHubUsername username then ret (0, 0, Some (Errorf (msg ''GitHub username is invalid'') []))
      else case fetchGitHubKeys L get username of
        Inl e \<Rightarrow> ret (0, 0, Some e)
      | Inr keys \<Rightarrow>
          if keys = [] then ret (0, 0, Some (Errorf (msg ''GitHub user %q has no public SSH keys'') [username]))
          else State_Monad.bind (import_keys L username 0 keys 0 0) (\<lambda>(added, skipped, e).
            case e of
              Some _ \<Rightarrow> ret (added, skipped, e)
            | None \<Rightarrow>
                if added = 0 \<and> skipped > 0
                then ret (added, skipped, Some (Errorf (msg ''all GitHub SSH keys for %q already exist'') [username]))
                else ret (added, skipped, None)))"

definition addGitHubSSHKeys ::
  "ssh_lib \<Rightarrow> (string \<Rightarrow> error + github_response) \<Rightarrow> http_request \<Rightarrow> ('s world, 'b response) state" where
  "addGitHubSSHKeys L get r =
     (case hr_ParseForm r of
        Some e \<Rightarrow> ret (HttpError 400 (error_text e))
      | None \<Rightarrow>
          State_Monad.bind (importGitHubSSHKeys L get (TrimSpace (hr_FormValue r ''github_username''))) (\<lambda>(added, skipped, e).
          case e of
            Some err \<Rightarrow> ret (redirectDashboard [] (error_text err))
          | None \<Rightarrow>
              let message = Sprintf (msg ''imported %d GitHub SSH key(s)'') [show_nat added] in
              ret (redirectDashboard
                (if skipped > 0 then message @ Sprintf (msg ''; skipped %d existing key(s)'') [show_nat skipped]
                 else message) [])))"

definition deleteSSHKey :: "http_request \<Rightarrow> ('s world, 'b response) state" where
  "deleteSSHKey r =
     (let rid = hr_PathValue r ''id'' in
      if rid = [] then ret NotFound
      else check (db_exec (q_DeleteSSHKey rid)) (\<lambda>e. ret (redirectDashboard [] ''could not delete SSH key''))
        (\<lambda>_. ret (redirectDashboard ''ssh key deleted'' [])))"

definition apiListSSHKeys :: "('s world, SshKey list response) state" where
  "apiListSSHKeys = check (db_query q_ListSSHKeys) (failed_to ''list ssh keys'') (\<lambda>rows. ret (Json rows))"

definition apiAddSSHKey ::
  "ssh_lib \<Rightarrow> (string \<Rightarrow> error + string \<times> string) \<Rightarrow> http_request \<Rightarrow> ('s world, (string \<times> string) list response) state" where
  "apiAddSSHKey L decode r =
     (case decode (hr_Body r) of
        Inl e \<Rightarrow> ret (HttpError 400 ''invalid json'')
      | Inr (name, publicKey) \<Rightarrow>
          check (createSSHKey L (TrimSpace name) (TrimSpace publicKey)) (\<lambda>e. ret (HttpError 400 (error_text e)))
            (\<lambda>rid. ret (Json [(''id'', rid)])))"

definition apiDeleteSSHKey :: "http_request \<Rightarrow> ('s world, (string \<times> string) list response) state" where
  "apiDeleteSSHKey r =
     check (db_exec (q_DeleteSSHKey (hr_PathValue r ''id''))) (failed_to ''delete ssh key'')
       (\<lambda>_. ret (Json [(''status'', ''deleted'')]))"

section \<open>API tokens\<close>

definition generateAPIToken :: "('s world, string) state" where
  "generateAPIToken = State (\<lambda>w. (''zs3_'' @ RawURL_EncodeToString (wRand w (wTick w)), tick w))"

record new_token =
  nt_Token :: string
  nt_ID :: string
  nt_Name :: string
  nt_TokenPrefix :: string

definition createAPIToken :: "(bytes \<Rightarrow> bytes) \<Rightarrow> string \<Rightarrow> ('s world, new_token) prog" where
  "createAPIToken sha name =
     (let name = TrimSpace name in
      if name = [] then throw (Errorf (msg ''api token name is required'') [])
      else State_Monad.bind generateAPIToken (\<lambda>token. State_Monad.bind (NewID ''tok'') (\<lambda>rid.
        check (db_exec (q_CreateAPIToken rid name (hashAPIToken sha token) (apiTokenPrefix token))) throw (\<lambda>_.
        ok \<lparr>nt_Token = token, nt_ID = rid, nt_Name = name, nt_TokenPrefix = apiTokenPrefix token\<rparr>))))"

definition addAPIToken :: "(bytes \<Rightarrow> bytes) \<Rightarrow> http_request \<Rightarrow> ('s world, new_token response) state" where
  "addAPIToken sha r =
     (case hr_ParseForm r of
        Some e \<Rightarrow> ret (HttpError 400 (error_text e))
      | None \<Rightarrow>
          let name = TrimSpace (hr_FormValue r ''name'') in
          if name = [] then ret (redirectDashboard [] ''api token name is required'')
          else check (createAPIToken sha name) (failed_to ''create api token'') (\<lambda>t. ret (Html t)))"

definition deleteAPIToken :: "http_request \<Rightarrow> ('s world, 'b response) state" where
  "deleteAPIToken r =
     (let rid = hr_PathValue r ''id'' in
      if rid = [] then ret NotFound
      else check (db_exec (q_RevokeAPIToken rid)) (\<lambda>e. ret (redirectDashboard [] ''could not revoke API token''))
        (\<lambda>_. ret (redirectDashboard ''api token revoked'' [])))"

definition apiListAPITokens :: "('s world, ApiTokenRow list response) state" where
  "apiListAPITokens = check (db_query q_ListAPITokens) (failed_to ''list api tokens'') (\<lambda>rows. ret (Json rows))"

definition apiAddAPIToken ::
  "(bytes \<Rightarrow> bytes) \<Rightarrow> (string \<Rightarrow> error + string) \<Rightarrow> http_request \<Rightarrow> ('s world, new_token response) state" where
  "apiAddAPIToken sha decode r =
     (case decode (hr_Body r) of
        Inl e \<Rightarrow> ret (HttpError 400 ''invalid json'')
      | Inr name \<Rightarrow> check (createAPIToken sha (TrimSpace name)) (failed_to ''create api token'') (\<lambda>t. ret (Json t)))"

definition apiDeleteAPIToken :: "http_request \<Rightarrow> ('s world, (string \<times> string) list response) state" where
  "apiDeleteAPIToken r =
     check (db_exec (q_RevokeAPIToken (hr_PathValue r ''id''))) (failed_to ''revoke api token'')
       (\<lambda>_. ret (Json [(''status'', ''revoked'')]))"

section \<open>Settings\<close>

record settingsData =
  st_SSHKeys :: "SshKey list"
  st_APITokens :: "ApiTokenRow list"
  st_NASKeygenScript :: string
  st_RuntimeSettings :: "SettingsSnapshot option"

definition loadSettings :: "Manager option \<Rightarrow> ('s world, settingsData) prog" where
  "loadSettings m =
     check (load_rows ''list ssh keys'' q_ListSSHKeys) throw (\<lambda>keys.
     check (load_rows ''list api tokens'' q_ListAPITokens) throw (\<lambda>tokens.
     ok \<lparr>st_SSHKeys = keys, st_APITokens = tokens, st_NASKeygenScript = [],
         st_RuntimeSettings = map_option mg_current m\<rparr>))"

definition settings_page ::
  "(bytes \<Rightarrow> bytes) \<Rightarrow> WebServer \<Rightarrow> Manager option \<Rightarrow> http_request \<Rightarrow> ('s world, settingsData page response) state" where
  "settings_page sha sv m r =
     check (loadSettings m) server_error (\<lambda>data. render sha sv r (data\<lparr>st_NASKeygenScript := nasKeygenScript\<rparr>))"

text \<open>A setting that could not be changed leaves the manager as it was.\<close>

definition updateRuntimeSetting ::
  "(float64 \<Rightarrow> int) \<Rightarrow> Manager option \<Rightarrow> http_request \<Rightarrow> ('s world, 'b response \<times> Manager option) state" where
  "updateRuntimeSetting unrep m r =
     (case m of
        None \<Rightarrow> ret (HttpError 503 ''runtime settings are unavailable'', m)
      | Some mg \<Rightarrow>
          (case hr_ParseForm r of
             Some e \<Rightarrow> ret (HttpError 400 (error_text e), m)
           | None \<Rightarrow>
               check (Manager_Set unrep mg (hr_PathValue r ''key'') (TrimSpace (hr_FormValue r ''value'')))
                 (\<lambda>e. ret (redirectSettings [] (error_text e), m))
                 (\<lambda>mg'. ret (redirectSettings ''setting updated'' [], Some mg'))))"

definition resetRuntimeSetting ::
  "(float64 \<Rightarrow> int) \<Rightarrow> Manager option \<Rightarrow> http_request \<Rightarrow> ('s world, 'b response \<times> Manager option) state" where
  "resetRuntimeSetting unrep m r =
     (case m of
        None \<Rightarrow> ret (HttpError 503 ''runtime settings are unavailable'', m)
      | Some mg \<Rightarrow>
          check (Manager_Reset unrep mg (hr_PathValue r ''key''))
            (\<lambda>e. ret (redirectSettings [] (error_text e), m))
            (\<lambda>mg'. ret (redirectSettings ''setting reset to default'' [], Some mg')))"

section \<open>Health\<close>

definition Health :: "('s world, unit) prog" where
  "Health =
     check (db_query (\<lambda>now c. Inr (1 :: int))) (\<lambda>e. throw (Wrapf (msg ''sqlite health query: %w'') [] e)) (\<lambda>one.
     if one \<noteq> 1 then throw (Errorf (msg ''sqlite health query returned %d'') [show_int one]) else ok ())"

record statusCheck =
  sc_Key :: string
  sc_Name :: string
  sc_Description :: string
  sc_OK :: bool
  sc_Detail :: string

definition catalog_check :: "('s world, statusCheck) state" where
  "catalog_check =
     (let result = (\<lambda>good detail. \<lparr>sc_Key = ''sqlite'', sc_Name = ''Catalog'', sc_Description = ''SQLite is reachable.'',
            sc_OK = good, sc_Detail = detail\<rparr>) in
      check Health (\<lambda>e. ret (result False (error_text e))) (\<lambda>_. ret (result True ''OK'')))"

definition health_key :: string where
  "health_key = ''@health/readyz''"

definition probe_store :: "'s Store \<Rightarrow> ('s world, bool \<times> string) state" where
  "probe_store S =
     State_Monad.bind
       (check (store_call (PutBytes S health_key (go_bytes ''ok''))) (\<lambda>e. ret (False, error_text e)) (\<lambda>_.
        check (store_call (GetBytes S health_key)) (\<lambda>e. ret (False, error_text e)) (\<lambda>got.
        if got \<noteq> go_bytes ''ok'' then ret (False, ''read-after-write mismatch'') else ret (True, ''OK''))))
       (\<lambda>outcome. State_Monad.bind (store_call (Delete S health_key)) (\<lambda>_. ret outcome))"

definition storage_check :: "'s Store \<Rightarrow> WebServer \<Rightarrow> ('s world, statusCheck) state" where
  "storage_check S sv =
     State_Monad.bind (if ws_store sv then probe_store S else ret (False, ''object store is not configured'')) (\<lambda>(good, detail).
     ret \<lparr>sc_Key = ''storage'', sc_Name = ''Storage'', sc_Description = ''Write, read, delete.'', sc_OK = good,
          sc_Detail = detail\<rparr>)"

definition zstreamdump_check :: "error option \<Rightarrow> statusCheck" where
  "zstreamdump_check lookup =
     \<lparr>sc_Key = ''zstreamdump'', sc_Name = ''zstreamdump'', sc_Description = ''Required for validation.'',
      sc_OK = (lookup = None), sc_Detail = (case lookup of None \<Rightarrow> ''OK'' | Some e \<Rightarrow> error_text e)\<rparr>"

definition readinessChecks :: "'s Store \<Rightarrow> WebServer \<Rightarrow> error option \<Rightarrow> ('s world, statusCheck list) state" where
  "readinessChecks S sv lookup =
     State_Monad.bind catalog_check (\<lambda>dbCheck.
     State_Monad.bind (storage_check S sv) (\<lambda>storageCheck.
     ret [dbCheck, storageCheck, zstreamdump_check lookup]))"

text \<open>The answer of a probe: the status code and the JSON object.\<close>

definition health_response :: "statusCheck list \<Rightarrow> nat \<times> (string \<rightharpoonup> string)" where
  "health_response checks =
     foldl (\<lambda>(status, response) c.
         if sc_OK c then (status, response)
         else (503, response(''status'' \<mapsto> ''error'', sc_Key c \<mapsto> sc_Detail c)))
       (200, [''status'' \<mapsto> ''ok'']) checks"

definition healthz :: "('s world, nat \<times> (string \<rightharpoonup> string)) state" where
  "healthz =
     check Health (\<lambda>e. ret (503, [''status'' \<mapsto> ''error'', ''sqlite'' \<mapsto> error_text e])) (\<lambda>_.
     ret (200, [''status'' \<mapsto> ''ok'']))"

definition readyz :: "'s Store \<Rightarrow> WebServer \<Rightarrow> error option \<Rightarrow> ('s world, nat \<times> (string \<rightharpoonup> string)) state" where
  "readyz S sv lookup = State_Monad.bind (readinessChecks S sv lookup) (\<lambda>checks. ret (health_response checks))"

record statusData =
  sp_Checks :: "statusCheck list"
  sp_Ready :: bool
  sp_ErrorCount :: nat

definition statusPage ::
  "'s Store \<Rightarrow> (bytes \<Rightarrow> bytes) \<Rightarrow> WebServer \<Rightarrow> error option \<Rightarrow> http_request \<Rightarrow> ('s world, statusData page response) state" where
  "statusPage S sha sv lookup r =
     State_Monad.bind (readinessChecks S sv lookup) (\<lambda>checks.
     let bad = filter (\<lambda>c. \<not> sc_OK c) checks in
     render sha sv r \<lparr>sp_Checks = checks, sp_Ready = (bad = []), sp_ErrorCount = length bad\<rparr>)"

section \<open>Metrics\<close>

definition writeGauge :: "string \<Rightarrow> string \<Rightarrow> int \<Rightarrow> string" where
  "writeGauge name help v =
     ''# HELP '' @ name @ '' '' @ help @ [CHR 0x0A] @ ''# TYPE '' @ name @ '' gauge'' @ [CHR 0x0A] @
     name @ '' '' @ show_int v @ [CHR 0x0A]"

definition promLabelValue :: "string \<Rightarrow> string" where
  "promLabelValue v = Quote v"

fun show_backup_status :: "backup_status \<Rightarrow> string" where
  "show_backup_status BackupRunning = ''running''"
| "show_backup_status BackupSucceeded = ''succeeded''"
| "show_backup_status BackupFailed = ''failed''"

definition backup_metrics :: "CatalogBackup option \<Rightarrow> string" where
  "backup_metrics b =
     (case b of
        None \<Rightarrow> []
      | Some b \<Rightarrow>
          ''# HELP zfs_s3end_catalog_backup_status Latest catalog backup status.'' @ [CHR 0x0A] @
          ''# TYPE zfs_s3end_catalog_backup_status gauge'' @ [CHR 0x0A] @
          ''zfs_s3end_catalog_backup_status{status='' @ promLabelValue (show_backup_status (cb_Status b)) @ ''} 1'' @ [CHR 0x0A] @
          (case cb_CompletedAt b of
             None \<Rightarrow> []
           | Some t \<Rightarrow> writeGauge ''zfs_s3end_catalog_backup_last_completed_timestamp_seconds''
                         ''Last completed catalog backup time.'' (t div 1000)))"

definition prometheusMetrics :: "('s world, string) prog" where
  "prometheusMetrics =
     check (load_rows ''count sources'' q_CountSources) throw (\<lambda>sourceCount.
     check (load_rows ''count datasets'' q_CountDatasets) throw (\<lambda>datasetCount.
     check (load_rows ''count snapshots'' q_CountCommittedSnapshots) throw (\<lambda>snapshotCount.
     check (load_rows ''sum stored bytes'' q_SumStoredBytes) throw (\<lambda>storedBytes.
     check (load_rows ''count failed uploads'' q_CountFailedUploads) throw (\<lambda>failedUploads.
     check (load_rows ''count failed validations'' q_CountFailedValidations) throw (\<lambda>failedValidations.
     check (load_rows ''list active uploads'' q_ListActiveUploads) throw (\<lambda>activeUploads.
     check load_latest_backup throw (\<lambda>latestBackup.
     ok (writeGauge ''zfs_s3end_sources'' ''Configured backup sources.'' sourceCount @
         writeGauge ''zfs_s3end_datasets'' ''Known datasets.'' datasetCount @
         writeGauge ''zfs_s3end_committed_snapshots'' ''Committed snapshots.'' snapshotCount @
         writeGauge ''zfs_s3end_stored_bytes'' ''Stored snapshot bytes.'' storedBytes @
         writeGauge ''zfs_s3end_failed_uploads'' ''Failed upload sessions.'' failedUploads @
         writeGauge ''zfs_s3end_failed_chain_validations'' ''Failed chain validations.'' failedValidations @
         writeGauge ''zfs_s3end_active_uploads'' ''Active upload sessions.'' (int (length activeUploads)) @
         backup_metrics latestBackup)))))))))"

definition metrics :: "('s world, string response) state" where
  "metrics = check prometheusMetrics (failed_to ''metrics'') (\<lambda>body. ret (Html body))"

section \<open>Frames\<close>

lemma key_frames [frame_rules]: "keeps cat_ok (createSSHKey L name key)" "same_obj (createSSHKey L name key)"
  unfolding createSSHKey_def by (intro frame_rules statement_rules)+

lemma import_frames [frame_rules]:
  "keeps cat_ok (import_keys L u i ks a b)" "same_obj (import_keys L u i ks a b)"
  by (induction ks arbitrary: i a b) (auto intro!: frame_rules)

lemma key_request_frames [frame_rules]:
  "keeps cat_ok (addSSHKey L r)" "same_obj (addSSHKey L r)"
  "keeps cat_ok (addGitHubSSHKeys L get r)" "same_obj (addGitHubSSHKeys L get r)"
  "keeps cat_ok (deleteSSHKey r)" "same_obj (deleteSSHKey r)"
  "keeps cat_ok (apiAddSSHKey L decode r)" "same_obj (apiAddSSHKey L decode r)"
  "keeps cat_ok (apiDeleteSSHKey r)" "same_obj (apiDeleteSSHKey r)"
  unfolding addSSHKey_def addGitHubSSHKeys_def importGitHubSSHKeys_def deleteSSHKey_def apiAddSSHKey_def apiDeleteSSHKey_def Let_def
  by (intro frame_rules statement_rules)+

lemma generateAPIToken_frames [frame_rules]: "same_cat generateAPIToken" "keeps cat_ok generateAPIToken" "same_obj generateAPIToken"
  by (simp_all add: frame_def generateAPIToken_def)

lemma token_frames [frame_rules]:
  "keeps cat_ok (createAPIToken sha name)" "same_obj (createAPIToken sha name)"
  "keeps cat_ok (addAPIToken sha r)" "same_obj (addAPIToken sha r)"
  "keeps cat_ok (deleteAPIToken r)" "same_obj (deleteAPIToken r)"
  "keeps cat_ok (apiAddAPIToken sha decodeName r)" "same_obj (apiAddAPIToken sha decodeName r)"
  "keeps cat_ok (apiDeleteAPIToken r)" "same_obj (apiDeleteAPIToken r)"
  unfolding createAPIToken_def addAPIToken_def deleteAPIToken_def apiAddAPIToken_def apiDeleteAPIToken_def Let_def
  by (intro frame_rules statement_rules)+

lemma list_frames [frame_rules]:
  "same_cat apiListSSHKeys" "same_obj apiListSSHKeys" "same_cat apiListAPITokens" "same_obj apiListAPITokens"
  "same_cat (settings_page sha sv m r)" "same_obj (settings_page sha sv m r)" "same_cat metrics" "same_obj metrics"
  "same_cat Health" "same_obj Health" "same_cat healthz" "same_obj healthz"
  unfolding apiListSSHKeys_def apiListAPITokens_def settings_page_def loadSettings_def metrics_def prometheusMetrics_def
    healthz_def Health_def
  by (intro frame_rules)+

lemma setting_request_frames [frame_rules]:
  "keeps cat_ok (updateRuntimeSetting unrep m r)" "same_obj (updateRuntimeSetting unrep m r)"
  "keeps cat_ok (resetRuntimeSetting unrep m r)" "same_obj (resetRuntimeSetting unrep m r)"
  unfolding updateRuntimeSetting_def resetRuntimeSetting_def Manager_Set_def Manager_Reset_def load_def Let_def
  by (intro frame_rules statement_rules)+

lemma check_frames [frame_rules]:
  "same_cat catalog_check" "same_obj catalog_check" "same_cat (storage_check S sv)" "same_cat (readinessChecks S sv lookup)"
  "same_cat (readyz S sv lookup)" "same_cat (statusPage S sha sv lookup r)"
  unfolding catalog_check_def storage_check_def probe_store_def readinessChecks_def readyz_def statusPage_def Let_def
  by (intro frame_rules)+

end
