(* ===== verification/Web_Server.thy ===== *)
theory Web_Server
  imports Web_Admin
begin

text \<open>
  The web server put together (\<open>src/internal/web/server.go\<close>): the table of routes, the request multiplexer of
  \<open>net/http\<close> over it, and a request from the middleware to the handler. Paths are taken decoded; a segment
  does not contain an encoded slash. Header texts, the request log and the listener are not modelled.
\<close>

section \<open>Routes\<close>

datatype endpoint =
    Ehealthz | Ereadyz | Emetrics | EloginPage | Elogin | Elogout | EsetupPage | Esetup | Edashboard | Eactivity
  | EstatusPage | Esettings | EupdateRuntimeSetting | EresetRuntimeSetting | Edatasets | EdatasetDetail | EvalidateDataset
  | EsnapshotDetail | EvalidateSnapshot | EdeleteSnapshot | EdeleteDataset | EaddAPIToken | EdeleteAPIToken | EaddSSHKey
  | EaddGitHubSSHKeys | EdeleteSSHKey | EapiDashboard | EapiDatasets | EapiDatasetDetail | EapiDeleteDataset
  | EapiSnapshotDetail | EapiValidateSnapshot | EapiDeleteSnapshot | EapiListSSHKeys | EapiAddSSHKey | EapiDeleteSSHKey
  | EapiListAPITokens | EapiAddAPIToken | EapiDeleteAPIToken | ErunValidation

text \<open>A segment of a pattern: a literal or a wildcard with its name.\<close>

datatype segment = Lit string | Wild string

type_synonym route = "string \<times> segment list \<times> endpoint"

text \<open>The patterns in the order of their registration; \<open>GET /\<close>, which matches every path, is not among them.\<close>

definition routes :: "route list" where
  "routes =
     [(''GET'', [Lit ''healthz''], Ehealthz),
      (''GET'', [Lit ''readyz''], Ereadyz),
      (''GET'', [Lit ''metrics''], Emetrics),
      (''GET'', [Lit ''login''], EloginPage),
      (''POST'', [Lit ''login''], Elogin),
      (''POST'', [Lit ''logout''], Elogout),
      (''GET'', [Lit ''setup''], EsetupPage),
      (''POST'', [Lit ''setup''], Esetup),
      (''GET'', [Lit ''activity''], Eactivity),
      (''GET'', [Lit ''status''], EstatusPage),
      (''GET'', [Lit ''settings''], Esettings),
      (''POST'', [Lit ''settings'', Lit ''runtime'', Wild ''key''], EupdateRuntimeSetting),
      (''POST'', [Lit ''settings'', Lit ''runtime'', Wild ''key'', Lit ''reset''], EresetRuntimeSetting),
      (''GET'', [Lit ''datasets''], Edatasets),
      (''GET'', [Lit ''datasets'', Wild ''id''], EdatasetDetail),
      (''POST'', [Lit ''datasets'', Wild ''id'', Lit ''validate''], EvalidateDataset),
      (''GET'', [Lit ''snapshots'', Wild ''id''], EsnapshotDetail),
      (''POST'', [Lit ''snapshots'', Wild ''id'', Lit ''validate''], EvalidateSnapshot),
      (''POST'', [Lit ''snapshots'', Wild ''id'', Lit ''delete''], EdeleteSnapshot),
      (''POST'', [Lit ''datasets'', Wild ''id'', Lit ''delete''], EdeleteDataset),
      (''POST'', [Lit ''settings'', Lit ''api-tokens''], EaddAPIToken),
      (''POST'', [Lit ''settings'', Lit ''api-tokens'', Wild ''id'', Lit ''delete''], EdeleteAPIToken),
      (''POST'', [Lit ''settings'', Lit ''ssh-keys''], EaddSSHKey),
      (''POST'', [Lit ''settings'', Lit ''ssh-keys'', Lit ''github''], EaddGitHubSSHKeys),
      (''POST'', [Lit ''settings'', Lit ''ssh-keys'', Wild ''id'', Lit ''delete''], EdeleteSSHKey),
      (''GET'', [Lit ''api'', Lit ''v1'', Lit ''dashboard''], EapiDashboard),
      (''GET'', [Lit ''api'', Lit ''v1'', Lit ''datasets''], EapiDatasets),
      (''GET'', [Lit ''api'', Lit ''v1'', Lit ''datasets'', Wild ''id''], EapiDatasetDetail),
      (''DELETE'', [Lit ''api'', Lit ''v1'', Lit ''datasets'', Wild ''id''], EapiDeleteDataset),
      (''GET'', [Lit ''api'', Lit ''v1'', Lit ''snapshots'', Wild ''id''], EapiSnapshotDetail),
      (''POST'', [Lit ''api'', Lit ''v1'', Lit ''snapshots'', Wild ''id'', Lit ''validate''], EapiValidateSnapshot),
      (''DELETE'', [Lit ''api'', Lit ''v1'', Lit ''snapshots'', Wild ''id''], EapiDeleteSnapshot),
      (''GET'', [Lit ''api'', Lit ''v1'', Lit ''ssh-keys''], EapiListSSHKeys),
      (''POST'', [Lit ''api'', Lit ''v1'', Lit ''ssh-keys''], EapiAddSSHKey),
      (''DELETE'', [Lit ''api'', Lit ''v1'', Lit ''ssh-keys'', Wild ''id''], EapiDeleteSSHKey),
      (''GET'', [Lit ''api'', Lit ''v1'', Lit ''api-tokens''], EapiListAPITokens),
      (''POST'', [Lit ''api'', Lit ''v1'', Lit ''api-tokens''], EapiAddAPIToken),
      (''DELETE'', [Lit ''api'', Lit ''v1'', Lit ''api-tokens'', Wild ''id''], EapiDeleteAPIToken),
      (''POST'', [Lit ''api'', Lit ''v1'', Lit ''admin'', Lit ''validation'', Lit ''run''], ErunValidation),
      (''POST'', [Lit ''admin'', Lit ''validation'', Lit ''run''], ErunValidation)]"

section \<open>The multiplexer\<close>

text \<open>A pattern for GET matches HEAD too. A wildcard matches one segment that is not empty.\<close>

definition method_matches :: "string \<Rightarrow> string \<Rightarrow> bool" where
  "method_matches p m \<longleftrightarrow> m = p \<or> p = ''GET'' \<and> m = ''HEAD''"

fun match_segments :: "segment list \<Rightarrow> string list \<Rightarrow> (string \<rightharpoonup> string) option" where
  "match_segments [] [] = Some Map.empty"
| "match_segments (Lit s # ps) (x # xs) = (if s = x then match_segments ps xs else None)"
| "match_segments (Wild n # ps) (x # xs) =
     (if x = [] then None else map_option (\<lambda>b. b(n \<mapsto> x)) (match_segments ps xs))"
| "match_segments _ _ = None"

definition route_matches :: "string \<Rightarrow> string list \<Rightarrow> route \<Rightarrow> bool" where
  "route_matches m xs rt \<longleftrightarrow> method_matches (fst rt) m \<and> match_segments (fst (snd rt)) xs \<noteq> None"

definition cleanPath :: "string \<Rightarrow> string" where
  "cleanPath p =
     (if p = [] then ''/''
      else let p = (if hd p = CHR ''/'' then p else CHR ''/'' # p); np = path_Clean p in
        if last p = CHR ''/'' \<and> np \<noteq> ''/'' then np @ ''/'' else np)"

definition path_segments :: "string \<Rightarrow> string list" where
  "path_segments p = split_on (CHR ''/'') (drop 1 p)"

datatype mux_answer = Dispatch endpoint "string \<rightharpoonup> string" | MovedTo string | MethodNotAllowed

definition mux :: "string \<Rightarrow> string \<Rightarrow> mux_answer" where
  "mux m p =
     (if cleanPath p \<noteq> p then MovedTo (cleanPath p)
      else let xs = path_segments p in
        case find (route_matches m xs) routes of
          Some (_, segs, e) \<Rightarrow> Dispatch e (case match_segments segs xs of None \<Rightarrow> Map.empty | Some b \<Rightarrow> b)
        | None \<Rightarrow> if method_matches ''GET'' m then Dispatch Edashboard Map.empty else MethodNotAllowed)"

section \<open>The service\<close>

text \<open>
  What the running server keeps: the world with the attempt counters, the settings manager, and the goroutines
  that handlers have started and that have not run yet.
\<close>

record 's service =
  sv_web :: "'s web"
  sv_manager :: "Manager option"
  sv_jobs :: "job list"

text \<open>What the server is given: its store and the code that is not its own.\<close>

record 's deps =
  dp_Store :: "'s Store"
  dp_sha :: "bytes \<Rightarrow> bytes"
  dp_json :: json
  dp_checker :: checker
  dp_runner :: Runner
  dp_bcrypt :: bcrypt
  dp_ssh :: ssh_lib
  dp_github :: "string \<Rightarrow> error + github_response"
  dp_unrep :: "float64 \<Rightarrow> int"
  dp_lookup :: "error option"
  dp_decodeKey :: "string \<Rightarrow> error + string \<times> string"
  dp_decodeName :: "string \<Rightarrow> error + string"

datatype body =
    BHealth "nat \<times> (string \<rightharpoonup> string)" | BText string | BDashboard "dashboardData page" | BActivity "activityData page"
  | BStatus "statusData page" | BSettings "settingsData page" | BDatasets "ListDatasetSummariesRow list page"
  | BDataset "datasetDetailData page" | BSnapshot "snapshotDetailData page" | BToken new_token
  | BDashboardData dashboardData | BSummaries "ListDatasetSummariesRow list" | BDatasetData datasetDetailData
  | BSnapshotData snapshotDetailData | BFields "(string \<times> string) list" | BKeys "SshKey list" | BTokens "ApiTokenRow list"
  | BRun RunDueResult

type_synonym answer = "body response \<times> http_cookie option"

definition on_web :: "('s web, 'a) state \<Rightarrow> ('s service, 'a) state" where
  "on_web m = State (\<lambda>s. case run_state m (sv_web s) of (r, w) \<Rightarrow> (r, s\<lparr>sv_web := w\<rparr>))"

definition in_service :: "('s world, 'a) state \<Rightarrow> ('s service, 'a) state" where
  "in_service m = on_web (in_world m)"

text \<open>The kinds of handlers: a page, one that sets a cookie, one that starts a job, one that changes a setting.\<close>

definition plain :: "('a \<Rightarrow> body) \<Rightarrow> ('s world, 'a response) state \<Rightarrow> ('s service, answer) state" where
  "plain f m = State_Monad.bind (in_service m) (\<lambda>a. ret (map_response f a, None))"

definition with_cookie :: "('s web, body response \<times> http_cookie option) state \<Rightarrow> ('s service, answer) state" where
  "with_cookie m = on_web m"

definition with_job :: "('a \<Rightarrow> body) \<Rightarrow> ('s world, 'a response \<times> job option) state \<Rightarrow> ('s service, answer) state" where
  "with_job f m =
     State_Monad.bind (in_service m) (\<lambda>(a, j).
     State (\<lambda>s. ((map_response f a, None), s\<lparr>sv_jobs := sv_jobs s @ (case j of None \<Rightarrow> [] | Some x \<Rightarrow> [x])\<rparr>)))"

definition with_manager ::
  "(Manager option \<Rightarrow> ('s world, body response \<times> Manager option) state) \<Rightarrow> ('s service, answer) state" where
  "with_manager f =
     State_Monad.bind (State (\<lambda>s. (sv_manager s, s))) (\<lambda>m.
     State_Monad.bind (in_service (f m)) (\<lambda>(a, m').
     State (\<lambda>s. ((a, None), s\<lparr>sv_manager := m'\<rparr>))))"

fun handle :: "'s deps \<Rightarrow> WebServer \<Rightarrow> endpoint \<Rightarrow> http_request \<Rightarrow> ('s service, answer) state" where
  "handle D sv Ehealthz r = plain BHealth (State_Monad.bind healthz (\<lambda>a. ret (Json a)))"
| "handle D sv Ereadyz r = plain BHealth (State_Monad.bind (readyz (dp_Store D) sv (dp_lookup D)) (\<lambda>a. ret (Json a)))"
| "handle D sv Emetrics r = plain BText metrics"
| "handle D sv EloginPage r = on_web (State_Monad.bind (loginPage r) (\<lambda>a. ret (map_response BText a, None)))"
| "handle D sv Elogin r = with_cookie (login (dp_sha D) (dp_bcrypt D) sv r)"
| "handle D sv Elogout r = with_cookie (logout r)"
| "handle D sv EsetupPage r = on_web (State_Monad.bind (setupPage sv r) (\<lambda>a. ret (map_response BText a, None)))"
| "handle D sv Esetup r = with_cookie (setup_submit (dp_sha D) (dp_bcrypt D) sv r)"
| "handle D sv Edashboard r = plain BDashboard (dashboard (dp_sha D) sv r)"
| "handle D sv Eactivity r = plain BActivity (activity (dp_sha D) sv r)"
| "handle D sv EstatusPage r = plain BStatus (statusPage (dp_Store D) (dp_sha D) sv (dp_lookup D) r)"
| "handle D sv Esettings r = with_manager (\<lambda>m. State_Monad.bind (settings_page (dp_sha D) sv m r) (\<lambda>a. ret (map_response BSettings a, m)))"
| "handle D sv EupdateRuntimeSetting r = with_manager (\<lambda>m. updateRuntimeSetting (dp_unrep D) m r)"
| "handle D sv EresetRuntimeSetting r = with_manager (\<lambda>m. resetRuntimeSetting (dp_unrep D) m r)"
| "handle D sv Edatasets r = plain BDatasets (datasets_page (dp_sha D) sv r)"
| "handle D sv EdatasetDetail r = plain BDataset (datasetDetail (dp_sha D) sv r)"
| "handle D sv EvalidateDataset r = with_job (\<lambda>b. b) (validateDataset_handler sv r)"
| "handle D sv EsnapshotDetail r = plain BSnapshot (snapshotDetail (dp_sha D) sv r)"
| "handle D sv EvalidateSnapshot r = with_job (\<lambda>b. b) (validateSnapshot sv r)"
| "handle D sv EdeleteSnapshot r = plain (\<lambda>b. b) (deleteSnapshot sv r)"
| "handle D sv EdeleteDataset r = plain (\<lambda>b. b) (deleteDataset sv r)"
| "handle D sv EaddAPIToken r = plain BToken (addAPIToken (dp_sha D) r)"
| "handle D sv EdeleteAPIToken r = plain (\<lambda>b. b) (deleteAPIToken r)"
| "handle D sv EaddSSHKey r = plain (\<lambda>b. b) (addSSHKey (dp_ssh D) r)"
| "handle D sv EaddGitHubSSHKeys r = plain (\<lambda>b. b) (addGitHubSSHKeys (dp_ssh D) (dp_github D) r)"
| "handle D sv EdeleteSSHKey r = plain (\<lambda>b. b) (deleteSSHKey r)"
| "handle D sv EapiDashboard r = plain BDashboardData apiDashboard"
| "handle D sv EapiDatasets r = plain BSummaries apiDatasets"
| "handle D sv EapiDatasetDetail r = plain BDatasetData (apiDatasetDetail r)"
| "handle D sv EapiDeleteDataset r = plain BFields (apiDeleteDataset sv r)"
| "handle D sv EapiSnapshotDetail r = plain BSnapshotData (apiSnapshotDetail sv r)"
| "handle D sv EapiValidateSnapshot r = with_job BFields (apiValidateSnapshot sv r)"
| "handle D sv EapiDeleteSnapshot r = plain BFields (apiDeleteSnapshot sv r)"
| "handle D sv EapiListSSHKeys r = plain BKeys apiListSSHKeys"
| "handle D sv EapiAddSSHKey r = plain BFields (apiAddSSHKey (dp_ssh D) (dp_decodeKey D) r)"
| "handle D sv EapiDeleteSSHKey r = plain BFields (apiDeleteSSHKey r)"
| "handle D sv EapiListAPITokens r = plain BTokens apiListAPITokens"
| "handle D sv EapiAddAPIToken r = plain BToken (apiAddAPIToken (dp_sha D) (dp_decodeName D) r)"
| "handle D sv EapiDeleteAPIToken r = plain BFields (apiDeleteAPIToken r)"
| "handle D sv ErunValidation r = plain BRun (runValidation (dp_Store D) (dp_sha D) (dp_json D) (dp_checker D) (dp_runner D) sv r)"

definition mux_serve :: "'s deps \<Rightarrow> WebServer \<Rightarrow> http_request \<Rightarrow> ('s service, answer) state" where
  "mux_serve D sv r =
     (case mux (hr_Method r) (hr_Path r) of
        Dispatch e b \<Rightarrow> handle D sv e (r\<lparr>hr_PathValue := (\<lambda>n. case b n of None \<Rightarrow> [] | Some v \<Rightarrow> v)\<rparr>)
      | MovedTo p \<Rightarrow> ret (MovedPermanently p, None)
      | MethodNotAllowed \<Rightarrow> ret (HttpError 405 ''Method Not Allowed'', None))"

definition serveHTTP :: "'s deps \<Rightarrow> WebServer \<Rightarrow> http_request \<Rightarrow> ('s service, answer) state" where
  "serveHTTP D sv r =
     State_Monad.bind (on_web (auth_decision (dp_sha D) sv r)) (\<lambda>d.
     case d of None \<Rightarrow> mux_serve D sv r | Some a \<Rightarrow> ret (a, None))"

definition web_New :: "string \<Rightarrow> bytes \<Rightarrow> WebServer" where
  "web_New adminPassword sessionKey =
     \<lparr>ws_adminPassword = adminPassword, ws_sessionKey = sessionKey, ws_disableAuth = False, ws_validationRunner = False,
      ws_store = False, ws_restoreSSHCommandPrefix = ''ssh [named_source]@<ssh-host>''\<rparr>"

section \<open>The routes do not conflict\<close>

text \<open>Two patterns overlap when a path matches both.\<close>

fun segments_overlap :: "segment list \<Rightarrow> segment list \<Rightarrow> bool" where
  "segments_overlap [] [] \<longleftrightarrow> True"
| "segments_overlap (Lit s # ps) (Lit t # qs) \<longleftrightarrow> s = t \<and> segments_overlap ps qs"
| "segments_overlap (p # ps) (q # qs) \<longleftrightarrow> segments_overlap ps qs"
| "segments_overlap _ _ \<longleftrightarrow> False"

lemma match_segments_overlap:
  "match_segments ps xs \<noteq> None \<Longrightarrow> match_segments qs xs \<noteq> None \<Longrightarrow> segments_overlap ps qs"
proof (induction ps xs arbitrary: qs rule: match_segments.induct)
  case (2 s ps x xs)
  then show ?case by (cases qs rule: list.exhaust; cases "hd qs") (auto split: if_splits)
next
  case (3 n ps x xs)
  then show ?case by (cases qs rule: list.exhaust; cases "hd qs") (auto split: if_splits)
next
  case 1
  then show ?case by (cases qs rule: list.exhaust; cases "hd qs") auto
qed auto

definition route_overlap :: "route \<Rightarrow> route \<Rightarrow> bool" where
  "route_overlap a b \<longleftrightarrow> fst a = fst b \<and> segments_overlap (fst (snd a)) (fst (snd b))"

lemma routes_methods: "\<forall>rt \<in> set routes. fst rt \<in> {''GET'', ''POST'', ''DELETE''}"
  by (simp add: routes_def)

lemma routes_no_overlap: "distinct routes \<and> (\<forall>a \<in> set routes. \<forall>b \<in> set routes. route_overlap a b \<longrightarrow> a = b)"
  by code_simp



end
