(* ===== verification/Web_Safety.thy ===== *)
theory Web_Safety
  imports Web_Server
begin

text \<open>
  What a request can do: requests with a safe method change nothing, requests without proof of identity
  change nothing, and every request keeps the constraints of the catalog.
\<close>

section \<open>Frames of the service\<close>

abbreviation svc_world :: "'s service \<Rightarrow> 's world" where
  "svc_world s \<equiv> wb_world (sv_web s)"

text \<open>What a request that only reads leaves alone, the store apart.\<close>

definition service_view :: "'s service \<Rightarrow> catalog \<times> job list \<times> Manager option" where
  "service_view s = (wCat (svc_world s), sv_jobs s, sv_manager s)"

lemma frame_in_service:
  assumes "frame R m" and "\<And>s w. R (svc_world s) w \<Longrightarrow> Q s (s\<lparr>sv_web := (sv_web s)\<lparr>wb_world := w\<rparr>\<rparr>)"
  shows "frame Q (in_service m)"
  unfolding frame_def
proof
  fix s
  obtain x w where run: "run_state m (svc_world s) = (x, w)" by fastforce
  show "Q s (snd (run_state (in_service m) s))"
    using assms(2) [OF frameD [OF assms(1) run]] run by (simp add: in_service_def on_web_def in_world_def)
qed

lemma view_in_service [frame_rules]: "same_cat m \<Longrightarrow> frame (\<lambda>s t. service_view t = service_view s) (in_service m)"
  by (erule frame_in_service) (simp add: service_view_def)

lemma view_plain [frame_rules]: "same_cat m \<Longrightarrow> frame (\<lambda>s t. service_view t = service_view s) (plain f m)"
  unfolding plain_def by (intro frame_rules)

text \<open>The objects of the store but for the one the readiness check writes.\<close>

definition other_objects :: "('s \<Rightarrow> string \<Rightarrow> bytes option) \<Rightarrow> 's \<Rightarrow> string \<Rightarrow> bytes option" where
  "other_objects view o' k = (if k = health_key then None else view o' k)"

abbreviation obj_kept :: "('s \<Rightarrow> string \<Rightarrow> bytes option) \<Rightarrow> ('s \<Rightarrow> bool) \<Rightarrow> 's world \<Rightarrow> 's world \<Rightarrow> bool" where
  "obj_kept view I w w' \<equiv> I (wObj w) \<longrightarrow> I (wObj w') \<and> other_objects view (wObj w') = other_objects view (wObj w)"

interpretation guarded: frame_order "\<lambda>s t. I s \<longrightarrow> I t \<and> f t = f s" for I :: "'s \<Rightarrow> bool" and f :: "'s \<Rightarrow> 'x"
  by unfold_locales auto

lemma same_obj_kept: "same_obj m \<Longrightarrow> frame (obj_kept view I) m"
  by (simp add: frame_def)

context object_store
begin

lemma kept_call:
  assumes "\<And>o1 x o2. f o1 = (x, o2) \<Longrightarrow> inv o1 \<Longrightarrow> inv o2 \<and> (\<forall>k. k \<noteq> health_key \<longrightarrow> view o2 k = view o1 k)"
  shows "frame (obj_kept view inv) (store_call f)"
proof (rule frameI)
  fix w x w'
  assume "run_state (store_call f) w = (x, w')"
  then have "f (wObj w) = (x, wObj w')" by (auto simp: store_call_def split: prod.splits)
  from assms [OF this] show "obj_kept view inv w w'" by (auto simp: other_objects_def fun_eq_iff)
qed

lemma kept_store_call:
  "frame (obj_kept view inv) (store_call (PutBytes S health_key d))"
  "frame (obj_kept view inv) (store_call (GetBytes S health_key))"
  "frame (obj_kept view inv) (store_call (Delete S health_key))"
  by (rule kept_call, metis put_inv put_other) (rule kept_call, metis get_view, rule kept_call, metis delete_inv delete_other)

lemma kept_readiness:
  "frame (obj_kept view inv) (readinessChecks S sv lookup)" "frame (obj_kept view inv) (readyz S sv lookup)"
  "frame (obj_kept view inv) (statusPage S sha' sv lookup r)"
proof -
  have probe: "frame (obj_kept view inv) (probe_store S)"
    unfolding probe_store_def
    by (intro guarded.frame_bind guarded.frame_check guarded.frame_ret frame_if kept_store_call)
  have checks: "frame (obj_kept view inv) (readinessChecks S sv lookup)"
    unfolding readinessChecks_def storage_check_def
    by (intro guarded.frame_bind guarded.frame_ret frame_prod frame_if probe same_obj_kept [OF check_frames(2)])
  show "frame (obj_kept view inv) (readinessChecks S sv lookup)" by (rule checks)
  show "frame (obj_kept view inv) (readyz S sv lookup)"
    unfolding readyz_def by (intro guarded.frame_bind guarded.frame_ret checks)
  show "frame (obj_kept view inv) (statusPage S sha' sv lookup r)"
    unfolding statusPage_def Let_def by (intro guarded.frame_bind checks same_obj_kept [OF render_frames(2)])
qed

end

section \<open>Safe methods\<close>

text \<open>The endpoints behind \<open>GET\<close> patterns.\<close>

definition reader :: "endpoint \<Rightarrow> bool" where
  "reader e \<longleftrightarrow> e \<in> {Ehealthz, Ereadyz, Emetrics, EloginPage, EsetupPage, Edashboard, Eactivity, EstatusPage, Esettings,
     Edatasets, EdatasetDetail, EsnapshotDetail, EapiDashboard, EapiDatasets, EapiDatasetDetail, EapiSnapshotDetail,
     EapiListSSHKeys, EapiListAPITokens}"

lemma get_routes_read: "\<forall>(p, segs, e) \<in> set routes. p = ''GET'' \<longrightarrow> reader e"
  by (simp add: routes_def reader_def)

lemma safe_dispatch:
  assumes "\<not> isUnsafeMethod m" and "mux m p = Dispatch e b"
  shows "reader e"
proof (cases "find (route_matches m (path_segments p)) routes")
  case None
  then have "e = Edashboard" using assms(2) by (auto simp: mux_def Let_def split: if_splits)
  then show ?thesis by (simp add: reader_def)
next
  case (Some rt)
  obtain q segs e' where rt: "rt = (q, segs, e')" by (cases rt)
  have "e' = e" using Some rt assms(2) by (auto simp: mux_def Let_def split: if_splits)
  moreover have "rt \<in> set routes" "method_matches q m"
    using find_SomeD [OF Some] rt by (auto simp: route_matches_def)
  moreover have "q = ''GET''" using calculation(2,3) assms(1) routes_methods rt
    by (auto simp: method_matches_def isUnsafeMethod_def)
  ultimately show ?thesis using get_routes_read rt by auto
qed

lemma view_on_web: "frame (\<lambda>s t. wCat (wb_world t) = wCat (wb_world s)) m \<Longrightarrow> frame (\<lambda>s t. service_view t = service_view s) (on_web m)"
  by (auto simp: frame_def on_web_def service_view_def split: prod.splits) (metis snd_conv)

lemma web_in_world: "same_cat m \<Longrightarrow> frame (\<lambda>s t. wCat (wb_world t) = wCat (wb_world s)) (in_world m)"
  by (auto simp: frame_def in_world_def split: prod.splits) (metis snd_conv)

lemma adminConfigured_cat: "same_cat (adminConfigured sv)"
  unfolding adminConfigured_def by (intro frame_rules)

lemma view_with_manager:
  assumes "\<And>m. same_cat (f m)" and "\<And>m w a m' w'. run_state (f m) w = ((a, m'), w') \<Longrightarrow> m' = m"
  shows "frame (\<lambda>s t. service_view t = service_view s) (with_manager f)"
proof (rule frameI)
  fix s x t
  assume run: "run_state (with_manager f) s = (x, t)"
  obtain a m' w where f: "run_state (f (sv_manager s)) (svc_world s) = ((a, m'), w)"
    by (metis prod.collapse)
  have "wCat w = wCat (svc_world s)" using frameD [OF assms(1) f] .
  moreover have "m' = sv_manager s" using assms(2) [OF f] .
  ultimately show "service_view t = service_view s"
    using run f by (auto simp: with_manager_def in_service_def on_web_def in_world_def service_view_def)
qed

lemma reader_endpoint_view:
  assumes "reader e"
  shows "frame (\<lambda>s t. service_view t = service_view s) (handle D sv e r)"
proof -
  have page: "frame (\<lambda>s t. service_view t = service_view s) (on_web (State_Monad.bind (setupPage sv r) (\<lambda>a. ret (map_response BText a, None))))"
    unfolding setupPage_def setup_guard_def
    by (intro view_on_web frame_rules web_in_world adminConfigured_cat)
  have login: "frame (\<lambda>s t. service_view t = service_view s) (on_web (State_Monad.bind (loginPage r) (\<lambda>a. ret (map_response BText a, None))))"
    unfolding loginPage_def by (intro view_on_web frame_rules)
  have manager: "frame (\<lambda>s t. service_view t = service_view s)
      (with_manager (\<lambda>m. State_Monad.bind (settings_page (dp_sha D) sv m r) (\<lambda>a. ret (map_response BSettings a, m))))"
    by (rule view_with_manager) (intro frame_rules, auto split: prod.splits)
  show ?thesis
    using assms page login manager unfolding reader_def by (auto intro!: frame_rules)
qed
text \<open>The catalog without the times at which the API tokens were used.\<close>

definition forget_use :: "catalog \<Rightarrow> catalog" where
  "forget_use c = c\<lparr>api_tokens := map (\<lambda>t. t\<lparr>at_LastUsedAt := None\<rparr>) (api_tokens c)\<rparr>"

lemma forget_use_touch: "q_TouchAPIToken rid now c = Inr c' \<Longrightarrow> forget_use c' = forget_use c"
  by (auto simp: q_TouchAPIToken_def forget_use_def update_where_def)

text \<open>What the middleware may change of the world: the times of the tokens and the clock.\<close>

definition seen_world :: "'s world \<Rightarrow> catalog \<times> 's" where
  "seen_world w = (forget_use (wCat w), wObj w)"

lemma seen_same: "same_cat m \<Longrightarrow> same_obj m \<Longrightarrow> frame (\<lambda>w w'. seen_world w' = seen_world w) m"
  by (simp add: frame_def seen_world_def)

lemma seen_verifyAPIToken: "frame (\<lambda>w w'. seen_world w' = seen_world w) (verifyAPIToken sha token)"
proof -
  have touch: "frame (\<lambda>w w'. seen_world w' = seen_world w) (db_exec (q_TouchAPIToken i))" for i
    by (auto simp: frame_def db_exec_def seen_world_def forget_use_touch split: sum.splits)
  have query: "frame (\<lambda>w w'. seen_world w' = seen_world w) (db_query (q_GetActiveAPITokenByHash h))" for h
    by (intro seen_same frame_rules)
  show ?thesis unfolding verifyAPIToken_def by (intro untouched.frame_check untouched.frame_bind untouched.frame_ret touch query)
qed

lemma seen_in_world: "frame (\<lambda>w w'. seen_world w' = seen_world w) m \<Longrightarrow>
    frame (\<lambda>s t. seen_world (wb_world t) = seen_world (wb_world s)) (in_world m)"
  by (auto simp: frame_def in_world_def split: prod.splits) (metis snd_conv)

lemma seen_attempts:
  "frame (\<lambda>s t. seen_world (wb_world t) = seen_world (wb_world s)) (allow_attempt key)"
  "frame (\<lambda>s t. seen_world (wb_world t) = seen_world (wb_world s)) (fail_attempt key)"
  "frame (\<lambda>s t. seen_world (wb_world t) = seen_world (wb_world s)) (clear_attempts key)"
  by (simp_all add: frame_def allow_attempt_def fail_attempt_def clear_attempts_def in_world_def time_Now_def seen_world_def)

lemmas seen_rules = untouched.frame_bind untouched.frame_check untouched.frame_ret frame_if frame_option seen_attempts seen_in_world
  seen_verifyAPIToken

lemma seen_auth_decision: "frame (\<lambda>s t. seen_world (wb_world t) = seen_world (wb_world s)) (auth_decision sha sv r)"
proof -
  have now: "frame (\<lambda>w w'. seen_world w' = seen_world w) time_Now" by (intro seen_same frame_rules)
  have admin: "frame (\<lambda>w w'. seen_world w' = seen_world w) (adminConfigured sv)"
    unfolding adminConfigured_def by (intro seen_same frame_rules)
  have sess: "frame (\<lambda>s t. seen_world (wb_world t) = seen_world (wb_world s)) (session_decision sha sv r)"
    unfolding session_decision_def Let_def by (intro seen_rules now)
  show ?thesis
    unfolding auth_decision_def token_attempt_def Let_def by (intro seen_rules sess admin)
qed

text \<open>The store of a request with a safe method.\<close>

context object_store
begin

abbreviation svc_kept :: "'s service \<Rightarrow> 's service \<Rightarrow> bool" where
  "svc_kept s t \<equiv> obj_kept view inv (svc_world s) (svc_world t)"

lemma kept_in_service: "frame (obj_kept view inv) m \<Longrightarrow> frame svc_kept (in_service m)"
  by (erule frame_in_service) simp

lemma kept_plain: "frame (obj_kept view inv) m \<Longrightarrow> frame svc_kept (plain f m)"
  unfolding plain_def by (intro guarded.frame_bind guarded.frame_ret kept_in_service)

lemma kept_quiet_plain: "same_obj m \<Longrightarrow> frame svc_kept (plain f m)"
  by (intro kept_plain same_obj_kept)

lemma kept_on_web:
  assumes "frame (\<lambda>s t. wObj (wb_world t) = wObj (wb_world s)) m"
  shows "frame svc_kept (on_web m)"
proof (rule frameI)
  fix s x t
  assume run: "run_state (on_web m) s = (x, t)"
  obtain y u where "run_state m (sv_web s) = (y, u)" by fastforce
  with run frameD [OF assms this] show "svc_kept s t" by (auto simp: on_web_def)
qed

lemma obj_in_world: "same_obj m \<Longrightarrow> frame (\<lambda>s t. wObj (wb_world t) = wObj (wb_world s)) (in_world m)"
  by (auto simp: frame_def in_world_def split: prod.splits) (metis snd_conv)

lemma kept_reader:
  assumes "reader e" and "dp_Store D = S"
  shows "frame svc_kept (handle D sv e r)"
proof -
  have admin: "same_obj (adminConfigured sv)" unfolding adminConfigured_def by (intro frame_rules)
  have page: "frame svc_kept (on_web (State_Monad.bind (setupPage sv r) (\<lambda>a. ret (map_response BText a, None))))"
    unfolding setupPage_def setup_guard_def by (intro kept_on_web frame_rules obj_in_world admin)
  have login: "frame svc_kept (on_web (State_Monad.bind (loginPage r) (\<lambda>a. ret (map_response BText a, None))))"
    unfolding loginPage_def by (intro kept_on_web frame_rules)
  have get: "frame svc_kept (State (\<lambda>s. (sv_manager s, s)))" by (simp add: frame_def)
  have put: "frame svc_kept (State (\<lambda>s. (a, s\<lparr>sv_manager := m\<rparr>)))" for a :: answer and m by (simp add: frame_def)
  have manager: "frame svc_kept (handle D sv Esettings r)"
    unfolding handle.simps with_manager_def
    by (intro guarded.frame_bind get kept_in_service same_obj_kept frame_rules frame_prod put)
  have check: "frame svc_kept (handle D sv Ereadyz r)" "frame svc_kept (handle D sv EstatusPage r)"
      "frame svc_kept (handle D sv Ehealthz r)"
    unfolding handle.simps assms(2)
    by (intro kept_plain guarded.frame_bind kept_readiness guarded.frame_ret)
      (intro kept_plain kept_readiness, intro kept_quiet_plain frame_rules)
  show ?thesis
    using assms(1) page login manager check unfolding reader_def
    by (elim insertE emptyE) (simp_all only: handle.simps, (rule kept_quiet_plain, intro frame_rules)+)
qed

end

lemma serve_run:
  fixes D :: "'s deps"
  assumes "run_state (serveHTTP D sv r) s = (a, s')"
  obtains d u where "run_state (auth_decision (dp_sha D) sv r :: ('s web, body response option) state) (sv_web s) = (d, u)"
    and "run_state (case d of None \<Rightarrow> mux_serve D sv r | Some x \<Rightarrow> ret (x, None)) (s\<lparr>sv_web := u\<rparr>) = (a, s')"
proof -
  obtain d u where "run_state (auth_decision (dp_sha D) sv r :: ('s web, body response option) state) (sv_web s) = (d, u)"
    by fastforce
  then show thesis using that assms by (simp add: serveHTTP_def on_web_def)
qed

lemma safe_mux_serve:
  assumes "object_store (dp_Store D) sha view I" and "\<not> isUnsafeMethod (hr_Method r)"
    and "run_state (mux_serve D sv r) s = (a, s')"
  shows "service_view s' = service_view s \<and> obj_kept view I (svc_world s) (svc_world s')"
proof (cases "mux (hr_Method r) (hr_Path r)")
  case (Dispatch e b)
  note e = safe_dispatch [OF assms(2) Dispatch]
  from assms(3) Dispatch show ?thesis
    using frameD [OF reader_endpoint_view [OF e]] frameD [OF object_store.kept_reader [OF assms(1) e refl]]
    by (simp add: mux_serve_def) blast
qed (use assms(3) in \<open>auto simp: mux_serve_def\<close>)

lemma serve_safe:
  assumes store: "object_store (dp_Store D) sha view I" "I (wObj (svc_world s))"
    and m: "\<not> isUnsafeMethod (hr_Method r)" and run: "run_state (serveHTTP D sv r) s = (a, s')"
  shows "forget_use (wCat (svc_world s')) = forget_use (wCat (svc_world s))" (is ?c)
    and "sv_jobs s' = sv_jobs s \<and> sv_manager s' = sv_manager s" (is ?j)
    and "k \<noteq> health_key \<Longrightarrow> view (wObj (svc_world s')) k = view (wObj (svc_world s)) k" (is "PROP ?o")
proof -
  obtain d u where dec: "run_state (auth_decision (dp_sha D) sv r) (sv_web s) = (d, u)"
    and rest: "run_state (case d of None \<Rightarrow> mux_serve D sv r | Some x \<Rightarrow> ret (x, None)) (s\<lparr>sv_web := u\<rparr>) = (a, s')"
    by (rule serve_run [OF run])
  have seen: "seen_world (wb_world u) = seen_world (svc_world s)" using frameD [OF seen_auth_decision dec] .
  have view: "service_view s' = service_view (s\<lparr>sv_web := u\<rparr>) \<and> obj_kept view I (wb_world u) (svc_world s')"
  proof (cases d)
    case None
    then show ?thesis using safe_mux_serve [OF store(1) m] rest by fastforce
  qed (use rest in auto)
  show ?c using view seen by (simp add: service_view_def seen_world_def)
  show ?j using view by (simp add: service_view_def)
  have "I (wObj (wb_world u))" using seen store(2) by (simp add: seen_world_def)
  then have "other_objects view (wObj (svc_world s')) = other_objects view (wObj (svc_world s))"
    using view seen by (simp add: seen_world_def)
  then show "PROP ?o" by (simp add: other_objects_def fun_eq_iff) metis
qed

text \<open>
  C7. A request with a safe method reads only, whoever sends it: the catalog stays as it is up to the time at which an API token was
  last used, no setting changes, no validation starts, and in the store no object is touched but the one of the readiness check. This is what the token against
  cross-site requests, which is asked for with the other methods only, relies on.
\<close>

theorem safe_requests_read:
  assumes "object_store (dp_Store D) sha view I" and "I (wObj (svc_world s))"
    and "\<not> isUnsafeMethod (hr_Method r)" and "run_state (serveHTTP D sv r) s = (a, s')"
  shows "forget_use (wCat (svc_world s')) = forget_use (wCat (svc_world s)) \<and> sv_jobs s' = sv_jobs s \<and>
    sv_manager s' = sv_manager s \<and> (\<forall>k. k \<noteq> health_key \<longrightarrow> view (wObj (svc_world s')) k = view (wObj (svc_world s)) k)"
  using serve_safe [OF assms] by blast

section \<open>Requests without proof of identity\<close>

definition has_admin :: "WebServer \<Rightarrow> catalog \<Rightarrow> bool" where
  "has_admin sv c \<longleftrightarrow> ws_adminPassword sv \<noteq> [] \<or>
     (\<exists>cr h. admin_credentials c = Some cr \<and> ac_PasswordHash cr = Some h \<and> h \<noteq> [])"

definition anonymous :: "(bytes \<Rightarrow> bytes) \<Rightarrow> WebServer \<Rightarrow> http_request \<Rightarrow> catalog \<Rightarrow> bool" where
  "anonymous sha sv r c \<longleftrightarrow> \<not> ws_disableAuth sv \<and> \<not> token_proof sha r c \<and> \<not> session_proof sha sv r"

text \<open>The public paths lead to the health checks, the login and the setup.\<close>

lemma public_mux:
  assumes "public_path p" and "mux m p = Dispatch e b"
  shows "e \<in> {Ehealthz, Ereadyz, EloginPage, Elogin, EsetupPage, Esetup}"
proof -
  have lit: "cleanPath ''/healthz'' = ''/healthz''" "cleanPath ''/readyz'' = ''/readyz''" "cleanPath ''/login'' = ''/login''"
    "cleanPath ''/setup'' = ''/setup''" "path_segments ''/healthz'' = [''healthz'']" "path_segments ''/readyz'' = [''readyz'']"
    "path_segments ''/login'' = [''login'']" "path_segments ''/setup'' = [''setup'']"
    by code_simp+
  have seg: "find (route_matches m [''healthz'']) routes = (if method_matches ''GET'' m then Some (''GET'', [Lit ''healthz''], Ehealthz) else None)"
    "find (route_matches m [''readyz'']) routes = (if method_matches ''GET'' m then Some (''GET'', [Lit ''readyz''], Ereadyz) else None)"
    "find (route_matches m [''login'']) routes = (if method_matches ''GET'' m then Some (''GET'', [Lit ''login''], EloginPage)
       else if method_matches ''POST'' m then Some (''POST'', [Lit ''login''], Elogin) else None)"
    "find (route_matches m [''setup'']) routes = (if method_matches ''GET'' m then Some (''GET'', [Lit ''setup''], EsetupPage)
       else if method_matches ''POST'' m then Some (''POST'', [Lit ''setup''], Esetup) else None)"
    by (simp_all add: routes_def route_matches_def)
  from assms(1) consider "p = ''/healthz''" | "p = ''/readyz''" | "p = ''/login''" | "p = ''/setup''"
    unfolding public_path_def by blast
  then show ?thesis
    by cases (use assms(2) in \<open>simp_all add: mux_def lit seg split: if_splits\<close>)
qed

lemma setup_configured:
  assumes "has_admin sv (wCat (wb_world s))"
  shows "wp (setup_submit sha B sv r :: ('a web, 'b response \<times> http_cookie option) state)
    (\<lambda>x t. wCat (wb_world t) = wCat (wb_world s) \<and> wObj (wb_world t) = wObj (wb_world s)) s"
  using assms
  by (auto simp: setup_submit_def has_admin_def adminConfigured_def wp_rules q_GetAdminCredentials_def one_row_def
      split: option.splits sum.splits)

lemma login_quiet:
  "frame (\<lambda>s t. seen_world (wb_world t) = seen_world (wb_world s)) (login sha B sv r :: ('a web, 'b response \<times> http_cookie option) state)"
proof -
  have now: "frame (\<lambda>w w'. seen_world w' = seen_world w) time_Now" by (intro seen_same frame_rules)
  have pw: "frame (\<lambda>w w'. seen_world w' = seen_world w) (verifyAdminPassword B sv p)" for p
    unfolding verifyAdminPassword_def by (intro seen_same frame_rules)
  have cookie: "frame (\<lambda>s t. seen_world (wb_world t) = seen_world (wb_world s)) (setSessionCookie sha sv r b)" for b
    unfolding setSessionCookie_def Let_def by (intro seen_rules now)
  show ?thesis unfolding login_def Let_def by (intro seen_rules cookie pw)
qed

text \<open>What stays as it is when a request has no say.\<close>

definition nothing_done :: "('s \<Rightarrow> string \<Rightarrow> bytes option) \<Rightarrow> 's service \<Rightarrow> 's service \<Rightarrow> bool" where
  "nothing_done view s s' \<longleftrightarrow> forget_use (wCat (svc_world s')) = forget_use (wCat (svc_world s)) \<and> sv_jobs s' = sv_jobs s \<and>
     sv_manager s' = sv_manager s \<and> (\<forall>k. k \<noteq> health_key \<longrightarrow> view (wObj (svc_world s')) k = view (wObj (svc_world s)) k)"

lemma nothing_done_web:
  assumes "seen_world (wb_world u) = seen_world (svc_world s)"
  shows "nothing_done view s (s\<lparr>sv_web := u\<rparr>)"
  using assms by (simp add: nothing_done_def seen_world_def)

lemma nothing_done_kept:
  assumes "service_view s' = service_view s" and "obj_kept view I (svc_world s) (svc_world s')" and "I (wObj (svc_world s))"
  shows "nothing_done view s s'"
proof -
  have "other_objects view (wObj (svc_world s')) k = other_objects view (wObj (svc_world s)) k" for k using assms by simp
  then show ?thesis using assms(1) by (simp add: nothing_done_def service_view_def other_objects_def) meson
qed

lemma nothing_done_trans: "nothing_done view s t \<Longrightarrow> nothing_done view t u \<Longrightarrow> nothing_done view s u"
  by (simp add: nothing_done_def)

lemma has_admin_seen: "forget_use c' = forget_use c \<Longrightarrow> has_admin sv c' = has_admin sv c"
proof -
  assume "forget_use c' = forget_use c"
  from arg_cong [OF this, of admin_credentials] show ?thesis by (simp add: has_admin_def forget_use_def)
qed

lemma public_mux_serve:
  assumes store: "object_store (dp_Store D) sha view I" "I (wObj (svc_world s))"
    and path: "public_path (hr_Path r)" and admin: "has_admin sv (wCat (svc_world s))"
    and run: "run_state (mux_serve D sv r) s = (a, s')"
  shows "nothing_done view s s'"
proof (cases "mux (hr_Method r) (hr_Path r)")
  case (Dispatch e b)
  let ?r = "r\<lparr>hr_PathValue := (\<lambda>n. case b n of None \<Rightarrow> [] | Some v \<Rightarrow> v)\<rparr>"
  have h: "run_state (handle D sv e ?r) s = (a, s')" using run Dispatch by (simp add: mux_serve_def)
  have "e \<in> {Ehealthz, Ereadyz, EloginPage, Elogin, EsetupPage, Esetup}" by (rule public_mux [OF path Dispatch])
  then consider "reader e" | "e = Elogin" | "e = Esetup" by (auto simp: reader_def)
  then show ?thesis
  proof cases
    case 1
    show ?thesis
      using frameD [OF reader_endpoint_view [OF 1] h] frameD [OF object_store.kept_reader [OF store(1) 1 refl] h] store(2)
      by (rule nothing_done_kept)
  next
    case 2
    obtain x :: answer and u where l: "run_state (login (dp_sha D) (dp_bcrypt D) sv ?r) (sv_web s) = (x, u)" by fastforce
    have "s' = s\<lparr>sv_web := u\<rparr>" using h 2 l by (simp add: with_cookie_def on_web_def)
    then show ?thesis using nothing_done_web [OF frameD [OF login_quiet l]] by simp
  next
    case 3
    obtain x :: answer and u where l: "run_state (setup_submit (dp_sha D) (dp_bcrypt D) sv ?r) (sv_web s) = (x, u)" by fastforce
    have "s' = s\<lparr>sv_web := u\<rparr>" using h 3 l by (simp add: with_cookie_def on_web_def)
    then show ?thesis using wpD [OF setup_configured [OF admin] l] by (simp add: nothing_done_def)
  qed
qed (use run in \<open>auto simp: mux_serve_def nothing_done_def\<close>)

lemma serve_anonymous:
  assumes store: "object_store (dp_Store D) sha view I" "I (wObj (svc_world s))"
    and anon: "anonymous (dp_sha D) sv r (wCat (svc_world s))" and admin: "has_admin sv (wCat (svc_world s))"
    and run: "run_state (serveHTTP D sv r) s = (a, s')"
  shows "nothing_done view s s'"
proof -
  obtain d u where dec: "run_state (auth_decision (dp_sha D) sv r) (sv_web s) = (d, u)"
    and rest: "run_state (case d of None \<Rightarrow> mux_serve D sv r | Some x \<Rightarrow> ret (x, None)) (s\<lparr>sv_web := u\<rparr>) = (a, s')"
    by (rule serve_run [OF run])
  have seen: "seen_world (wb_world u) = seen_world (svc_world s)" using frameD [OF seen_auth_decision dec] .
  have first: "nothing_done view s (s\<lparr>sv_web := u\<rparr>)" by (rule nothing_done_web [OF seen])
  show ?thesis
  proof (cases d)
    case None
    have "public_path (hr_Path r)"
      using wpD [OF wp_auth_decision dec] None anon by (auto simp: entitled_def anonymous_def)
    moreover have "forget_use (wCat (wb_world u)) = forget_use (wCat (svc_world s))" "I (wObj (wb_world u))"
      using seen store(2) by (simp_all add: seen_world_def)
    moreover have "has_admin sv (wCat (wb_world u))" using has_admin_seen [OF calculation(2)] admin by simp
    ultimately have "nothing_done view (s\<lparr>sv_web := u\<rparr>) s'"
      using public_mux_serve [OF store(1), where s = "s\<lparr>sv_web := u\<rparr>"] rest None by simp
    with first show ?thesis by (rule nothing_done_trans)
  next
    case (Some x)
    then show ?thesis using rest first by simp
  qed
qed


section \<open>The catalog after any request\<close>

abbreviation web_ok :: "'s web \<Rightarrow> bool" where
  "web_ok s \<equiv> cat_ok (wb_world s)"

abbreviation service_ok :: "'s service \<Rightarrow> bool" where
  "service_ok s \<equiv> cat_ok (svc_world s)"

lemma keeps_in_world [frame_rules]: "keeps cat_ok m \<Longrightarrow> keeps web_ok (in_world m)"
  by (auto simp: frame_def in_world_def split: prod.splits)

lemma keeps_on_web [frame_rules]: "keeps web_ok m \<Longrightarrow> keeps service_ok (on_web m)"
  by (auto simp: frame_def on_web_def split: prod.splits)

lemma keeps_in_service [frame_rules]: "keeps cat_ok m \<Longrightarrow> keeps service_ok (in_service m)"
  unfolding in_service_def by (intro frame_rules)

lemma keeps_kinds [frame_rules]:
  "keeps cat_ok m \<Longrightarrow> keeps service_ok (plain f m)"
  "keeps web_ok n \<Longrightarrow> keeps service_ok (with_cookie n)"
  "keeps cat_ok k \<Longrightarrow> keeps service_ok (with_job g k)"
  "(\<And>x. keeps cat_ok (h x)) \<Longrightarrow> keeps service_ok (with_manager h)"
proof -
  have push: "keeps service_ok (State (\<lambda>s. (a, s\<lparr>sv_jobs := F s\<rparr>)))" for a :: answer and F by (simp add: frame_def)
  have put: "keeps service_ok (State (\<lambda>s. (a, s\<lparr>sv_manager := F s\<rparr>)))" for a :: answer and F by (simp add: frame_def)
  have get: "keeps service_ok (State (\<lambda>s. (sv_manager s, s)))" by (simp add: frame_def)
  show "keeps cat_ok m \<Longrightarrow> keeps service_ok (plain f m)" unfolding plain_def by (intro frame_rules)
  show "keeps web_ok n \<Longrightarrow> keeps service_ok (with_cookie n)" unfolding with_cookie_def by (intro frame_rules)
  show "keeps cat_ok k \<Longrightarrow> keeps service_ok (with_job g k)" unfolding with_job_def by (intro frame_rules push)
  show "(\<And>x. keeps cat_ok (h x)) \<Longrightarrow> keeps service_ok (with_manager h)"
    unfolding with_manager_def by (intro frame_rules get put)
qed

lemma keeps_attempts [frame_rules]: "keeps web_ok (allow_attempt key)" "keeps web_ok (fail_attempt key)" "keeps web_ok (clear_attempts key)"
  by (simp_all add: frame_def allow_attempt_def fail_attempt_def clear_attempts_def in_world_def time_Now_def)

lemma keeps_auth [frame_rules]:
  "keeps cat_ok (adminConfigured sv)" "keeps cat_ok (verifyAPIToken sha token)" "keeps cat_ok (verifyAdminPassword B sv p)"
  unfolding adminConfigured_def verifyAPIToken_def verifyAdminPassword_def by (intro frame_rules statement_rules)+

lemma keeps_auth_decision [frame_rules]: "keeps web_ok (session_decision sha sv r)" "keeps web_ok (auth_decision sha sv r)"
proof -
  show sess: "keeps web_ok (session_decision sha sv r)"
    unfolding session_decision_def Let_def by (intro frame_rules)
  show "keeps web_ok (auth_decision sha sv r)"
    unfolding auth_decision_def token_attempt_def Let_def by (intro frame_rules sess)
qed

lemma keeps_auth_pages [frame_rules]:
  "keeps web_ok (login sha B sv r)" "keeps web_ok (logout r)" "keeps web_ok (loginPage r)" "keeps web_ok (setupPage sv r)"
  "keeps web_ok (setup_submit sha B sv r)"
  unfolding login_def logout_def loginPage_def setupPage_def setup_guard_def setup_submit_def store_password_def setSessionCookie_def Let_def
  by (intro frame_rules statement_rules)+

lemma keeps_handle [frame_rules]: "keeps service_ok (handle D sv e r)"
  by (cases e) (simp_all only: handle.simps, (intro frame_rules same_cat_keeps)+)

lemma keeps_serve [frame_rules]: "keeps service_ok (serveHTTP D sv r)"
proof -
  have "keeps service_ok (mux_serve D sv r)"
    unfolding mux_serve_def by (cases "mux (hr_Method r) (hr_Path r)") (auto intro!: frame_rules)
  then show ?thesis unfolding serveHTTP_def by (intro frame_rules)
qed

section \<open>Tokens and keys\<close>

lemma createAPIToken_row:
  assumes "run_state (createAPIToken sha name) w = (Inr t, w')"
  shows "\<exists>now. api_tokens (wCat w') = api_tokens (wCat w) @
      [\<lparr>at_ID = nt_ID t, at_Name = nt_Name t, at_TokenHash = hashAPIToken sha (nt_Token t), at_TokenPrefix = nt_TokenPrefix t,
        at_CreatedAt = now, at_LastUsedAt = None, at_RevokedAt = None\<rparr>]"
  using assms
  by (auto simp: createAPIToken_def generateAPIToken_def NewID_def run_check db_exec_def q_CreateAPIToken_def Let_def
      split: if_splits)

text \<open>Whether a token opens the interface now, when the database answers.\<close>

definition opens :: "(bytes \<Rightarrow> bytes) \<Rightarrow> string \<Rightarrow> catalog \<Rightarrow> bool" where
  "opens sha token c \<longleftrightarrow> (\<exists>t \<in> set (api_tokens c). at_TokenHash t = hashAPIToken sha token \<and> at_RevokedAt t = None)"

lemma run_verifyAPIToken:
  assumes "\<not> wDbFault w (wTick w)"
  shows "fst (run_state (verifyAPIToken sha token) w) \<longleftrightarrow> opens sha token (wCat w)"
proof (cases "find (\<lambda>t. at_TokenHash t = hashAPIToken sha token \<and> at_RevokedAt t = None) (api_tokens (wCat w))")
  case None
  then have "\<not> opens sha token (wCat w)" unfolding opens_def using find_NoneD [OF None] by blast
  with None show ?thesis using assms
    by (simp add: verifyAPIToken_def run_check db_query_def q_GetActiveAPITokenByHash_def one_row_def)
next
  case (Some t)
  then show ?thesis using assms find_SomeD [OF Some]
    by (auto simp: verifyAPIToken_def run_check db_query_def q_GetActiveAPITokenByHash_def one_row_def opens_def split: prod.splits)
qed


section \<open>Deletions through the interface\<close>

text \<open>
  When the interface reports that the deletion of a snapshot is queued, the snapshot exists and has no committed descendant, and the
  only change is one operation, which the cleanup worker finds.
\<close>

lemma queueSnapshotDeletion_result:
  assumes "run_state (queueSnapshotDeletion sv i) w = (Inr opID, w')"
  defines "p \<equiv> last (operations (wCat w'))"
  shows "\<exists>n. q_CountCommittedDescendants (Some i) (db_now (tick w)) (wCat w) = Inr n \<and> n \<le> 0"
    and "i \<in> sn_ID ` set (snapshots (wCat w))"
    and "wCat w' = (wCat w)\<lparr>operations := operations (wCat w) @ [p]\<rparr>"
    and "op_ID p = opID \<and> op_Type p = OpCleanup \<and> op_Status p = OpQueued \<and> op_SnapshotID p = Some i"
  using assms
  by (auto simp: queueSnapshotDeletion_def NewID_def run_check db_exec_def db_query_def q_CreateOperation_def null_or_in_def
      split: if_splits sum.splits)

lemma queued_deletion_pending:
  assumes "run_state (queueSnapshotDeletion sv i) w = (Inr opID, w')"
  shows "\<exists>rows row. q_ListPendingCleanupOperations (- 1) now (wCat w') = Inr rows \<and> row \<in> set rows \<and>
    lpc_ID row = opID \<and> lpc_SnapshotID row = Some i"
proof -
  note q = queueSnapshotDeletion_result(3,4) [OF assms]
  have "last (operations (wCat w')) \<in> set (operations (wCat w'))" 
    by (subst q(1), subst (2) q(1)) simp
  then show ?thesis using q(2) by (auto simp: q_ListPendingCleanupOperations_def limit_rows_def)
qed

section \<open>Restore commands\<close>

lemma restoreCommandsFor_all:
  "restoreCommandsFor pool path chain pre \<noteq> [] \<Longrightarrow>
     list_all restorable_row chain \<and> length (restoreCommandsFor pool path chain pre) = length chain"
  by (auto simp: restoreCommandsFor_def Let_def split: if_splits)



section \<open>Witnesses\<close>

definition sample_deps :: "memory deps" where
  "sample_deps =
     \<lparr>dp_Store = MemoryStore (\<lambda>d. d), dp_sha = (\<lambda>d. d),
      dp_json = \<lparr>json_MarshalIndent = (\<lambda>_. Inl ErrContext), json_Unmarshal = (\<lambda>_. Inl ErrContext)\<rparr>,
      dp_checker = (\<lambda>_ _ _. (0, Inl ErrContext)), dp_runner = \<lparr>rn_Store = True, rn_Checker = None, rn_Executor = ''local''\<rparr>,
      dp_bcrypt = \<lparr>bc_CompareHashAndPassword = (=), bc_GenerateFromPassword = Inr\<rparr>,
      dp_ssh = \<lparr>sl_ParseAuthorizedKey = (\<lambda>_. None), sl_MarshalAuthorizedKey = (\<lambda>_. []), sl_FingerprintSHA256 = (\<lambda>_. [])\<rparr>,
      dp_github = (\<lambda>_. Inl ErrContext), dp_unrep = (\<lambda>_. 0), dp_lookup = None,
      dp_decodeKey = (\<lambda>_. Inl ErrContext), dp_decodeName = (\<lambda>_. Inl ErrContext)\<rparr>"

definition sample_web_service :: "memory service" where
  "sample_web_service = \<lparr>sv_web = sample_session, sv_manager = None, sv_jobs = []\<rparr>"

definition sample_post :: http_request where
  "sample_post = (sample_get ''/settings/ssh-keys'')\<lparr>hr_Method := ''POST''\<rparr>"

lemma sample_store: "object_store (dp_Store sample_deps) (\<lambda>d. d) (\<lambda>m. m) (\<lambda>_. True)"
  unfolding sample_deps_def by (simp add: memory.object_store_axioms)

theorem safe_requests_read_witness:
  "\<exists>a s'. run_state (serveHTTP sample_deps sample_web (sample_get ''/datasets'')) sample_web_service = (a, s') \<and>
    forget_use (wCat (svc_world s')) = forget_use (wCat (svc_world sample_web_service)) \<and> sv_jobs s' = []"
proof -
  obtain a s' where run: "run_state (serveHTTP sample_deps sample_web (sample_get ''/datasets'')) sample_web_service = (a, s')"
    by fastforce
  have "\<not> isUnsafeMethod (hr_Method (sample_get ''/datasets''))" by (simp add: isUnsafeMethod_def sample_get_def)
  from run safe_requests_read [OF sample_store TrueI this run] show ?thesis by (auto simp: sample_web_service_def)
qed


definition sample_revoke :: "string \<Rightarrow> http_request" where
  "sample_revoke tid = (sample_get ''/api/v1/api-tokens/x'')\<lparr>hr_Method := ''DELETE'', hr_PathValue := (\<lambda>_. tid)\<rparr>"

lemma sample_token_runs:
  "case run_state (createAPIToken (\<lambda>d. d) ''ci'') sample_world of
     (Inl _, _) \<Rightarrow> False
   | (Inr t, w1) \<Rightarrow> (case run_state (apiDeleteAPIToken (sample_revoke (nt_ID t))) w1 of
       (Json _, w3) \<Rightarrow> \<not> wDbFault w1 (wTick w1) \<and> \<not> wDbFault w3 (wTick w3)
     | _ \<Rightarrow> False)"
  by code_simp


definition sample_snapshot_get :: http_request where
  "sample_snapshot_get = (sample_get ''/snapshots/b'')\<lparr>hr_PathValue := (\<lambda>_. ''b'')\<rparr>"

lemma sample_page_runs:
  "case fst (run_state (snapshotDetail (\<lambda>d. d) (web_New [] [1]) sample_snapshot_get) sample_world) of
     Html page \<Rightarrow> sd_RestoreCommands (pg_Data page) \<noteq> [] | _ \<Rightarrow> False"
  by code_simp


end
