(* ===== verification/Ssh_Command.thy ===== *)
theory Ssh_Command
  imports Storage_Keys
begin

text \<open>
  The names and commands an SSH client sends (\<open>src/internal/sshserver/command.go\<close>).
\<close>

section \<open>Definitions\<close>

record StateCommand =
  sc_Source :: string
  sc_Pool :: string
  sc_Dataset :: string

definition name_char :: "char \<Rightarrow> bool" where
  "name_char c \<longleftrightarrow> is_alnum c \<or> c \<in> set ''._-:''"

text \<open>
  The loop of \<open>validateName\<close> decodes runes; every byte of a rune above 127 is refused like the rune,
  so the bytes are checked one by one.
\<close>

definition validateName :: "string \<Rightarrow> string \<Rightarrow> error option" where
  "validateName kind val =
     (if val = [] \<or> CHR ''/'' \<in> set val \<or> HasPrefix val ''@''
      then Some (Errorf (msg ''invalid %s %q'') [kind, val])
      else if list_all name_char val then None
      else Some (Errorf (msg ''invalid %s %q'') [kind, val]))"

fun validate_parts :: "string \<Rightarrow> string list \<Rightarrow> error option" where
  "validate_parts val [] = None"
| "validate_parts val (part # parts) =
     (case validateName ''dataset component'' part of
        Some e \<Rightarrow> Some (Wrapf (msg ''invalid dataset %q: %w'') [val] e)
      | None \<Rightarrow> validate_parts val parts)"

definition validateDataset :: "string \<Rightarrow> error option" where
  "validateDataset val =
     (if val = [] \<or> HasPrefix val ''/'' \<or> HasSuffix val ''/''
      then Some (Errorf (msg ''invalid dataset %q'') [val])
      else validate_parts val (split_on (CHR ''/'') val))"

definition ParseStateCommandForSource :: "string \<Rightarrow> string \<Rightarrow> error + StateCommand" where
  "ParseStateCommandForSource command source =
     (let fields = Fields command in
      if fields = [] \<or> hd fields \<noteq> ''state'' then Inl (Errorf (msg ''unsupported command'') [])
      else if source = [] then Inl (Errorf (msg ''ssh username is required for state'') [])
      else if length fields \<noteq> 3 then Inl (Errorf (msg ''usage: state <pool> <dataset>'') [])
      else
        let cmd = \<lparr>sc_Source = source, sc_Pool = fields ! 1, sc_Dataset = fields ! 2\<rparr> in
        case validateName ''source'' (sc_Source cmd) of
          Some e \<Rightarrow> Inl e
        | None \<Rightarrow> (case validateName ''pool'' (sc_Pool cmd) of
            Some e \<Rightarrow> Inl e
          | None \<Rightarrow> (case validateDataset (sc_Dataset cmd) of
              Some e \<Rightarrow> Inl e
            | None \<Rightarrow> Inr cmd)))"

definition ParseStateCommand :: "string \<Rightarrow> error + StateCommand" where
  "ParseStateCommand command = ParseStateCommandForSource command []"

section \<open>What is accepted\<close>

definition good_name :: "string \<Rightarrow> bool" where
  "good_name s \<longleftrightarrow> s \<noteq> [] \<and> list_all name_char s"

lemma name_char_specials: "\<not> name_char CHR ''/''" "\<not> name_char CHR ''@''" "\<not> name_char CHR '' ''"
  by (simp_all add: name_char_def is_alnum_def)

lemma name_char_no_space: "name_char c \<Longrightarrow> \<not> is_space c"
  by (auto simp: name_char_def is_alnum_def is_space_def Let_def)

lemma validateName_None: "validateName kind s = None \<longleftrightarrow> good_name s"
  using name_char_specials
  by (cases s) (auto simp: validateName_def good_name_def HasPrefix_def list_all_iff)

lemma validate_parts_None: "validate_parts s parts = None \<longleftrightarrow> list_all good_name parts"
  by (induction parts) (auto simp: validateName_None [of "''dataset component''", symmetric] split: option.splits)

definition good_dataset :: "string \<Rightarrow> bool" where
  "good_dataset s \<longleftrightarrow> list_all good_name (split_on (CHR ''/'') s)"

lemma prefix_char: "HasPrefix s [c] \<Longrightarrow> \<exists>t. s = c # t"
  by (cases s) (auto simp: HasPrefix_def)

lemma suffix_char: "HasSuffix s [c] \<Longrightarrow> \<exists>t. s = t @ [c]"
  by (cases s rule: rev_cases) (auto simp: HasSuffix_def HasPrefix_def)

lemma validateDataset_None: "validateDataset s = None \<longleftrightarrow> good_dataset s"
proof -
  have "\<not> good_dataset s" if "s = [] \<or> HasPrefix s ''/'' \<or> HasSuffix s ''/''"
  proof -
    consider "s = []" | t where "s = CHR ''/'' # t" | t where "s = t @ [CHR ''/'']"
      using \<open>s = [] \<or> HasPrefix s ''/'' \<or> HasSuffix s ''/''\<close> suffix_char prefix_char by blast
    then show ?thesis
      by cases (simp_all add: good_dataset_def good_name_def split_on_append)
  qed
  then show ?thesis by (auto simp: validateDataset_def validate_parts_None good_dataset_def)
qed

lemma good_dataset_chars: "good_dataset s \<Longrightarrow> c \<in> set s \<Longrightarrow> name_char c \<or> c = CHR ''/''"
proof -
  assume s: "good_dataset s" and c: "c \<in> set s"
  have parts: "c \<in> set (join_with d ps) \<Longrightarrow> c = d \<or> (\<exists>p \<in> set ps. c \<in> set p)" for d ps
    by (induction d ps rule: join_with.induct) auto
  show ?thesis
    using parts [of "CHR ''/''" "split_on (CHR ''/'') s"] s c
    by (fastforce simp: join_split good_dataset_def good_name_def list_all_iff)
qed

lemma good_names_not_Nil: "good_name s \<Longrightarrow> s \<noteq> []" "good_dataset s \<Longrightarrow> s \<noteq> []"
  by (auto simp: good_name_def good_dataset_def)

lemma Fields_acc_word: "(\<And>c. c \<in> set w \<Longrightarrow> \<not> is_space c) \<Longrightarrow> Fields_acc acc (w @ s) = Fields_acc (acc @ w) s"
  by (induction w arbitrary: acc) auto

lemma Fields_word: "w \<noteq> [] \<Longrightarrow> (\<And>c. c \<in> set w \<Longrightarrow> \<not> is_space c) \<Longrightarrow> is_space c \<Longrightarrow> Fields (w @ c # s) = w # Fields s"
  by (simp add: Fields_def Fields_acc_word)

lemma Fields_last: "w \<noteq> [] \<Longrightarrow> (\<And>c. c \<in> set w \<Longrightarrow> \<not> is_space c) \<Longrightarrow> Fields w = [w]"
  using Fields_acc_word [of w "[]" "[]"] by (simp add: Fields_def)

section \<open>Properties\<close>

text \<open>
  The state command in full: it is accepted exactly when it consists of the word and two names,
  the user name and the pool are non-empty words over letters, digits and \<open>._-:\<close>, and the dataset is
  such words with single slashes between them; what is accepted is returned unchanged.
\<close>

theorem ParseStateCommandForSource_accepts:
  "ParseStateCommandForSource command source = Inr cmd \<longleftrightarrow>
     Fields command = [''state'', sc_Pool cmd, sc_Dataset cmd] \<and> source = sc_Source cmd \<and>
     good_name (sc_Source cmd) \<and> good_name (sc_Pool cmd) \<and> good_dataset (sc_Dataset cmd)"
  (is "?parsed \<longleftrightarrow> ?good")
proof
  assume ?parsed
  then obtain a b c where f: "Fields command = [a, b, c]" "a = ''state''"
    by (auto simp: ParseStateCommandForSource_def Let_def length_Suc_conv numeral_3_eq_3 split: if_splits option.splits)
  then show ?good using \<open>?parsed\<close>
    by (auto simp: ParseStateCommandForSource_def Let_def validateName_None validateDataset_None split: if_splits option.splits)
next
  assume ?good
  then have "validateName ''source'' source = None" "validateName ''pool'' (sc_Pool cmd) = None"
    "validateDataset (sc_Dataset cmd) = None" "source \<noteq> []"
    by (simp_all add: validateName_None validateDataset_None good_names_not_Nil)
  then show ?parsed using \<open>?good\<close> by (simp add: ParseStateCommandForSource_def Let_def)
qed

end
