(* ===== verification/Ssh_Auth.thy ===== *)
theory Ssh_Auth
  imports Throttle Ssh_Command Catalog_Repository
begin

text \<open>
  Authentication of SSH clients (\<open>src/internal/sshserver/server.go\<close>): the public key callback with
  the attempt counters of the server. Each counter operation holds the server's mutex, so it is one
  step. The fingerprint of the client's key is computed by the SSH library.
\<close>

section \<open>Definitions\<close>

record authAttempt =
  aa_Failures :: int
  aa_Last :: "int option"
  aa_BlockedUntil :: "int option"

text \<open>The zero value: no failures, zero times. A missing map entry reads as this.\<close>

definition zero_authAttempt :: authAttempt where
  "zero_authAttempt = \<lparr>aa_Failures = 0, aa_Last = None, aa_BlockedUntil = None\<rparr>"

type_synonym auth_map = "string \<rightharpoonup> authAttempt"

definition auth_entry :: "auth_map \<Rightarrow> string \<Rightarrow> authAttempt" where
  "auth_entry m key = (case m key of None \<Rightarrow> zero_authAttempt | Some a \<Rightarrow> a)"

definition allowAuthAttempt :: "auth_map \<Rightarrow> string \<Rightarrow> int \<Rightarrow> bool" where
  "allowAuthAttempt m key now =
     (case aa_BlockedUntil (auth_entry m key) of None \<Rightarrow> True | Some b \<Rightarrow> now > b)"

text \<open>\<open>now.Sub\<close> of a zero time is the longest duration.\<close>

definition recordAuthFailure :: "auth_map \<Rightarrow> string \<Rightarrow> int \<Rightarrow> auth_map" where
  "recordAuthFailure m key now =
     (let attempt = auth_entry m key;
          stale = (case aa_Last attempt of None \<Rightarrow> True | Some l \<Rightarrow> now - l > 15 * time_Minute);
          attempt = (if stale then attempt\<lparr>aa_Failures := 0\<rparr> else attempt);
          attempt = attempt\<lparr>aa_Failures := aa_Failures attempt + 1, aa_Last := Some now\<rparr>;
          attempt = (if aa_Failures attempt \<ge> 5
            then attempt\<lparr>aa_BlockedUntil := Some (now + wrap64 ((aa_Failures attempt - 4) * time_Minute))\<rparr>
            else attempt)
      in m(key \<mapsto> attempt))"

definition recordAuthSuccess :: "auth_map \<Rightarrow> string \<Rightarrow> auth_map" where
  "recordAuthSuccess m key = m(key := None)"

text \<open>\<open>net.SplitHostPort\<close>, of which the host is used.\<close>

definition SplitHostPort_host :: "string \<Rightarrow> string option" where
  "SplitHostPort_host hostport =
     (let i = LastIndexChar (CHR '':'') hostport in
      if i < 0 then None
      else if hd hostport = CHR ''['' then
        let e = IndexChar (CHR '']'') hostport in
        if e < 0 \<or> e + 1 \<noteq> i then None
        else if CHR ''['' \<in> set (drop 1 hostport) \<or> CHR '']'' \<in> set (drop (nat e + 1) hostport) then None
        else Some (take (nat e - 1) (drop 1 hostport))
      else
        let host = take (nat i) hostport in
        if CHR '':'' \<in> set host \<or> CHR ''['' \<in> set hostport \<or> CHR '']'' \<in> set hostport then None
        else Some host)"

definition sshAuthKey :: "string \<Rightarrow> string" where
  "sshAuthKey remote = (case SplitHostPort_host remote of Some host \<Rightarrow> host | None \<Rightarrow> remote)"

record Permissions =
  pm_key_id :: string
  pm_fingerprint :: string
  pm_source_name :: string

definition publicKeyCallback ::
  "auth_map \<Rightarrow> string \<Rightarrow> string \<Rightarrow> string \<Rightarrow> ('s world, (error + Permissions) \<times> auth_map) state" where
  "publicKeyCallback m remoteAddr user fingerprint =
     (let remote = sshAuthKey remoteAddr in
      State_Monad.bind time_Now (\<lambda>now.
      if \<not> allowAuthAttempt m remote now
      then ret (Inl (Errorf (msg ''too many authentication attempts'') []), m)
      else check (db_query (q_GetSSHKeyByFingerprint fingerprint))
        (\<lambda>e. ret (Inl (Wrapf (msg ''unauthorized key %s: %w'') [fingerprint] e), recordAuthFailure m remote now))
        (\<lambda>row. case validateName ''ssh username'' user of
           Some e \<Rightarrow> ret (Inl e, recordAuthFailure m remote now)
         | None \<Rightarrow>
             State_Monad.bind (db_exec (q_TouchSSHKey (sk_ID row))) (\<lambda>_.
             ret (Inr \<lparr>pm_key_id = sk_ID row, pm_fingerprint = fingerprint, pm_source_name = user\<rparr>,
                  recordAuthSuccess m remote)))))"

section \<open>The attempt counters\<close>

interpretation ssh_throttle: throttle allowAuthAttempt recordAuthFailure recordAuthSuccess
  "\<lambda>m k. aa_Failures (auth_entry m k)" "\<lambda>m k. aa_Last (auth_entry m k)" "\<lambda>m k. aa_BlockedUntil (auth_entry m k)"
  by unfold_locales
    (auto simp: allowAuthAttempt_def recordAuthFailure_def recordAuthSuccess_def auth_entry_def zero_authAttempt_def
      next_failures_def block_end_def Let_def split: option.splits)

section \<open>Properties\<close>

text \<open>
  C30. Who is let in: a callback that grants permissions has found the client's key among the stored
  ones and a well-formed user name, and it grants them for that key and name; it forgets the failures of the client's
  address and of no other, and the catalog has at most a new last-used time.
\<close>

theorem publicKeyCallback_authorises:
  assumes "run_state (publicKeyCallback m remoteAddr user fingerprint) w = ((Inr p, m'), w')"
  shows "allowAuthAttempt m (sshAuthKey remoteAddr) (wNow w (wTick w)) \<and>
    (\<exists>row \<in> set (ssh_keys (wCat w)). sk_FingerprintSha256 row = fingerprint \<and> pm_key_id p = sk_ID row) \<and>
    good_name user \<and> pm_source_name p = user \<and> m' = m(sshAuthKey remoteAddr := None) \<and>
    map (\<lambda>k. k\<lparr>sk_LastUsedAt := None\<rparr>) (ssh_keys (wCat w')) = map (\<lambda>k. k\<lparr>sk_LastUsedAt := None\<rparr>) (ssh_keys (wCat w)) \<and>
    snapshots (wCat w') = snapshots (wCat w) \<and> wObj w' = wObj w"
proof -
  have "wp (publicKeyCallback m remoteAddr user fingerprint) (\<lambda>r w'. case fst r of Inl e \<Rightarrow> True | Inr p \<Rightarrow>
    allowAuthAttempt m (sshAuthKey remoteAddr) (wNow w (wTick w)) \<and>
    (\<exists>row \<in> set (ssh_keys (wCat w)). sk_FingerprintSha256 row = fingerprint \<and> pm_key_id p = sk_ID row) \<and>
    good_name user \<and> pm_source_name p = user \<and> snd r = m(sshAuthKey remoteAddr := None) \<and>
    map (\<lambda>k. k\<lparr>sk_LastUsedAt := None\<rparr>) (ssh_keys (wCat w')) = map (\<lambda>k. k\<lparr>sk_LastUsedAt := None\<rparr>) (ssh_keys (wCat w)) \<and>
    snapshots (wCat w') = snapshots (wCat w) \<and> wObj w' = wObj w) w"
    unfolding publicKeyCallback_def Let_def
    by (auto simp: wp_rules q_GetSSHKeyByFingerprint_def one_row_def q_TouchSSHKey_def recordAuthSuccess_def
        update_where_def validateName_None [of "''ssh username''", symmetric] find_Some_iff split: option.splits sum.splits)
  from wpD [OF this assms] show ?thesis by simp
qed

text \<open>
  C31. A client address that has failed five times or more, each time within a quarter of an hour of
  the time before, is turned away without a look at the catalog until a minute per failure beyond the
  fourth has passed; other addresses are not affected.
\<close>

theorem ssh_lockout:
  assumes "close_together (hd ts) (tl ts)" and "5 \<le> length ts" and "length ts < 100000000"
    and "m (sshAuthKey remoteAddr) = None"
    and "m' = fold (\<lambda>t m. recordAuthFailure m (sshAuthKey remoteAddr) t) ts m"
    and "wNow w (wTick w) \<le> last ts + (int (length ts) - 4) * time_Minute"
  shows "run_state (publicKeyCallback m' remoteAddr user fingerprint) w =
      ((Inl (Errorf (msg ''too many authentication attempts'') []), m'), tick w) \<and>
    (\<forall>other now. other \<noteq> sshAuthKey remoteAddr \<longrightarrow> allowAuthAttempt m' other now = allowAuthAttempt m other now)"
proof -
  have "\<not> allowAuthAttempt m' (sshAuthKey remoteAddr) (wNow w (wTick w))"
    unfolding assms(5) by (rule ssh_throttle.lockout) (use assms in \<open>simp_all add: auth_entry_def zero_authAttempt_def\<close>)
  then show ?thesis
    unfolding assms(5) using ssh_throttle.other_keys by (auto simp: publicKeyCallback_def time_Now_def Let_def)
qed

section \<open>Witnesses\<close>

definition key_world :: "memory world" where
  "key_world = sample_world\<lparr>wCat := sample_catalog\<lparr>ssh_keys :=
     [\<lparr>sk_ID = ''k'', sk_Name = ''laptop'', sk_PublicKey = ''ssh-ed25519 AAAA'', sk_FingerprintSha256 = ''SHA256:abc'',
       sk_CreatedAt = 0, sk_LastUsedAt = None\<rparr>]\<rparr>\<rparr>"

lemma key_login:
  "fst (fst (run_state (publicKeyCallback Map.empty ''10.0.0.7:40000'' ''nas'' ''SHA256:abc'') key_world)) =
   Inr \<lparr>pm_key_id = ''k'', pm_fingerprint = ''SHA256:abc'', pm_source_name = ''nas''\<rparr>"
  by code_simp

theorem publicKeyCallback_authorises_witness:
  "\<exists>p m' w'. run_state (publicKeyCallback Map.empty ''10.0.0.7:40000'' ''nas'' ''SHA256:abc'') key_world = ((Inr p, m'), w') \<and>
    (\<exists>row \<in> set (ssh_keys (wCat key_world)). sk_FingerprintSha256 row = ''SHA256:abc'' \<and> pm_key_id p = sk_ID row)"
proof -
  obtain p m' w' where run: "run_state (publicKeyCallback Map.empty ''10.0.0.7:40000'' ''nas'' ''SHA256:abc'') key_world =
      ((Inr p, m'), w')" using key_login by (metis prod.collapse)
  from run publicKeyCallback_authorises [OF run] show ?thesis by blast
qed

theorem ssh_lockout_witness:
  "\<exists>m'. run_state (publicKeyCallback m' ''10.0.0.7:40000'' ''nas'' ''SHA256:abc'') key_world =
      ((Inl (Errorf (msg ''too many authentication attempts'') []), m'), tick key_world)"
  using ssh_lockout [of "[0, 0, 0, 0, 0]" Map.empty "''10.0.0.7:40000''" _ key_world "''nas''" "''SHA256:abc''", OF _ _ _ _ refl]
  by (auto simp: time_Minute_def key_world_def sample_world_def)

end
