(* ===== verification/Ssh_Session.thy ===== *)
theory Ssh_Session
  imports Ssh_Auth Rate_Limit App_Settings Ingest Restore Restore_Plan Zfs_Stream
begin

text \<open>
  A session of an authenticated SSH client (\<open>src/internal/sshserver/server.go\<close>): the requests on its
  channel and the three things they can start, an upload, a restore and a state report. A session's
  state is the world and what the server has put on the channel: standard output, standard error,
  replies and exit statuses. The log lines, the periodic progress lines and the closing of the channel
  when the connection ends are not modelled.
\<close>

section \<open>The channel\<close>

record 's session =
  ss_world :: "'s world"
  ss_stdout :: bytes
  ss_stderr :: string
  ss_exit :: "nat list"
  ss_replies :: "bool list"

definition on_world :: "('s world, 'a) state \<Rightarrow> ('s session, 'a) state" where
  "on_world m = State (\<lambda>s. case run_state m (ss_world s) of (r, w) \<Rightarrow> (r, s\<lparr>ss_world := w\<rparr>))"

definition stderr_Write :: "string \<Rightarrow> ('s session, unit) state" where
  "stderr_Write text = State (\<lambda>s. ((), s\<lparr>ss_stderr := ss_stderr s @ text\<rparr>))"

definition stdout_Write :: "writer \<Rightarrow> bytes \<Rightarrow> ('s session, error option) state" where
  "stdout_Write out p = State (\<lambda>s.
     case out (ss_stdout s) p of (n, e) \<Rightarrow> (e, s\<lparr>ss_stdout := ss_stdout s @ take (nat n) p\<rparr>))"

definition Reply :: "bool \<Rightarrow> ('s session, unit) state" where
  "Reply b = State (\<lambda>s. ((), s\<lparr>ss_replies := ss_replies s @ [b]\<rparr>))"

definition sendExitStatus :: "nat \<Rightarrow> ('s session, unit) state" where
  "sendExitStatus status = State (\<lambda>s. ((), s\<lparr>ss_exit := ss_exit s @ [status]\<rparr>))"

text \<open>The idiom of every refusal: a line on standard error and exit status 1.\<close>

definition refuse :: "string \<Rightarrow> ('s session, unit) state" where
  "refuse text = State_Monad.bind (stderr_Write text) (\<lambda>_. sendExitStatus 1)"

definition refuse_error :: "error \<Rightarrow> ('s session, unit) state" where
  "refuse_error e = refuse (error_text e @ ''\<newline>'')"

section \<open>Texts\<close>

definition humanBytes :: "int \<Rightarrow> string" where
  "humanBytes bytes =
     (if bytes < 1000 then show_int bytes @ '' B''
      else case scale_units 4 (f_of_int bytes) 0 of (val, unit) \<Rightarrow>
        TrimSuffix (float_text fmt_f1 val) ''.0'' @ '' '' @ [''KB'', ''MB'', ''GB'', ''TB''] ! (unit - 1))"

definition humanBitrate :: "int \<Rightarrow> int \<Rightarrow> string" where
  "humanBitrate bytes elapsed =
     (if bytes \<le> 0 \<or> elapsed \<le> 0 then ''0 Mbps''
      else case scale_units 4 (f_div (f_mul (f_of_int bytes) (Fin 8)) (duration_Seconds elapsed)) 0 of (bps, unit) \<Rightarrow>
        let name = [''bps'', ''Kbps'', ''Mbps'', ''Gbps'', ''Tbps''] ! unit in
        if unit = 0 then float_text fmt_f0 bps @ '' '' @ name
        else TrimSuffix (float_text fmt_f1 bps) ''.0'' @ '' '' @ name)"

section \<open>The server\<close>

text \<open>
  The fields a session reads. \<open>sv_Post\<close> is the callback after an upload; the settings manager
  provides \<open>sv_UploadRateFunc\<close>, whose value at the time of the upload is given here.
\<close>

record 's Server =
  sv_Ingest :: Service
  sv_UploadRateBytesPerSecond :: int
  sv_UploadRateFunc :: "int option"
  sv_Post :: "(string \<Rightarrow> ('s world, unit) state) option"
  sv_draining :: bool

definition configuredUploadRateBytesPerSecond :: "'s Server \<Rightarrow> int" where
  "configuredUploadRateBytesPerSecond sv =
     (case sv_UploadRateFunc sv of Some r \<Rightarrow> r | None \<Rightarrow> sv_UploadRateBytesPerSecond sv)"

definition nullString :: "string option \<Rightarrow> string" where
  "nullString v = (case v of None \<Rightarrow> [] | Some s \<Rightarrow> s)"

section \<open>Upload\<close>

text \<open>
  \<open>io.ReadFull\<close> of the header from a connection that delivers \<open>data\<close> and then \<open>readErr\<close>, which is end
  of file when it is \<open>None\<close>; the stall timeout is such an error.
\<close>

definition read_header :: "bytes \<Rightarrow> error option \<Rightarrow> error + bytes" where
  "read_header data readErr =
     (if BeginRecordSize \<le> length data then Inr (take BeginRecordSize data)
      else Inl (case readErr of Some e \<Rightarrow> e | None \<Rightarrow> if data = [] then ErrEOF else ErrUnexpectedEOF))"

fun check_names :: "(string \<times> string) list \<Rightarrow> error option" where
  "check_names [] = None"
| "check_names ((kind, val) # checks) =
     (case validateName kind val of Some e \<Rightarrow> Some e | None \<Rightarrow> check_names checks)"

definition begin_request :: "string \<Rightarrow> Begin \<Rightarrow> string \<Rightarrow> Request" where
  "begin_request sourceName begin baseSnapshot =
     \<lparr>rq_Source = sourceName, rq_Pool = Pool begin, rq_Dataset = Dataset begin, rq_Snapshot = Snapshot begin,
      rq_BaseSnapshot = baseSnapshot, rq_Raw = Raw begin, rq_Compressed = Compressed begin,
      rq_FromGUID = FromGUID begin, rq_ToGUID = ToGUID begin, rq_MaxIncrementalChainDepth = 0\<rparr>"

text \<open>The name of the base snapshot of an incremental stream, empty for a full one.\<close>

definition find_base :: "string \<Rightarrow> Begin \<Rightarrow> ('s world, string) prog" where
  "find_base sourceName begin =
     (if FromGUID begin \<noteq> [] \<and> FromGUID begin \<noteq> ''0''
      then check (db_query (q_GetCommittedSnapshotByToGUID sourceName (Pool begin) (Dataset begin) (FromGUID begin)))
        throw (\<lambda>base. ok (gcs_Name base))
      else ok [])"

definition post_upload :: "'s Server \<Rightarrow> string \<Rightarrow> ('s session, unit) state" where
  "post_upload sv snapshotID = (case sv_Post sv of None \<Rightarrow> ret () | Some f \<Rightarrow> on_world (f snapshotID))"

text \<open>
  From the checked header on. \<open>pace\<close> is what the rate limiter makes of a stream (its bytes and the
  error at its end), which the properties of \<open>Rate_Limit\<close> describe.
\<close>

definition receive_upload ::
  "'s Store \<Rightarrow> (bytes \<Rightarrow> bytes) \<Rightarrow> json \<Rightarrow> 's Server \<Rightarrow> writer \<Rightarrow> (bytes \<times> error option \<Rightarrow> bytes \<times> error option) \<Rightarrow>
   string \<Rightarrow> sessionOptions \<Rightarrow> Begin \<Rightarrow> bytes \<Rightarrow> error option \<Rightarrow> string \<Rightarrow> ('s session, unit) state" where
  "receive_upload S sha J sv out pace sourceName options begin data readErr baseSnapshot =
     (let effectiveRate = effectiveUploadRate (configuredUploadRateBytesPerSecond sv) options;
          stream = (if effectiveRate > 0 then pace (data, readErr) else (data, readErr)) in
      State_Monad.bind
        (if effectiveRate > 0 then stderr_Write (''upload limit: '' @ humanBitrate effectiveRate 1000000000 @ ''\<newline>'')
         else ret ()) (\<lambda>_.
      check (on_world (Receive S sha J (sv_Ingest sv) (begin_request sourceName begin baseSnapshot) (fst stream) (snd stream)))
        refuse_error (\<lambda>result.
      State_Monad.bind (post_upload sv (rs_SnapshotID result)) (\<lambda>_.
      State_Monad.bind (stdout_Write out (go_bytes (Sprintf (msg ''ok snapshot=%s bytes=%d chunks=%d manifest=%s'')
          [rs_SnapshotID result, show_int (rs_BytesReceived result), show_nat (length (rs_Chunks result)),
           rs_ManifestKey result] @ ''\<newline>''))) (\<lambda>_.
      sendExitStatus 0)))))"

definition runAutoReceive ::
  "'s Store \<Rightarrow> (bytes \<Rightarrow> bytes) \<Rightarrow> json \<Rightarrow> 's Server \<Rightarrow> writer \<Rightarrow> (bytes \<times> error option \<Rightarrow> bytes \<times> error option) \<Rightarrow>
   string \<Rightarrow> sessionOptions \<Rightarrow> bytes \<Rightarrow> error option \<Rightarrow> ('s session, unit) state" where
  "runAutoReceive S sha J sv out pace sourceName options data readErr =
     (case read_header data readErr of
        Inl e \<Rightarrow> refuse (''read zfs stream header: '' @ error_text e @ ''\<newline>'')
      | Inr header \<Rightarrow>
          (case ParseBegin header of
             Inl e \<Rightarrow> refuse_error e
           | Inr begin \<Rightarrow>
               (case check_names [(''source'', sourceName), (''pool'', Pool begin), (''snapshot'', Snapshot begin)] of
                  Some e \<Rightarrow> refuse_error e
                | None \<Rightarrow>
                    (case validateDataset (Dataset begin) of
                       Some e \<Rightarrow> refuse_error e
                     | None \<Rightarrow>
                         check (on_world (find_base sourceName begin))
                           (\<lambda>e. refuse (Sprintf (msg ''base snapshot with toguid %s not found for %s/%s/%s: %v'')
                              [FromGUID begin, sourceName, Pool begin, Dataset begin, error_text e] @ ''\<newline>''))
                           (receive_upload S sha J sv out pace sourceName options begin data readErr)))))"

section \<open>Restore\<close>

definition q_snapshot_exists :: "string \<Rightarrow> unit query" where
  "q_snapshot_exists snapshotID now c =
     (if snapshotID \<in> sn_ID ` set (snapshots c) then Inr () else Inl ErrNoRows)"

definition stream_to_channel ::
  "'s Store \<Rightarrow> (bytes \<Rightarrow> bytes) \<Rightarrow> json \<Rightarrow> writer \<Rightarrow> string \<Rightarrow> ('s session, unit) prog" where
  "stream_to_channel S sha J out key = State (\<lambda>s.
     case run_state (StreamSnapshot S sha J key out) (wObj (ss_world s), ss_stdout s) of
       (r, (t, taken)) \<Rightarrow> (r, s\<lparr>ss_world := (ss_world s)\<lparr>wObj := t\<rparr>, ss_stdout := taken\<rparr>))"

definition runRestoreStream ::
  "'s Store \<Rightarrow> (bytes \<Rightarrow> bytes) \<Rightarrow> json \<Rightarrow> 's Server \<Rightarrow> writer \<Rightarrow> string list \<Rightarrow> ('s session, unit) state" where
  "runRestoreStream S sha J sv out args =
     (if length args \<noteq> 2 then refuse (''usage: restore-stream <snapshot-id>\<newline>'')
      else if \<not> svc_Store (sv_Ingest sv) then refuse (''storage is not configured\<newline>'')
      else
      check (on_world (db_query (q_snapshot_exists (args ! 1))))
        (\<lambda>e. if e = ErrNoRows then refuse (''snapshot not found\<newline>'') else refuse_error e) (\<lambda>_.
      check (on_world (Build (args ! 1))) refuse_error (\<lambda>plan.
      case ValidateStreamable plan of
        Inl e \<Rightarrow> refuse_error e
      | Inr _ \<Rightarrow>
          State_Monad.bind (stderr_Write (ParentRequirement plan)) (\<lambda>_.
          check (stream_to_channel S sha J out (plan_ManifestKey plan)) refuse_error (\<lambda>_.
          State_Monad.bind (stderr_Write (SSHNextRestore plan)) (\<lambda>_. sendExitStatus 0))))))"

section \<open>State\<close>

record stateSnapshot =
  sts_Name :: string
  sts_BaseSnapshot :: string
  sts_ManifestObjectKey :: string
  sts_Status :: snapshot_status
  sts_StreamValidationStatus :: validation_status
  sts_ChainValidationStatus :: validation_status
  sts_StreamSHA256 :: string
  sts_FromGUID :: string
  sts_ToGUID :: string
  sts_ChainDepth :: int
  sts_ChunkCount :: int
  sts_UploadedAt :: "int option"

record stateResponse =
  str_Source :: string
  str_Pool :: string
  str_Dataset :: string
  str_MaxIncrementalChainDepth :: int
  str_Snapshots :: "stateSnapshot list"

fun state_snapshots :: "ListCommittedSnapshotsForIdentityRow list \<Rightarrow> ('s world, stateSnapshot list) state" where
  "state_snapshots [] = ret []"
| "state_snapshots (row # rows) =
     State_Monad.bind (ChainDepth (lcs_ID row)) (\<lambda>r.
     let chainDepth = (case r of Inr depth \<Rightarrow> if depth > 0 then depth else 1 | Inl e \<Rightarrow> 1) in
     State_Monad.bind (state_snapshots rows) (\<lambda>rest.
     ret (\<lparr>sts_Name = lcs_Name row, sts_BaseSnapshot = nullString (lcs_ParentSnapshotName row),
           sts_ManifestObjectKey = nullString (lcs_ManifestObjectKey row), sts_Status = lcs_Status row,
           sts_StreamValidationStatus = lcs_StreamValidationStatus row,
           sts_ChainValidationStatus = lcs_ChainValidationStatus row,
           sts_StreamSHA256 = nullString (lcs_StreamSha256 row), sts_FromGUID = lcs_StreamFromGuid row,
           sts_ToGUID = lcs_StreamToGuid row, sts_ChainDepth = chainDepth, sts_ChunkCount = lcs_ChunkCount row,
           sts_UploadedAt = lcs_UploadCompletedAt row\<rparr> # rest)))"

text \<open>\<open>encode\<close> is the JSON encoder; the channel's error is its only one.\<close>

definition runState ::
  "'s Server \<Rightarrow> writer \<Rightarrow> (stateResponse \<Rightarrow> bytes) \<Rightarrow> string \<Rightarrow> string \<Rightarrow> ('s session, unit) state" where
  "runState sv out encode command defaultSource =
     (case ParseStateCommandForSource command defaultSource of
        Inl e \<Rightarrow> refuse_error e
      | Inr cmd \<Rightarrow>
          State_Monad.bind (on_world (db_query (q_ListCommittedSnapshotsForIdentity (sc_Source cmd) (sc_Pool cmd) (sc_Dataset cmd))))
            (\<lambda>r. case (case r of Inl e \<Rightarrow> if errors_Is e ErrNoRows then Inr [] else Inl e | Inr rows \<Rightarrow> Inr rows) of
               Inl e \<Rightarrow> refuse_error e
             | Inr rows \<Rightarrow>
                 State_Monad.bind (on_world (state_snapshots rows)) (\<lambda>snaps.
                 State_Monad.bind (stdout_Write out (encode
                   \<lparr>str_Source = sc_Source cmd, str_Pool = sc_Pool cmd, str_Dataset = sc_Dataset cmd,
                    str_MaxIncrementalChainDepth = EffectiveMaxIncrementalChainDepth (sv_Ingest sv),
                    str_Snapshots = snaps\<rparr>)) (\<lambda>err.
                 case err of Some e \<Rightarrow> refuse_error e | None \<Rightarrow> sendExitStatus 0))))"

section \<open>Requests\<close>

definition parseExecPayload :: "bytes \<Rightarrow> error + string" where
  "parseExecPayload payload =
     (if length payload < 4 then Inl (Errorf (msg ''invalid exec payload'') [])
      else if int (unat (order_Uint32 BigEndian (take 4 payload))) \<noteq> int (length payload) - 4
      then Inl (Errorf (msg ''invalid exec command length'') [])
      else Inr (go_string (drop 4 payload)))"

definition isSupportedExecCommand :: "string \<Rightarrow> bool" where
  "isSupportedExecCommand command =
     (case Fields command of [] \<Rightarrow> False | f # _ \<Rightarrow> f = ''state'' \<or> f = ''restore-stream'')"

definition runCommand ::
  "'s Store \<Rightarrow> (bytes \<Rightarrow> bytes) \<Rightarrow> json \<Rightarrow> 's Server \<Rightarrow> writer \<Rightarrow> (stateResponse \<Rightarrow> bytes) \<Rightarrow> string \<Rightarrow> string \<Rightarrow>
   ('s session, unit) state" where
  "runCommand S sha J sv out encode sourceName command =
     (case Fields command of
        [] \<Rightarrow> refuse (''unsupported command\<newline>'')
      | f # fs \<Rightarrow>
          if f = ''state'' then runState sv out encode command sourceName
          else if f = ''restore-stream'' then runRestoreStream S sha J sv out (f # fs)
          else refuse (''unsupported command\<newline>''))"

text \<open>
  The payload of an \<open>env\<close> request is decoded by the SSH library: \<open>None\<close> when it cannot be. A shell
  request starts an upload from the bytes the channel delivers.
\<close>

datatype ssh_request = EnvRequest "(string \<times> string) option" | ExecRequest bytes | ShellRequest | OtherRequest

definition uploadThroughputLimitEnv :: string where
  "uploadThroughputLimitEnv = ''ZFS_S3END_UPLOAD_THROUGHPUT_LIMIT_MBIT''"

definition env_request :: "(float64 \<Rightarrow> int) \<Rightarrow> (string \<times> string) option \<Rightarrow> sessionOptions \<Rightarrow> bool \<times> sessionOptions" where
  "env_request unrep payload options =
     (case payload of
        None \<Rightarrow> (False, options)
      | Some (name, val) \<Rightarrow>
          if name \<noteq> uploadThroughputLimitEnv then (False, options)
          else if so_hasRequestedUploadRate options
          then (False, options\<lparr>so_err := Some (Errorf (msg ''duplicate %s request'') [uploadThroughputLimitEnv])\<rparr>)
          else
            let options = options\<lparr>so_hasRequestedUploadRate := True\<rparr> in
            case ParseThroughputLimitMbps unrep val of
              Inl e \<Rightarrow> (False, options\<lparr>so_err := Some (Wrapf (msg ''invalid %s: %w'') [uploadThroughputLimitEnv] e)\<rparr>)
            | Inr rate \<Rightarrow> (True, options\<lparr>so_requestedUploadRateBytesPerSecond := rate\<rparr>))"

definition exec_request ::
  "'s Store \<Rightarrow> (bytes \<Rightarrow> bytes) \<Rightarrow> json \<Rightarrow> 's Server \<Rightarrow> writer \<Rightarrow> (stateResponse \<Rightarrow> bytes) \<Rightarrow> string \<Rightarrow> sessionOptions \<Rightarrow> bytes \<Rightarrow>
   ('s session, unit) state" where
  "exec_request S sha J sv out encode sourceName options payload =
     (if so_hasRequestedUploadRate options
      then State_Monad.bind (Reply False) (\<lambda>_. refuse (uploadThroughputLimitEnv @ '' is only valid for uploads\<newline>''))
      else if sv_draining sv
      then State_Monad.bind (Reply False) (\<lambda>_. refuse (''server shutting down\<newline>''))
      else case parseExecPayload payload of
        Inl e \<Rightarrow> State_Monad.bind (Reply False) (\<lambda>_. refuse_error e)
      | Inr command \<Rightarrow>
          if \<not> isSupportedExecCommand command
          then State_Monad.bind (Reply False) (\<lambda>_. refuse (''unsupported command\<newline>''))
          else State_Monad.bind (Reply True) (\<lambda>_. runCommand S sha J sv out encode sourceName command))"

definition shell_request ::
  "'s Store \<Rightarrow> (bytes \<Rightarrow> bytes) \<Rightarrow> json \<Rightarrow> 's Server \<Rightarrow> writer \<Rightarrow> (bytes \<times> error option \<Rightarrow> bytes \<times> error option) \<Rightarrow> string \<Rightarrow>
   sessionOptions \<Rightarrow> bytes \<Rightarrow> error option \<Rightarrow> ('s session, unit) state" where
  "shell_request S sha J sv out pace sourceName options data readErr =
     (case so_err options of
        Some e \<Rightarrow> State_Monad.bind (Reply False) (\<lambda>_. refuse_error e)
      | None \<Rightarrow>
          if sv_draining sv
          then State_Monad.bind (Reply False) (\<lambda>_. refuse (''server shutting down\<newline>''))
          else State_Monad.bind (Reply True) (\<lambda>_. runAutoReceive S sha J sv out pace sourceName options data readErr))"

fun handleSession ::
  "'s Store \<Rightarrow> (bytes \<Rightarrow> bytes) \<Rightarrow> json \<Rightarrow> (float64 \<Rightarrow> int) \<Rightarrow> 's Server \<Rightarrow> writer \<Rightarrow> (stateResponse \<Rightarrow> bytes) \<Rightarrow>
   (bytes \<times> error option \<Rightarrow> bytes \<times> error option) \<Rightarrow> string \<Rightarrow> bytes \<Rightarrow> error option \<Rightarrow> sessionOptions \<Rightarrow>
   ssh_request list \<Rightarrow> ('s session, unit) state" where
  "handleSession S sha J unrep sv out encode pace sourceName data readErr options [] = ret ()"
| "handleSession S sha J unrep sv out encode pace sourceName data readErr options (req # reqs) =
     (case req of
        EnvRequest payload \<Rightarrow>
          (case env_request unrep payload options of (accepted, options') \<Rightarrow>
           State_Monad.bind (Reply accepted) (\<lambda>_.
           handleSession S sha J unrep sv out encode pace sourceName data readErr options' reqs))
      | ExecRequest payload \<Rightarrow> exec_request S sha J sv out encode sourceName options payload
      | ShellRequest \<Rightarrow> shell_request S sha J sv out pace sourceName options data readErr
      | OtherRequest \<Rightarrow>
          State_Monad.bind (Reply False) (\<lambda>_.
          handleSession S sha J unrep sv out encode pace sourceName data readErr options reqs))"

end
