(* ===== verification/Manifest_Codec.thy ===== *)
theory Manifest_Codec
  imports Manifest Go_Encoding
begin

text \<open>
  A codec for manifests that satisfies \<open>json_laws\<close>: it stands in for \<open>encoding/json\<close> where a
  theorem that assumes the laws is applied to concrete input. A manifest becomes a list of numbers,
  written in decimal and separated by commas.
\<close>

section \<open>Numbers\<close>

definition put_int :: "int \<Rightarrow> nat list" where
  "put_int i = [if i < 0 then 1 else 0, nat \<bar>i\<bar>]"

fun get_int :: "nat list \<Rightarrow> int \<times> nat list" where
  "get_int (s # n # ts) = (if s = 0 then int n else - int n, ts)"
| "get_int ts = (0, [])"

definition put_string :: "string \<Rightarrow> nat list" where
  "put_string s = length s # map of_char s"

fun get_string :: "nat list \<Rightarrow> string \<times> nat list" where
  "get_string (n # ts) = (map char_of (take n ts), drop n ts)"
| "get_string [] = ([], [])"

definition put_bool :: "bool \<Rightarrow> nat list" where
  "put_bool b = [if b then 1 else 0]"

fun get_bool :: "nat list \<Rightarrow> bool \<times> nat list" where
  "get_bool (n # ts) = (n \<noteq> 0, ts)"
| "get_bool [] = (False, [])"

lemma get_put_int [simp]: "get_int (put_int i @ ts) = (i, ts)"
  by (simp add: put_int_def)

lemma get_put_string [simp]: "get_string (put_string s @ ts) = (s, ts)"
  by (simp add: put_string_def comp_def)

lemma get_put_bool [simp]: "get_bool (put_bool b @ ts) = (b, ts)"
  by (simp add: put_bool_def)

section \<open>Documents\<close>

definition put_chunk :: "Chunk \<Rightarrow> nat list" where
  "put_chunk c = put_int (ch_Index c) @ put_string (ch_ObjectKey c) @ put_int (ch_SizeBytes c) @
     put_int (ch_OffsetStart c) @ put_int (ch_OffsetEnd c) @ put_string (ch_SHA256 c)"

definition get_chunk :: "nat list \<Rightarrow> Chunk \<times> nat list" where
  "get_chunk ts =
     (case get_int ts of (i, ts) \<Rightarrow> case get_string ts of (k, ts) \<Rightarrow> case get_int ts of (n, ts) \<Rightarrow>
      case get_int ts of (a, ts) \<Rightarrow> case get_int ts of (b, ts) \<Rightarrow> case get_string ts of (h, ts) \<Rightarrow>
      (\<lparr>ch_Index = i, ch_ObjectKey = k, ch_SizeBytes = n, ch_OffsetStart = a, ch_OffsetEnd = b,
        ch_SHA256 = h\<rparr>, ts))"

fun get_chunks :: "nat \<Rightarrow> nat list \<Rightarrow> Chunk list" where
  "get_chunks 0 ts = []"
| "get_chunks (Suc n) ts = (case get_chunk ts of (c, ts) \<Rightarrow> c # get_chunks n ts)"

definition put_encryption :: "Encryption \<Rightarrow> nat list" where
  "put_encryption e = put_int (ObjectEnvelopeVersion e) @ put_string (enc_Algorithm e) @
     put_string (enc_KDF e) @ put_string (enc_Salt e) @ put_int (uint (enc_Time e)) @
     put_int (uint (enc_MemoryKiB e)) @ put_int (uint (enc_Parallelism e))"

definition get_encryption :: "nat list \<Rightarrow> Encryption \<times> nat list" where
  "get_encryption ts =
     (case get_int ts of (v, ts) \<Rightarrow> case get_string ts of (a, ts) \<Rightarrow> case get_string ts of (k, ts) \<Rightarrow>
      case get_string ts of (s, ts) \<Rightarrow> case get_int ts of (t, ts) \<Rightarrow> case get_int ts of (m, ts) \<Rightarrow>
      case get_int ts of (p, ts) \<Rightarrow>
      (\<lparr>ObjectEnvelopeVersion = v, enc_Algorithm = a, enc_KDF = k, enc_Salt = s,
        enc_Time = word_of_int t, enc_MemoryKiB = word_of_int m, enc_Parallelism = word_of_int p\<rparr>, ts))"

definition put_stream :: "Stream \<Rightarrow> nat list" where
  "put_stream s = put_bool (st_Raw s) @ put_bool (st_Compressed s) @ put_string (st_FromGUID s) @
     put_string (st_ToGUID s) @ put_int (st_SizeBytes s) @ put_string (st_SHA256 s) @ put_int (st_ChunkSize s)"

definition get_stream :: "nat list \<Rightarrow> Stream \<times> nat list" where
  "get_stream ts =
     (case get_bool ts of (r, ts) \<Rightarrow> case get_bool ts of (c, ts) \<Rightarrow> case get_string ts of (f, ts) \<Rightarrow>
      case get_string ts of (g, ts) \<Rightarrow> case get_int ts of (n, ts) \<Rightarrow> case get_string ts of (h, ts) \<Rightarrow>
      case get_int ts of (k, ts) \<Rightarrow>
      (\<lparr>st_Raw = r, st_Compressed = c, st_FromGUID = f, st_ToGUID = g, st_SizeBytes = n, st_SHA256 = h,
        st_ChunkSize = k\<rparr>, ts))"

definition put_identity :: "Identity \<Rightarrow> nat list" where
  "put_identity i = put_string (id_Source i) @ put_string (id_Pool i) @ put_string (id_Dataset i) @
     put_string (id_Snapshot i)"

definition get_identity :: "nat list \<Rightarrow> Identity \<times> nat list" where
  "get_identity ts =
     (case get_string ts of (a, ts) \<Rightarrow> case get_string ts of (b, ts) \<Rightarrow> case get_string ts of (c, ts) \<Rightarrow>
      case get_string ts of (d, ts) \<Rightarrow>
      (\<lparr>id_Source = a, id_Pool = b, id_Dataset = c, id_Snapshot = d\<rparr>, ts))"

definition put_manifest :: "Manifest \<Rightarrow> nat list" where
  "put_manifest m = put_int (m_Version m) @ put_string (m_Format m) @ put_encryption (m_Encryption m) @
     put_identity (m_Identity m) @ put_string (ln_BaseSnapshot (m_Lineage m)) @ put_stream (m_Stream m) @
     length (m_Chunks m) # concat (map put_chunk (m_Chunks m))"

definition get_manifest :: "nat list \<Rightarrow> Manifest" where
  "get_manifest ts =
     (case get_int ts of (v, ts) \<Rightarrow> case get_string ts of (f, ts) \<Rightarrow> case get_encryption ts of (e, ts) \<Rightarrow>
      case get_identity ts of (i, ts) \<Rightarrow> case get_string ts of (b, ts) \<Rightarrow> case get_stream ts of (s, ts) \<Rightarrow>
      \<lparr>m_Version = v, m_Format = f, m_Encryption = e, m_Identity = i, m_Lineage = \<lparr>ln_BaseSnapshot = b\<rparr>,
       m_Stream = s, m_Chunks = (case ts of [] \<Rightarrow> [] | n # ts \<Rightarrow> get_chunks n ts)\<rparr>)"

lemma get_put_chunk [simp]: "get_chunk (put_chunk c @ ts) = (c, ts)"
  by (simp add: put_chunk_def get_chunk_def)

lemma get_put_chunks [simp]: "get_chunks (length cs) (concat (map put_chunk cs)) = cs"
  by (induction cs) simp_all

lemma get_put_encryption [simp]: "get_encryption (put_encryption e @ ts) = (e, ts)"
  by (simp add: put_encryption_def get_encryption_def)

lemma get_put_stream [simp]: "get_stream (put_stream s @ ts) = (s, ts)"
  by (simp add: put_stream_def get_stream_def)

lemma get_put_identity [simp]: "get_identity (put_identity i @ ts) = (i, ts)"
  by (simp add: put_identity_def get_identity_def)

lemma get_put_manifest: "get_manifest (put_manifest m) = m"
  by (cases m; cases "m_Lineage m") (simp add: put_manifest_def get_manifest_def)

section \<open>Bytes\<close>

definition plain_json :: json where
  "plain_json =
     \<lparr>json_MarshalIndent = (\<lambda>m. Inr (go_bytes (join_with (CHR '','') (map show_nat (put_manifest m))))),
      json_Unmarshal = (\<lambda>b. Inr (get_manifest (map (\<lambda>t. case parse_base 10 t of Some n \<Rightarrow> n | None \<Rightarrow> 0)
        (split_on (CHR '','') (go_string b)))))\<rparr>"

lemma comma_notin_show_nat: "CHR '','' \<notin> set (show_nat n)"
  by (rule notin_show_nat) code_simp

lemma plain_json_laws: "json_laws plain_json"
proof -
  have "split_on (CHR '','') (join_with (CHR '','') (map show_nat (put_manifest m))) = map show_nat (put_manifest m)" for m
    using comma_notin_show_nat by (intro split_join) (auto simp: put_manifest_def put_int_def)
  then show ?thesis by (simp add: json_laws_def plain_json_def comp_def get_put_manifest)
qed

end
