(* ===== verification/Round_Trip.thy ===== *)
theory Round_Trip
  imports Restore Encrypted_Store Manifest_Codec
begin

text \<open>
  Backup and restore together: what \<open>Receive\<close> stored is what \<open>StreamSnapshot\<close> writes, through any
  store that meets the contract of \<open>reliable_store\<close>, the encrypting store included.
\<close>

section \<open>Keys and digests are ASCII\<close>

lemma ascii_set: "ascii s \<longleftrightarrow> (\<forall>c \<in> set s. (of_char c :: nat) < 128)"
  by (rule ascii_def)

lemma ascii_join_with: "ascii [c] \<Longrightarrow> list_all ascii ps \<Longrightarrow> ascii (join_with c ps)"
  by (induction c ps rule: join_with.induct) auto

lemma set_split_on: "p \<in> set (split_on c s) \<Longrightarrow> set p \<subseteq> set s"
proof (induction s arbitrary: p)
  case (Cons x s)
  then show ?case by (fastforce split: if_splits list.splits)
qed simp

lemma ascii_split_on: "ascii s \<Longrightarrow> list_all ascii (split_on c s)"
  using set_split_on [of _ c s] by (fastforce simp: list_all_iff ascii_set)

lemma set_clean_step: "set (clean_step rooted p stack) \<subseteq> insert p (set stack)"
  by (auto split: list.splits if_splits)

lemma set_clean_parts: "set (clean_parts rooted stack ps) \<subseteq> set ps \<union> set stack"
  unfolding clean_parts_def
proof (induction ps arbitrary: stack)
  case (Cons p ps)
  show ?case using Cons [of "clean_step rooted p stack"] set_clean_step [of rooted p stack]
    by (auto simp del: clean_step.simps)
qed simp

lemma ascii_slash: "ascii ''/''"
  by code_simp

lemma ascii_path_Join: "list_all ascii es \<Longrightarrow> ascii (path_Join es)"
proof -
  assume es: "list_all ascii es"
  let ?s = "join_with (CHR ''/'') (filter (\<lambda>e. e \<noteq> []) es)"
  have "ascii ?s" using es by (intro ascii_join_with ascii_slash) (auto simp: list_all_iff)
  then have "list_all ascii (split_on (CHR ''/'') ?s)" by (rule ascii_split_on)
  then have out: "ascii (join_with (CHR ''/'') (rev (clean_parts r [] (split_on (CHR ''/'') ?s))))" for r
    using set_clean_parts [of r "[]" "split_on (CHR ''/'') ?s"]
    by (intro ascii_join_with ascii_slash) (auto simp: list_all_iff)
  have dot: "ascii ''.''" by code_simp
  show ?thesis using out dot ascii_slash by (simp add: path_Join_def path_Clean_def Let_def)
qed

lemma ascii_enc_char: "ascii (enc_char c)"
proof (cases "path_segment_safe c \<and> c \<noteq> CHR ''@''")
  case True
  then show ?thesis
    by (auto simp: enc_char_def path_segment_safe_def is_alnum_def Let_def)
next
  case False
  have "\<forall>x \<in> set ''%0123456789ABCDEF''. (of_char x :: nat) < 128" by code_simp
  then have "ascii (percent_byte c)" using percent_byte_chars [of _ c] unfolding ascii_set by blast
  then show ?thesis using False by (auto simp: enc_char_def)
qed

lemma ascii_encodeComponent: "ascii (encodeComponent s)"
  using ascii_enc_char by (fastforce simp: encodeComponent_eq ascii_set)

lemma ascii_digits: "(\<And>c. c \<in> set s \<Longrightarrow> \<exists>d < 16. c = digit_char d) \<Longrightarrow> ascii s"
  unfolding ascii_set by force

lemma ascii_sha_hex: "ascii (sha_hex sha d)"
proof (rule ascii_digits)
  fix c
  assume "c \<in> set (sha_hex sha d)"
  then obtain b :: byte where "c = digit_char (unat b div 16) \<or> c = digit_char (unat b mod 16)"
    by (auto simp: sha_hex_def hex_EncodeToString_def hex_byte_def)
  moreover have "unat b div 16 < 16" for b :: byte
    using unsigned_less [of b] by (simp add: div_less_iff_less_mult)
  ultimately show "\<exists>d < 16. c = digit_char d" by (metis mod_less_divisor zero_less_numeral)
qed

lemma ascii_chunk_key: "ascii (RootPrefix (svc_Keys svc)) \<Longrightarrow> ascii (request_chunk_key svc req i)"
proof -
  assume root: "ascii (RootPrefix (svc_Keys svc))"
  have trim: "ascii (TrimChar (CHR ''/'') (RootPrefix (svc_Keys svc)))"
    using root by (auto simp: ascii_set TrimChar_def dest!: set_dropWhileD)
  have lits: "ascii ''sources''" "ascii ''pools''" "ascii ''datasets''" "ascii ''@snapshots''" "ascii ''chunks''"
    "ascii ''.zfschunk''" by code_simp+
  have digits: "ascii (fmt_d012 i)"
    unfolding ascii_set using fmt_d012_chars [of _ i] by force
  show ?thesis
    unfolding request_chunk_key_def ChunkKey_def SnapshotPrefix_def DatasetPrefix_def
    using trim lits digits ascii_encodeComponent
    by (intro ascii_path_Join) (simp add: list_all_iff ascii_path_Join)
qed

text \<open>The request's strings, and the key prefix, as the codec needs them.\<close>

definition ascii_request :: "Service \<Rightarrow> Request \<Rightarrow> bool" where
  "ascii_request svc req \<longleftrightarrow>
     ascii (RootPrefix (svc_Keys svc)) \<and> ascii (rq_Source req) \<and> ascii (rq_Pool req) \<and>
     ascii (rq_Dataset req) \<and> ascii (rq_Snapshot req) \<and> ascii (rq_BaseSnapshot req) \<and>
     ascii (rq_FromGUID req) \<and> ascii (rq_ToGUID req)"

lemma ascii_entries:
  "(\<And>i. ascii (key i)) \<Longrightarrow> list_all ascii_chunk (entries key sha i offset ds)"
  by (induction ds arbitrary: i offset) (simp_all add: ascii_chunk_def ascii_sha_hex)

lemma ascii_request_manifest:
  assumes "ascii_request svc req"
  shows "ascii_manifest (request_manifest req (entries (request_chunk_key svc req) sha 0 0 ds) n
    (sha_hex sha data) cs)"
proof -
  have "ascii ManifestFormat" "ascii ''XChaCha20-Poly1305''" "ascii ''argon2id''"
    "ascii ''zfs-s3nd/storage-encryption/v1''" by code_simp+
  then show ?thesis using assms
    by (simp add: ascii_manifest_def request_manifest_def manifest_New_def ascii_request_def
        ascii_sha_hex ascii_entries ascii_chunk_key del: ascii_Cons)
qed

section \<open>The round trip\<close>

lemma promised_entries:
  assumes "object_store S sha view I" and "holds_from (view s) key i ds"
  shows "list_all2 (object_store.promised sha view s) (entries key sha i offset ds) ds"
  using assms(2)
  by (induction ds arbitrary: i offset)
    (simp_all add: holds_from_Cons object_store.promised_def [OF assms(1)] matches_def)

lemma run_Receive_restored:
  assumes "reliable_store S sha view I" and "I (wObj w)" and "json_laws J" and "ascii_request svc req"
    and "int (length data) < 2 ^ 63"
    and "run_state (Receive S sha J svc req data readErr) w = (Inr res, w')"
  shows "\<exists>s'. run_state (StreamSnapshot S sha J (rs_ManifestKey res) full_writer) (wObj w', []) =
    (Inr (), (s', data))"
proof -
  note os = reliable_store.axioms(1) [OF assms(1)]
  let ?ds = "slices (nat (effective_chunk_size svc)) data"
  let ?m = "request_manifest req (entries (request_chunk_key svc req) sha 0 0 ?ds) (int (length data))
    (sha_hex sha data) (effective_chunk_size svc)"
  have data: "concat ?ds = data" using effective_chunk_size_pos [of svc] by (simp add: concat_slices)
  from run_Receive_stored [OF os assms(2,5,6)] obtain mb where
    I: "I (wObj w')" and held: "holds_from (view (wObj w')) (request_chunk_key svc req) 0 ?ds"
    and mb: "MarshalCanonical J ?m = Inr mb" "view (wObj w') (rs_ManifestKey res) = Some mb" by auto
  have un: "manifest_Unmarshal J mb = Inr ?m"
    using MarshalCanonical_Unmarshal [OF assms(3) ascii_request_manifest [OF assms(4)] mb(1)] .
  have "list_all2 (object_store.promised sha view (wObj w')) (m_Chunks ?m) ?ds"
    using promised_entries [OF os held] by (simp add: request_manifest_def manifest_New_def)
  moreover have "sha_hex sha (concat ?ds) = st_SHA256 (m_Stream ?m)"
    using data by (simp add: request_manifest_def manifest_New_def)
  ultimately show ?thesis
    using reliable_store.run_StreamSnapshot [OF assms(1) I mb(2) un] data by metis
qed

text \<open>
  C1. Backup, then restore: when \<open>Receive\<close> has reported success for a stream, \<open>StreamSnapshot\<close> on
  the manifest key it returned succeeds and writes exactly the bytes of that stream, over any store
  that keeps what is put into it.
\<close>

theorem Receive_StreamSnapshot:
  assumes "reliable_store S sha view I" and "I (wObj w)" and "json_laws J" and "ascii_request svc req"
    and "int (length data) < 2 ^ 63"
    and "run_state (Receive S sha J svc req data readErr) w = (Inr res, w')"
  shows "\<exists>s'. run_state (StreamSnapshot S sha J (rs_ManifestKey res) full_writer) (wObj w', []) =
    (Inr (), (s', data))"
  using assms by (rule run_Receive_restored)

text \<open>A codec with a one-byte form for one document.\<close>

definition short_json :: "Manifest \<Rightarrow> json \<Rightarrow> json" where
  "short_json m0 J =
     \<lparr>json_MarshalIndent = (\<lambda>m. if m = m0 then Inr [0]
        else case json_MarshalIndent J m of Inl e \<Rightarrow> Inl e | Inr b \<Rightarrow> Inr (1 # b)),
      json_Unmarshal = (\<lambda>b. case b of
          [] \<Rightarrow> Inl (Errorf (msg ''unexpected end of JSON input'') [])
        | x # r \<Rightarrow> if x = 0 then Inr m0 else json_Unmarshal J r)\<rparr>"

lemma short_json_laws: "json_laws J \<Longrightarrow> json_laws (short_json m0 J)"
  by (fastforce simp: json_laws_def short_json_def)

definition sample_manifest :: Manifest where
  "sample_manifest =
     request_manifest sample_request
       (entries (request_chunk_key sample_service sample_request) (\<lambda>d. d) 0 0 [[1, 2, 3, 4], [5]])
       5 ''0102030405'' 4"

lemma plain_receive:
  "case fst (run_state (Receive (MemoryStore (\<lambda>d. d)) (\<lambda>d. d) (short_json sample_manifest plain_json)
       sample_service sample_request [1, 2, 3, 4, 5] None) sample_world) of Inl e \<Rightarrow> False | Inr res \<Rightarrow> True"
    by code_simp

lemma sample_ascii_request: "ascii_request sample_service sample_request"
  by code_simp

theorem Receive_StreamSnapshot_witness:
  "\<exists>res w' s'. run_state (Receive (MemoryStore (\<lambda>d. d)) (\<lambda>d. d) (short_json sample_manifest plain_json)
      sample_service sample_request [1, 2, 3, 4, 5] None) sample_world = (Inr res, w') \<and>
    run_state (StreamSnapshot (MemoryStore (\<lambda>d. d)) (\<lambda>d. d) (short_json sample_manifest plain_json)
      (rs_ManifestKey res) full_writer) (wObj w', []) = (Inr (), (s', [1, 2, 3, 4, 5]))"
proof -
  obtain res w' where run: "run_state (Receive (MemoryStore (\<lambda>d. d)) (\<lambda>d. d) (short_json sample_manifest plain_json)
      sample_service sample_request [1, 2, 3, 4, 5] None) sample_world = (Inr res, w')"
    using run_succeeds [OF plain_receive] by blast
  have "int (length [1, 2, 3, 4, 5 :: byte]) < 2 ^ 63" by simp
  from run Receive_StreamSnapshot [OF memory.reliable_store_axioms TrueI short_json_laws [OF plain_json_laws]
      sample_ascii_request this run] show ?thesis by blast
qed

end
