(* ===== verification/Ssh_Service.thy ===== *)
theory Ssh_Service
  imports Ssh_Session Round_Trip
begin

text \<open>
  What an SSH client can rely on: an upload that ends with exit status 0 is a committed snapshot, and
  a restore of that snapshot over SSH gives back the bytes that were sent.
\<close>

section \<open>Programs on a session\<close>

lemma wp_on_world [wp_rules]:
  "wp (on_world m) Q s \<longleftrightarrow> wp m (\<lambda>r w. Q r (s\<lparr>ss_world := w\<rparr>)) (ss_world s)"
  by (simp add: wp_def on_world_def split: prod.splits)

lemma wp_channel [wp_rules]:
  "wp (stderr_Write text) Q s \<longleftrightarrow> Q () (s\<lparr>ss_stderr := ss_stderr s @ text\<rparr>)"
  "wp (Reply b) Q s \<longleftrightarrow> Q () (s\<lparr>ss_replies := ss_replies s @ [b]\<rparr>)"
  "wp (sendExitStatus n) Q s \<longleftrightarrow> Q () (s\<lparr>ss_exit := ss_exit s @ [n]\<rparr>)"
  "wp (stdout_Write out p) R s \<longleftrightarrow>
     (case out (ss_stdout s) p of (n, e) \<Rightarrow> R e (s\<lparr>ss_stdout := ss_stdout s @ take (nat n) p\<rparr>))"
  by (simp_all add: wp_def stderr_Write_def Reply_def sendExitStatus_def stdout_Write_def split: prod.splits)

lemma wp_refuse [wp_rules]:
  "wp (refuse text) Q s \<longleftrightarrow> Q () (s\<lparr>ss_stderr := ss_stderr s @ text, ss_exit := ss_exit s @ [1]\<rparr>)"
  by (simp add: refuse_def wp_rules)

lemma wp_refuse_error [wp_rules]:
  "wp (refuse_error e) Q s \<longleftrightarrow>
     Q () (s\<lparr>ss_stderr := ss_stderr s @ error_text e @ ''\<newline>'', ss_exit := ss_exit s @ [1]\<rparr>)"
  by (simp add: refuse_error_def wp_rules)

lemma wp_run: "wp m Q s \<longleftrightarrow> (\<forall>r t. run_state m s = (r, t) \<longrightarrow> Q r t)"
  by (auto simp: wp_def split: prod.splits)

section \<open>Uploads\<close>

text \<open>The callback after an upload only starts work of its own.\<close>

definition post_starts :: "'s Server \<Rightarrow> bool" where
  "post_starts sv \<longleftrightarrow> (\<forall>f i. sv_Post sv = Some f \<longrightarrow> f i = ret ())"

lemma wp_post_upload: "post_starts sv \<Longrightarrow> wp (post_upload sv i) Q s \<longleftrightarrow> Q () s"
  by (auto simp: post_upload_def post_starts_def wp_rules split: option.splits)

lemma find_base_same: "run_state (find_base src b) w = (r, w1) \<Longrightarrow> wCat w1 = wCat w \<and> wObj w1 = wObj w"
proof -
  have "wp (find_base src b) (\<lambda>r w'. wCat w' = wCat w \<and> wObj w' = wObj w) w"
    by (simp add: find_base_def wp_rules split: sum.splits)
  from wpD [OF this] show "run_state (find_base src b) w = (r, w1) \<Longrightarrow> ?thesis" .
qed

text \<open>The stream that reaches the receiver.\<close>

definition paced :: "'s Server \<Rightarrow> (bytes \<times> error option \<Rightarrow> bytes \<times> error option) \<Rightarrow> sessionOptions \<Rightarrow> bytes \<times> error option \<Rightarrow>
    bytes \<times> error option" where
  "paced sv pace options stream =
     (if effectiveUploadRate (configuredUploadRateBytesPerSecond sv) options > 0 then pace stream else stream)"

definition committed_rows :: "'s world \<Rightarrow> Snapshot set" where
  "committed_rows w = {s \<in> set (snapshots (wCat w)). sn_Status s = SnapCommitted}"

text \<open>How an upload ends: refused or failed, or received.\<close>

definition upload_failed :: "'s session \<Rightarrow> 's session \<Rightarrow> bool" where
  "upload_failed s s' \<longleftrightarrow> ss_exit s' = ss_exit s @ [1] \<and> ss_stdout s' = ss_stdout s \<and>
     committed_rows (ss_world s') = committed_rows (ss_world s)"

definition upload_received ::
  "'s Store \<Rightarrow> (bytes \<Rightarrow> bytes) \<Rightarrow> json \<Rightarrow> 's Server \<Rightarrow> string \<Rightarrow> bytes \<times> error option \<Rightarrow> bytes \<Rightarrow> 's session \<Rightarrow> 's session \<Rightarrow> bool" where
  "upload_received S sha J sv sourceName stream data s s' \<longleftrightarrow> ss_exit s' = ss_exit s @ [0] \<and>
     (\<exists>begin base w1 res. ParseBegin (take BeginRecordSize data) = Inr begin \<and>
        good_name sourceName \<and> good_name (Pool begin) \<and> good_name (Snapshot begin) \<and> good_dataset (Dataset begin) \<and>
        run_state (find_base sourceName begin) (ss_world s) = (Inr base, w1) \<and>
        run_state (Receive S sha J (sv_Ingest sv) (begin_request sourceName begin base) (fst stream) (snd stream)) w1 =
          (Inr res, ss_world s'))"

lemma wp_receive_upload:
  assumes "cat_ok w1" and "post_starts sv" and "ss_exit s1 = ss_exit s" and "ss_stdout s1 = ss_stdout s"
    and "ss_world s1 = w1" and "committed_rows w1 = committed_rows (ss_world s)"
  shows "wp (receive_upload S sha J sv out pace sourceName options begin data readErr base)
    (\<lambda>_ s'. upload_failed s s' \<or> ss_exit s' = ss_exit s @ [0] \<and>
       (\<exists>res. run_state (Receive S sha J (sv_Ingest sv) (begin_request sourceName begin base)
          (fst (paced sv pace options (data, readErr))) (snd (paced sv pace options (data, readErr)))) w1 =
          (Inr res, ss_world s'))) s1"
proof -
  have failed: "committed_rows w' = committed_rows (ss_world s)"
    if "run_state (Receive S sha J svc req d e) w1 = (Inl x, w')" for svc req d e x w'
    using run_Receive_failed [OF assms(1) that] assms(6) by (simp add: committed_rows_def)
  show ?thesis
    unfolding receive_upload_def Let_def paced_def [symmetric]
    by (cases "effectiveUploadRate (configuredUploadRateBytesPerSecond sv) options > 0")
      (auto simp: wp_rules wp_post_upload [OF assms(2)] wp_run [of "Receive S' sha' J' svc req d e" for S' sha' J' svc req d e]
        upload_failed_def assms(3-5) failed paced_def split: sum.splits prod.splits)
qed

lemma check_names_None:
  "check_names [(k1, a), (k2, b), (k3, d)] = None \<longleftrightarrow> good_name a \<and> good_name b \<and> good_name d"
  using validateName_None [of k1 a] validateName_None [of k2 b] validateName_None [of k3 d]
  by (auto split: option.splits)

lemma wp_find_base_receive:
  assumes "cat_ok (ss_world s)" and "post_starts sv" and hdr: "ParseBegin (take BeginRecordSize data) = Inr hdr"
    and good: "good_name sourceName" "good_name (Pool hdr)" "good_name (Snapshot hdr)" "good_dataset (Dataset hdr)"
  shows "wp (check (on_world (find_base sourceName hdr)) (\<lambda>e. refuse (msg_of e))
      (receive_upload S sha J sv out pace sourceName options hdr data readErr))
    (\<lambda>_ s'. upload_failed s s' \<or>
       upload_received S sha J sv sourceName (paced sv pace options (data, readErr)) data s s') s"
proof -
  obtain r w1 where base: "run_state (find_base sourceName hdr) (ss_world s) = (r, w1)" by (rule prod.exhaust)
  have w1: "wCat w1 = wCat (ss_world s)" "committed_rows w1 = committed_rows (ss_world s)"
    using find_base_same [OF base] by (simp_all add: committed_rows_def)
  show ?thesis
  proof (cases r)
    case (Inl e)
    then show ?thesis
      using base w1 by (simp add: wp_rules wp_run [of "find_base sourceName hdr"] upload_failed_def)
  next
    case (Inr b)
    have "cat_ok w1" using w1 assms(1) by simp
    then have "wp (receive_upload S sha J sv out pace sourceName options hdr data readErr b)
      (\<lambda>_ s'. upload_failed s s' \<or>
         upload_received S sha J sv sourceName (paced sv pace options (data, readErr)) data s s') (s\<lparr>ss_world := w1\<rparr>)"
      apply (rule wp_mono [OF wp_receive_upload [where s = s and ?w1.0 = w1]])
      using w1 assms base Inr apply (auto simp: upload_received_def)
      done
    then show ?thesis
      using base Inr by (simp add: wp_rules wp_run [of "find_base sourceName hdr"])
  qed
qed

lemma wp_refused:
  "wp (refuse t) (\<lambda>_ s'. upload_failed s s' \<or> R s') s"
  "wp (refuse_error e) (\<lambda>_ s'. upload_failed s s' \<or> R s') s"
  by (simp_all add: wp_rules upload_failed_def)

lemma wp_runAutoReceive:
  assumes "cat_ok (ss_world s)" and "post_starts sv"
  shows "wp (runAutoReceive S sha J sv out pace sourceName options data readErr)
    (\<lambda>_ s'. upload_failed s s' \<or>
       upload_received S sha J sv sourceName (paced sv pace options (data, readErr)) data s s') s"
  unfolding runAutoReceive_def
  using assms
  by (auto simp: wp_refused check_names_None validateDataset_None read_header_def
      intro!: wp_find_base_receive simp del: check_names.simps split: sum.splits option.splits if_splits)

text \<open>
  C3. The end of an upload over SSH, whatever the client sends: either exit status 1, nothing on
  standard output and the committed snapshots as they were, or exit status 0 and one more snapshot, committed, with the
  name in the stream's header, which like the client's name, the pool and the dataset is well formed.
\<close>

theorem runAutoReceive_outcome:
  assumes "cat_ok (ss_world s)" and "post_starts sv"
    and "run_state (runAutoReceive S sha J sv out pace sourceName options data readErr) s = (u, s')"
  shows "ss_exit s' = ss_exit s @ [1] \<and> ss_stdout s' = ss_stdout s \<and> committed_rows (ss_world s') = committed_rows (ss_world s) \<or>
    ss_exit s' = ss_exit s @ [0] \<and>
    (\<exists>begin rows row. ParseBegin (take BeginRecordSize data) = Inr begin \<and>
       good_name sourceName \<and> good_name (Pool begin) \<and> good_dataset (Dataset begin) \<and> good_name (sn_Name row) \<and>
       snapshots (wCat (ss_world s')) = rows @ [row] \<and> sn_Name row = Snapshot begin \<and> sn_Status row = SnapCommitted \<and>
       committed_rows (ss_world s) \<subseteq> set rows)"
proof -
  from wpD [OF wp_runAutoReceive [OF assms(1,2)] assms(3)] show ?thesis
  proof
    assume "upload_failed s s'"
    then show ?thesis by (simp add: upload_failed_def)
  next
    assume "upload_received S sha J sv sourceName (paced sv pace options (data, readErr)) data s s'"
    then obtain hdr base w1 res where exit: "ss_exit s' = ss_exit s @ [0]"
      and hdr: "ParseBegin (take BeginRecordSize data) = Inr hdr"
      and names: "good_name sourceName" "good_name (Pool hdr)" "good_name (Snapshot hdr)" "good_dataset (Dataset hdr)"
      and base: "run_state (find_base sourceName hdr) (ss_world s) = (Inr base, w1)"
      and recv: "run_state (Receive S sha J (sv_Ingest sv) (begin_request sourceName hdr base)
          (fst (paced sv pace options (data, readErr))) (snd (paced sv pace options (data, readErr)))) w1 = (Inr res, ss_world s')"
      by (auto simp: upload_received_def)
    have w1: "wCat w1 = wCat (ss_world s)" using find_base_same [OF base] by simp
    then have "cat_ok w1" using assms(1) by simp
    from run_Receive_committed [OF this recv] obtain rows row st where
      snaps: "snapshots (wCat (ss_world s')) = rows @ [row]" and kept: "{s \<in> set (snapshots (wCat w1)). protected s} \<subseteq> set rows"
      and row: "started_row (request_identity (sv_Ingest sv) (begin_request sourceName hdr base)) st
        (row\<lparr>sn_Status := SnapUploading, sn_ManifestObjectKey := None\<rparr>)" "sn_Status row = SnapCommitted" by blast
    have "sn_Name row = Snapshot hdr"
      using row(1) by (simp add: started_row_def request_identity_def begin_request_def)
    moreover have "committed_rows (ss_world s) \<subseteq> set rows"
      using kept w1 by (auto simp: committed_rows_def protected_def)
    ultimately show ?thesis using exit hdr names snaps row(2) by auto
  qed
qed

section \<open>Upload, then restore\<close>

lemma ascii_name_char: "name_char c \<Longrightarrow> (of_char c :: nat) < 128"
  by (auto simp: name_char_def is_alnum_def Let_def)

lemma ascii_good_name: "good_name s \<Longrightarrow> ascii s"
  by (simp add: good_name_def ascii_set ascii_name_char list_all_iff)

lemma ascii_good_dataset: "good_dataset s \<Longrightarrow> ascii s"
  unfolding ascii_set by (auto dest!: good_dataset_chars intro: ascii_name_char)

lemma ascii_formatGUID: "ascii (formatGUID g)"
proof -
  have "ascii (show_base 16 (unat g))"
    using show_base_digits [of 16 _ "unat g"] by (intro ascii_digits) auto
  moreover have "ascii ''0''" "ascii ''0x''" by code_simp+
  ultimately show ?thesis by (simp add: formatGUID_def ascii_set)
qed

lemma ParseBegin_guids: "ParseBegin header = Inr hdr \<Longrightarrow> ascii (FromGUID hdr) \<and> ascii (ToGUID hdr)"
  by (auto simp: ParseBegin_def Let_def ascii_formatGUID split: if_splits sum.splits)

definition ascii_catalog :: "'s world \<Rightarrow> bool" where
  "ascii_catalog w \<longleftrightarrow> (\<forall>s \<in> set (snapshots (wCat w)). ascii (sn_Name s))"

lemma find_base_ascii:
  assumes "ascii_catalog w" and "run_state (find_base src hdr) w = (Inr base, w1)"
  shows "ascii base"
proof (cases "FromGUID hdr \<noteq> [] \<and> FromGUID hdr \<noteq> ''0''")
  case True
  then obtain row w2 where "run_state (db_query (q_GetCommittedSnapshotByToGUID src (Pool hdr) (Dataset hdr) (FromGUID hdr))) w =
      (Inr row, w2)" and base: "base = gcs_Name row"
    using assms(2) by (auto simp: find_base_def elim: run_check_throw_Inr)
  from run_db_query_Inr [OF this(1)] obtain i where "i < length (snapshots (wCat w))" "gcs_Name row = sn_Name (snapshots (wCat w) ! i)"
    by (auto simp: q_GetCommittedSnapshotByToGUID_def one_row_def find_Some_iff split: option.splits)
  then show ?thesis using assms(1) base by (simp add: ascii_catalog_def)
next
  case False
  then show ?thesis using assms(2) by (auto simp: find_base_def ascii_set)
qed

lemma request_manifest_key_not_Nil: "request_manifest_key svc req \<noteq> []"
proof
  assume "request_manifest_key svc req = []"
  then have "path_Base [] = ''manifest.json''"
    using path_Base_ManifestKey unfolding request_manifest_key_def by metis
  then show False by code_simp
qed

text \<open>A channel on which nothing has been sent yet.\<close>

definition open_channel :: "'s world \<Rightarrow> 's session" where
  "open_channel w = \<lparr>ss_world = w, ss_stdout = [], ss_stderr = [], ss_exit = [], ss_replies = []\<rparr>"

lemma run_runRestoreStream:
  assumes "cat_ok w" and "\<And>n. \<not> wDbFault w n" and row: "row \<in> set (snapshots (wCat w))"
    and "sn_Status row = SnapCommitted" and "sn_ManifestObjectKey row = Some key" and "key \<noteq> []"
    and "svc_Store (sv_Ingest sv)"
    and "run_state (StreamSnapshot S sha J key out) (wObj w, []) = (Inr (), (t, data))"
  shows "\<exists>s'. run_state (runRestoreStream S sha J sv out [''restore-stream'', sn_ID row]) (open_channel w) = ((), s') \<and>
    ss_exit s' = [0] \<and> ss_stdout s' = data \<and> wCat (ss_world s') = wCat w"
proof -
  have found: "run_state (db_query (q_snapshot_exists (sn_ID row))) w = (Inr (), tick w)"
    using assms(2) row by (auto simp: db_query_def q_snapshot_exists_def)
  obtain p w2 where p: "run_state (Build (sn_ID row)) (tick w) = (Inr p, w2)" "p_Snapshot p = chain_row row"
      "wCat w2 = wCat w" "wObj w2 = wObj w"
    using Build_succeeds [of "tick w" row] assms(1,2) row by auto
  have key: "ValidateStreamable p = Inr ()" "plan_ManifestKey p = key"
    using p(2) assms(4-6) by (simp_all add: ValidateStreamable_def plan_ManifestKey_def chain_row_def)
  show ?thesis
    using found p key assms(7,8)
    by (simp add: runRestoreStream_def run_check on_world_def open_channel_def stream_to_channel_def
        stderr_Write_def sendExitStatus_def)
qed

lemma run_upload_restored:
  assumes "reliable_store S sha view I" and "I (wObj (ss_world s))" and "json_laws J" and "cat_ok (ss_world s)"
    and "svc_Store (sv_Ingest sv)" and "ascii (RootPrefix (svc_Keys (sv_Ingest sv)))" and "ascii_catalog (ss_world s)"
    and up: "upload_received S sha J sv sourceName (data, e) raw s s'" and "int (length data) < 2 ^ 63"
    and "\<And>n. \<not> wDbFault (ss_world s') n"
  shows "\<exists>row \<in> set (snapshots (wCat (ss_world s'))). sn_Status row = SnapCommitted \<and>
    (\<exists>t. run_state (runRestoreStream S sha J sv full_writer [''restore-stream'', sn_ID row]) (open_channel (ss_world s')) = ((), t) \<and>
       ss_exit t = [0] \<and> ss_stdout t = data)"
proof -
  let ?svc = "sv_Ingest sv"
  obtain hdr base w1 res where hdr: "ParseBegin (take BeginRecordSize raw) = Inr hdr"
    and good: "good_name sourceName" "good_name (Pool hdr)" "good_name (Snapshot hdr)" "good_dataset (Dataset hdr)"
    and base: "run_state (find_base sourceName hdr) (ss_world s) = (Inr base, w1)"
    and recv: "run_state (Receive S sha J ?svc (begin_request sourceName hdr base) data e) w1 = (Inr res, ss_world s')"
    using up by (auto simp: upload_received_def)
  have w1: "cat_ok w1" "I (wObj w1)" using find_base_same [OF base] assms(2,4) by simp_all
  have req: "ascii_request ?svc (begin_request sourceName hdr base)"
    using assms(6) good ParseBegin_guids [OF hdr] find_base_ascii [OF assms(7) base]
    by (simp add: ascii_request_def begin_request_def ascii_good_name ascii_good_dataset)
  obtain t where st: "run_state (StreamSnapshot S sha J (rs_ManifestKey res) full_writer) (wObj (ss_world s'), []) = (Inr (), (t, data))"
    using run_Receive_restored [OF assms(1) w1(2) assms(3) req assms(9) recv] by blast
  have key: "rs_ManifestKey res \<noteq> []"
    using run_Receive_stored [OF reliable_store.axioms(1) [OF assms(1)] w1(2) assms(9) recv]
      request_manifest_key_not_Nil by simp
  obtain rows row where snaps: "snapshots (wCat (ss_world s')) = rows @ [row]" and row: "sn_Status row = SnapCommitted"
      "sn_ManifestObjectKey row = Some (rs_ManifestKey res)"
    using run_Receive_committed [OF w1(1) recv] by blast
  have mem: "row \<in> set (snapshots (wCat (ss_world s')))" using snaps by simp
  have "cat_ok (ss_world s')" using frameD [OF Receive_keeps recv] w1(1) by simp
  from run_runRestoreStream [OF this assms(10) mem row key assms(5) st] row(1) mem show ?thesis by blast
qed

text \<open>
  C2. Upload and restore over SSH, end to end: when the server ends an upload with exit status 0, through the rate limiter
  or not, then as long as the database answers there is a committed snapshot that \<open>restore-stream\<close>
  writes back on a new channel byte for byte, with exit status 0.
\<close>

theorem ssh_upload_restore:
  assumes "reliable_store S sha view I" and "I (wObj (ss_world s))" and "json_laws J" and "cat_ok (ss_world s)"
    and "svc_Store (sv_Ingest sv)" and "ascii (RootPrefix (svc_Keys (sv_Ingest sv)))" and "ascii_catalog (ss_world s)"
    and "post_starts sv" and "paces pace" and "int (length data) < 2 ^ 63"
    and "run_state (runAutoReceive S sha J sv out pace sourceName options data readErr) s = (u, s')"
    and "ss_exit s' = ss_exit s @ [0]" and "\<And>n. \<not> wDbFault (ss_world s') n"
  shows "\<exists>row \<in> set (snapshots (wCat (ss_world s'))). sn_Status row = SnapCommitted \<and>
    (\<exists>t. run_state (runRestoreStream S sha J sv full_writer [''restore-stream'', sn_ID row]) (open_channel (ss_world s')) = ((), t) \<and>
       ss_exit t = [0] \<and> ss_stdout t = data)"
proof -
  let ?stream = "paced sv pace options (data, readErr)"
  have up: "upload_received S sha J sv sourceName ?stream data s s'"
    using wpD [OF wp_runAutoReceive [OF assms(4,8)] assms(11)] assms(12) by (auto simp: upload_failed_def)
  have len: "int (length (fst ?stream)) < 2 ^ 63"
    using paces_length [OF assms(9), of "(data, readErr)"] assms(10) by (simp add: paced_def)
  obtain hdr base w1 res where base: "run_state (find_base sourceName hdr) (ss_world s) = (Inr base, w1)"
    and recv: "run_state (Receive S sha J (sv_Ingest sv) (begin_request sourceName hdr base) (fst ?stream) (snd ?stream)) w1 =
      (Inr res, ss_world s')"
    using up by (auto simp: upload_received_def)
  have "I (wObj w1)" using find_base_same [OF base] assms(2) by simp
  from run_Receive_stored [OF reliable_store.axioms(1) [OF assms(1)] this len recv] have "snd ?stream = None" by simp
  then have "?stream = (data, None)"
    using assms(9) by (auto simp: paced_def paces_def prod_eq_iff split: if_splits)
  with up have "upload_received S sha J sv sourceName (data, None) data s s'" by simp
  from run_upload_restored [OF assms(1-7) this assms(10,13)] show ?thesis .
qed

section \<open>Every request is answered\<close>

text \<open>A program that ends the session with one exit status, and does nothing to the replies.\<close>

definition exits :: "('s session, unit) state \<Rightarrow> bool" where
  "exits m \<longleftrightarrow> (\<forall>s. wp m (\<lambda>_ s'. (\<exists>n. ss_exit s' = ss_exit s @ [n]) \<and> ss_replies s' = ss_replies s) s)"

lemma exits_refuse: "exits (refuse t)" "exits (refuse_error e)"
  by (simp_all add: exits_def wp_rules)

definition quiet :: "('s session, 'a) state \<Rightarrow> bool" where
  "quiet m \<longleftrightarrow> (\<forall>s. wp m (\<lambda>_ s'. ss_exit s' = ss_exit s \<and> ss_replies s' = ss_replies s) s)"

lemma exits_quiet_then:
  assumes "quiet m" and "\<And>x. exits (k x)"
  shows "exits (State_Monad.bind m k)"
  unfolding exits_def wp_bind
proof
  fix s :: "'a session"
  have "wp m (\<lambda>_ s'. ss_exit s' = ss_exit s \<and> ss_replies s' = ss_replies s) s"
    using assms(1) by (simp add: quiet_def)
  then show "wp m (\<lambda>x. wp (k x) (\<lambda>_ s'. (\<exists>n. ss_exit s' = ss_exit s @ [n]) \<and> ss_replies s' = ss_replies s)) s"
    by (rule wp_mono) (use assms(2) in \<open>fastforce simp: exits_def intro: wp_mono\<close>)
qed

lemma quiet_world: "quiet (on_world m)"
  by (simp add: quiet_def wp_rules) (simp add: wp_def split: prod.splits)

lemma quiet_channel: "quiet (stderr_Write t)" "quiet (stdout_Write out p)" "quiet (stream_to_channel S sha J out key)"
    "quiet (ret x)"
  by (simp_all add: quiet_def wp_def stderr_Write_def stdout_Write_def stream_to_channel_def split: prod.splits)

lemma exits_sendExitStatus: "exits (sendExitStatus n)"
  by (simp add: exits_def wp_rules)

lemma exits_check:
  assumes "quiet m" and "\<And>e. exits (h e)" and "\<And>x. exits (k x)"
  shows "exits (check m h k)"
  unfolding check_def using assms by (intro exits_quiet_then) (simp_all split: sum.split)

lemma quiet_post: "quiet (post_upload sv i)"
  by (auto simp: post_upload_def intro: quiet_world quiet_channel split: option.splits)

lemmas exits_rules = exits_refuse exits_sendExitStatus exits_check exits_quiet_then quiet_world quiet_channel quiet_post

lemma exits_runAutoReceive: "exits (runAutoReceive S sha J sv out pace sourceName options data readErr)"
proof -
  have "exits (receive_upload S sha J sv out pace sourceName options hdr data readErr base)" for hdr base
    unfolding receive_upload_def Let_def
    by (auto intro!: exits_rules)
  then show ?thesis
    unfolding runAutoReceive_def by (auto intro!: exits_rules split: sum.splits option.splits)
qed

lemma exits_runRestoreStream: "exits (runRestoreStream S sha J sv out args)"
  unfolding runRestoreStream_def by (auto intro!: exits_rules split: sum.splits)

lemma exits_runState: "exits (runState sv out encode command defaultSource)"
  unfolding runState_def by (auto intro!: exits_rules split: sum.splits option.splits)

lemma exits_runCommand: "exits (runCommand S sha J sv out encode sourceName command)"
  unfolding runCommand_def
  by (auto intro!: exits_refuse exits_runState exits_runRestoreStream split: list.splits)

text \<open>How a session answers one request after another.\<close>

fun starts :: "ssh_request \<Rightarrow> bool" where
  "starts (EnvRequest _) = False"
| "starts (ExecRequest _) = True"
| "starts ShellRequest = True"
| "starts OtherRequest = False"

definition answered :: "ssh_request list \<Rightarrow> 's session \<Rightarrow> 's session \<Rightarrow> bool" where
  "answered reqs s s' \<longleftrightarrow>
     (\<exists>codes replies. ss_exit s' = ss_exit s @ codes \<and> ss_replies s' = ss_replies s @ replies \<and>
        length codes = (if \<exists>r \<in> set reqs. starts r then 1 else 0) \<and>
        length replies = length (takeWhile (\<lambda>r. \<not> starts r) reqs) + length codes)"

lemma wp_answer:
  assumes "exits m" and "starts r"
  shows "wp (State_Monad.bind (Reply b) (\<lambda>_. m)) (\<lambda>_. answered (r # reqs) s) s"
proof -
  let ?s = "s\<lparr>ss_replies := ss_replies s @ [b]\<rparr>"
  have "wp m (\<lambda>_ s'. (\<exists>n. ss_exit s' = ss_exit ?s @ [n]) \<and> ss_replies s' = ss_replies ?s) ?s"
    using assms(1) by (simp only: exits_def)
  then have "wp m (\<lambda>_. answered (r # reqs) s) ?s"
    by (rule wp_mono) (use assms(2) in \<open>auto simp: answered_def\<close>)
  then show ?thesis by (simp add: wp_rules)
qed

lemma wp_skip_request:
  assumes "wp m (\<lambda>_. answered reqs (s\<lparr>ss_replies := ss_replies s @ [b]\<rparr>)) (s\<lparr>ss_replies := ss_replies s @ [b]\<rparr>)" and "\<not> starts r"
  shows "wp (State_Monad.bind (Reply b) (\<lambda>_. m)) (\<lambda>_. answered (r # reqs) s) s"
proof -
  have "wp m (\<lambda>_. answered (r # reqs) s) (s\<lparr>ss_replies := ss_replies s @ [b]\<rparr>)"
    using assms(1) by (rule wp_mono) (use assms(2) in \<open>fastforce simp: answered_def\<close>)
  then show ?thesis by (simp add: wp_rules)
qed

lemma wp_handleSession:
  "wp (handleSession S sha J unrep sv out encode pace sourceName data readErr options reqs) (\<lambda>_. answered reqs s) s"
proof (induction reqs arbitrary: options s)
  case Nil
  then show ?case by (simp add: wp_rules answered_def)
next
  case (Cons req reqs)
  show ?case
  proof (cases req)
    case (EnvRequest payload)
    then show ?thesis
      using Cons by (auto intro!: wp_skip_request split: prod.split)
  next
    case (ExecRequest payload)
    then show ?thesis
      by (auto simp: exec_request_def intro!: wp_answer exits_rules exits_runCommand split: sum.split)
  next
    case ShellRequest
    then show ?thesis
      by (auto simp: shell_request_def intro!: wp_answer exits_rules exits_runAutoReceive split: option.split)
  next
    case OtherRequest
    then show ?thesis using Cons by (auto intro!: wp_skip_request)
  qed
qed


section \<open>Witnesses\<close>

definition sample_header :: bytes where
  "sample_header = [0, 0, 0, 0, 0, 0, 0, 0, 0xac, 0xcb, 0xba, 0xf5, 2, 0, 0, 0] @ replicate 24 0 @
     [1, 0, 0, 0, 0, 0, 0, 0, 0, 0, 0, 0, 0, 0, 0, 0] @ map byte_of_char ''tank/home@s9'' @ replicate 244 0"

definition sample_begin :: Begin where
  "sample_begin = \<lparr>Pool = ''tank'', Dataset = ''home'', Snapshot = ''s9'', ToName = ''tank/home@s9'',
     FromGUID = ''0'', ToGUID = ''0x1'', Raw = False, Compressed = False, FeatureBits = 0\<rparr>"

definition sample_Server :: "'s Server" where
  "sample_Server = \<lparr>sv_Ingest = sample_service\<lparr>svc_ChunkSize := 320\<rparr>, sv_UploadRateBytesPerSecond = 0,
     sv_UploadRateFunc = None, sv_Post = None, sv_draining = False\<rparr>"

definition first_byte :: "bytes \<Rightarrow> bytes" where
  "first_byte d = take 1 d"

definition ssh_manifest :: Manifest where
  "ssh_manifest = request_manifest (begin_request ''host'' sample_begin [])
     (entries (request_chunk_key (sample_service\<lparr>svc_ChunkSize := 320\<rparr>) (begin_request ''host'' sample_begin []))
        first_byte 0 0 [sample_header]) 312 ''00'' 320"

definition no_options :: sessionOptions where
  "no_options = \<lparr>so_requestedUploadRateBytesPerSecond = 0, so_hasRequestedUploadRate = False, so_err = None\<rparr>"

lemma sample_header_length: "length sample_header = 312"
  by (simp add: sample_header_def)

lemma sample_header_parsed: "ParseBegin (take BeginRecordSize sample_header) = Inr sample_begin"
proof -
  have h: "take BeginRecordSize sample_header = sample_header"
    by (simp add: sample_header_length BeginRecordSize_def)
  have sl: "go_slice 0 4 sample_header = [0, 0, 0, 0]" 
    "go_slice 8 16 sample_header = [0xac, 0xcb, 0xba, 0xf5, 2, 0, 0, 0]"
    "go_slice 16 24 sample_header = replicate 8 0"
    "go_slice 40 48 sample_header = [1, 0, 0, 0, 0, 0, 0, 0]"
    "go_slice 48 56 sample_header = [0, 0, 0, 0, 0, 0, 0, 0]"
    by (simp_all add: go_slice_def sample_header_def take_Cons' drop_Cons')
  have "go_slice 56 (56 + maxNameLen) sample_header = map byte_of_char ''tank/home@s9'' @ replicate 244 0"
    by (simp add: go_slice_def sample_header_def maxNameLen_def take_Cons' drop_Cons')
  moreover have "cString (map byte_of_char ''tank/home@s9'' @ replicate 244 0) = ''tank/home@s9''"
    by (rule cString_padded) simp
  ultimately have nm: "cString (go_slice 56 (56 + maxNameLen) sample_header) = ''tank/home@s9''" by metis
  have spl: "splitToName ''tank/home@s9'' = Inr (''tank'', ''home'', ''s9'')" by code_simp
  have z: "replicate 8 (0 :: byte) = [0, 0, 0, 0, 0, 0, 0, 0]" by (simp add: numeral_eq_Suc)
  have f: "formatGUID 0 = ''0''" "formatGUID 1 = ''0x1''" by code_simp+
  have "byteOrder sample_header = Inr LittleEndian"
    by (simp add: byteOrder_def sl order_Uint64_def order_nat_def dmuMagic_def)
  then show ?thesis
    unfolding h ParseBegin_def
    by (simp add: sample_header_length BeginRecordSize_def sl nm spl f z Let_def order_Uint64_def order_Uint32_def
        order_nat_def drrBegin_def features_of_def sample_begin_def)
qed

lemma sample_upload_run:
  "let s = snd (run_state (receive_upload (MemoryStore first_byte) first_byte (short_json ssh_manifest plain_json)
     sample_Server full_writer (\<lambda>x. x) ''host'' no_options sample_begin sample_header None []) (open_channel sample_world))
   in ss_exit s = [0] \<and> \<not> wDbFault (ss_world s) n"
  by code_simp

abbreviation sample_upload :: "(memory session, unit) state" where
  "sample_upload \<equiv> runAutoReceive (MemoryStore first_byte) first_byte (short_json ssh_manifest plain_json)
     sample_Server full_writer (\<lambda>x. x) ''host'' no_options sample_header None"

lemma sample_upload_exit:
  "let s = snd (run_state sample_upload (open_channel sample_world)) in ss_exit s = [0] \<and> \<not> wDbFault (ss_world s) n"
proof -
  have good: "check_names [(''source'', ''host''), (''pool'', ''tank''), (''snapshot'', ''s9'')] = None"
    "validateDataset ''home'' = None" by code_simp+
  have base: "find_base ''host'' sample_begin = ok []" by (simp add: find_base_def sample_begin_def)
  have hdr: "read_header sample_header None = Inr (take BeginRecordSize sample_header)"
    by (simp add: read_header_def sample_header_length BeginRecordSize_def)
  have b: "Pool sample_begin = ''tank''" "Snapshot sample_begin = ''s9''" "Dataset sample_begin = ''home''"
    by (simp_all add: sample_begin_def)
  show ?thesis
    using sample_upload_run [of n]
    by (simp add: runAutoReceive_def hdr sample_header_parsed b good base run_check on_world_def del: check_names.simps)
qed

lemma sample_upload_setting:
  "post_starts (sample_Server :: memory Server)" "cat_ok (ss_world (open_channel sample_world))"
  "svc_Store (sv_Ingest (sample_Server :: memory Server))" "paces (\<lambda>x. x)"
  by (simp_all add: post_starts_def sample_Server_def open_channel_def sample_world_ok sample_service_def paces_def)

lemma sample_upload_ascii:
  "ascii (RootPrefix (svc_Keys (sv_Ingest (sample_Server :: memory Server))))"
  "ascii_catalog (ss_world (open_channel sample_world))"
  unfolding ascii_catalog_def by code_simp+

theorem runAutoReceive_outcome_witness:
  "\<exists>s' rows row. run_state sample_upload (open_channel sample_world) = ((), s') \<and> ss_exit s' = [0] \<and>
     snapshots (wCat (ss_world s')) = rows @ [row] \<and> sn_Status row = SnapCommitted"
proof -
  obtain s' where run: "run_state sample_upload (open_channel sample_world) = ((), s')" by (metis old.unit.exhaust prod.exhaust)
  have "ss_exit s' = [0]" using sample_upload_exit run by (simp add: Let_def)
  with runAutoReceive_outcome [OF sample_upload_setting(2,1) run] run show ?thesis
    by (auto simp: open_channel_def)
qed

theorem ssh_upload_restore_witness:
  "\<exists>s' (row :: Snapshot) t. run_state sample_upload (open_channel sample_world) = ((), s') \<and>
     run_state (runRestoreStream (MemoryStore first_byte) first_byte (short_json ssh_manifest plain_json) sample_Server
       full_writer [''restore-stream'', sn_ID row]) (open_channel (ss_world s')) = ((), t) \<and>
     ss_exit t = [0] \<and> ss_stdout t = sample_header"
proof -
  obtain s' where run: "run_state sample_upload (open_channel sample_world) = ((), s')" by (metis old.unit.exhaust prod.exhaust)
  have exit: "ss_exit s' = ss_exit (open_channel sample_world) @ [0]"
    using sample_upload_exit run by (simp add: open_channel_def Let_def)
  have len: "int (length sample_header) < 2 ^ 63" by (simp add: sample_header_length)
  have db: "\<not> wDbFault (ss_world s') n" for n using sample_upload_exit run by (simp add: Let_def)
  from ssh_upload_restore [OF memory.reliable_store_axioms TrueI short_json_laws [OF plain_json_laws]
      sample_upload_setting(2,3) sample_upload_ascii sample_upload_setting(1,4) len run exit db] run
  show ?thesis by blast
qed


end
