(* ===== verification/Backed_Objects.thy ===== *)
theory Backed_Objects
  imports Catalog_Reads
begin

text \<open>
  What ties the catalog to the object store: every committed snapshot has its objects. The
  operations that delete objects have to keep this on every path, errors included.
\<close>

text \<open>The objects of a snapshot row: its chunk rows' keys and its manifest key.\<close>

definition row_keys :: "catalog \<Rightarrow> Snapshot \<Rightarrow> string set" where
  "row_keys c s =
     ck_ObjectKey ` {k \<in> set (snapshot_chunks c). ck_SnapshotID k = sn_ID s} \<union>
     (case sn_ManifestObjectKey s of None \<Rightarrow> {} | Some k \<Rightarrow> if k = [] then {} else {k})"

definition backed :: "catalog \<Rightarrow> (string \<Rightarrow> bytes option) \<Rightarrow> bool" where
  "backed c content \<longleftrightarrow>
     (\<forall>s \<in> set (snapshots c). sn_Status s = SnapCommitted \<longrightarrow> row_keys c s \<subseteq> dom content)"

definition separate :: "catalog \<Rightarrow> bool" where
  "separate c \<longleftrightarrow>
     (\<forall>s \<in> set (snapshots c). \<forall>t \<in> set (snapshots c). sn_ID s \<noteq> sn_ID t \<longrightarrow> row_keys c s \<inter> row_keys c t = {})"

lemma mem_row_keys:
  "k \<in> row_keys c s \<longleftrightarrow>
     (\<exists>x \<in> set (snapshot_chunks c). ck_SnapshotID x = sn_ID s \<and> k = ck_ObjectKey x) \<or>
     (k \<noteq> [] \<and> sn_ManifestObjectKey s = Some k)"
  by (auto simp: row_keys_def split: option.splits)

lemma row_keys_mono: "set (snapshot_chunks c') \<subseteq> set (snapshot_chunks c) \<Longrightarrow> row_keys c' s \<subseteq> row_keys c s"
  by (auto simp: row_keys_def)

lemma mem_manifest_keys:
  "k \<in> set (manifest_keys rows) \<longleftrightarrow> (\<exists>s \<in> set rows. k \<noteq> [] \<and> sn_ManifestObjectKey s = Some k)"
proof (induction rows)
  case (Cons s rows)
  then show ?case by (cases "sn_ManifestObjectKey s") (auto simp: manifest_keys_def)
qed (simp add: manifest_keys_def)

lemma snapshot_object_keys:
  assumes "catalog_ok c" and "s \<in> set (snapshots c)" and "q_ListSnapshotObjectKeys (sn_ID s) now c = Inr ks"
  shows "set ks = row_keys c s"
proof -
  have "filter (\<lambda>t. sn_ID t = sn_ID s) (snapshots c) = [s]"
    using assms by (intro filter_unique_key) (auto simp: catalog_ok_def unique_ok_def)
  then have "k \<in> set ks \<longleftrightarrow> k \<in> row_keys c s" for k
    using assms(3) by (auto simp: q_ListSnapshotObjectKeys_def mem_row_keys mem_manifest_keys)
  then show ?thesis by blast
qed

lemma dataset_object_keys:
  assumes "q_ListDatasetObjectKeys d now c = Inr ks"
  shows "set ks = (\<Union>s \<in> {s \<in> set (snapshots c). sn_DatasetID s = d}. row_keys c s)"
proof -
  have ks: "ks = remdups (map ck_ObjectKey
      (filter (\<lambda>k. \<exists>s \<in> set (snapshots c). sn_ID s = ck_SnapshotID k \<and> sn_DatasetID s = d) (snapshot_chunks c)) @
      manifest_keys (filter (\<lambda>s. sn_DatasetID s = d) (snapshots c)))"
    using assms unfolding q_ListDatasetObjectKeys_def by simp
  have mem: "k \<in> set ks \<longleftrightarrow>
      (\<exists>x \<in> set (snapshot_chunks c). (\<exists>s \<in> set (snapshots c). sn_ID s = ck_SnapshotID x \<and> sn_DatasetID s = d) \<and>
         k = ck_ObjectKey x) \<or>
      (\<exists>s \<in> set (snapshots c). sn_DatasetID s = d \<and> k \<noteq> [] \<and> sn_ManifestObjectKey s = Some k)" for k
    unfolding ks set_remdups set_append Un_iff mem_manifest_keys set_map set_filter image_iff by blast
  have flip: "ck_SnapshotID x = sn_ID s \<longleftrightarrow> sn_ID s = ck_SnapshotID x" for x :: SnapshotChunk and s :: Snapshot
    by (rule eq_commute)
  have "k \<in> set ks \<longleftrightarrow> (\<exists>s \<in> set (snapshots c). sn_DatasetID s = d \<and> k \<in> row_keys c s)" for k
    unfolding mem mem_row_keys flip by blast
  then show ?thesis by auto
qed

text \<open>
  Removing the objects of the rows that satisfy \<open>P\<close>, once none of them is committed any more,
  leaves the other committed rows backed.
\<close>

lemma backed_delete:
  assumes "backed c content" and "separate c" and "catalog_ok c"
    and rows: "\<And>s. s \<in> set (snapshots c') \<Longrightarrow> sn_Status s = SnapCommitted \<Longrightarrow> s \<in> set (snapshots c) \<and> \<not> P s"
    and chunks: "set (snapshot_chunks c') \<subseteq> set (snapshot_chunks c)"
    and others: "\<And>j. j \<notin> (\<Union>s \<in> {s \<in> set (snapshots c). P s}. row_keys c s) \<Longrightarrow> content' j = content j"
  shows "backed c' content'"
  unfolding backed_def
proof (intro ballI impI subsetI)
  fix s k
  assume s: "s \<in> set (snapshots c')" "sn_Status s = SnapCommitted" and "k \<in> row_keys c' s"
  then have k: "k \<in> row_keys c s" and sc: "s \<in> set (snapshots c)" "\<not> P s"
    using row_keys_mono [OF chunks] rows by auto
  have "k \<notin> row_keys c t" if t: "t \<in> set (snapshots c)" "P t" for t
  proof -
    have "sn_ID s \<noteq> sn_ID t"
      using t sc assms(3) by (auto simp: catalog_ok_def unique_ok_def distinct_map inj_on_def)
    then have "row_keys c s \<inter> row_keys c t = {}" using assms(2) sc(1) t(1) by (simp add: separate_def)
    then show ?thesis using k by auto
  qed
  then have "content' k = content k" by (intro others) auto
  moreover have "k \<in> dom content" using assms(1) sc(1) s(2) k by (auto simp: backed_def)
  ultimately show "k \<in> dom content'" by (simp add: domIff)
qed

end
