(* ===== verification/Cleanup.thy ===== *)
theory Cleanup
  imports Ingest Backed_Objects
begin

text \<open>
  Removing what failed uploads left behind (\<open>src/internal/cleanup/cleanup.go\<close>). The result so far
  is returned next to an error.
\<close>

section \<open>Definitions\<close>

record AbandonedUploadCleaner =
  c_Repo :: bool
  c_Store :: bool

record AbandonedUploadCleanupResult =
  UploadsDeleted :: int
  SnapshotsDeleted :: int
  ObjectsDeleted :: int

type_synonym 's cleanup_reply = "('s world, AbandonedUploadCleanupResult \<times> error option) state"

definition count_object :: "AbandonedUploadCleanupResult \<Rightarrow> AbandonedUploadCleanupResult" where
  "count_object res = res\<lparr>ObjectsDeleted := ObjectsDeleted res + 1\<rparr>"

text \<open>The loop over the chunks; it returns the keys seen.\<close>

fun clean_chunks ::
  "'s Store \<Rightarrow> SnapshotChunk list \<Rightarrow> string list \<Rightarrow> AbandonedUploadCleanupResult \<Rightarrow>
   ('s world, (string list \<times> AbandonedUploadCleanupResult) \<times> error option) state" where
  "clean_chunks S [] seen res = ret ((seen, res), None)"
| "clean_chunks S (chunk # chunks) seen res =
     (if ck_ObjectKey chunk \<in> set seen then clean_chunks S chunks seen res
      else check (store_call (Delete S (ck_ObjectKey chunk)))
        (\<lambda>e. ret ((seen, res), Some (Wrapf (msg ''delete abandoned chunk %s: %w'') [ck_ObjectKey chunk] e)))
        (\<lambda>_. clean_chunks S chunks (ck_ObjectKey chunk # seen) (count_object res)))"

definition clean_manifest ::
  "'s Store \<Rightarrow> AbandonedUpload \<Rightarrow> string list \<Rightarrow> AbandonedUploadCleanupResult \<Rightarrow> 's cleanup_reply" where
  "clean_manifest S upload seen res =
     (case au_ManifestObjectKey upload of
        None \<Rightarrow> ret (res, None)
      | Some key \<Rightarrow>
          if key = [] \<or> key \<in> set seen then ret (res, None)
          else check (store_call (Delete S key))
            (\<lambda>e. ret (res, Some (Wrapf (msg ''delete abandoned manifest %s: %w'') [key] e)))
            (\<lambda>_. ret (count_object res, None)))"

definition clean_rows :: "AbandonedUpload \<Rightarrow> AbandonedUploadCleanupResult \<Rightarrow> 's cleanup_reply" where
  "clean_rows upload res =
     State_Monad.bind
       (case au_SnapshotID upload of
          None \<Rightarrow> ret (res, None)
        | Some i \<Rightarrow>
            check (DeleteSnapshot i)
              (\<lambda>e. ret (res, Some (Wrapf (msg ''delete abandoned snapshot %s: %w'') [i] e)))
              (\<lambda>_. ret (res\<lparr>SnapshotsDeleted := SnapshotsDeleted res + 1\<rparr>, None)))
       (\<lambda>(res, err). case err of
          Some e \<Rightarrow> ret (res, Some e)
        | None \<Rightarrow>
            check (DeleteUploadSession (au_ID upload))
              (\<lambda>e. ret (res, Some (Wrapf (msg ''delete abandoned upload session %s: %w'') [au_ID upload] e)))
              (\<lambda>_. ret (res\<lparr>UploadsDeleted := UploadsDeleted res + 1\<rparr>, None)))"

definition clean_upload ::
  "'s Store \<Rightarrow> AbandonedUpload \<Rightarrow> AbandonedUploadCleanupResult \<Rightarrow> 's cleanup_reply" where
  "clean_upload S upload res =
     check (ListUploadSessionChunks (au_ID upload))
       (\<lambda>e. ret (res, Some (Wrapf (msg ''list chunks for abandoned upload %s: %w'') [au_ID upload] e)))
       (\<lambda>chunks.
     State_Monad.bind (clean_chunks S chunks [] res) (\<lambda>(found, err). case found of (seen, res) \<Rightarrow> case err of
       Some e \<Rightarrow> ret (res, Some e)
     | None \<Rightarrow>
         State_Monad.bind (clean_manifest S upload seen res) (\<lambda>(res, err). case err of
           Some e \<Rightarrow> ret (res, Some e)
         | None \<Rightarrow> clean_rows upload res)))"

fun clean_uploads ::
  "'s Store \<Rightarrow> AbandonedUpload list \<Rightarrow> AbandonedUploadCleanupResult \<Rightarrow> 's cleanup_reply" where
  "clean_uploads S [] res = ret (res, None)"
| "clean_uploads S (upload # uploads) res =
     State_Monad.bind (clean_upload S upload res) (\<lambda>(res, err). case err of
       Some e \<Rightarrow> ret (res, Some e)
     | None \<Rightarrow> clean_uploads S uploads res)"

definition no_cleanup :: AbandonedUploadCleanupResult where
  "no_cleanup = \<lparr>UploadsDeleted = 0, SnapshotsDeleted = 0, ObjectsDeleted = 0\<rparr>"

definition Cleanup :: "'s Store \<Rightarrow> AbandonedUploadCleaner \<Rightarrow> int \<Rightarrow> int \<Rightarrow> 's cleanup_reply" where
  "Cleanup S c olderThan lim =
     (if \<not> c_Repo c then ret (no_cleanup, Some (Errorf (msg ''repo is required'') []))
      else if \<not> c_Store c then ret (no_cleanup, Some (Errorf (msg ''store is required'') []))
      else
      check (ListAbandonedUploadSessions olderThan lim)
        (\<lambda>e. ret (no_cleanup, Some (Wrapf (msg ''list abandoned uploads: %w'') [] e)))
        (\<lambda>uploads. clean_uploads S uploads no_cleanup))"

section \<open>Frames\<close>

lemma clean_chunks_frames [frame_rules]:
  "keeps cat_ok (clean_chunks S chunks seen res)"
  "frame (\<lambda>w w'. wCat w' = wCat w) (clean_chunks S chunks seen res)"
  by (induction chunks arbitrary: seen res) (auto intro!: frame_rules)

lemma clean_manifest_frames [frame_rules]:
  "keeps cat_ok (clean_manifest S upload seen res)"
  "frame (\<lambda>w w'. wCat w' = wCat w) (clean_manifest S upload seen res)"
  unfolding clean_manifest_def by (intro frame_rules)+

lemma clean_rows_frames [frame_rules]:
  "keeps cat_ok (clean_rows upload res)"
  "frame (\<lambda>w w'. wObj w' = wObj w) (clean_rows upload res)"
  unfolding clean_rows_def by (intro frame_rules)+

lemma Cleanup_keeps [frame_rules]:
  "keeps cat_ok (clean_upload S upload res)" "keeps cat_ok (clean_uploads S uploads res)"
  "keeps cat_ok (Cleanup S c olderThan lim)"
proof -
  show up: "keeps cat_ok (clean_upload S upload res)" for upload res
    unfolding clean_upload_def by (intro frame_rules)
  show loop: "keeps cat_ok (clean_uploads S uploads res)" for uploads res
    by (induction uploads arbitrary: res) (auto intro!: frame_rules up)
  show "keeps cat_ok (Cleanup S c olderThan lim)"
    unfolding Cleanup_def by (intro frame_rules loop)
qed

section \<open>A committed snapshot can lose its manifest\<close>

text \<open>
  One upload of a one-byte stream; the database fails at the calls with the given numbers. The
  commit of the upload's last transaction is call number \<open>29\<close>.
\<close>

definition upload_with :: "(nat \<Rightarrow> bool) \<Rightarrow> memory world \<Rightarrow> (error + Result) \<times> memory world" where
  "upload_with faults w =
     run_state (Receive (MemoryStore (\<lambda>d. d)) (\<lambda>d. d) sample_json sample_service sample_request [1] None)
       (w\<lparr>wDbFault := faults\<rparr>)"

definition clean_after :: "memory world \<Rightarrow> (AbandonedUploadCleanupResult \<times> error option) \<times> memory world" where
  "clean_after w = run_state (Cleanup (MemoryStore (\<lambda>d. d)) \<lparr>c_Repo = True, c_Store = True\<rparr> 1 0) w"

definition loses_manifest :: "memory world \<Rightarrow> memory world \<Rightarrow> bool" where
  "loses_manifest w w' \<longleftrightarrow>
     list_ex (\<lambda>s. sn_Status s = SnapCommitted \<and>
       (case sn_ManifestObjectKey s of None \<Rightarrow> False | Some k \<Rightarrow> wObj w k \<noteq> None \<and> wObj w' k = None))
     (snapshots (wCat w'))"

text \<open>
  The store takes the whole upload and the database refuses its commit; the client sends the
  snapshot again, which is committed under the same keys; the failed session still names the
  manifest key, and the cleaner, reporting success, deletes the manifest of the committed snapshot.
\<close>

theorem Cleanup_deletes_committed_manifest:
  "let (r1, w1) = upload_with (\<lambda>n. n = 29) sample_world;
       (r2, w2) = upload_with (\<lambda>_. False) w1;
       (r3, w3) = clean_after w2
   in r1 = Inl ErrDriver \<and> (case r2 of Inl e \<Rightarrow> False | Inr _ \<Rightarrow> True) \<and> snd r3 = None \<and> loses_manifest w2 w3"
  by code_simp

end
