(* ===== verification/Deletion.thy ===== *)
theory Deletion
  imports Catalog_Repository Backed_Objects
begin

text \<open>
  Deleting snapshots and datasets with their objects
  (\<open>src/internal/deletion/deletion.go\<close>), and the worker that carries out the queued cleanup
  operations (\<open>src/internal/deletion/worker.go\<close>). These functions return a result next to an
  error, so their model returns both.
\<close>

section \<open>Definitions\<close>

text \<open>\<open>d_DB\<close> and \<open>d_Store\<close> say whether the two fields are set.\<close>

record Deleter =
  d_DB :: bool
  d_Store :: bool

type_synonym ('s, 'a) reply = "('s world, 'a \<times> error option) state"

subsection \<open>Objects\<close>

text \<open>\<open>deleteObjects\<close>: \<open>seen\<close> and the counter are the loop's variables.\<close>

fun delete_loop :: "'s Store \<Rightarrow> string list \<Rightarrow> string list \<Rightarrow> int \<Rightarrow> ('s, int) reply" where
  "delete_loop S [] seen n = ret (n, None)"
| "delete_loop S (key # keys) seen n =
     (if key = [] then delete_loop S keys seen n
      else if key \<in> set seen then delete_loop S keys seen n
      else check (store_call (Delete S key))
        (\<lambda>e. ret (n, Some (Wrapf (msg ''delete object %s: %w'') [key] e)))
        (\<lambda>_. delete_loop S keys (key # seen) (n + 1)))"

definition deleteObjects :: "'s Store \<Rightarrow> string list \<Rightarrow> ('s, int) reply" where
  "deleteObjects S keys = delete_loop S keys [] 0"

subsection \<open>Snapshots and datasets\<close>

definition cleanup_summary :: "int \<Rightarrow> string" where
  "cleanup_summary n = ''cleanup succeeded; '' @ show_int n @ '' objects removed''"

definition mark_cleanup :: "string \<Rightarrow> int \<Rightarrow> ('s world, unit) prog" where
  "mark_cleanup operationID n =
     (if operationID \<noteq> []
      then check (db_exec (q_UpdateOperationStatus OpSucceeded (Some (cleanup_summary n)) None operationID))
        (\<lambda>e. throw (Wrapf (msg ''mark cleanup succeeded: %w'') [] e)) ok
      else ok ())"

text \<open>The final transaction of a snapshot deletion.\<close>

definition delete_snapshot_rows :: "string \<Rightarrow> string \<Rightarrow> int \<Rightarrow> ('s world, unit) prog" where
  "delete_snapshot_rows snapshotID operationID n =
     withTx (
       check (db_exec (q_DeleteUploadSessionsBySnapshot (Some snapshotID)))
         (\<lambda>e. throw (Wrapf (msg ''delete upload sessions for snapshot: %w'') [] e)) (\<lambda>_.
       check (db_exec (q_DeleteSnapshot snapshotID))
         (\<lambda>e. throw (Wrapf (msg ''delete snapshot catalog rows: %w'') [] e)) (\<lambda>_.
       mark_cleanup operationID n)))"

definition DeleteSnapshotWithOperation ::
  "'s Store \<Rightarrow> Deleter \<Rightarrow> string \<Rightarrow> string \<Rightarrow> ('s, int) reply" where
  "DeleteSnapshotWithOperation S d snapshotID operationID =
     (if \<not> d_DB d then ret (0, Some (Errorf (msg ''db is required'') []))
      else if \<not> d_Store d then ret (0, Some (Errorf (msg ''store is required'') []))
      else
      check (db_query (q_CountCommittedDescendants (Some snapshotID)))
        (\<lambda>e. ret (0, Some (Wrapf (msg ''count committed snapshot descendants: %w'') [] e))) (\<lambda>descendants.
      if descendants > 0
      then ret (0, Some (Errorf
             (msg ''snapshot %s has %d committed descendant(s); delete the dependent chain or dataset instead'')
             [snapshotID, show_int descendants]))
      else
      check (db_query (q_ListSnapshotObjectKeys snapshotID))
        (\<lambda>e. ret (0, Some (Wrapf (msg ''list snapshot objects: %w'') [] e))) (\<lambda>keys.
      check (db_exec (q_InvalidateSnapshotForDeletion snapshotID))
        (\<lambda>e. ret (0, Some (Wrapf (msg ''invalidate snapshot before deleting objects: %w'') [] e))) (\<lambda>_.
      State_Monad.bind (deleteObjects S keys) (\<lambda>(n, err).
      case err of
        Some e \<Rightarrow> ret (n, Some e)
      | None \<Rightarrow>
          check (delete_snapshot_rows snapshotID operationID n)
            (\<lambda>e. ret (n, Some e)) (\<lambda>_. ret (n, None)))))))"

definition Deleter_DeleteSnapshot :: "'s Store \<Rightarrow> Deleter \<Rightarrow> string \<Rightarrow> ('s, int) reply" where
  "Deleter_DeleteSnapshot S d snapshotID = DeleteSnapshotWithOperation S d snapshotID []"

definition delete_dataset_rows :: "string \<Rightarrow> string \<Rightarrow> int \<Rightarrow> ('s world, unit) prog" where
  "delete_dataset_rows datasetID operationID n =
     withTx (
       check (db_exec (q_DeleteDataset datasetID))
         (\<lambda>e. throw (Wrapf (msg ''delete dataset catalog rows: %w'') [] e)) (\<lambda>_.
       mark_cleanup operationID n))"

definition DeleteDatasetWithOperation ::
  "'s Store \<Rightarrow> Deleter \<Rightarrow> string \<Rightarrow> string \<Rightarrow> ('s, int) reply" where
  "DeleteDatasetWithOperation S d datasetID operationID =
     (if \<not> d_DB d then ret (0, Some (Errorf (msg ''db is required'') []))
      else if \<not> d_Store d then ret (0, Some (Errorf (msg ''store is required'') []))
      else
      check (db_query (q_ListDatasetObjectKeys datasetID))
        (\<lambda>e. ret (0, Some (Wrapf (msg ''list dataset objects: %w'') [] e))) (\<lambda>keys.
      check (db_exec (q_InvalidateDatasetSnapshotsForDeletion datasetID))
        (\<lambda>e. ret (0, Some (Wrapf (msg ''invalidate dataset snapshots before deleting objects: %w'') [] e))) (\<lambda>_.
      State_Monad.bind (deleteObjects S keys) (\<lambda>(n, err).
      case err of
        Some e \<Rightarrow> ret (n, Some e)
      | None \<Rightarrow>
          check (delete_dataset_rows datasetID operationID n)
            (\<lambda>e. ret (n, Some e)) (\<lambda>_. ret (n, None))))))"

definition Deleter_DeleteDataset :: "'s Store \<Rightarrow> Deleter \<Rightarrow> string \<Rightarrow> ('s, int) reply" where
  "Deleter_DeleteDataset S d datasetID = DeleteDatasetWithOperation S d datasetID []"

subsection \<open>The worker\<close>

record Worker =
  wk_DB :: bool
  wk_Store :: bool
  wk_Limit :: int

record WorkerResult =
  OperationsProcessed :: int
  OperationsFailed :: int
  wr_ObjectsDeleted :: int

definition run_cleanup ::
  "'s Store \<Rightarrow> Deleter \<Rightarrow> ListPendingCleanupOperationsRow \<Rightarrow> ('s, int) reply" where
  "run_cleanup S d p =
     (case lpc_SnapshotID p of
        Some i \<Rightarrow>
          if i \<noteq> [] then DeleteSnapshotWithOperation S d i (lpc_ID p)
          else (case lpc_DatasetID p of
            Some j \<Rightarrow> if j \<noteq> [] then DeleteDatasetWithOperation S d j (lpc_ID p)
                       else ret (0, Some (Errorf (msg ''cleanup operation has no dataset_id or snapshot_id'') []))
          | None \<Rightarrow> ret (0, Some (Errorf (msg ''cleanup operation has no dataset_id or snapshot_id'') [])))
      | None \<Rightarrow>
          (case lpc_DatasetID p of
            Some j \<Rightarrow> if j \<noteq> [] then DeleteDatasetWithOperation S d j (lpc_ID p)
                       else ret (0, Some (Errorf (msg ''cleanup operation has no dataset_id or snapshot_id'') []))
          | None \<Rightarrow> ret (0, Some (Errorf (msg ''cleanup operation has no dataset_id or snapshot_id'') []))))"

definition runOperation ::
  "'s Store \<Rightarrow> Worker \<Rightarrow> ListPendingCleanupOperationsRow \<Rightarrow> ('s, int) reply" where
  "runOperation S w p =
     check (db_exec (q_MarkOperationRunning (Some (msg ''cleanup running'')) (lpc_ID p)))
       (\<lambda>e. ret (0, Some (Wrapf (msg ''mark cleanup running: %w'') [] e))) (\<lambda>_.
     State_Monad.bind (run_cleanup S \<lparr>d_DB = wk_DB w, d_Store = wk_Store w\<rparr> p) (\<lambda>(n, err).
     case err of
       Some e \<Rightarrow>
         State_Monad.bind (db_exec (q_UpdateOperationStatus OpFailed (Some (msg ''cleanup failed''))
           (Some (error_text e)) (lpc_ID p))) (\<lambda>_. ret (n, Some e))
     | None \<Rightarrow> ret (n, None)))"

fun worker_loop ::
  "'s Store \<Rightarrow> Worker \<Rightarrow> ListPendingCleanupOperationsRow list \<Rightarrow> WorkerResult \<Rightarrow> ('s world, WorkerResult) state" where
  "worker_loop S w [] res = ret res"
| "worker_loop S w (p # ps) res =
     State_Monad.bind (runOperation S w p) (\<lambda>(objectsDeleted, err).
       case err of
         Some e \<Rightarrow> worker_loop S w ps (res\<lparr>OperationsFailed := OperationsFailed res + 1\<rparr>)
       | None \<Rightarrow> worker_loop S w ps
           (res\<lparr>OperationsProcessed := OperationsProcessed res + 1,
                wr_ObjectsDeleted := wr_ObjectsDeleted res + objectsDeleted\<rparr>))"

definition Worker_RunOnce :: "'s Store \<Rightarrow> Worker \<Rightarrow> ('s world, WorkerResult) prog" where
  "Worker_RunOnce S w =
     (if \<not> wk_DB w then throw (Errorf (msg ''db is required'') [])
      else if \<not> wk_Store w then throw (Errorf (msg ''store is required'') [])
      else
      check (db_query (q_ListPendingCleanupOperations (if wk_Limit w \<le> 0 then 10 else wk_Limit w)))
        (\<lambda>e. throw (Wrapf (msg ''list pending cleanup operations: %w'') [] e)) (\<lambda>operations.
      State_Monad.bind (worker_loop S w operations
        \<lparr>OperationsProcessed = 0, OperationsFailed = 0, wr_ObjectsDeleted = 0\<rparr>) ok))"

section \<open>Frames\<close>

lemma delete_loop_frames [frame_rules]:
  "keeps cat_ok (delete_loop S keys seen n)"
  "frame (\<lambda>w w'. wCat w' = wCat w) (delete_loop S keys seen n)"
  by (induction keys arbitrary: seen n) (auto intro!: frame_rules)

lemma deleteObjects_frames [frame_rules]:
  "keeps cat_ok (deleteObjects S keys)"
  "frame (\<lambda>w w'. wCat w' = wCat w) (deleteObjects S keys)"
  unfolding deleteObjects_def by (intro frame_rules)+

lemma mark_cleanup_frames [frame_rules]:
  "keeps cat_ok (mark_cleanup i n)"
  "frame (\<lambda>w w'. wObj w' = wObj w) (mark_cleanup i n)"
  unfolding mark_cleanup_def by (intro frame_rules statement_rules)+

lemma delete_rows_frames [frame_rules]:
  "keeps cat_ok (delete_snapshot_rows i j n)"
  "frame (\<lambda>w w'. wObj w' = wObj w) (delete_snapshot_rows i j n)"
  "keeps cat_ok (delete_dataset_rows i j n)"
  "frame (\<lambda>w w'. wObj w' = wObj w) (delete_dataset_rows i j n)"
  unfolding delete_snapshot_rows_def delete_dataset_rows_def by (intro frame_rules statement_rules)+

lemma Deleter_keeps [frame_rules]:
  "keeps cat_ok (DeleteSnapshotWithOperation S d i j)" "keeps cat_ok (DeleteDatasetWithOperation S d i j)"
  unfolding DeleteSnapshotWithOperation_def DeleteDatasetWithOperation_def
  by (intro frame_rules statement_rules)+

lemma Worker_keeps [frame_rules]:
  "keeps cat_ok (runOperation S w p)" "keeps cat_ok (worker_loop S w ps res)"
  "keeps cat_ok (Worker_RunOnce S w)"
proof -
  show op: "keeps cat_ok (runOperation S w p)" for p
    unfolding runOperation_def run_cleanup_def by (intro frame_rules statement_rules)
  show loop: "keeps cat_ok (worker_loop S w ps res)" for ps res
    by (induction ps arbitrary: res) (auto intro!: frame_rules op)
  show "keeps cat_ok (Worker_RunOnce S w)"
    unfolding Worker_RunOnce_def by (intro frame_rules loop)
qed

section \<open>Deleting objects\<close>

text \<open>The store after \<open>deleteObjects\<close>: only the listed keys are touched, and all are gone when it succeeds.\<close>

context object_store
begin

definition deleted_post :: "string list \<Rightarrow> 's world \<Rightarrow> int \<times> error option \<Rightarrow> 's world \<Rightarrow> bool" where
  "deleted_post keys w r w' \<longleftrightarrow>
     wCat w' = wCat w \<and> inv (wObj w') \<and> (\<forall>j. j \<notin> set keys \<longrightarrow> view (wObj w') j = view (wObj w) j) \<and>
     (snd r = None \<longrightarrow> (\<forall>k \<in> set keys. k \<noteq> [] \<longrightarrow> view (wObj w') k = None))"

lemma wp_delete_loop:
  assumes "inv (wObj w)" and "\<forall>k \<in> set seen. view (wObj w) k = None"
  shows "wp (delete_loop S keys seen n)
    (\<lambda>r w'. deleted_post keys w r w' \<and> (snd r = None \<longrightarrow> (\<forall>k \<in> set seen. view (wObj w') k = None))) w"
  using assms
proof (induction keys arbitrary: seen n w)
  case Nil
  then show ?case by (simp add: wp_rules deleted_post_def)
next
  case (Cons key keys)
  show ?case
  proof (cases "key = [] \<or> key \<in> set seen")
    case True
    then have eq: "delete_loop S (key # keys) seen n = delete_loop S keys seen n" by auto
    show ?thesis unfolding eq
      using True by (intro wp_mono [OF Cons.IH [OF Cons.prems]]) (auto simp: deleted_post_def)
  next
    case False
    obtain r s where d: "Delete S key (wObj w) = (r, s)" by (rule prod.exhaust)
    have I: "inv s" "\<And>j. j \<noteq> key \<Longrightarrow> view s j = view (wObj w) j"
      using delete_inv [OF Cons.prems(1) d] delete_other [OF Cons.prems(1) d] by auto
    show ?thesis
    proof (cases r)
      case (Inl e)
      then show ?thesis using False d I by (simp add: wp_rules deleted_post_def)
    next
      case (Inr u)
      have gone: "view s key = None" using delete_ok [OF Cons.prems(1)] d Inr by simp
      have "\<forall>k \<in> set (key # seen). view (wObj (w\<lparr>wObj := s\<rparr>)) k = None"
        using gone I(2) Cons.prems(2) by (auto, metis)
      then have "wp (delete_loop S keys (key # seen) (n + 1))
          (\<lambda>r w'. deleted_post (key # keys) w r w' \<and> (snd r = None \<longrightarrow> (\<forall>k \<in> set seen. view (wObj w') k = None)))
          (w\<lparr>wObj := s\<rparr>)"
        using I by (intro wp_mono [OF Cons.IH]) (auto simp: deleted_post_def)
      then show ?thesis using False d Inr by (simp add: wp_rules)
    qed
  qed
qed

lemma wp_deleteObjects:
  "inv (wObj w) \<Longrightarrow> wp (deleteObjects S keys) (deleted_post keys w) w"
  unfolding deleteObjects_def by (rule wp_mono [OF wp_delete_loop]) auto

end

section \<open>The final transactions\<close>

text \<open>What the rows' transactions leave: everything as it was, or the rows \<open>P\<close> gone with their chunks.\<close>

definition removed :: "(Snapshot \<Rightarrow> bool) \<Rightarrow> catalog \<Rightarrow> catalog \<Rightarrow> bool" where
  "removed P c c' \<longleftrightarrow> snapshots c' = filter (\<lambda>s. \<not> P s) (snapshots c) \<and>
     set (snapshot_chunks c') \<subseteq> set (snapshot_chunks c)"

lemma delete_snapshots_removed: "delete_snapshots P c = Inr c' \<Longrightarrow> removed P c c'"
  by (auto simp: delete_snapshots_def removed_def Let_def split: if_splits)

lemma delete_sessions_removed: "removed P (delete_sessions Q c) c' \<Longrightarrow> removed P c c'"
  by (auto simp: delete_sessions_def removed_def Let_def)

lemma mark_cleanup_same:
  "frame (\<lambda>w w'. snapshots (wCat w') = snapshots (wCat w) \<and> snapshot_chunks (wCat w') = snapshot_chunks (wCat w))
     (mark_cleanup i n)"
  by (auto simp: frame_def mark_cleanup_def run_check db_exec_def q_UpdateOperationStatus_def
      update_operations_def)

lemma run_delete_snapshot_rows:
  assumes "run_state (delete_snapshot_rows i j n) w = (r, w')"
  shows "wObj w' = wObj w \<and> (case r of Inl e \<Rightarrow> wCat w' = wCat w | Inr _ \<Rightarrow> removed (\<lambda>s. sn_ID s = i) (wCat w) (wCat w'))"
proof -
  have obj: "wObj w' = wObj w" using frameD [OF delete_rows_frames(2) assms] .
  from assms show ?thesis unfolding delete_snapshot_rows_def
  proof (cases rule: run_withTx_cases)
    case (committed x w1)
    obtain w2 w3 where
      a: "run_state (db_exec (q_DeleteUploadSessionsBySnapshot (Some i))) (tick w) = (Inr (), w2)"
      and b: "run_state (db_exec (q_DeleteSnapshot i)) w2 = (Inr (), w3)"
      and m: "run_state (mark_cleanup j n) w3 = (Inr x, w1)"
      using committed(1) by (auto elim!: run_check_throw_Inr)
    have c2: "wCat w2 = delete_sessions (\<lambda>u. up_SnapshotID u = Some i) (wCat w)"
      using run_db_exec_Inr [OF a] by (auto simp: q_DeleteUploadSessionsBySnapshot_def)
    have c3: "delete_snapshots (\<lambda>s. sn_ID s = i) (wCat w2) = Inr (wCat w3)"
      using run_db_exec_Inr [OF b] by (auto simp: q_DeleteSnapshot_def)
    have "removed (\<lambda>s. sn_ID s = i) (wCat w) (wCat w1)"
      using frameD [OF mark_cleanup_same m] delete_sessions_removed [OF delete_snapshots_removed [OF c3 [unfolded c2]]]
      by (simp add: removed_def)
    then show ?thesis using committed obj by simp
  qed (use obj in simp_all)
qed

lemma run_delete_dataset_rows:
  assumes "run_state (delete_dataset_rows i j n) w = (r, w')"
  shows "wObj w' = wObj w \<and>
    (case r of Inl e \<Rightarrow> wCat w' = wCat w | Inr _ \<Rightarrow> removed (\<lambda>s. sn_DatasetID s = i) (wCat w) (wCat w'))"
proof -
  have obj: "wObj w' = wObj w" using frameD [OF delete_rows_frames(4) assms] .
  from assms show ?thesis unfolding delete_dataset_rows_def
  proof (cases rule: run_withTx_cases)
    case (committed x w1)
    obtain w3 where b: "run_state (db_exec (q_DeleteDataset i)) (tick w) = (Inr (), w3)"
      and m: "run_state (mark_cleanup j n) w3 = (Inr x, w1)"
      using committed(1) by (auto elim!: run_check_throw_Inr)
    have "removed (\<lambda>s. sn_DatasetID s = i) (wCat w) (wCat w3)"
      using run_db_exec_Inr [OF b]
      by (auto simp: q_DeleteDataset_def removed_def split: sum.splits
          dest!: delete_snapshots_removed delete_sessions_removed)
    then have "removed (\<lambda>s. sn_DatasetID s = i) (wCat w) (wCat w1)"
      using frameD [OF mark_cleanup_same m] by (simp add: removed_def)
    then show ?thesis using committed obj by simp
  qed (use obj in simp_all)
qed

section \<open>The effect of a deletion\<close>

text \<open>The catalog with the rows \<open>P\<close> marked as being deleted.\<close>

definition invalidated :: "(Snapshot \<Rightarrow> bool) \<Rightarrow> catalog \<Rightarrow> catalog" where
  "invalidated P c = c\<lparr>snapshots := update_where P for_deletion (snapshots c)\<rparr>"

definition victim_keys :: "(Snapshot \<Rightarrow> bool) \<Rightarrow> catalog \<Rightarrow> string set" where
  "victim_keys P c = (\<Union>s \<in> {s \<in> set (snapshots c). P s}. row_keys c s)"

definition survivors :: "(Snapshot \<Rightarrow> bool) \<Rightarrow> catalog \<Rightarrow> catalog \<Rightarrow> bool" where
  "survivors P c c' \<longleftrightarrow>
     (\<forall>s \<in> set (snapshots c'). sn_Status s = SnapCommitted \<longrightarrow> s \<in> set (snapshots c) \<and> \<not> P s) \<and>
     (\<forall>s \<in> set (snapshots c'). \<exists>t \<in> set (snapshots c).
        sn_ID t = sn_ID s \<and> sn_ManifestObjectKey t = sn_ManifestObjectKey s) \<and>
     set (snapshot_chunks c') \<subseteq> set (snapshot_chunks c)"

lemma survivors_invalidated: "survivors P c (invalidated P c)"
  by (auto simp: survivors_def invalidated_def update_where_def for_deletion_def split: if_splits)

lemma filter_invalidated:
  assumes "\<And>s. P (for_deletion s) \<longleftrightarrow> P s"
  shows "filter (\<lambda>s. \<not> P s) (snapshots (invalidated P c)) = filter (\<lambda>s. \<not> P s) (snapshots c)"
proof -
  have "filter (\<lambda>s. \<not> P s) (update_where P for_deletion rows) = filter (\<lambda>s. \<not> P s) rows" for rows
    using assms by (induction rows) (simp_all add: update_where_def)
  then show ?thesis by (simp add: invalidated_def)
qed

lemma survivors_removed:
  assumes "\<And>s. P (for_deletion s) \<longleftrightarrow> P s" and "removed P (invalidated P c) c'"
  shows "survivors P c c'" and "snapshots c' = filter (\<lambda>s. \<not> P s) (snapshots c)"
proof -
  show *: "snapshots c' = filter (\<lambda>s. \<not> P s) (snapshots c)"
    using assms(2) filter_invalidated [where P = P and c = c, OF assms(1)] by (simp add: removed_def)
  have "set (snapshot_chunks c') \<subseteq> set (snapshot_chunks c)"
    using assms(2) by (simp add: removed_def invalidated_def)
  then show "survivors P c c'" by (auto simp: survivors_def *)
qed

context object_store
begin

definition delete_post :: "(Snapshot \<Rightarrow> bool) \<Rightarrow> 's world \<Rightarrow> int \<times> error option \<Rightarrow> 's world \<Rightarrow> bool" where
  "delete_post P w r w' \<longleftrightarrow>
     inv (wObj w') \<and> (\<forall>j. j \<notin> victim_keys P (wCat w) \<longrightarrow> view (wObj w') j = view (wObj w) j) \<and>
     (wCat w' = wCat w \<and> view (wObj w') = view (wObj w) \<or> survivors P (wCat w) (wCat w')) \<and>
     (snd r = None \<longrightarrow>
        snapshots (wCat w') = filter (\<lambda>s. \<not> P s) (snapshots (wCat w)) \<and>
        (\<forall>k \<in> victim_keys P (wCat w). k \<noteq> [] \<longrightarrow> view (wObj w') k = None))"

lemma delete_post_refused: "inv (wObj w') \<Longrightarrow> wCat w' = wCat w \<Longrightarrow> wObj w' = wObj w \<Longrightarrow> delete_post P w (n, Some e) w'"
  by (simp add: delete_post_def)

lemma wp_delete_rest:
  assumes P: "\<And>s. P (for_deletion s) \<longleftrightarrow> P s" and keys: "set keys = victim_keys P (wCat w0)"
    and inval: "\<And>now c. inval now c = Inr (invalidated P c)"
    and rows: "\<And>n w r w'. run_state (rows n) w = (r, w') \<Longrightarrow>
      wObj w' = wObj w \<and> (case r of Inl e \<Rightarrow> wCat w' = wCat w | Inr _ \<Rightarrow> removed P (wCat w) (wCat w'))"
    and same: "wCat w = wCat w0" "wObj w = wObj w0" and I: "inv (wObj w0)"
  shows "wp (check (db_exec inval) (\<lambda>e. ret (0, Some (f e))) (\<lambda>_.
      State_Monad.bind (deleteObjects S keys) (\<lambda>(n, err). case err of
        Some e \<Rightarrow> ret (n, Some e)
      | None \<Rightarrow> check (rows n) (\<lambda>e. ret (n, Some e)) (\<lambda>_. ret (n, None))))) (delete_post P w0) w"
proof -
  define w1 where "w1 = (tick w)\<lparr>wCat := invalidated P (wCat w)\<rparr>"
  obtain n err w2 where del: "run_state (deleteObjects S keys) w1 = ((n, err), w2)" by (metis prod.exhaust)
  have "inv (wObj w1)" using I same by (simp add: w1_def)
  from wpD [OF wp_deleteObjects [OF this] del]
  have d: "wCat w2 = invalidated P (wCat w0)" "inv (wObj w2)"
    "\<And>j. j \<notin> victim_keys P (wCat w0) \<Longrightarrow> view (wObj w2) j = view (wObj w0) j"
    "err = None \<Longrightarrow> \<forall>k \<in> victim_keys P (wCat w0). k \<noteq> [] \<longrightarrow> view (wObj w2) k = None"
    using keys same by (simp_all add: deleted_post_def w1_def)
  have stopped: "delete_post P w0 (n, Some e) w2" for e
    using d survivors_invalidated by (simp add: delete_post_def)
  have final: "wp (check (rows n) (\<lambda>e. ret (n, Some e)) (\<lambda>_. ret (n, None))) (delete_post P w0) w2" if "err = None"
  proof -
    obtain r w3 where r: "run_state (rows n) w2 = (r, w3)" by (rule prod.exhaust)
    have w3: "wObj w3 = wObj w2" "case r of Inl e \<Rightarrow> wCat w3 = wCat w2 | Inr _ \<Rightarrow> removed P (wCat w2) (wCat w3)"
      using rows [OF r] by auto
    show ?thesis
    proof (cases r)
      case (Inl e)
      then show ?thesis using r w3 stopped by (simp add: wp_def delete_post_def)
    next
      case (Inr u)
      then have "removed P (invalidated P (wCat w0)) (wCat w3)" using w3 d(1) by simp
      from survivors_removed [where P = P, OF P this] show ?thesis
        using r Inr w3(1) d that by (simp add: wp_def run_check delete_post_def)
    qed
  qed
  have "wp (State_Monad.bind (deleteObjects S keys) (\<lambda>(n, err). case err of
        Some e \<Rightarrow> ret (n, Some e)
      | None \<Rightarrow> check (rows n) (\<lambda>e. ret (n, Some e)) (\<lambda>_. ret (n, None)))) (delete_post P w0) w1"
    using del stopped final by (cases err) (simp_all add: wp_def)
  moreover have "delete_post P w0 (0, Some (f e)) (tick w)" for e
    using same I by (intro delete_post_refused) simp_all
  ultimately show ?thesis using inval by (simp add: wp_check wp_db_exec wp_ret w1_def)
qed

end

lemma separate_survivors:
  assumes "separate c" and "survivors P c c'"
  shows "separate c'"
  unfolding separate_def
proof (intro ballI impI)
  fix s t
  assume st: "s \<in> set (snapshots c')" "t \<in> set (snapshots c')" "sn_ID s \<noteq> sn_ID t"
  have chunks: "set (snapshot_chunks c') \<subseteq> set (snapshot_chunks c)" using assms(2) by (simp add: survivors_def)
  obtain s0 t0 where s0: "s0 \<in> set (snapshots c)" "sn_ID s0 = sn_ID s" "sn_ManifestObjectKey s0 = sn_ManifestObjectKey s"
    and t0: "t0 \<in> set (snapshots c)" "sn_ID t0 = sn_ID t" "sn_ManifestObjectKey t0 = sn_ManifestObjectKey t"
    using assms(2) st unfolding survivors_def by metis
  have "row_keys c' s \<subseteq> row_keys c s0" "row_keys c' t \<subseteq> row_keys c t0"
    using row_keys_mono [OF chunks, of s] row_keys_mono [OF chunks, of t] s0 t0 by (simp_all add: row_keys_def)
  moreover have "row_keys c s0 \<inter> row_keys c t0 = {}" using assms(1) s0 t0 st(3) by (simp add: separate_def)
  ultimately show "row_keys c' s \<inter> row_keys c' t = {}" by blast
qed

lemma backed_survivors:
  assumes "backed c content" and "separate c" and "catalog_ok c" and "survivors P c c'"
    and "\<And>j. j \<notin> victim_keys P c \<Longrightarrow> content' j = content j"
  shows "backed c' content'"
  using assms(1-3)
proof (rule backed_delete [where P = P])
  show "set (snapshot_chunks c') \<subseteq> set (snapshot_chunks c)" using assms(4) by (simp add: survivors_def)
  show "s \<in> set (snapshots c) \<and> \<not> P s" if "s \<in> set (snapshots c')" "sn_Status s = SnapCommitted" for s
    using assms(4) that by (simp add: survivors_def)
  show "content' j = content j" if "j \<notin> (\<Union>s \<in> {s \<in> set (snapshots c). P s}. row_keys c s)" for j
    using assms(5) that by (simp add: victim_keys_def)
qed

lemma snapshot_victims:
  assumes "catalog_ok c" and "q_ListSnapshotObjectKeys i now c = Inr ks"
  shows "set ks = victim_keys (\<lambda>s. sn_ID s = i) c"
proof (cases "\<exists>s \<in> set (snapshots c). sn_ID s = i")
  case True
  then obtain s where s: "s \<in> set (snapshots c)" "sn_ID s = i" by blast
  have "{t \<in> set (snapshots c). sn_ID t = i} = {s}"
    using s assms(1) by (auto simp: catalog_ok_def unique_ok_def distinct_map inj_on_def)
  then show ?thesis using snapshot_object_keys [OF assms(1) s(1)] assms(2) s(2) by (simp add: victim_keys_def)
next
  case False
  have "ck_SnapshotID ` set (snapshot_chunks c) \<subseteq> sn_ID ` set (snapshots c)"
    using assms(1) by (simp add: catalog_ok_def references_ok_def)
  then have "ck_SnapshotID k \<noteq> i" if "k \<in> set (snapshot_chunks c)" for k
    using False that by (metis image_iff subsetD)
  then have "filter (\<lambda>k. ck_SnapshotID k = i) (snapshot_chunks c) = []" by (simp add: filter_empty_conv)
  moreover have "filter (\<lambda>s. sn_ID s = i) (snapshots c) = []" using False by (simp add: filter_empty_conv)
  ultimately show ?thesis using False assms(2)
    by (auto simp: q_ListSnapshotObjectKeys_def victim_keys_def manifest_keys_def)
qed

context object_store
begin

lemma wp_DeleteSnapshotWithOperation:
  assumes "inv (wObj w)" and "cat_ok w"
  shows "wp (DeleteSnapshotWithOperation S d i opid) (delete_post (\<lambda>s. sn_ID s = i) w) w"
proof -
  have r0: "delete_post P w (n, Some e) w" "delete_post P w (n, Some e) (tick w)"
    "delete_post P w (n, Some e) (tick (tick w))" for n e P
    using assms(1) by (simp_all add: delete_post_refused)
  obtain ks where ks: "q_ListSnapshotObjectKeys i (db_now (tick w)) (wCat w) = Inr ks"
    by (simp add: q_ListSnapshotObjectKeys_def)
  note rest = wp_delete_rest [where P = "\<lambda>s. sn_ID s = i" and w = "tick (tick w)" and w0 = w,
      OF _ snapshot_victims [OF assms(2) ks] _ run_delete_snapshot_rows _ _ assms(1)]
  show ?thesis
    unfolding DeleteSnapshotWithOperation_def
    using r0 ks rest
    by (auto simp: wp_rules for_deletion_def q_InvalidateSnapshotForDeletion_def update_snapshots_def
        invalidated_def split: sum.splits)
qed

lemma wp_DeleteDatasetWithOperation:
  assumes "inv (wObj w)"
  shows "wp (DeleteDatasetWithOperation S d i opid) (delete_post (\<lambda>s. sn_DatasetID s = i) w) w"
proof -
  have r0: "delete_post P w (n, Some e) w" "delete_post P w (n, Some e) (tick w)" for n e P
    using assms(1) by (simp_all add: delete_post_refused)
  obtain ks where ks: "q_ListDatasetObjectKeys i (db_now w) (wCat w) = Inr ks"
    by (simp add: q_ListDatasetObjectKeys_def)
  have keys: "set ks = victim_keys (\<lambda>s. sn_DatasetID s = i) (wCat w)"
    using dataset_object_keys [OF ks] by (simp add: victim_keys_def)
  note rest = wp_delete_rest [where P = "\<lambda>s. sn_DatasetID s = i" and w = "tick w" and w0 = w,
      OF _ keys _ run_delete_dataset_rows _ _ assms(1)]
  show ?thesis
    unfolding DeleteDatasetWithOperation_def
    using r0 ks rest
    by (auto simp: wp_rules for_deletion_def q_InvalidateDatasetSnapshotsForDeletion_def update_snapshots_def
        invalidated_def split: sum.splits)
qed

text \<open>The invariant a deletion keeps on every path.\<close>

definition safe_world :: "'s world \<Rightarrow> bool" where
  "safe_world w \<longleftrightarrow> cat_ok w \<and> inv (wObj w) \<and> separate (wCat w) \<and> backed (wCat w) (view (wObj w))"

lemma delete_post_safe:
  assumes "safe_world w" and "delete_post P w r w'" and "cat_ok w'"
  shows "safe_world w'"
  using assms backed_survivors [of "wCat w" "view (wObj w)" P "wCat w'" "view (wObj w')"]
    separate_survivors [of "wCat w" P "wCat w'"]
  by (auto simp: safe_world_def delete_post_def)

lemma delete_safe [frame_rules]:
  "keeps safe_world (DeleteSnapshotWithOperation S d i opid)"
  "keeps safe_world (DeleteDatasetWithOperation S d i opid)"
proof -
  have "safe_world w'" if "safe_world w" "run_state (DeleteSnapshotWithOperation S d i opid) w = (r, w')" for w r w'
    using that delete_post_safe [OF that(1) wpD [OF wp_DeleteSnapshotWithOperation that(2)]]
      frameD [OF Deleter_keeps(1) that(2)] by (simp add: safe_world_def)
  then show "keeps safe_world (DeleteSnapshotWithOperation S d i opid)"
    by (intro frameI impI)
  have "safe_world w'" if "safe_world w" "run_state (DeleteDatasetWithOperation S d i opid) w = (r, w')" for w r w'
    using that delete_post_safe [OF that(1) wpD [OF wp_DeleteDatasetWithOperation that(2)]]
      frameD [OF Deleter_keeps(2) that(2)] by (simp add: safe_world_def)
  then show "keeps safe_world (DeleteDatasetWithOperation S d i opid)"
    by (intro frameI impI)
qed

lemma safe_db_exec:
  assumes "stmt_ok f" and "\<And>now c c'. f now c = Inr c' \<Longrightarrow>
    snapshots c' = snapshots c \<and> snapshot_chunks c' = snapshot_chunks c"
  shows "keeps safe_world (db_exec f)"
proof (intro frameI impI)
  fix w r w'
  assume w: "safe_world w" and run: "run_state (db_exec f) w = (r, w')"
  show "safe_world w'"
  proof (cases r)
    case (Inl e)
    then have "wCat w' = wCat w" "wObj w' = wObj w" using run_db_exec_Inl run by blast+
    then show ?thesis using w by (simp add: safe_world_def)
  next
    case (Inr u)
    then obtain c where c: "f (db_now w) (wCat w) = Inr c" "w' = (tick w)\<lparr>wCat := c\<rparr>"
      using run run_db_exec_Inr [of f w _ w'] by auto
    have "catalog_ok c" using assms(1) c(1) w unfolding stmt_ok_def safe_world_def by blast
    then show ?thesis using w assms(2) [OF c(1)] c(2)
      by (simp add: safe_world_def separate_def backed_def row_keys_def)
  qed
qed

lemma operation_safe [frame_rules]:
  "keeps safe_world (db_exec (q_MarkOperationRunning a b))"
  "keeps safe_world (db_exec (q_UpdateOperationStatus s a r b))"
  "keeps safe_world (db_query q)"
  by (auto intro!: safe_db_exec statement_rules
      simp: q_MarkOperationRunning_def q_UpdateOperationStatus_def update_operations_def)
    (simp add: frame_def db_query_def safe_world_def)

lemma Worker_safe:
  "keeps safe_world (runOperation S wk p)" "keeps safe_world (worker_loop S wk ps res)"
  "keeps safe_world (Worker_RunOnce S wk)"
proof -
  show op: "keeps safe_world (runOperation S wk p)" for p
    unfolding runOperation_def run_cleanup_def by (intro frame_rules)
  show loop: "keeps safe_world (worker_loop S wk ps res)" for ps res
    by (induction ps arbitrary: res) (auto intro!: frame_rules op)
  show "keeps safe_world (Worker_RunOnce S wk)"
    unfolding Worker_RunOnce_def by (intro frame_rules loop)
qed

end

section \<open>Properties\<close>

text \<open>
  C24. No cleanup can take an object from under a committed snapshot: when every committed snapshot
  has its objects and no two snapshots share a key, the same holds after a run of the cleanup
  worker, whatever the database, the store and the queued operations do, since rows are invalidated
  before their objects are deleted.
\<close>

theorem Worker_RunOnce_keeps_backed:
  assumes "object_store S sha view I" and "I (wObj w)" and "cat_ok w" and "separate (wCat w)"
    and "backed (wCat w) (view (wObj w))" and "run_state (Worker_RunOnce S wk) w = (r, w')"
  shows "cat_ok w' \<and> separate (wCat w') \<and> backed (wCat w') (view (wObj w'))"
proof -
  have "object_store.safe_world view I w"
    using assms(2-5) by (simp add: object_store.safe_world_def [OF assms(1)])
  then have "object_store.safe_world view I w'"
    using frameD [OF object_store.Worker_safe(3) [OF assms(1)] assms(6)] by simp
  then show ?thesis by (simp add: object_store.safe_world_def [OF assms(1)])
qed

text \<open>
  C25. A snapshot deletion that succeeds has removed exactly this snapshot: its row is gone and every
  other snapshot row is as it was, its chunk and manifest objects are gone and every other object is
  as it was.
\<close>

theorem DeleteSnapshot_result:
  assumes "object_store S sha view I" and "I (wObj w)" and "cat_ok w"
    and "run_state (DeleteSnapshotWithOperation S d i opid) w = ((n, None), w')"
  shows "snapshots (wCat w') = filter (\<lambda>s. sn_ID s \<noteq> i) (snapshots (wCat w)) \<and>
    (\<forall>s \<in> set (snapshots (wCat w)). sn_ID s = i \<longrightarrow> (\<forall>k \<in> row_keys (wCat w) s. k \<noteq> [] \<longrightarrow> view (wObj w') k = None)) \<and>
    (\<forall>j. (\<forall>s \<in> set (snapshots (wCat w)). sn_ID s = i \<longrightarrow> j \<notin> row_keys (wCat w) s) \<longrightarrow>
       view (wObj w') j = view (wObj w) j)"
proof -
  have "object_store.delete_post view I (\<lambda>s. sn_ID s = i) w (n, None) w'"
    using wpD [OF object_store.wp_DeleteSnapshotWithOperation [OF assms(1-3)] assms(4)] .
  then show ?thesis
    by (simp add: object_store.delete_post_def [OF assms(1)] victim_keys_def)
qed

text \<open>
  A snapshot that a committed snapshot restores on top of cannot be deleted: the call returns an
  error and neither the catalog nor the store has changed.
\<close>

theorem DeleteSnapshot_refuses_base:
  assumes "cat_ok w" and "s \<in> set (snapshots (wCat w))"
    and "committed_descendant (snapshots (wCat w)) (sn_ID s) t"
    and "run_state (DeleteSnapshotWithOperation S d (sn_ID s) opid) w = ((n, err), w')"
  shows "err \<noteq> None \<and> wCat w' = wCat w \<and> wObj w' = wObj w"
proof -
  obtain ds where q: "q_CountCommittedDescendants (Some (sn_ID s)) (db_now w) (wCat w) = Inr (int (length ds))"
    and "set ds = {t. committed_descendant (snapshots (wCat w)) (sn_ID s) t}"
    using count_descendants [OF assms(1,2)] by blast
  then have "0 < int (length ds)" using assms(3) by (cases ds) auto
  then have "wp (DeleteSnapshotWithOperation S d (sn_ID s) opid)
      (\<lambda>r w'. snd r \<noteq> None \<and> wCat w' = wCat w \<and> wObj w' = wObj w) w"
    using q by (simp add: DeleteSnapshotWithOperation_def wp_rules)
  from wpD [OF this assms(4)] show ?thesis by simp
qed

text \<open>A catalog whose second snapshot can be deleted and whose first cannot.\<close>

definition chain_catalog :: catalog where
  "chain_catalog = sample_catalog\<lparr>snapshots :=
     [sample_snapshot ''a'' ''s1'' None SnapCommitted, sample_snapshot ''b'' ''s2'' (Some ''a'') SnapCommitted]\<rparr>"

definition chain_world :: "memory world" where
  "chain_world = sample_world\<lparr>wCat := chain_catalog, wObj := Map.empty(''ms1'' \<mapsto> [1], ''ms2'' \<mapsto> [2])\<rparr>"

lemma chain_world_ok:
  "cat_ok chain_world" "separate (wCat chain_world)" "backed (wCat chain_world) (wObj chain_world)"
  by (simp_all add: chain_world_def chain_catalog_def sample_catalog_def empty_catalog_def sample_snapshot_def
      invariant_defs refs_def lineage_of_def separate_def backed_def row_keys_def)

theorem Worker_RunOnce_keeps_backed_witness:
  "\<exists>r w'. run_state (Worker_RunOnce (MemoryStore (\<lambda>d. d)) \<lparr>wk_DB = True, wk_Store = True, wk_Limit = 0\<rparr>) chain_world = (r, w') \<and>
    backed (wCat w') (wObj w')"
proof -
  obtain r w' where run: "run_state (Worker_RunOnce (MemoryStore (\<lambda>d. d))
      \<lparr>wk_DB = True, wk_Store = True, wk_Limit = 0\<rparr>) chain_world = (r, w')" by (rule prod.exhaust)
  then show ?thesis
    using Worker_RunOnce_keeps_backed [OF memory.object_store_axioms TrueI chain_world_ok run] by blast
qed

lemma chain_delete:
  "fst (run_state (DeleteSnapshotWithOperation (MemoryStore (\<lambda>d. d)) \<lparr>d_DB = True, d_Store = True\<rparr> ''b'' [])
     chain_world) = (1, None)"
  by code_simp

theorem DeleteSnapshot_result_witness:
  "\<exists>w'. run_state (DeleteSnapshotWithOperation (MemoryStore (\<lambda>d. d)) \<lparr>d_DB = True, d_Store = True\<rparr> ''b'' [])
      chain_world = ((1, None), w') \<and>
    snapshots (wCat w') = filter (\<lambda>s. sn_ID s \<noteq> ''b'') (snapshots (wCat chain_world))"
  using DeleteSnapshot_result [OF memory.object_store_axioms TrueI chain_world_ok(1) run_fst [OF chain_delete]]
    run_fst [OF chain_delete] by blast

theorem DeleteSnapshot_refuses_base_witness:
  "\<exists>n err w'. run_state (DeleteSnapshotWithOperation (MemoryStore (\<lambda>d. d)) \<lparr>d_DB = True, d_Store = True\<rparr> ''a'' [])
      chain_world = ((n, err), w') \<and> err \<noteq> None \<and> wCat w' = wCat chain_world"
proof -
  let ?s = "sample_snapshot ''a'' ''s1'' None SnapCommitted"
  let ?t = "sample_snapshot ''b'' ''s2'' (Some ''a'') SnapCommitted"
  have s: "?s \<in> set (snapshots (wCat chain_world))" by (simp add: chain_world_def chain_catalog_def)
  have "committed_descendant (snapshots (wCat chain_world)) ''a'' ?t"
    by (rule committed_descendant.child) (simp_all add: chain_world_def chain_catalog_def sample_snapshot_def)
  then have t: "committed_descendant (snapshots (wCat chain_world)) (sn_ID ?s) ?t"
    by (simp add: sample_snapshot_def)
  obtain n err w' where run: "run_state (DeleteSnapshotWithOperation (MemoryStore (\<lambda>d. d))
      \<lparr>d_DB = True, d_Store = True\<rparr> (sn_ID ?s) []) chain_world = ((n, err), w')" by (metis prod.exhaust)
  from DeleteSnapshot_refuses_base [OF chain_world_ok(1) s t run] run show ?thesis
    by (simp add: sample_snapshot_def)
qed

end
