(* ===== verification/Service.thy ===== *)
theory Service
  imports Commands Web_Safety Ssh_Service Cleanup Deletion
begin

text \<open>
  The server (\<open>serve\<close> and the schedulers of \<open>src/cmd/zfs-s3nd/main.go\<close>, \<open>StartWorker\<close> of
  \<open>src/internal/deletion/worker.go\<close>): what it does before it accepts connections, how its parts are wired, and the running system
  as a step relation, in which the requests, the sessions, the goroutines and the ticks of the schedulers come in any order
  and the process may be restarted at any time.

  A step is a whole request, session, job or round of a scheduler; the interleaving inside of them is not modelled. The
  host key and the listeners are not modelled.
\<close>

section \<open>Start\<close>

definition config_overrides :: "Config \<Rightarrow> Overrides" where
  "config_overrides cfg =
     \<lparr>ov_UploadThroughputLimitMbps = UploadThroughputLimitMbpsEnvOverride cfg,
      ov_MaxIncrementalChainDepth = MaxIncrementalChainDepthEnvOverride cfg\<rparr>"

text \<open>A point in time before now, in milliseconds as the columns are; durations are nanoseconds.\<close>

definition time_before :: "int \<Rightarrow> ('s world, int) state" where
  "time_before d = State_Monad.bind time_Now (\<lambda>now. ret ((now - d) div 1000000))"

definition startup_reconcile :: "Config \<Rightarrow> ('s world, unit) prog" where
  "startup_reconcile cfg =
     (if ReconcileStaleAfter cfg > 0
      then State_Monad.bind (time_before (ReconcileStaleAfter cfg)) (\<lambda>cutoff.
        check (ReconcileStaleUploads cutoff 100) (\<lambda>e. throw (Wrapf (msg ''reconcile stale uploads: %w'') [] e)) (\<lambda>_.
        check (ReconcileStaleJobs cutoff) (\<lambda>e. throw (Wrapf (msg ''reconcile stale validation jobs: %w'') [] e)) (\<lambda>_. ok ())))
      else ok ())"

definition startup_cleanup :: "'s Store \<Rightarrow> Config \<Rightarrow> ('s world, unit) prog" where
  "startup_cleanup S cfg =
     (if AbandonedUploadCleanupAfter cfg > 0
      then State_Monad.bind (time_before (AbandonedUploadCleanupAfter cfg)) (\<lambda>cutoff.
        State_Monad.bind (Cleanup S \<lparr>c_Repo = True, c_Store = True\<rparr> cutoff 100) (\<lambda>(res, err).
        case err of Some e \<Rightarrow> throw (Wrapf (msg ''cleanup abandoned uploads: %w'') [] e) | None \<Rightarrow> ok ()))
      else ok ())"

definition serve_start :: "'s deps \<Rightarrow> Config \<Rightarrow> ('s world, Manager) prog" where
  "serve_start D cfg =
     check (settings_New (dp_unrep D) True (config_overrides cfg))
       (\<lambda>e. throw (Wrapf (msg ''load application settings: %w'') [] e)) (\<lambda>settingsManager.
     check (startup_reconcile cfg) throw (\<lambda>_.
     check (startup_cleanup (dp_Store D) cfg) throw (\<lambda>_. ok settingsManager)))"

section \<open>Wiring\<close>

definition DefaultChunkSize :: int where
  "DefaultChunkSize = 64 * 1024 * 1024"

text \<open>The functions that read the settings are called when an upload starts; here they stand for their value then.\<close>

definition ingest_service :: "Config \<Rightarrow> Manager \<Rightarrow> Service" where
  "ingest_service cfg m =
     \<lparr>svc_Repo = True, svc_Store = True, svc_Keys = \<lparr>RootPrefix = StorageRootPrefix cfg\<rparr>, svc_ChunkSize = DefaultChunkSize,
      svc_MaxIncrementalChainDepth = cf_MaxIncrementalChainDepth cfg,
      svc_MaxIncrementalChainDepthFunc = Some (MaxIncrementalChainDepthValue (mg_current m)),
      svc_PutRetryMaxElapsed = 0, svc_PutRetryInitialBackoff = 0, svc_BeforeCatalogCommit = None\<rparr>"

definition ssh_server :: "Config \<Rightarrow> Manager \<Rightarrow> 's Server" where
  "ssh_server cfg m =
     \<lparr>sv_Ingest = ingest_service cfg m, sv_UploadRateBytesPerSecond = cf_UploadThroughputLimitBytesPerSecond cfg,
      sv_UploadRateFunc = Some (UploadThroughputLimitBytesPerSecond (mg_current m)), sv_Post = Some (\<lambda>_. ret ()),
      sv_draining = False\<rparr>"

definition web_server :: "Config \<Rightarrow> bytes \<Rightarrow> WebServer" where
  "web_server cfg sessionKey =
     (SetRestoreSSHCommandPrefix (web_New (WebAdminPassword cfg) sessionKey) (cf_RestoreSSHCommandPrefix cfg))
       \<lparr>ws_store := True, ws_validationRunner := True\<rparr>"

section \<open>Schedulers\<close>

datatype scheduler = UploadReconciliation | CatalogBackupScheduler | CleanupWorker | ValidationScheduler

definition schedulers :: "Config \<Rightarrow> scheduler list" where
  "schedulers cfg =
     (if ReconcileStaleAfter cfg > 0 then [UploadReconciliation] else []) @
     (if CatalogBackupInterval cfg > 0 then [CatalogBackupScheduler] else []) @
     (if CleanupWorkerInterval cfg > 0 then [CleanupWorker] else []) @
     (if ValidationInterval cfg > 0 then [ValidationScheduler] else [])"

text \<open>One tick; errors are logged and the scheduler goes on.\<close>

definition ignore :: "('s, 'a) prog \<Rightarrow> ('s, unit) state" where
  "ignore m = State_Monad.bind m (\<lambda>_. ret ())"

definition upload_reconciliation_tick :: "Config \<Rightarrow> ('s world, unit) state" where
  "upload_reconciliation_tick cfg =
     State_Monad.bind (time_before (ReconcileStaleAfter cfg)) (\<lambda>cutoff. ignore (ReconcileStaleUploads cutoff 100))"

definition catalog_backup_tick ::
  "'s deps \<Rightarrow> (backup_Result \<Rightarrow> error + bytes) \<Rightarrow> backup_env \<Rightarrow> Config \<Rightarrow> ('s world, unit) state" where
  "catalog_backup_tick D encode E cfg = ignore (backup_Run (dp_Store D) (dp_sha D) encode E (the_backup cfg))"

definition worker_tick :: "'s deps \<Rightarrow> ('s world, unit) state" where
  "worker_tick D = ignore (Worker_RunOnce (dp_Store D) \<lparr>wk_DB = True, wk_Store = True, wk_Limit = 10\<rparr>)"

definition validation_tick :: "'s deps \<Rightarrow> Config \<Rightarrow> ('s world, unit) state" where
  "validation_tick D cfg =
     ignore (RunDue (dp_Store D) (dp_sha D) (dp_json D) (dp_checker D) (dp_runner D) (ValidationLimit cfg))"

fun scheduler_tick ::
  "'s deps \<Rightarrow> (backup_Result \<Rightarrow> error + bytes) \<Rightarrow> backup_env \<Rightarrow> Config \<Rightarrow> scheduler \<Rightarrow> ('s world, unit) state" where
  "scheduler_tick D encode E cfg UploadReconciliation = upload_reconciliation_tick cfg"
| "scheduler_tick D encode E cfg CatalogBackupScheduler = catalog_backup_tick D encode E cfg"
| "scheduler_tick D encode E cfg CleanupWorker = worker_tick D"
| "scheduler_tick D encode E cfg ValidationScheduler = validation_tick D cfg"

section \<open>Shutdown\<close>

text \<open>
  \<open>Shutdown\<close> of the SSH server: no new session starts, the listener is closed, and the active uploads are polled until
  there are none or the context ends. \<open>during k\<close> is what the rest of the program does while the timer runs; the number is how often
  the timer fires before the context ends. \<open>isClosed\<close> says whether an error is \<open>net.ErrClosed\<close>.
\<close>

fun shutdown_polls :: "(nat \<Rightarrow> ('s world, unit) state) \<Rightarrow> nat \<Rightarrow> ('s world, unit) prog" where
  "shutdown_polls during n =
     check (db_query q_ListActiveUploads)
       (\<lambda>e. throw (Wrapf (msg ''list active uploads during ssh shutdown: %w'') [] e)) (\<lambda>uploads.
     if uploads = [] then ok ()
     else case n of
       0 \<Rightarrow> throw ErrContext
     | Suc k \<Rightarrow> State_Monad.bind (during k) (\<lambda>_. shutdown_polls during k))"

declare shutdown_polls.simps [simp del]

definition ssh_Shutdown ::
  "(error \<Rightarrow> bool) \<Rightarrow> error option \<Rightarrow> (nat \<Rightarrow> ('s world, unit) state) \<Rightarrow> nat \<Rightarrow> ('s world, unit) prog" where
  "ssh_Shutdown isClosed closeErr during n =
     (case closeErr of
        None \<Rightarrow> shutdown_polls during n
      | Some e \<Rightarrow> if isClosed e then shutdown_polls during n else throw e)"

text \<open>The end of \<open>serve\<close> after a signal; the error of the HTTP server is logged only.\<close>

definition serve_stop ::
  "(error \<Rightarrow> bool) \<Rightarrow> error option \<Rightarrow> (nat \<Rightarrow> ('s world, unit) state) \<Rightarrow> nat \<Rightarrow> ('s world, unit) prog" where
  "serve_stop isClosed closeErr during n =
     check (ssh_Shutdown isClosed closeErr during n) (\<lambda>e. throw (Wrapf (msg ''ssh shutdown: %w'') [] e)) ok"

section \<open>The running system\<close>

record 's system =
  sy_service :: "'s service"
  sy_key :: bytes
  sy_up :: bool

abbreviation sys_world :: "'s system \<Rightarrow> 's world" where
  "sys_world s \<equiv> svc_world (sy_service s)"

definition new_service :: "'s world \<Rightarrow> Manager option \<Rightarrow> 's service" where
  "new_service w m = \<lparr>sv_web = \<lparr>wb_world = w, wb_loginAttempts = Map.empty\<rparr>, sv_manager = m, sv_jobs = []\<rparr>"

text \<open>
  The hook after an upload starts the validation of the snapshot that was committed: the jobs are those of the
  snapshots a session has committed.
\<close>

definition post_jobs :: "catalog \<Rightarrow> catalog \<Rightarrow> job list" where
  "post_jobs c c' = map (\<lambda>s. SnapshotJob (sn_ID s))
     (filter (\<lambda>s. sn_Status s = SnapCommitted \<and> sn_ID s \<notin> sn_ID ` set (filter (\<lambda>t. sn_Status t = SnapCommitted) (snapshots c))) (snapshots c'))"

definition session_end :: "'s service \<Rightarrow> 's session \<Rightarrow> 's service" where
  "session_end s t = s\<lparr>sv_web := (sv_web s)\<lparr>wb_world := ss_world t\<rparr>,
     sv_jobs := sv_jobs s @ post_jobs (wCat (svc_world s)) (wCat (ss_world t))\<rparr>"

inductive system_step ::
  "'s deps \<Rightarrow> (backup_Result \<Rightarrow> error + bytes) \<Rightarrow> backup_env \<Rightarrow> Config \<Rightarrow> 's system \<Rightarrow> 's system \<Rightarrow> bool"
  for D encode E cfg where
  request: "sy_up s \<Longrightarrow> run_state (serveHTTP D (web_server cfg (sy_key s)) r) (sy_service s) = (a, v) \<Longrightarrow>
    system_step D encode E cfg s (s\<lparr>sy_service := v\<rparr>)"
| job: "sy_up s \<Longrightarrow> sv_jobs (sy_service s) = js @ j # ks \<Longrightarrow>
    run_state (in_service (run_job (dp_Store D) (dp_sha D) (dp_json D) (dp_checker D) (dp_runner D) j))
      ((sy_service s)\<lparr>sv_jobs := js @ ks\<rparr>) = (u, v) \<Longrightarrow>
    system_step D encode E cfg s (s\<lparr>sy_service := v\<rparr>)"
| session: "sy_up s \<Longrightarrow> sv_manager (sy_service s) = Some m \<Longrightarrow>
    run_state (handleSession (dp_Store D) (dp_sha D) (dp_json D) (dp_unrep D) (ssh_server cfg m) out enc pace sourceName data readErr
      no_options reqs) (open_channel (sys_world s)) = (u, t) \<Longrightarrow>
    system_step D encode E cfg s (s\<lparr>sy_service := session_end (sy_service s) t\<rparr>)"
| scheduled: "sy_up s \<Longrightarrow> t \<in> set (schedulers cfg) \<Longrightarrow>
    run_state (in_service (scheduler_tick D encode E cfg t)) (sy_service s) = (u, v) \<Longrightarrow>
    system_step D encode E cfg s (s\<lparr>sy_service := v\<rparr>)"
| start: "run_state (serve_start D cfg) (sys_world s) = (Inr m, w) \<Longrightarrow>
    system_step D encode E cfg s \<lparr>sy_service = new_service w (Some m), sy_key = key, sy_up = True\<rparr>"
| failed_start: "run_state (serve_start D cfg) (sys_world s) = (Inl e, w) \<Longrightarrow>
    system_step D encode E cfg s \<lparr>sy_service = new_service w None, sy_key = key, sy_up = False\<rparr>"
| stop: "system_step D encode E cfg s \<lparr>sy_service = new_service (sys_world s) None, sy_key = [], sy_up = False\<rparr>"

text \<open>From a fresh database.\<close>

inductive reachable ::
  "'s deps \<Rightarrow> (backup_Result \<Rightarrow> error + bytes) \<Rightarrow> backup_env \<Rightarrow> Config \<Rightarrow> 's system \<Rightarrow> bool"
  for D encode E cfg where
  fresh: "wCat w = empty_catalog \<Longrightarrow> reachable D encode E cfg \<lparr>sy_service = new_service w None, sy_key = [], sy_up = False\<rparr>"
| after: "reachable D encode E cfg s \<Longrightarrow> system_step D encode E cfg s s' \<Longrightarrow> reachable D encode E cfg s'"

inductive_cases system_stepE: "system_step D encode E cfg s s'"

section \<open>The constraints of the catalog\<close>

abbreviation sess_ok :: "'s session \<Rightarrow> bool" where
  "sess_ok s \<equiv> cat_ok (ss_world s)"

lemma keeps_on_world [frame_rules]: "keeps cat_ok m \<Longrightarrow> keeps sess_ok (on_world m)"
  by (auto simp: frame_def on_world_def split: prod.splits)

lemma keeps_channel [frame_rules]:
  "keeps sess_ok (stderr_Write t)" "keeps sess_ok (stdout_Write out p)" "keeps sess_ok (Reply b)" "keeps sess_ok (sendExitStatus n)"
  "keeps sess_ok (stream_to_channel S sha J out key)"
  by (simp_all add: frame_def stderr_Write_def stdout_Write_def Reply_def sendExitStatus_def stream_to_channel_def split: prod.splits)

lemma keeps_refuse [frame_rules]: "keeps sess_ok (refuse t)" "keeps sess_ok (refuse_error e)"
  unfolding refuse_def refuse_error_def by (intro frame_rules)+

lemma keeps_post [frame_rules]: "keeps sess_ok (post_upload (ssh_server cfg m) i)"
  unfolding post_upload_def ssh_server_def by (simp add: frame_def on_world_def)

lemma keeps_find_base [frame_rules]: "keeps cat_ok (find_base a b)"
  unfolding find_base_def by (intro frame_rules)

lemma keeps_state_snapshots [frame_rules]: "keeps cat_ok (state_snapshots rows)"
  by (induction rows) (auto intro!: frame_rules simp: Let_def)

lemma keeps_session_commands [frame_rules]:
  "keeps sess_ok (runAutoReceive S sha J (ssh_server cfg m) out pace sourceName options data readErr)"
  "keeps sess_ok (runRestoreStream S sha J (ssh_server cfg m) out args)"
  "keeps sess_ok (runState (ssh_server cfg m) out enc command src)"
  unfolding runAutoReceive_def receive_upload_def runRestoreStream_def runState_def Let_def by (intro frame_rules)+

lemma keeps_handleSession:
  "keeps sess_ok (handleSession S sha J unrep (ssh_server cfg m) out enc pace sourceName data readErr options reqs)"
proof (induction reqs arbitrary: options)
  case (Cons req reqs)
  show ?case
    by (cases req) (auto simp: exec_request_def shell_request_def runCommand_def intro!: frame_rules Cons split: prod.splits)
qed (auto intro: frame_rules)

lemma keeps_start: "keeps cat_ok (serve_start D cfg)" "keeps cat_ok (scheduler_tick D encode E cfg t)"
proof -
  have before: "keeps cat_ok (time_before d)" for d unfolding time_before_def by (intro frame_rules)
  have settings: "keeps cat_ok (settings_New unrep b ov)" for unrep b ov
    unfolding settings_New_def load_def Let_def by (intro frame_rules)
  have "keeps cat_ok (startup_reconcile cfg)" "keeps cat_ok (startup_cleanup (dp_Store D) cfg)"
    unfolding startup_reconcile_def startup_cleanup_def by (intro frame_rules before)+
  then show "keeps cat_ok (serve_start D cfg)" unfolding serve_start_def by (intro frame_rules settings)
  show "keeps cat_ok (scheduler_tick D encode E cfg t)"
    by (cases t) (simp_all only: scheduler_tick.simps upload_reconciliation_tick_def catalog_backup_tick_def worker_tick_def
        validation_tick_def ignore_def, (intro frame_rules before)+)
qed

lemma system_step_ok:
  assumes "system_step D encode E cfg s s'" and "cat_ok (sys_world s)"
  shows "cat_ok (sys_world s')"
  using assms
proof (cases rule: system_step.cases)
  case (request r a v)
  then show ?thesis using frameD [OF keeps_serve request(3)] assms(2) by simp
next
  case (job js j ks u v)
  then show ?thesis using frameD [OF keeps_in_service [OF job_keeps(2)] job(4)] assms(2) by simp
next
  case (session m out enc pace sourceName data readErr reqs u t)
  then show ?thesis using frameD [OF keeps_handleSession session(4)] assms(2) by (simp add: open_channel_def session_end_def)
next
  case (scheduled t u v)
  then show ?thesis using frameD [OF keeps_in_service [OF keeps_start(2)] scheduled(4)] assms(2) by simp
next
  case (start m w key)
  then show ?thesis using frameD [OF keeps_start(1) start(2)] assms(2) by (simp add: new_service_def)
next
  case (failed_start e w key)
  then show ?thesis using frameD [OF keeps_start(1) failed_start(2)] assms(2) by (simp add: new_service_def)
next
  case stop
  then show ?thesis using assms(2) by (simp add: new_service_def)
qed

section \<open>The settings manager\<close>

text \<open>A running service has its manager, so that a session always finds its limits.\<close>

definition managed :: "'s service \<Rightarrow> bool" where
  "managed s \<longleftrightarrow> sv_manager s \<noteq> None"

lemma managed_on_web [frame_rules]: "keeps managed (on_web m)"
  by (simp add: frame_def on_web_def managed_def split: prod.splits)

lemma managed_in_service [frame_rules]: "keeps managed (in_service m)"
  unfolding in_service_def by (intro frame_rules)

lemma managed_kinds [frame_rules]:
  "keeps managed (plain f m)" "keeps managed (with_cookie n)" "keeps managed (with_job g k)"
proof -
  have push: "keeps managed (State (\<lambda>s. (a, s\<lparr>sv_jobs := F s\<rparr>)))" for a :: answer and F by (simp add: frame_def managed_def)
  show "keeps managed (plain f m)" unfolding plain_def by (intro frame_rules)
  show "keeps managed (with_job g k)" unfolding with_job_def by (intro frame_rules push)
  show "keeps managed (with_cookie n)" unfolding with_cookie_def by (intro frame_rules)
qed

lemma managed_with_manager:
  assumes "\<And>m w a m' w'. run_state (f (Some m)) w = ((a, m'), w') \<Longrightarrow> m' \<noteq> None"
  shows "keeps managed (with_manager f)"
proof (rule frameI)
  fix s a s'
  assume run: "run_state (with_manager f) s = (a, s')"
  show "managed s \<longrightarrow> managed s'"
  proof
    assume "managed s"
    then obtain m where m: "sv_manager s = Some m" by (auto simp: managed_def)
    obtain b m' w' where f: "run_state (f (Some m)) (svc_world s) = ((b, m'), w')" by (metis prod.exhaust)
    show "managed s'"
      using run m f assms [OF f] by (auto simp: managed_def with_manager_def in_service_def on_web_def in_world_def)
  qed
qed

lemma managed_handle: "keeps managed (handle D sv e r)"
proof (cases e)
  case Esettings
  show ?thesis unfolding Esettings handle.simps
    by (rule managed_with_manager) (auto simp: split: prod.splits)
next
  case EupdateRuntimeSetting
  show ?thesis unfolding EupdateRuntimeSetting handle.simps
    by (rule managed_with_manager) (auto simp: updateRuntimeSetting_def run_check split: option.splits sum.splits prod.splits)
next
  case EresetRuntimeSetting
  show ?thesis unfolding EresetRuntimeSetting handle.simps
    by (rule managed_with_manager) (auto simp: resetRuntimeSetting_def run_check split: option.splits sum.splits prod.splits)
qed (simp_all only: handle.simps, (intro frame_rules)+)

lemma managed_serve: "keeps managed (serveHTTP D sv r)"
proof -
  have "keeps managed (mux_serve D sv r)"
    unfolding mux_serve_def by (cases "mux (hr_Method r) (hr_Path r)") (auto intro!: frame_rules managed_handle)
  then show ?thesis unfolding serveHTTP_def by (intro frame_rules)
qed

definition system_ok :: "'s system \<Rightarrow> bool" where
  "system_ok s \<longleftrightarrow> cat_ok (sys_world s) \<and> (sy_up s \<longrightarrow> managed (sy_service s))"

lemma system_step_managed:
  assumes "system_step D encode E cfg s s'" and "sy_up s \<longrightarrow> managed (sy_service s)"
  shows "sy_up s' \<longrightarrow> managed (sy_service s')"
  using assms
proof (cases rule: system_step.cases)
  case (request r a v)
  then show ?thesis using frameD [OF managed_serve request(3)] assms(2) by simp
next
  case (job js j ks u v)
  then show ?thesis using frameD [OF managed_in_service job(4)] assms(2) by (simp add: managed_def)
next
  case (scheduled t u v)
  then show ?thesis using frameD [OF managed_in_service scheduled(4)] assms(2) by simp
qed (simp_all add: managed_def session_end_def new_service_def)

lemma reachable_ok: "reachable D encode E cfg s \<Longrightarrow> system_ok s"
proof (induction rule: reachable.induct)
  case (fresh w)
  then show ?case by (simp add: system_ok_def new_service_def catalog_ok_empty)
next
  case (after s s')
  then show ?case
    using system_step_ok [OF after.hyps(2)] system_step_managed [OF after.hyps(2)] by (simp add: system_ok_def)
qed


section \<open>Shutdown leaves no upload behind\<close>

lemma shutdown_polls_idle:
  "run_state (shutdown_polls during n) w = (Inr (), w') \<Longrightarrow> q_ListActiveUploads now (wCat w') = Inr []"
proof (induction n arbitrary: w)
  case 0
  then show ?case
    by (auto simp: shutdown_polls.simps [of during 0] run_check db_query_def q_ListActiveUploads_def split: if_splits)
next
  case (Suc n)
  from Suc.prems consider "q_ListActiveUploads (db_now w) (wCat w) = Inr []" "w' = tick w"
    | "\<exists>w1. run_state (shutdown_polls during n) w1 = (Inr (), w')"
    by (auto simp: shutdown_polls.simps [of during "Suc n"] run_check db_query_def split: if_splits sum.splits prod.splits)
  then show ?case
  proof cases
    case 1
    then show ?thesis by (simp add: q_ListActiveUploads_def)
  qed (use Suc.IH in blast)
qed

text \<open>A shutdown that succeeds has waited for the uploads.\<close>

lemma serve_stop_idle:
  assumes "run_state (serve_stop isClosed closeErr during n) w = (Inr (), w')"
  shows "q_ListActiveUploads now (wCat w') = Inr []"
proof -
  have "run_state (shutdown_polls during n) w = (Inr (), w')"
    using assms by (auto simp: serve_stop_def ssh_Shutdown_def run_check split: option.splits if_splits sum.splits prod.splits)
  then show ?thesis by (rule shutdown_polls_idle)
qed

text \<open>A session that starts while the server drains changes nothing.\<close>

lemma draining_sessions_refused:
  assumes "sv_draining sv"
  shows "frame (\<lambda>s t. ss_world t = ss_world s)
    (handleSession S sha J unrep sv out enc pace sourceName data readErr options reqs)"
proof (induction reqs arbitrary: options)
  case (Cons req reqs)
  have [simp]: "frame (\<lambda>s t. ss_world t = ss_world s) (Reply b)" "frame (\<lambda>s t. ss_world t = ss_world s) (refuse x)"
      "frame (\<lambda>s t. ss_world t = ss_world s) (refuse_error e)" for b x e
    by (simp_all add: frame_def Reply_def refuse_def refuse_error_def stderr_Write_def sendExitStatus_def)
  show ?case
    using assms by (cases req) (auto simp: exec_request_def shell_request_def intro!: frame_rules Cons split: prod.splits option.splits)
qed (auto intro: frame_rules)

section \<open>Witness\<close>

definition sample_config :: Config where
  "sample_config =
     \<lparr>HTTPPort = ''3000'', SSHPort = ''2222'', SSHHostKeyPath = ''k'', WebAdminPassword = ''secret'', cf_RestoreSSHCommandPrefix = [],
      DatabasePath = ''c.db'', S3Endpoint = [], S3Region = ''us-east-1'', cf_S3Bucket = ''b'', S3AccessKeyID = [],
      S3SecretAccessKey = [], S3ForcePathStyle = False, StorageEncryptionPassphrase = ''p'', StorageRootPrefix = ''r'',
      cf_MaxIncrementalChainDepth = 30, MaxIncrementalChainDepthEnvOverride = [], cf_UploadThroughputLimitBytesPerSecond = 0,
      UploadThroughputLimitMbpsEnvOverride = [], CatalogBackupInterval = 0, CleanupWorkerInterval = 30000000000,
      ReconcileStaleAfter = 0, AbandonedUploadCleanupAfter = 0, ValidationInterval = 0, ValidationLimit = 25,
      ShutdownGracePeriod = 15000000000\<rparr>"

definition fresh_world :: "memory world" where
  "fresh_world = sample_world\<lparr>wCat := empty_catalog\<rparr>"

lemma sample_serve_start: "case fst (run_state (serve_start sample_deps sample_config) fresh_world) of Inl e \<Rightarrow> False | Inr m \<Rightarrow> True"
proof -
  have "TrimSpace ''45'' = ''45''" "TrimSpace ''30'' = ''30''" "TrimSpace [] = []" by code_simp+
  moreover have "app_settings empty_catalog = []" by (simp add: empty_catalog_def)
  moreover have "dp_unrep sample_deps = (\<lambda>_. 0)" by (simp add: sample_deps_def)
  ultimately show ?thesis
    by (simp add: serve_start_def startup_reconcile_def startup_cleanup_def config_overrides_def sample_config_def fresh_world_def
        settings_New_def load_def run_check db_query_def sample_world_def q_ListAppSettings_def stored_settings_def
        setting_source_def override_def resolveSetting_def defaultValue_def default_rate default_depth Let_def)
qed


end
